(* ===== verification/Prelude.thy ===== *)
theory Prelude
  imports Main "HOL-Library.Word" "HOL-Library.Monad_Syntax"
begin

text \<open>
  Shared vocabulary of the development: machine integers and byte slices as the Rust code uses
  them, big-endian conversions, writes into caller-supplied buffers, and the lemma collections
  the component theories extend.

  Conventions.  A \<open>&[u8]\<close> or \<open>Vec<u8>\<close> is a list of 8-bit words, a \<open>usize\<close> is a natural
  number, \<open>u16\<close> and \<open>u32\<close> values are words of that width.  \<open>Result<T, E>\<close> is the sum
  \<open>'e + 't\<close> with \<open>Inl\<close> for \<open>Err\<close>.  An \<open>assert!\<close> that can fail is a value of type
  \<open>option\<close> in which \<open>None\<close> stands for the panic.  \<open>debug_assert!\<close> is compiled out of
  release builds and is not part of the model; where one states a real obligation it appears
  as a hypothesis or a theorem instead.
\<close>

unbundle bit_operations_syntax

type_synonym u8 = "8 word"
type_synonym u16 = "16 word"
type_synonym u32 = "32 word"
type_synonym u64 = "64 word"
type_synonym bytes = "8 word list"

named_theorems wire_defs \<open>definitions of constants, headers and encoders, for evaluation\<close>
named_theorems wire_len \<open>lengths of encoded pieces\<close>

subsection \<open>Slices and buffers\<close>

text \<open>\<open>&xs[i..j]\<close>, on ranges the caller has checked.\<close>

definition slice :: "nat \<Rightarrow> nat \<Rightarrow> 'a list \<Rightarrow> 'a list" where
  "slice i j xs = take (j - i) (drop i xs)"

text \<open>\<open>out[off..off + bs.len()].copy_from_slice(&bs)\<close>, on a buffer that is long enough.\<close>

definition write_at :: "nat \<Rightarrow> 'a list \<Rightarrow> 'a list \<Rightarrow> 'a list" where
  "write_at off bs out = take off out @ bs @ drop (off + length bs) out"

lemma length_slice [simp]: "j \<le> length xs \<Longrightarrow> length (slice i j xs) = j - i"
  by (simp add: slice_def)

lemma slice_all [simp]: "slice 0 (length xs) xs = xs"
  by (simp add: slice_def)

lemma slice_append_left [simp]:
  "j \<le> length xs \<Longrightarrow> slice i j (xs @ ys) = slice i j xs"
  by (cases "i \<le> j") (simp_all add: slice_def)

lemma slice_append_right:
  "length xs \<le> i \<Longrightarrow> slice i j (xs @ ys) = slice (i - length xs) (j - length xs) ys"
  by (simp add: slice_def)

lemma slice_alt: "slice i j xs = drop i (take j xs)"
  by (simp add: slice_def drop_take)

lemma slice_eq_drop: "j = length xs \<Longrightarrow> slice i j xs = drop i xs"
  by (simp add: slice_def)

lemma length_write_at [simp]:
  "off + length bs \<le> length out \<Longrightarrow> length (write_at off bs out) = length out"
  by (simp add: write_at_def)

lemma take_write_at:
  "length bs \<le> length out \<Longrightarrow> n = length bs \<Longrightarrow> take n (write_at 0 bs out) = bs"
  by (simp add: write_at_def)

lemma list_of_length_1: "length xs = 1 \<longleftrightarrow> (\<exists>a. xs = [a])"
  by (auto simp: length_Suc_conv)

lemma list_of_length_2: "length xs = 2 \<longleftrightarrow> (\<exists>a b. xs = [a, b])"
  by (auto simp: length_Suc_conv numeral_2_eq_2)

lemma list_ge_4: "4 \<le> length xs \<Longrightarrow> \<exists>a b c d ys. xs = a # b # c # d # ys"
  by (cases xs; cases "tl xs"; cases "tl (tl xs)"; cases "tl (tl (tl xs))") auto

lemma list_ge_2: "2 \<le> length xs \<Longrightarrow> \<exists>a b ys. xs = a # b # ys"
  by (cases xs; cases "tl xs") auto

lemma drop_Cons4: "4 \<le> n \<Longrightarrow> drop n (a # b # c # d # xs) = drop (n - 4) xs"
  by (auto simp: drop_Cons' numeral_eq_Suc)

lemma drop_Cons2: "2 \<le> n \<Longrightarrow> drop n (a # b # xs) = drop (n - 2) xs"
  by (auto simp: drop_Cons' numeral_eq_Suc)

subsection \<open>Big-endian integers\<close>

definition from_be16 :: "u8 \<Rightarrow> u8 \<Rightarrow> u16" where
  "from_be16 a b = word_of_nat (256 * unat a + unat b)"

definition be16 :: "u16 \<Rightarrow> bytes" where
  "be16 w = [word_of_nat (unat w div 256), word_of_nat (unat w)]"

definition from_be32 :: "u8 \<Rightarrow> u8 \<Rightarrow> u8 \<Rightarrow> u8 \<Rightarrow> u32" where
  "from_be32 a b c d =
     word_of_nat (16777216 * unat a + 65536 * unat b + 256 * unat c + unat d)"

definition be32 :: "u32 \<Rightarrow> bytes" where
  "be32 w = [word_of_nat (unat w div 16777216), word_of_nat (unat w div 65536),
             word_of_nat (unat w div 256), word_of_nat (unat w)]"

lemma unat_u8_less [simp]: "unat (a :: u8) < 256"
  using unsigned_less [of a] by simp

lemma unat_u16_less [simp]: "unat (a :: u16) < 65536"
  using unsigned_less [of a] by simp

lemma unat_u32_less [simp]: "unat (a :: u32) < 4294967296"
  using unsigned_less [of a] by simp

lemma unat_of_nat_u8: "n < 256 \<Longrightarrow> unat (word_of_nat n :: u8) = n"
  by (simp add: unat_of_nat)

lemma unat_of_nat_u16: "n < 65536 \<Longrightarrow> unat (word_of_nat n :: u16) = n"
  by (simp add: unat_of_nat)

lemma unat_of_nat_u32: "n < 4294967296 \<Longrightarrow> unat (word_of_nat n :: u32) = n"
  by (simp add: unat_of_nat)

lemma unat_of_nat_u8_mod: "unat (word_of_nat n :: u8) = n mod 256"
  by (simp add: unat_of_nat)

lemma unat_of_nat_u16_mod: "unat (word_of_nat n :: u16) = n mod 65536"
  by (simp add: unat_of_nat)

lemma length_be16 [simp, wire_len]: "length (be16 w) = 2"
  by (simp add: be16_def)

lemma length_be32 [simp, wire_len]: "length (be32 w) = 4"
  by (simp add: be32_def)

lemma unat_from_be16: "unat (from_be16 a b) = 256 * unat a + unat b"
  unfolding from_be16_def
  by (rule unat_of_nat_u16) (use unat_u8_less [of a] unat_u8_less [of b] in linarith)

lemma unat_be16:
  "unat (be16 w ! 0) = unat w div 256" "unat (be16 w ! Suc 0) = unat w mod 256"
proof -
  have "unat w div 256 < 256" using unat_u16_less [of w] by linarith
  then show "unat (be16 w ! 0) = unat w div 256"
    unfolding be16_def nth_Cons_0 unat_of_nat_u8_mod by simp
qed (simp add: be16_def unat_of_nat_u8_mod del: of_nat_unat)

lemma from_be16_be16 [simp]: "from_be16 (be16 w ! 0) (be16 w ! Suc 0) = w"
  by (rule word_unat_eq_iff [THEN iffD2]) (simp only: unat_from_be16 unat_be16 mult_div_mod_eq)

lemma be16_split: "\<exists>a b. be16 w = [a, b] \<and> from_be16 a b = w"
  using from_be16_be16 [of w] by (simp add: be16_def)

lemma be16_from_be16 [simp]: "be16 (from_be16 a b) = [a, b]"
proof (rule nth_equalityI)
  fix i assume "i < length (be16 (from_be16 a b))"
  then have "i = 0 \<or> i = Suc 0" by (simp add: numeral_2_eq_2 less_Suc_eq)
  then show "be16 (from_be16 a b) ! i = [a, b] ! i"
    by (elim disjE; simp add: word_unat_eq_iff unat_be16 unat_from_be16)
qed simp

lemma unat_be32:
  "unat (be32 w ! 0) = unat w div 16777216" "unat (be32 w ! 1) = unat w div 65536 mod 256"
  "unat (be32 w ! 2) = unat w div 256 mod 256" "unat (be32 w ! 3) = unat w mod 256"
proof -
  have "unat w div 16777216 < 256" using unat_u32_less [of w] by linarith
  then show "unat (be32 w ! 0) = unat w div 16777216"
    unfolding be32_def nth_Cons_0 unat_of_nat_u8_mod by simp
qed (simp_all add: be32_def unat_of_nat_u8_mod numeral_3_eq_3 del: of_nat_unat word_of_nat_eq_0_iff)

lemma from_be32_be32:
  assumes "be32 w = [a, b, c, d]"
  shows "from_be32 a b c d = w"
proof (rule word_unat_eq_iff [THEN iffD2])
  have u: "unat a = unat w div 16777216" "unat b = unat w div 65536 mod 256"
    "unat c = unat w div 256 mod 256" "unat d = unat w mod 256"
    using unat_be32 [of w] by (simp_all add: assms)
  have "unat w div 65536 = 256 * (unat w div 16777216) + unat w div 65536 mod 256"
    "unat w div 256 = 256 * (unat w div 65536) + unat w div 256 mod 256"
    "unat w = 256 * (unat w div 256) + unat w mod 256"
    using mult_div_mod_eq [of 256 "unat w div 65536"] mult_div_mod_eq [of 256 "unat w div 256"]
    by (simp_all flip: div_mult2_eq)
  then have "16777216 * unat a + 65536 * unat b + 256 * unat c + unat d = unat w"
    unfolding u by linarith
  then show "unat (from_be32 a b c d) = unat w"
    by (simp only: from_be32_def unat_of_nat_u32 [OF unat_u32_less])
qed

subsection \<open>Result values\<close>

abbreviation is_ok :: "'e + 'a \<Rightarrow> bool" where
  "is_ok r \<equiv> (case r of Inl _ \<Rightarrow> False | Inr _ \<Rightarrow> True)"

text \<open>The \<open>?\<close> operator on \<open>Result\<close>.\<close>

definition try_bind :: "'e + 'a \<Rightarrow> ('a \<Rightarrow> 'e + 'b) \<Rightarrow> 'e + 'b" where
  "try_bind r f = (case r of Inl e \<Rightarrow> Inl e | Inr x \<Rightarrow> f x)"

lemma try_bind_simps [simp]:
  "try_bind (Inl e) f = Inl e" "try_bind (Inr x) f = f x"
  by (simp_all add: try_bind_def)

lemma try_bind_Inr_iff:
  "try_bind r f = Inr y \<longleftrightarrow> (\<exists>x. r = Inr x \<and> f x = Inr y)"
  by (cases r) auto

end
