(* ===== verification/Interfaces.thy ===== *)
theory Interfaces
  imports Prelude
begin

text \<open>
  The interfaces the components share, as locales: iteration over type-length-value lists
  (implemented by the SSTP attribute iterator and by the PPP option iterator) and
  deterministic event-driven machines with an invariant (implemented by the SSTP session
  driver, the option-negotiation automaton and the PPP driver).
\<close>

subsection \<open>Type-length-value iteration\<close>

text \<open>
  \<open>nxt\<close> is the iterator's \<open>next\<close>: \<open>None\<close> at the end, otherwise an item or an error and the
  rest of the buffer.  \<open>collect\<close> is what a loop over the iterator sees.
\<close>

locale tlv_iter =
  fixes nxt :: "bytes \<Rightarrow> (('e + 'a) \<times> bytes) option"
    and enc :: "'a \<Rightarrow> bytes"
    and wf :: "'a \<Rightarrow> bool"
    and collect :: "bytes \<Rightarrow> ('e + 'a) list"
  assumes nxt_none: "nxt buf = None \<longleftrightarrow> buf = []"
    and nxt_enc: "wf x \<Longrightarrow> nxt (enc x @ rest) = Some (Inr x, rest)"
    and nxt_progress: "nxt buf = Some (r, rest) \<Longrightarrow> length rest < length buf"
    and collect_unfold:
      "collect buf = (case nxt buf of None \<Rightarrow> [] | Some (r, rest) \<Rightarrow> r # collect rest)"
begin

lemma collect_Nil: "collect [] = []"
  by (subst collect_unfold) (simp add: nxt_none [THEN iffD2])

lemma collect_enc_append: "wf x \<Longrightarrow> collect (enc x @ rest) = Inr x # collect rest"
  by (subst collect_unfold) (simp add: nxt_enc)

lemma collect_encs_append:
  "list_all wf xs \<Longrightarrow> collect (concat (map enc xs) @ rest) = map Inr xs @ collect rest"
  by (induction xs) (simp_all add: collect_enc_append)

lemma collect_encs: "list_all wf xs \<Longrightarrow> collect (concat (map enc xs)) = map Inr xs"
  using collect_encs_append [of xs "[]"] by (simp add: collect_Nil)

lemma length_collect: "length (collect buf) \<le> length buf"
proof (induction buf rule: length_induct)
  case (1 buf)
  show ?case
  proof (cases "nxt buf")
    case None
    then show ?thesis by (subst collect_unfold) simp
  next
    case (Some p)
    obtain r rest where p: "p = (r, rest)" by (cases p)
    with Some have "length rest < length buf" by (simp add: nxt_progress)
    with "1.IH" have "length (collect rest) \<le> length rest" by blast
    with Some p \<open>length rest < length buf\<close> show ?thesis by (subst collect_unfold) simp
  qed
qed

end

text \<open>An iterator that also pins the encoding down: an item is yielded only for its own bytes.\<close>

locale tlv_exact = tlv_iter +
  assumes nxt_exact: "nxt buf = Some (Inr x, rest) \<Longrightarrow> wf x \<and> buf = enc x @ rest"
begin

lemma collect_exact:
  "collect buf = map Inr xs \<Longrightarrow> list_all wf xs \<and> buf = concat (map enc xs)"
proof (induction xs arbitrary: buf)
  case Nil
  then show ?case
    by (subst (asm) collect_unfold) (auto simp: nxt_none split: option.splits)
next
  case (Cons x xs)
  from Cons.prems obtain rest where r: "nxt buf = Some (Inr x, rest)"
    and c: "collect rest = map Inr xs"
    by (subst (asm) collect_unfold) (auto split: option.splits)
  from nxt_exact [OF r] Cons.IH [OF c] show ?case by simp
qed

lemma collect_eq_iff:
  "collect buf = map Inr xs \<longleftrightarrow> list_all wf xs \<and> buf = concat (map enc xs)"
  using collect_exact collect_encs by blast

end

subsection \<open>Event-driven machines\<close>

text \<open>Feeding a list of events to a step function, collecting the outputs.\<close>

fun run_machine :: "('s \<Rightarrow> 'e \<Rightarrow> 's \<times> 'o) \<Rightarrow> 's \<Rightarrow> 'e list \<Rightarrow> 's \<times> 'o list" where
  "run_machine f s [] = (s, [])"
| "run_machine f s (e # es) =
     (let (s', ot) = f s e; (s'', ots) = run_machine f s' es in (s'', ot # ots))"

lemma run_machine_append:
  "run_machine f s (es @ es') =
     (let (s', os) = run_machine f s es; (s'', os') = run_machine f s' es' in (s'', os @ os'))"
  by (induction es arbitrary: s) (simp_all add: Let_def split: prod.splits)

locale machine =
  fixes step :: "'s \<Rightarrow> 'e \<Rightarrow> 's \<times> 'o"
    and start :: "'s \<Rightarrow> bool"
    and ok :: "'e \<Rightarrow> bool"
    and inv :: "'s \<Rightarrow> bool"
  assumes start_inv: "start s \<Longrightarrow> inv s"
    and step_inv: "inv s \<Longrightarrow> ok e \<Longrightarrow> inv (fst (step s e))"
begin

lemma run_inv: "inv s \<Longrightarrow> list_all ok es \<Longrightarrow> inv (fst (run_machine step s es))"
proof (induction es arbitrary: s)
  case Nil
  then show ?case by simp
next
  case (Cons e es)
  then have "inv (fst (step s e))" by (simp add: step_inv)
  with Cons show ?case by (simp add: Let_def split: prod.splits) (metis fst_conv)
qed

lemma run_from_start:
  "start s \<Longrightarrow> list_all ok es \<Longrightarrow> inv (fst (run_machine step s es))"
  by (rule run_inv) (rule start_inv)

lemma run_outputs:
  assumes "\<And>s e. inv s \<Longrightarrow> ok e \<Longrightarrow> P (snd (step s e))"
  shows "inv s \<Longrightarrow> list_all ok es \<Longrightarrow> list_all P (snd (run_machine step s es))"
proof (induction es arbitrary: s)
  case Nil
  then show ?case by simp
next
  case (Cons e es)
  have P: "P (snd (step s e))" using Cons.prems assms by simp
  have "inv (fst (step s e))" using Cons.prems by (simp add: step_inv)
  with Cons have "list_all P (snd (run_machine step (fst (step s e)) es))" by simp
  with P show ?case by (simp add: Let_def split: prod.splits) (metis fst_conv snd_conv)
qed

end

subsection \<open>Layers that come up and go down\<close>

text \<open>
  The contract of a negotiated layer towards the layer above it: \<open>up\<close> is signalled exactly
  when the layer becomes open and \<open>down\<close> exactly when it stops being open.
\<close>

locale layer =
  fixes step :: "'s \<Rightarrow> 'e \<Rightarrow> 's \<times> 'o"
    and is_open :: "'s \<Rightarrow> bool"
    and up :: "'o \<Rightarrow> bool"
    and down :: "'o \<Rightarrow> bool"
  assumes up_iff: "up (snd (step s e)) \<longleftrightarrow> \<not> is_open s \<and> is_open (fst (step s e))"
    and down_iff: "down (snd (step s e)) \<longleftrightarrow> is_open s \<and> \<not> is_open (fst (step s e))"
begin

text \<open>Ups and downs are balanced: they differ by one exactly when the ends of a run differ.\<close>

lemma balance:
  "length (filter up (snd (run_machine step s es))) + (if is_open s then 1 else 0) =
   length (filter down (snd (run_machine step s es)))
     + (if is_open (fst (run_machine step s es)) then 1 else 0)"
proof (induction es arbitrary: s)
  case Nil
  then show ?case by simp
next
  case (Cons e es)
  obtain s' ot where st: "step s e = (s', ot)" by (cases "step s e")
  from Cons.IH [of s'] up_iff [of s e] down_iff [of s e] show ?case
    by (auto simp: st Let_def split: prod.splits)
qed

lemma not_both: "\<not> (up (snd (step s e)) \<and> down (snd (step s e)))"
  using up_iff [of s e] down_iff [of s e] by blast

text \<open>From a layer that is not open, every prefix has at least as many ups as downs.\<close>

lemma never_more_downs:
  "\<not> is_open s \<Longrightarrow>
   length (filter down (snd (run_machine step s es))) \<le> length (filter up (snd (run_machine step s es)))
   \<and> length (filter up (snd (run_machine step s es)))
       \<le> Suc (length (filter down (snd (run_machine step s es))))"
  using balance [of s es] by (auto split: if_splits)

end

end
