(* ===== verification/Ppp_Frame.thy ===== *)
theory Ppp_Frame
  imports Interfaces
begin

text \<open>
  PPP framing inside SSTP data packets, \<open>src/src/ppp/frame.rs\<close>: protocol numbers, the decoder
  that accepts compressed and uncompressed headers, and the two encoders (\<open>None\<close> is the panic
  of their \<open>assert!\<close>).
\<close>

subsection \<open>Protocol numbers\<close>

definition ADDRESS_ALL_STATIONS :: u8 where
  [wire_defs]: "ADDRESS_ALL_STATIONS = 0xFF"

definition CONTROL_UI :: u8 where
  [wire_defs]: "CONTROL_UI = 0x03"

datatype protocol_id = PidIp | PidIpv6 | PidIpcp | PidIpv6cp | PidLcp | PidPap | PidChap | PidEap

definition protocol_from_u16 :: "u16 \<Rightarrow> protocol_id option" where
  "protocol_from_u16 v =
     (if v = 0x0021 then Some PidIp
      else if v = 0x0057 then Some PidIpv6
      else if v = 0x8021 then Some PidIpcp
      else if v = 0x8057 then Some PidIpv6cp
      else if v = 0xC021 then Some PidLcp
      else if v = 0xC023 then Some PidPap
      else if v = 0xC223 then Some PidChap
      else if v = 0xC227 then Some PidEap
      else None)"

fun protocol_as_u16 :: "protocol_id \<Rightarrow> u16" where
  "protocol_as_u16 PidIp = 0x0021"
| "protocol_as_u16 PidIpv6 = 0x0057"
| "protocol_as_u16 PidIpcp = 0x8021"
| "protocol_as_u16 PidIpv6cp = 0x8057"
| "protocol_as_u16 PidLcp = 0xC021"
| "protocol_as_u16 PidPap = 0xC023"
| "protocol_as_u16 PidChap = 0xC223"
| "protocol_as_u16 PidEap = 0xC227"

fun is_network_layer :: "protocol_id \<Rightarrow> bool" where
  "is_network_layer PidIp = True"
| "is_network_layer PidIpv6 = True"
| "is_network_layer _ = False"

lemma protocol_roundtrip [simp]: "protocol_from_u16 (protocol_as_u16 p) = Some p"
  by (cases p) (simp_all add: protocol_from_u16_def)

subsection \<open>Frames\<close>

datatype frame_error = FrameTruncated nat nat | BadProtocolParity u16

record ppp_frame =
  pf_protocol :: u16
  pf_info :: bytes

definition strip_address_control :: "bytes \<Rightarrow> bytes" where
  "strip_address_control buf =
     (if length buf \<ge> 2 \<and> buf ! 0 = ADDRESS_ALL_STATIONS \<and> buf ! 1 = CONTROL_UI
      then drop 2 buf else buf)"

definition decode_frame :: "bytes \<Rightarrow> frame_error + ppp_frame" where
  "decode_frame buf =
     (let p = strip_address_control buf in
      if p = [] then Inl (FrameTruncated 1 (length buf))
      else if p ! 0 AND 0x01 = 0x01
      then Inr \<lparr>pf_protocol = ucast (p ! 0), pf_info = drop 1 p\<rparr>
      else if length p < 2 then Inl (FrameTruncated 2 (length p))
      else
        let v = from_be16 (p ! 0) (p ! 1) in
        if v AND 0x0101 \<noteq> 0x0001 then Inl (BadProtocolParity v)
        else Inr \<lparr>pf_protocol = v, pf_info = drop 2 p\<rparr>)"

definition encode_frame :: "bytes \<Rightarrow> u16 \<Rightarrow> bytes \<Rightarrow> (bytes \<times> nat) option" where
  "encode_frame out protocol info =
     (let need = 4 + length info in
      if length out < need then None
      else Some (write_at 0 ([ADDRESS_ALL_STATIONS, CONTROL_UI] @ be16 protocol @ info) out, need))"

definition encode_frame_compressed :: "bytes \<Rightarrow> u16 \<Rightarrow> bytes \<Rightarrow> (bytes \<times> nat) option" where
  "encode_frame_compressed out protocol info =
     (if protocol \<le> 0xFF then
        let need = 1 + length info in
        if length out < need then None
        else Some (write_at 0 (ucast protocol # info) out, need)
      else
        let need = 2 + length info in
        if length out < need then None
        else Some (write_at 0 (be16 protocol @ info) out, need))"

subsection \<open>Parity of the protocol field\<close>

definition good_parity :: "u16 \<Rightarrow> bool" where
  "good_parity v \<longleftrightarrow> v AND 0x0101 = 0x0001"

lemma odd_unat_iff: "odd (unat (a :: 'a::len word)) \<longleftrightarrow> bit a 0"
proof -
  have "bit (unat a) 0 \<longleftrightarrow> bit a 0" by (simp only: bit_unsigned_iff) simp
  then show ?thesis by (simp only: bit_0)
qed

lemma bit_257: "bit (257 :: u16) n \<longleftrightarrow> n = 0 \<or> n = 8"
proof -
  have "(257 :: u16) = set_bit 8 (set_bit 0 0)" by code_simp
  moreover have "bit (set_bit 8 (set_bit 0 (0 :: u16))) n \<longleftrightarrow> n = 0 \<or> n = 8"
    by (simp only: bit_set_bit_iff bit_0_eq bot_apply possible_bit_def) auto
  ultimately show ?thesis by (simp only:)
qed

lemma good_parity_bits: "good_parity v \<longleftrightarrow> bit v 0 \<and> \<not> bit v 8"
proof -
  have "good_parity v \<longleftrightarrow> (\<forall>n. bit v n \<and> (n = 0 \<or> n = 8) \<longleftrightarrow> n = 0)" (is "_ = ?R")
  proof
    assume "good_parity v"
    then have "bit (v AND 257) n \<longleftrightarrow> bit (1 :: u16) n" for n by (simp only: good_parity_def)
    then show ?R by (simp only: bit_and_iff bit_257 bit_1_iff) auto
  next
    assume r: ?R
    show "good_parity v" unfolding good_parity_def
      by (rule bit_eqI) (use r in \<open>simp only: bit_and_iff bit_257 bit_1_iff\<close>)
  qed
  moreover have "?R \<longleftrightarrow> bit v 0 \<and> \<not> bit v 8" by (metis zero_neq_numeral)
  ultimately show ?thesis by blast
qed

lemma good_parity_from_be16: "good_parity (from_be16 a b) \<longleftrightarrow> even (unat a) \<and> odd (unat b)"
proof -
  have "bit (from_be16 a b) 0 \<longleftrightarrow> odd (unat b)"
    using odd_unat_iff [of "from_be16 a b"] by (simp add: unat_from_be16)
  moreover have "bit (from_be16 a b) 8 \<longleftrightarrow> odd (unat a)"
  proof -
    have "bit (from_be16 a b) 8 \<longleftrightarrow> bit (unat (from_be16 a b)) 8"
      by (simp add: bit_unsigned_iff)
    also have "\<dots> \<longleftrightarrow> odd ((256 * unat a + unat b) div 256)"
      by (simp add: bit_iff_odd unat_from_be16)
    also have "(256 * unat a + unat b) div 256 = unat a" by simp
    finally show ?thesis .
  qed
  ultimately show ?thesis by (auto simp: good_parity_bits)
qed

lemma low_bit_u8: "(a :: u8) AND 1 = 1 \<longleftrightarrow> odd (unat a)"
  unfolding odd_unat_iff by (simp only: and_one_eq odd_iff_mod_2_eq_one [symmetric] bit_0)

lemma decode_frame_wide:
  assumes "good_parity (from_be16 a b)"
  shows "decode_frame (a # b # info) = Inr \<lparr>pf_protocol = from_be16 a b, pf_info = info\<rparr>"
    and "decode_frame (0xFF # 0x03 # a # b # info) = Inr \<lparr>pf_protocol = from_be16 a b, pf_info = info\<rparr>"
proof -
  from assms have a: "even (unat a)" by (simp add: good_parity_from_be16)
  then have "a \<noteq> 0xFF" by auto
  with a assms show "decode_frame (a # b # info) = Inr \<lparr>pf_protocol = from_be16 a b, pf_info = info\<rparr>"
    by (simp add: decode_frame_def strip_address_control_def wire_defs low_bit_u8 good_parity_def)
  from a assms show
    "decode_frame (0xFF # 0x03 # a # b # info) = Inr \<lparr>pf_protocol = from_be16 a b, pf_info = info\<rparr>"
    by (simp add: decode_frame_def strip_address_control_def wire_defs low_bit_u8 good_parity_def)
qed

lemma decode_frame_narrow:
  assumes "odd (unat c)" and "c \<noteq> 0xFF"
  shows "decode_frame (c # info) = Inr \<lparr>pf_protocol = ucast c, pf_info = info\<rparr>"
  using assms
  by (simp add: decode_frame_def strip_address_control_def wire_defs low_bit_u8)

lemma unat_ucast_wide: "unat (ucast (c :: u8) :: u16) = unat c"
proof -
  have "unat c < 2 ^ 16" by (rule order.strict_trans [OF unat_u8_less]) simp
  then show ?thesis by (simp add: unsigned_ucast_eq take_bit_nat_eq_self)
qed

lemma ucast_eq_from_be16: "(ucast (c :: u8) :: u16) = from_be16 0 c"
  by (rule word_unat_eq_iff [THEN iffD2]) (simp only: unat_ucast_wide unat_from_be16, simp)

lemma good_parity_ucast: "good_parity (ucast (c :: u8)) \<longleftrightarrow> odd (unat c)"
  by (simp add: ucast_eq_from_be16 good_parity_from_be16)

subsection \<open>Properties\<close>

lemma narrow_protocol:
  assumes "p \<le> (0xFF :: u16)"
  shows "ucast (ucast p :: u8) = p"
proof (rule word_unat_eq_iff [THEN iffD2])
  have "unat p < 256" using assms by (simp add: word_le_nat_alt)
  then show "unat (ucast (ucast p :: u8) :: u16) = unat p"
    by (simp only: unat_ucast_wide unsigned_ucast_eq) (simp add: take_bit_nat_eq_self unsigned_take_bit_eq)
qed

text \<open>
  A frame written by either encoder with a legal protocol number decodes to
  the same protocol and information field, from a buffer that keeps its size; the compressed
  form excludes the unassigned protocol \<open>0x00FF\<close>, whose one-byte form can be taken for an
  address field.
\<close>

theorem ppp_frame_roundtrip:
  assumes "good_parity p" and "4 + length info \<le> length out"
  shows "(\<exists>out'. encode_frame out p info = Some (out', 4 + length info) \<and> length out' = length out
      \<and> decode_frame (take (4 + length info) out') = Inr \<lparr>pf_protocol = p, pf_info = info\<rparr>)
    \<and> (p = 0xFF \<or> (\<exists>out' n. encode_frame_compressed out p info = Some (out', n)
      \<and> length out' = length out \<and> n \<le> 2 + length info
      \<and> decode_frame (take n out') = Inr \<lparr>pf_protocol = p, pf_info = info\<rparr>))"
proof
  obtain a b where ab: "be16 p = [a, b]" "from_be16 a b = p" using be16_split by blast
  let ?full = "[0xFF, 0x03] @ be16 p @ info"
  have d: "decode_frame ?full = Inr \<lparr>pf_protocol = p, pf_info = info\<rparr>"
    using decode_frame_wide(2) [of a b info] assms(1) by (simp add: ab)
  have "take (4 + length info) (write_at 0 ?full out) = ?full"
    using assms(2) by (intro take_write_at) simp_all
  moreover have "encode_frame out p info = Some (write_at 0 ?full out, 4 + length info)"
    using assms(2) by (simp add: encode_frame_def wire_defs Let_def)
  moreover have "length (write_at 0 ?full out) = length out" using assms(2) by simp
  ultimately show "\<exists>out'. encode_frame out p info = Some (out', 4 + length info)
      \<and> length out' = length out
      \<and> decode_frame (take (4 + length info) out') = Inr \<lparr>pf_protocol = p, pf_info = info\<rparr>"
    using d by metis
  define comp where "comp = (if p \<le> 0xFF then ucast p # info else be16 p @ info)"
  have len: "length comp \<le> 2 + length info" by (simp add: comp_def)
  have e: "encode_frame_compressed out p info = Some (write_at 0 comp out, length comp)"
    using assms(2) by (simp add: encode_frame_compressed_def comp_def)
  have t: "take (length comp) (write_at 0 comp out) = comp" "length (write_at 0 comp out) = length out"
    using assms(2) len by (simp_all add: take_write_at)
  have "p = 0xFF \<or> decode_frame comp = Inr \<lparr>pf_protocol = p, pf_info = info\<rparr>"
  proof (cases "p \<le> 0xFF")
    case True
    note n = narrow_protocol [OF True]
    have o: "odd (unat (ucast p :: u8))" using assms(1) good_parity_ucast [of "ucast p"] unfolding n by blast
    have "p = 0xFF" if c: "(ucast p :: u8) = 0xFF"
    proof -
      have "p = ucast (0xFF :: u8)" using n unfolding c by (rule sym)
      then show ?thesis by simp
    qed
    with decode_frame_narrow [OF o, of info] True n show ?thesis unfolding comp_def by auto
  next
    case False
    then show ?thesis using decode_frame_wide(1) [of a b info] assms(1) by (simp add: ab comp_def)
  qed
  with e t len show "p = 0xFF \<or> (\<exists>out' n. encode_frame_compressed out p info = Some (out', n)
      \<and> length out' = length out \<and> n \<le> 2 + length info
      \<and> decode_frame (take n out') = Inr \<lparr>pf_protocol = p, pf_info = info\<rparr>)"
    by metis
qed

lemma strip_address_control_split:
  "\<exists>ac. buf = ac @ strip_address_control buf \<and> ac \<in> {[], [0xFF, 0x03]}"
proof (cases "length buf \<ge> 2 \<and> buf ! 0 = 0xFF \<and> buf ! 1 = 0x03")
  case True
  then obtain a b r where "buf = a # b # r" using list_ge_2 by blast
  with True show ?thesis
    by (intro exI [of _ "[0xFF, 0x03]"]) (simp add: strip_address_control_def wire_defs)
next
  case False
  then have "strip_address_control buf = buf"
    unfolding strip_address_control_def wire_defs by (rule if_not_P)
  then show ?thesis by simp
qed

text \<open>
  The decoder accepts nothing but PPP headers: an accepted frame is the
  information field behind one of the four forms of the header (with or without
  address/control, one- or two-byte protocol), and its protocol number has legal parity.
\<close>

theorem decode_frame_sound:
  assumes "decode_frame buf = Inr f"
  shows "good_parity (pf_protocol f) \<and>
    (\<exists>h ac. buf = ac @ h @ pf_info f \<and> ac \<in> {[], [0xFF, 0x03]}
       \<and> (h = be16 (pf_protocol f) \<or> (\<exists>c. h = [c] \<and> pf_protocol f = ucast c)))"
proof -
  obtain ac where ac: "buf = ac @ strip_address_control buf" "ac \<in> {[], [0xFF, 0x03]}"
    using strip_address_control_split by blast
  from assms have "strip_address_control buf \<noteq> []" unfolding decode_frame_def by force
  then obtain c r where cr: "strip_address_control buf = c # r" by (meson list.exhaust)
  note d = assms [unfolded decode_frame_def Let_def cr, simplified low_bit_u8]
  show ?thesis
  proof (cases "odd (unat c)")
    case True
    with d have "f = \<lparr>pf_protocol = ucast c, pf_info = r\<rparr>" by (simp add: low_bit_u8)
    with ac cr True show ?thesis
      by (intro conjI exI [of _ "[c]"] exI [of _ ac]) (simp_all add: good_parity_ucast)
  next
    case False
    with d obtain b r' where r: "r = b # r'" by (cases r) (simp_all add: low_bit_u8)
    with d False have "f = \<lparr>pf_protocol = from_be16 c b, pf_info = r'\<rparr> \<and> good_parity (from_be16 c b)"
      by (simp add: low_bit_u8 good_parity_def split: if_splits)
    with ac cr r show ?thesis
      by (intro conjI exI [of _ "[c, b]"] exI [of _ ac]) simp_all
  qed
qed

end
