(* ===== verification/Ppp_Codec.thy ===== *)
theory Ppp_Codec
  imports Ppp_Frame
begin

text \<open>
  LCP and IPCP packet codecs: \<open>src/src/ppp/lcp.rs\<close> (packet header, option list iterator,
  writers) and \<open>src/src/ppp/ipcp.rs\<close> (codes, option types, IPv4 options).  The option iterator
  implements the interface \<open>tlv_exact\<close>: it yields an option only for that option's own bytes.
\<close>

subsection \<open>LCP codes and options\<close>

definition LCP_HEADER_LEN :: nat where
  [wire_defs]: "LCP_HEADER_LEN = 4"

definition LCP_OPT_HEADER_LEN :: nat where
  [wire_defs]: "LCP_OPT_HEADER_LEN = 2"

definition DEFAULT_MRU :: u16 where
  "DEFAULT_MRU = 1500"

datatype lcp_code =
    LcpConfigureRequest | LcpConfigureAck | LcpConfigureNak | LcpConfigureReject
  | LcpTerminateRequest | LcpTerminateAck | LcpCodeReject | LcpProtocolReject
  | LcpEchoRequest | LcpEchoReply | LcpDiscardRequest

definition lcp_code_from_u8 :: "u8 \<Rightarrow> lcp_code option" where
  "lcp_code_from_u8 v =
     (if v = 1 then Some LcpConfigureRequest
      else if v = 2 then Some LcpConfigureAck
      else if v = 3 then Some LcpConfigureNak
      else if v = 4 then Some LcpConfigureReject
      else if v = 5 then Some LcpTerminateRequest
      else if v = 6 then Some LcpTerminateAck
      else if v = 7 then Some LcpCodeReject
      else if v = 8 then Some LcpProtocolReject
      else if v = 9 then Some LcpEchoRequest
      else if v = 10 then Some LcpEchoReply
      else if v = 11 then Some LcpDiscardRequest
      else None)"

fun lcp_code_as_u8 :: "lcp_code \<Rightarrow> u8" where
  "lcp_code_as_u8 LcpConfigureRequest = 1"
| "lcp_code_as_u8 LcpConfigureAck = 2"
| "lcp_code_as_u8 LcpConfigureNak = 3"
| "lcp_code_as_u8 LcpConfigureReject = 4"
| "lcp_code_as_u8 LcpTerminateRequest = 5"
| "lcp_code_as_u8 LcpTerminateAck = 6"
| "lcp_code_as_u8 LcpCodeReject = 7"
| "lcp_code_as_u8 LcpProtocolReject = 8"
| "lcp_code_as_u8 LcpEchoRequest = 9"
| "lcp_code_as_u8 LcpEchoReply = 10"
| "lcp_code_as_u8 LcpDiscardRequest = 11"

lemma lcp_code_roundtrip [simp]: "lcp_code_from_u8 (lcp_code_as_u8 c) = Some c"
  by (cases c) (simp_all add: lcp_code_from_u8_def)

definition lcp_is_configure :: "lcp_code \<Rightarrow> bool" where
  "lcp_is_configure c \<longleftrightarrow>
     c \<in> {LcpConfigureRequest, LcpConfigureAck, LcpConfigureNak, LcpConfigureReject}"

datatype lcp_option_id =
    OptMru | OptAuthProtocol | OptQualityProtocol | OptMagicNumber
  | OptProtocolFieldCompression | OptAddressControlFieldCompression

definition lcp_option_from_u8 :: "u8 \<Rightarrow> lcp_option_id option" where
  "lcp_option_from_u8 v =
     (if v = 1 then Some OptMru
      else if v = 3 then Some OptAuthProtocol
      else if v = 4 then Some OptQualityProtocol
      else if v = 5 then Some OptMagicNumber
      else if v = 7 then Some OptProtocolFieldCompression
      else if v = 8 then Some OptAddressControlFieldCompression
      else None)"

fun lcp_option_as_u8 :: "lcp_option_id \<Rightarrow> u8" where
  "lcp_option_as_u8 OptMru = 1"
| "lcp_option_as_u8 OptAuthProtocol = 3"
| "lcp_option_as_u8 OptQualityProtocol = 4"
| "lcp_option_as_u8 OptMagicNumber = 5"
| "lcp_option_as_u8 OptProtocolFieldCompression = 7"
| "lcp_option_as_u8 OptAddressControlFieldCompression = 8"

lemma lcp_option_roundtrip [simp]: "lcp_option_from_u8 (lcp_option_as_u8 i) = Some i"
  by (cases i) (simp_all add: lcp_option_from_u8_def)

subsection \<open>Packets\<close>

datatype lcp_packet_error =
    LcpTruncated nat nat
  | LcpLengthTooSmall nat
  | LcpLengthExceedsBuffer nat nat
  | OptionLengthTooSmall nat
  | OptionLengthExceedsBuffer nat nat

record lcp_packet =
  lp_code :: u8
  lp_identifier :: u8
  lp_data :: bytes

definition typed_code :: "lcp_packet \<Rightarrow> lcp_code option" where
  "typed_code p = lcp_code_from_u8 (lp_code p)"

definition decode_lcp_packet :: "bytes \<Rightarrow> lcp_packet_error + lcp_packet" where
  "decode_lcp_packet buf =
     (if length buf < LCP_HEADER_LEN then Inl (LcpTruncated LCP_HEADER_LEN (length buf))
      else
        let code = buf ! 0;
            identifier = buf ! 1;
            declared = unat (from_be16 (buf ! 2) (buf ! 3)) in
        if declared < LCP_HEADER_LEN then Inl (LcpLengthTooSmall declared)
        else if declared > length buf then Inl (LcpLengthExceedsBuffer declared (length buf))
        else Inr \<lparr>lp_code = code, lp_identifier = identifier,
                  lp_data = slice LCP_HEADER_LEN declared buf\<rparr>)"

record config_option =
  co_type :: u8
  co_value :: bytes

definition encoded_len :: "config_option \<Rightarrow> nat" where
  "encoded_len opt = LCP_OPT_HEADER_LEN + length (co_value opt)"

definition co_typed :: "config_option \<Rightarrow> lcp_option_id option" where
  "co_typed opt = lcp_option_from_u8 (co_type opt)"

definition as_mru :: "config_option \<Rightarrow> lcp_packet_error + u16" where
  "as_mru opt =
     (if length (co_value opt) \<noteq> 2
      then Inl (OptionLengthTooSmall (length (co_value opt) + LCP_OPT_HEADER_LEN))
      else Inr (from_be16 (co_value opt ! 0) (co_value opt ! 1)))"

definition as_magic_number :: "config_option \<Rightarrow> lcp_packet_error + u32" where
  "as_magic_number opt =
     (if length (co_value opt) \<noteq> 4
      then Inl (OptionLengthTooSmall (length (co_value opt) + LCP_OPT_HEADER_LEN))
      else Inr (from_be32 (co_value opt ! 0) (co_value opt ! 1) (co_value opt ! 2) (co_value opt ! 3)))"

definition as_auth_protocol :: "config_option \<Rightarrow> lcp_packet_error + (u16 \<times> bytes)" where
  "as_auth_protocol opt =
     (if length (co_value opt) < 2
      then Inl (OptionLengthTooSmall (length (co_value opt) + LCP_OPT_HEADER_LEN))
      else Inr (from_be16 (co_value opt ! 0) (co_value opt ! 1), drop 2 (co_value opt)))"

definition option_next :: "bytes \<Rightarrow> ((lcp_packet_error + config_option) \<times> bytes) option" where
  "option_next cursor =
     (if cursor = [] then None
      else if length cursor < LCP_OPT_HEADER_LEN
      then Some (Inl (LcpTruncated LCP_OPT_HEADER_LEN (length cursor)), [])
      else
        let option_type = cursor ! 0;
            declared = unat (cursor ! 1) in
        if declared < LCP_OPT_HEADER_LEN then Some (Inl (OptionLengthTooSmall declared), [])
        else if declared > length cursor
        then Some (Inl (OptionLengthExceedsBuffer declared (length cursor)), [])
        else Some (Inr \<lparr>co_type = option_type, co_value = slice LCP_OPT_HEADER_LEN declared cursor\<rparr>,
                   drop declared cursor))"

lemma option_next_progress: "option_next buf = Some (r, rest) \<Longrightarrow> length rest < length buf"
  by (auto simp: option_next_def wire_defs Let_def split: if_splits)

function option_iter :: "bytes \<Rightarrow> (lcp_packet_error + config_option) list" where
  "option_iter cursor =
     (case option_next cursor of None \<Rightarrow> [] | Some (r, rest) \<Rightarrow> r # option_iter rest)"
  by pat_completeness auto
termination
  by (relation "measure length") (auto simp: option_next_progress)

declare option_iter.simps [simp del]

subsection \<open>Writers\<close>

definition write_lcp_header :: "u8 \<Rightarrow> u8 \<Rightarrow> u16 \<Rightarrow> bytes" where
  "write_lcp_header code identifier total_len = [code, identifier] @ be16 total_len"

definition write_option :: "bytes \<Rightarrow> u8 \<Rightarrow> bytes \<Rightarrow> (bytes \<times> nat) option" where
  "write_option out option_type value =
     (let total = LCP_OPT_HEADER_LEN + length value in
      if length out < total then None
      else Some (write_at 0 ([option_type, word_of_nat total] @ value) out, total))"

definition auth_protocol_pap :: bytes where
  "auth_protocol_pap = be16 (protocol_as_u16 PidPap)"

definition auth_protocol_mschapv2 :: bytes where
  "auth_protocol_mschapv2 = be16 (protocol_as_u16 PidChap) @ [0x81]"

definition auth_protocol_chap_md5 :: bytes where
  "auth_protocol_chap_md5 = be16 (protocol_as_u16 PidChap) @ [0x05]"

definition auth_protocol_eap :: bytes where
  "auth_protocol_eap = be16 (protocol_as_u16 PidEap)"

subsection \<open>IPCP\<close>

datatype ipcp_code =
    IpcpConfigureRequest | IpcpConfigureAck | IpcpConfigureNak | IpcpConfigureReject
  | IpcpTerminateRequest | IpcpTerminateAck | IpcpCodeReject

definition ipcp_code_from_u8 :: "u8 \<Rightarrow> ipcp_code option" where
  "ipcp_code_from_u8 v =
     (if v = 1 then Some IpcpConfigureRequest
      else if v = 2 then Some IpcpConfigureAck
      else if v = 3 then Some IpcpConfigureNak
      else if v = 4 then Some IpcpConfigureReject
      else if v = 5 then Some IpcpTerminateRequest
      else if v = 6 then Some IpcpTerminateAck
      else if v = 7 then Some IpcpCodeReject
      else None)"

fun ipcp_code_as_u8 :: "ipcp_code \<Rightarrow> u8" where
  "ipcp_code_as_u8 IpcpConfigureRequest = 1"
| "ipcp_code_as_u8 IpcpConfigureAck = 2"
| "ipcp_code_as_u8 IpcpConfigureNak = 3"
| "ipcp_code_as_u8 IpcpConfigureReject = 4"
| "ipcp_code_as_u8 IpcpTerminateRequest = 5"
| "ipcp_code_as_u8 IpcpTerminateAck = 6"
| "ipcp_code_as_u8 IpcpCodeReject = 7"

datatype ipcp_option_id =
    IpCompressionProtocol | IpAddress | MobileIpv4
  | PrimaryDns | PrimaryNbns | SecondaryDns | SecondaryNbns

definition ipcp_option_from_u8 :: "u8 \<Rightarrow> ipcp_option_id option" where
  "ipcp_option_from_u8 v =
     (if v = 2 then Some IpCompressionProtocol
      else if v = 3 then Some IpAddress
      else if v = 4 then Some MobileIpv4
      else if v = 129 then Some PrimaryDns
      else if v = 130 then Some PrimaryNbns
      else if v = 131 then Some SecondaryDns
      else if v = 132 then Some SecondaryNbns
      else None)"

fun ipcp_option_as_u8 :: "ipcp_option_id \<Rightarrow> u8" where
  "ipcp_option_as_u8 IpCompressionProtocol = 2"
| "ipcp_option_as_u8 IpAddress = 3"
| "ipcp_option_as_u8 MobileIpv4 = 4"
| "ipcp_option_as_u8 PrimaryDns = 129"
| "ipcp_option_as_u8 PrimaryNbns = 130"
| "ipcp_option_as_u8 SecondaryDns = 131"
| "ipcp_option_as_u8 SecondaryNbns = 132"

datatype ipcp_error = BadOptionLength nat nat

definition IPV4_OPTION_VALUE_LEN :: nat where
  [wire_defs]: "IPV4_OPTION_VALUE_LEN = 4"

definition IPV4_OPTION_TOTAL_LEN :: nat where
  [wire_defs]: "IPV4_OPTION_TOTAL_LEN = 2 + IPV4_OPTION_VALUE_LEN"

definition read_ipv4_value :: "bytes \<Rightarrow> ipcp_error + bytes" where
  "read_ipv4_value value =
     (if length value \<noteq> IPV4_OPTION_VALUE_LEN
      then Inl (BadOptionLength IPV4_OPTION_VALUE_LEN (length value))
      else Inr value)"

definition write_ipv4_option :: "bytes \<Rightarrow> u8 \<Rightarrow> bytes \<Rightarrow> (bytes \<times> nat) option" where
  "write_ipv4_option out option_type addr =
     (if length out < IPV4_OPTION_TOTAL_LEN then None
      else Some (write_at 0 ([option_type, word_of_nat IPV4_OPTION_TOTAL_LEN] @ addr) out,
                 IPV4_OPTION_TOTAL_LEN))"

subsection \<open>The option iterator implements the interface\<close>

definition encode_option :: "config_option \<Rightarrow> bytes" where
  "encode_option opt = [co_type opt, word_of_nat (encoded_len opt)] @ co_value opt"

definition option_fits :: "config_option \<Rightarrow> bool" where
  "option_fits opt \<longleftrightarrow> encoded_len opt \<le> 255"

lemma option_next_Cons2:
  "option_next (t # n # rest) =
     (if unat n < 2 then Some (Inl (OptionLengthTooSmall (unat n)), [])
      else if unat n > length rest + 2
      then Some (Inl (OptionLengthExceedsBuffer (unat n) (length rest + 2)), [])
      else Some (Inr \<lparr>co_type = t, co_value = take (unat n - 2) rest\<rparr>, drop (unat n - 2) rest))"
  by (simp add: option_next_def wire_defs slice_def Let_def drop_Cons2)

lemma option_next_encode:
  assumes "option_fits opt"
  shows "option_next (encode_option opt @ rest) = Some (Inr opt, rest)"
proof -
  define w :: u8 where "w = word_of_nat (encoded_len opt)"
  have "unat w = encoded_len opt"
    unfolding w_def using assms by (intro unat_of_nat_u8) (simp add: option_fits_def)
  then have "unat w = 2 + length (co_value opt)" by (simp add: encoded_len_def wire_defs)
  then show ?thesis by (simp add: encode_option_def w_def [symmetric] option_next_Cons2)
qed

lemma option_next_exact:
  assumes "option_next buf = Some (Inr opt, rest)"
  shows "option_fits opt \<and> buf = encode_option opt @ rest"
proof -
  have "2 \<le> length buf"
    using assms by (auto simp: option_next_def wire_defs split: if_splits)
  then obtain t n r where buf: "buf = t # n # r" using list_ge_2 by blast
  with assms have n: "2 \<le> unat n" "unat n \<le> length r + 2"
    and opt: "opt = \<lparr>co_type = t, co_value = take (unat n - 2) r\<rparr>" "rest = drop (unat n - 2) r"
    by (auto simp: option_next_Cons2 split: if_splits)
  have "encoded_len opt = unat n" using n by (simp add: opt encoded_len_def wire_defs)
  moreover have "unat n \<le> 255" using unat_u8_less [of n] by linarith
  ultimately show ?thesis by (simp add: buf option_fits_def encode_option_def) (simp add: opt)
qed

interpretation lcp_options: tlv_exact option_next encode_option option_fits option_iter
proof unfold_locales
  show "option_next buf = None \<longleftrightarrow> buf = []" for buf
    by (simp add: option_next_def Let_def)
  show "option_fits x \<Longrightarrow> option_next (encode_option x @ rest) = Some (Inr x, rest)" for x rest
    by (rule option_next_encode)
  show "option_next buf = Some (r, rest) \<Longrightarrow> length rest < length buf" for buf r rest
    by (rule option_next_progress)
  show "option_iter buf = (case option_next buf of None \<Rightarrow> [] | Some (r, rest) \<Rightarrow> r # option_iter rest)"
    for buf by (rule option_iter.simps)
  show "option_next buf = Some (Inr x, rest) \<Longrightarrow> option_fits x \<and> buf = encode_option x @ rest"
    for buf x rest by (rule option_next_exact)
qed

subsection \<open>Properties\<close>

text \<open>
  The option list iterator parses exactly the canonical encodings: a byte
  string iterates to a list of options without an error if and only if it is the concatenation
  of their encodings, each with a one-byte length.
\<close>

theorem option_list_exact:
  "option_iter buf = map Inr opts \<longleftrightarrow>
     list_all option_fits opts \<and> buf = concat (map encode_option opts)"
  by (rule lcp_options.collect_eq_iff)

lemma decode_lcp_packet_Cons4:
  "decode_lcp_packet (c # i # a # b # rest) =
     (let n = unat (from_be16 a b) in
      if n < 4 then Inl (LcpLengthTooSmall n)
      else if n > length rest + 4 then Inl (LcpLengthExceedsBuffer n (length rest + 4))
      else Inr \<lparr>lp_code = c, lp_identifier = i, lp_data = take (n - 4) rest\<rparr>)"
  by (simp add: decode_lcp_packet_def wire_defs slice_def Let_def)

lemma decode_lcp_packet_encode:
  assumes "n = 4 + length d" and "n < 65536"
  shows "decode_lcp_packet (write_lcp_header c i (word_of_nat n) @ d @ pad) =
    Inr \<lparr>lp_code = c, lp_identifier = i, lp_data = d\<rparr>"
proof -
  obtain a b where ab: "be16 (word_of_nat n) = [a, b]" "from_be16 a b = word_of_nat n"
    using be16_split by blast
  then have "unat (from_be16 a b) = n" using assms(2) by (simp only: ab(2) unat_of_nat_u16)
  then have "decode_lcp_packet ([c, i] @ [a, b] @ d @ pad) =
      Inr \<lparr>lp_code = c, lp_identifier = i, lp_data = d\<rparr>"
    using assms(1) by (simp add: decode_lcp_packet_Cons4)
  then show ?thesis by (simp only: write_lcp_header_def ab(1) append_assoc)
qed

text \<open>
  An LCP or IPCP packet written with \<open>write_lcp_header\<close> decodes to its code,
  identifier and data, whatever padding follows it.
\<close>

theorem lcp_packet_roundtrip:
  assumes "LCP_HEADER_LEN + length d \<le> 65535"
  shows "decode_lcp_packet
      (write_lcp_header c i (word_of_nat (LCP_HEADER_LEN + length d)) @ d @ pad) =
    Inr \<lparr>lp_code = c, lp_identifier = i, lp_data = d\<rparr>"
  by (rule decode_lcp_packet_encode) (use assms in \<open>simp_all add: wire_defs\<close>)

end
