(* ===== verification/Ppp_Fsm.thy ===== *)
theory Ppp_Fsm
  imports Interfaces
begin

text \<open>
  The option-negotiation automaton of \<open>src/src/ppp/fsm.rs\<close> (RFC 1661, section 4), shared by
  LCP and IPCP.  \<open>fsm_step\<close> is \<open>Fsm::step\<close>; its match is split by event, one definition per
  group of arms, each returning the automaton with its counters updated and the \<open>StepOut\<close>.
  The counters are natural numbers, so that \<open>saturating_sub\<close> is subtraction.
\<close>

subsection \<open>States, events and actions\<close>

definition DEFAULT_RESTART :: nat where "DEFAULT_RESTART = 3"
definition DEFAULT_MAX_CONFIGURE :: nat where "DEFAULT_MAX_CONFIGURE = 10"
definition DEFAULT_MAX_TERMINATE :: nat where "DEFAULT_MAX_TERMINATE = 2"
definition DEFAULT_MAX_FAILURE :: nat where "DEFAULT_MAX_FAILURE = 5"

datatype fsm_state =
    Initial | Starting | Closed | Stopped | Closing | Stopping
  | ReqSent | AckRcvd | AckSent | Opened

datatype fsm_event =
    EvUp | EvDown | EvOpen | EvClose
  | RestartTimeout
  | RcvConfigReqGood | RcvConfigReqBad
  | RcvConfigAck | RcvConfigNak
  | RcvTerminateReq | RcvTerminateAck
  | RcvCodeRejPermitted | RcvCodeRejCatastrophic
  | RcvUnknownCode | RcvEcho

datatype restart_timer = TimerStart | TimerStop

datatype send =
    SendConfigureRequest | SendConfigureAck | SendConfigureNak
  | SendTerminateReq | SendTerminateAck | SendCodeReject | SendEchoReply

record notify =
  nt_up :: bool
  nt_down :: bool
  nt_started :: bool
  nt_finished :: bool

definition notify_default :: notify where
  "notify_default = \<lparr>nt_up = False, nt_down = False, nt_started = False, nt_finished = False\<rparr>"

record fsm_out =
  fo_new_state :: fsm_state
  fo_send :: "send option"
  fo_send_extra :: "send option"
  fo_restart_timer :: "restart_timer option"
  fo_notify :: notify

definition just :: "fsm_state \<Rightarrow> fsm_out" where
  "just new_state = \<lparr>fo_new_state = new_state, fo_send = None, fo_send_extra = None,
                     fo_restart_timer = None, fo_notify = notify_default\<rparr>"

subsection \<open>The automaton\<close>

record fsm =
  fsm_st :: fsm_state
  fsm_identifier :: u8
  restart_counter :: nat
  failure_counter :: nat
  max_configure :: nat
  max_terminate :: nat
  max_failure :: nat

definition fsm_new :: fsm where
  "fsm_new = \<lparr>fsm_st = Initial, fsm_identifier = 0, restart_counter = 0, failure_counter = 0,
              max_configure = DEFAULT_MAX_CONFIGURE, max_terminate = DEFAULT_MAX_TERMINATE,
              max_failure = DEFAULT_MAX_FAILURE\<rparr>"

definition irc_configure :: "fsm \<Rightarrow> fsm" where
  "irc_configure f = f\<lparr>restart_counter := max_configure f, failure_counter := max_failure f\<rparr>"

definition irc_terminate :: "fsm \<Rightarrow> fsm" where
  "irc_terminate f = f\<lparr>restart_counter := max_terminate f\<rparr>"

definition bump_identifier :: "fsm \<Rightarrow> fsm \<times> u8" where
  "bump_identifier f = (let i = fsm_identifier f + 1 in (f\<lparr>fsm_identifier := i\<rparr>, i))"

definition started_n :: notify where "started_n = notify_default\<lparr>nt_started := True\<rparr>"
definition finished_n :: notify where "finished_n = notify_default\<lparr>nt_finished := True\<rparr>"
definition up_n :: notify where "up_n = notify_default\<lparr>nt_up := True\<rparr>"
definition down_n :: notify where "down_n = notify_default\<lparr>nt_down := True\<rparr>"

definition arm_up :: "fsm_state \<Rightarrow> fsm \<Rightarrow> fsm \<times> fsm_out" where
  "arm_up from f = (case from of
     Initial \<Rightarrow> (f, just Closed)
   | Starting \<Rightarrow> (irc_configure f,
       (just ReqSent)\<lparr>fo_send := Some SendConfigureRequest, fo_restart_timer := Some TimerStart\<rparr>)
   | _ \<Rightarrow> (f, just from))"

definition arm_down :: "fsm_state \<Rightarrow> fsm \<Rightarrow> fsm \<times> fsm_out" where
  "arm_down from f = (case from of
     Closed \<Rightarrow> (f, just Initial)
   | Stopped \<Rightarrow> (f, (just Starting)\<lparr>fo_notify := started_n\<rparr>)
   | Closing \<Rightarrow> (f, just Initial)
   | Opened \<Rightarrow> (f, (just Starting)\<lparr>fo_notify := down_n\<rparr>)
   | Initial \<Rightarrow> (f, just from)
   | Starting \<Rightarrow> (f, just from)
   | _ \<Rightarrow> (f, just Starting))"

definition arm_open :: "fsm_state \<Rightarrow> fsm \<Rightarrow> fsm \<times> fsm_out" where
  "arm_open from f = (case from of
     Initial \<Rightarrow> (f, (just Starting)\<lparr>fo_notify := started_n\<rparr>)
   | Starting \<Rightarrow> (f, just Starting)
   | Closed \<Rightarrow> (irc_configure f,
       (just ReqSent)\<lparr>fo_send := Some SendConfigureRequest, fo_restart_timer := Some TimerStart\<rparr>)
   | _ \<Rightarrow> (f, just from))"

definition arm_close :: "fsm_state \<Rightarrow> fsm \<Rightarrow> fsm \<times> fsm_out" where
  "arm_close from f = (case from of
     Initial \<Rightarrow> (f, just Initial)
   | Starting \<Rightarrow> (f, (just Initial)\<lparr>fo_notify := finished_n\<rparr>)
   | Closed \<Rightarrow> (f, just Closed)
   | Stopped \<Rightarrow> (f, just Closed)
   | Closing \<Rightarrow> (f, just Closing)
   | Stopping \<Rightarrow> (f, just Closing)
   | Opened \<Rightarrow> (irc_terminate f,
       (just Closing)\<lparr>fo_send := Some SendTerminateReq, fo_restart_timer := Some TimerStart,
                      fo_notify := down_n\<rparr>)
   | _ \<Rightarrow> (irc_terminate f,
       (just Closing)\<lparr>fo_send := Some SendTerminateReq, fo_restart_timer := Some TimerStart\<rparr>))"

definition on_restart_timeout :: "fsm_state \<Rightarrow> fsm \<Rightarrow> fsm_out" where
  "on_restart_timeout from f =
     (if restart_counter f > 0 then
        (case from of
           Closing \<Rightarrow> (just from)\<lparr>fo_send := Some SendTerminateReq, fo_restart_timer := Some TimerStart\<rparr>
         | Stopping \<Rightarrow> (just from)\<lparr>fo_send := Some SendTerminateReq, fo_restart_timer := Some TimerStart\<rparr>
         | ReqSent \<Rightarrow> (just ReqSent)\<lparr>fo_send := Some SendConfigureRequest,
                                     fo_restart_timer := Some TimerStart\<rparr>
         | AckRcvd \<Rightarrow> (just ReqSent)\<lparr>fo_send := Some SendConfigureRequest,
                                     fo_restart_timer := Some TimerStart\<rparr>
         | AckSent \<Rightarrow> (just AckSent)\<lparr>fo_send := Some SendConfigureRequest,
                                     fo_restart_timer := Some TimerStart\<rparr>
         | _ \<Rightarrow> just from)
      else
        (case from of
           Closing \<Rightarrow> (just Closed)\<lparr>fo_notify := finished_n\<rparr>
         | Stopping \<Rightarrow> (just Stopped)\<lparr>fo_notify := finished_n\<rparr>
         | ReqSent \<Rightarrow> (just Stopped)\<lparr>fo_notify := finished_n\<rparr>
         | AckRcvd \<Rightarrow> (just Stopped)\<lparr>fo_notify := finished_n\<rparr>
         | AckSent \<Rightarrow> (just Stopped)\<lparr>fo_notify := finished_n\<rparr>
         | _ \<Rightarrow> just from))"

definition arm_timeout :: "fsm_state \<Rightarrow> fsm \<Rightarrow> fsm \<times> fsm_out" where
  "arm_timeout from f =
     (if from \<in> {Closing, Stopping, ReqSent, AckRcvd, AckSent}
      then (f, on_restart_timeout from f)
      else (f, just from))"

definition arm_rcr_good :: "fsm_state \<Rightarrow> fsm \<Rightarrow> fsm \<times> fsm_out" where
  "arm_rcr_good from f = (case from of
     Closed \<Rightarrow> (f, (just Closed)\<lparr>fo_send := Some SendTerminateAck\<rparr>)
   | Stopped \<Rightarrow> (irc_configure f,
       (just AckSent)\<lparr>fo_send := Some SendConfigureRequest, fo_send_extra := Some SendConfigureAck,
                      fo_restart_timer := Some TimerStart\<rparr>)
   | Closing \<Rightarrow> (f, just from)
   | Stopping \<Rightarrow> (f, just from)
   | ReqSent \<Rightarrow> (f, (just AckSent)\<lparr>fo_send := Some SendConfigureAck\<rparr>)
   | AckRcvd \<Rightarrow> (f, (just Opened)\<lparr>fo_send := Some SendConfigureAck, fo_notify := up_n\<rparr>)
   | AckSent \<Rightarrow> (f, (just AckSent)\<lparr>fo_send := Some SendConfigureAck\<rparr>)
   | Opened \<Rightarrow> (f,
       (just AckSent)\<lparr>fo_send := Some SendConfigureRequest, fo_send_extra := Some SendConfigureAck,
                      fo_restart_timer := Some TimerStart, fo_notify := down_n\<rparr>)
   | _ \<Rightarrow> (f, just from))"

definition arm_rcr_bad :: "fsm_state \<Rightarrow> fsm \<Rightarrow> fsm \<times> fsm_out" where
  "arm_rcr_bad from f = (case from of
     Closed \<Rightarrow> (f, (just Closed)\<lparr>fo_send := Some SendTerminateAck\<rparr>)
   | Stopped \<Rightarrow> (irc_configure f,
       (just ReqSent)\<lparr>fo_send := Some SendConfigureRequest, fo_send_extra := Some SendConfigureNak,
                      fo_restart_timer := Some TimerStart\<rparr>)
   | Closing \<Rightarrow> (f, just from)
   | Stopping \<Rightarrow> (f, just from)
   | ReqSent \<Rightarrow> (f, (just ReqSent)\<lparr>fo_send := Some SendConfigureNak\<rparr>)
   | AckSent \<Rightarrow> (f, (just ReqSent)\<lparr>fo_send := Some SendConfigureNak\<rparr>)
   | AckRcvd \<Rightarrow> (f, (just AckRcvd)\<lparr>fo_send := Some SendConfigureNak\<rparr>)
   | Opened \<Rightarrow> (f,
       (just ReqSent)\<lparr>fo_send := Some SendConfigureRequest, fo_send_extra := Some SendConfigureNak,
                      fo_restart_timer := Some TimerStart, fo_notify := down_n\<rparr>)
   | _ \<Rightarrow> (f, just from))"

definition arm_rca :: "fsm_state \<Rightarrow> fsm \<Rightarrow> fsm \<times> fsm_out" where
  "arm_rca from f = (case from of
     Closed \<Rightarrow> (f, (just from)\<lparr>fo_send := Some SendCodeReject\<rparr>)
   | Stopped \<Rightarrow> (f, (just from)\<lparr>fo_send := Some SendCodeReject\<rparr>)
   | Closing \<Rightarrow> (f, just from)
   | Stopping \<Rightarrow> (f, just from)
   | ReqSent \<Rightarrow> (irc_configure f, (just AckRcvd)\<lparr>fo_restart_timer := Some TimerStop\<rparr>)
   | AckRcvd \<Rightarrow> (f, (just ReqSent)\<lparr>fo_send := Some SendConfigureRequest\<rparr>)
   | AckSent \<Rightarrow> (irc_configure f,
       (just Opened)\<lparr>fo_restart_timer := Some TimerStop, fo_notify := up_n\<rparr>)
   | Opened \<Rightarrow> (f, (just ReqSent)\<lparr>fo_send := Some SendConfigureRequest, fo_notify := down_n\<rparr>)
   | _ \<Rightarrow> (f, just from))"

definition arm_rcn :: "fsm_state \<Rightarrow> fsm \<Rightarrow> fsm \<times> fsm_out" where
  "arm_rcn from f = (case from of
     Closed \<Rightarrow> (f, (just from)\<lparr>fo_send := Some SendCodeReject\<rparr>)
   | Stopped \<Rightarrow> (f, (just from)\<lparr>fo_send := Some SendCodeReject\<rparr>)
   | Closing \<Rightarrow> (f, just from)
   | Stopping \<Rightarrow> (f, just from)
   | ReqSent \<Rightarrow> (irc_configure f, (just from)\<lparr>fo_send := Some SendConfigureRequest\<rparr>)
   | AckSent \<Rightarrow> (irc_configure f, (just from)\<lparr>fo_send := Some SendConfigureRequest\<rparr>)
   | AckRcvd \<Rightarrow> (f, (just ReqSent)\<lparr>fo_send := Some SendConfigureRequest\<rparr>)
   | Opened \<Rightarrow> (f, (just ReqSent)\<lparr>fo_send := Some SendConfigureRequest, fo_notify := down_n\<rparr>)
   | _ \<Rightarrow> (f, just from))"

definition arm_rtr :: "fsm_state \<Rightarrow> fsm \<Rightarrow> fsm \<times> fsm_out" where
  "arm_rtr from f =
     (if from \<in> {Closed, Stopped, Closing, Stopping, ReqSent, AckRcvd, AckSent} then
        (f, (just (if from \<in> {Closed, Stopped, Closing, Stopping} then from else ReqSent))
              \<lparr>fo_send := Some SendTerminateAck\<rparr>)
      else if from = Opened then
        (f\<lparr>restart_counter := 0\<rparr>,
         (just Stopping)\<lparr>fo_send := Some SendTerminateAck, fo_restart_timer := Some TimerStart,
                         fo_notify := down_n\<rparr>)
      else (f, just from))"

definition arm_rta :: "fsm_state \<Rightarrow> fsm \<Rightarrow> fsm \<times> fsm_out" where
  "arm_rta from f = (case from of
     Closing \<Rightarrow> (f, (just Closed)\<lparr>fo_notify := finished_n\<rparr>)
   | Stopping \<Rightarrow> (f, (just Stopped)\<lparr>fo_notify := finished_n\<rparr>)
   | AckRcvd \<Rightarrow> (f, just ReqSent)
   | Opened \<Rightarrow> (f, (just ReqSent)\<lparr>fo_send := Some SendConfigureRequest, fo_notify := down_n\<rparr>)
   | _ \<Rightarrow> (f, just from))"

definition arm_rxj_bad :: "fsm_state \<Rightarrow> fsm \<Rightarrow> fsm \<times> fsm_out" where
  "arm_rxj_bad from f =
     (if from \<in> {Closed, Stopped} then
        (f, (just (if from = Closed then Closed else Stopped))\<lparr>fo_notify := finished_n\<rparr>)
      else if from = Closing then (f, (just Closed)\<lparr>fo_notify := finished_n\<rparr>)
      else if from \<in> {Stopping, ReqSent, AckRcvd, AckSent} then
        (f, (just Stopped)\<lparr>fo_notify := finished_n\<rparr>)
      else if from = Opened then
        (irc_terminate f,
         (just Stopping)\<lparr>fo_send := Some SendTerminateReq, fo_restart_timer := Some TimerStart,
                         fo_notify := down_n\<rparr>)
      else (f, just from))"

definition arm_echo :: "fsm_state \<Rightarrow> fsm \<Rightarrow> fsm \<times> fsm_out" where
  "arm_echo from f =
     (if from = Opened then (f, (just Opened)\<lparr>fo_send := Some SendEchoReply\<rparr>)
      else (f, just from))"

fun fsm_arm :: "fsm_state \<Rightarrow> fsm_event \<Rightarrow> fsm \<Rightarrow> fsm \<times> fsm_out" where
  "fsm_arm from EvUp f = arm_up from f"
| "fsm_arm from EvDown f = arm_down from f"
| "fsm_arm from EvOpen f = arm_open from f"
| "fsm_arm from EvClose f = arm_close from f"
| "fsm_arm from RestartTimeout f = arm_timeout from f"
| "fsm_arm from RcvConfigReqGood f = arm_rcr_good from f"
| "fsm_arm from RcvConfigReqBad f = arm_rcr_bad from f"
| "fsm_arm from RcvConfigAck f = arm_rca from f"
| "fsm_arm from RcvConfigNak f = arm_rcn from f"
| "fsm_arm from RcvTerminateReq f = arm_rtr from f"
| "fsm_arm from RcvTerminateAck f = arm_rta from f"
| "fsm_arm from RcvUnknownCode f = (f, (just from)\<lparr>fo_send := Some SendCodeReject\<rparr>)"
| "fsm_arm from RcvCodeRejPermitted f = (f, just from)"
| "fsm_arm from RcvCodeRejCatastrophic f = arm_rxj_bad from f"
| "fsm_arm from RcvEcho f = arm_echo from f"

definition is_request :: "send option \<Rightarrow> bool" where
  "is_request s \<longleftrightarrow> s = Some SendConfigureRequest \<or> s = Some SendTerminateReq"

definition consume :: "send option \<Rightarrow> fsm \<Rightarrow> fsm" where
  "consume s f = (if is_request s then f\<lparr>restart_counter := restart_counter f - 1\<rparr> else f)"

definition fsm_step :: "fsm \<Rightarrow> fsm_event \<Rightarrow> fsm \<times> fsm_out" where
  "fsm_step f event =
     (let (f1, out) = fsm_arm (fsm_st f) event f;
          f2 = consume (fo_send out) f1;
          f3 = consume (fo_send_extra out) f2 in
      (f3\<lparr>fsm_st := fo_new_state out\<rparr>, out))"

lemmas fsm_arm_defs = arm_up_def arm_down_def arm_open_def arm_close_def arm_timeout_def
  on_restart_timeout_def arm_rcr_good_def arm_rcr_bad_def arm_rca_def arm_rcn_def arm_rtr_def
  arm_rta_def arm_rxj_bad_def arm_echo_def

lemmas fsm_value_defs = just_def notify_default_def started_n_def finished_n_def up_n_def down_n_def
  irc_configure_def irc_terminate_def is_request_def consume_def

subsection \<open>The transition table of RFC 1661, section 4.1\<close>

text \<open>
  The table as the RFC prints it, independently of the code: for a state, an event and whether
  the restart counter is positive, the next state and the actions in order.  \<open>None\<close> marks the
  cells the RFC leaves empty.  The markers \<open>r\<close>, \<open>p\<close> and \<open>x\<close> are options and carry no action.
\<close>

datatype rfc_action = Tlu | Tld | Tls | Tlf | Irc | Zrc | Scr | Sca | Scn | Str | Sta | Scj | Ser

fun rfc_table :: "bool \<Rightarrow> fsm_event \<Rightarrow> fsm_state \<Rightarrow> (rfc_action list \<times> fsm_state) option" where
  "rfc_table c EvUp s = (case s of Initial \<Rightarrow> Some ([], Closed) | Starting \<Rightarrow> Some ([Irc, Scr], ReqSent)
     | _ \<Rightarrow> None)"
| "rfc_table c EvDown s = (case s of Initial \<Rightarrow> None | Starting \<Rightarrow> None | Closed \<Rightarrow> Some ([], Initial)
     | Stopped \<Rightarrow> Some ([Tls], Starting) | Closing \<Rightarrow> Some ([], Initial) | Opened \<Rightarrow> Some ([Tld], Starting)
     | _ \<Rightarrow> Some ([], Starting))"
| "rfc_table c EvOpen s = (case s of Initial \<Rightarrow> Some ([Tls], Starting) | Closed \<Rightarrow> Some ([Irc, Scr], ReqSent)
     | Closing \<Rightarrow> Some ([], Stopping) | _ \<Rightarrow> Some ([], s))"
| "rfc_table c EvClose s = (case s of Initial \<Rightarrow> Some ([], Initial) | Starting \<Rightarrow> Some ([Tlf], Initial)
     | Closed \<Rightarrow> Some ([], Closed) | Stopped \<Rightarrow> Some ([], Closed) | Closing \<Rightarrow> Some ([], Closing)
     | Stopping \<Rightarrow> Some ([], Closing) | Opened \<Rightarrow> Some ([Tld, Irc, Str], Closing)
     | _ \<Rightarrow> Some ([Irc, Str], Closing))"
| "rfc_table c RestartTimeout s = (case s of
       Closing \<Rightarrow> Some (if c then ([Str], Closing) else ([Tlf], Closed))
     | Stopping \<Rightarrow> Some (if c then ([Str], Stopping) else ([Tlf], Stopped))
     | ReqSent \<Rightarrow> Some (if c then ([Scr], ReqSent) else ([Tlf], Stopped))
     | AckRcvd \<Rightarrow> Some (if c then ([Scr], ReqSent) else ([Tlf], Stopped))
     | AckSent \<Rightarrow> Some (if c then ([Scr], AckSent) else ([Tlf], Stopped))
     | _ \<Rightarrow> None)"
| "rfc_table c RcvConfigReqGood s = (case s of Initial \<Rightarrow> None | Starting \<Rightarrow> None
     | Closed \<Rightarrow> Some ([Sta], Closed) | Stopped \<Rightarrow> Some ([Irc, Scr, Sca], AckSent)
     | Closing \<Rightarrow> Some ([], Closing) | Stopping \<Rightarrow> Some ([], Stopping)
     | ReqSent \<Rightarrow> Some ([Sca], AckSent) | AckRcvd \<Rightarrow> Some ([Sca, Tlu], Opened)
     | AckSent \<Rightarrow> Some ([Sca], AckSent) | Opened \<Rightarrow> Some ([Tld, Scr, Sca], AckSent))"
| "rfc_table c RcvConfigReqBad s = (case s of Initial \<Rightarrow> None | Starting \<Rightarrow> None
     | Closed \<Rightarrow> Some ([Sta], Closed) | Stopped \<Rightarrow> Some ([Irc, Scr, Scn], ReqSent)
     | Closing \<Rightarrow> Some ([], Closing) | Stopping \<Rightarrow> Some ([], Stopping)
     | ReqSent \<Rightarrow> Some ([Scn], ReqSent) | AckRcvd \<Rightarrow> Some ([Scn], AckRcvd)
     | AckSent \<Rightarrow> Some ([Scn], ReqSent) | Opened \<Rightarrow> Some ([Tld, Scr, Scn], ReqSent))"
| "rfc_table c RcvConfigAck s = (case s of Initial \<Rightarrow> None | Starting \<Rightarrow> None
     | Closed \<Rightarrow> Some ([Sta], Closed) | Stopped \<Rightarrow> Some ([Sta], Stopped)
     | Closing \<Rightarrow> Some ([], Closing) | Stopping \<Rightarrow> Some ([], Stopping)
     | ReqSent \<Rightarrow> Some ([Irc], AckRcvd) | AckRcvd \<Rightarrow> Some ([Scr], ReqSent)
     | AckSent \<Rightarrow> Some ([Irc, Tlu], Opened) | Opened \<Rightarrow> Some ([Tld, Scr], ReqSent))"
| "rfc_table c RcvConfigNak s = (case s of Initial \<Rightarrow> None | Starting \<Rightarrow> None
     | Closed \<Rightarrow> Some ([Sta], Closed) | Stopped \<Rightarrow> Some ([Sta], Stopped)
     | Closing \<Rightarrow> Some ([], Closing) | Stopping \<Rightarrow> Some ([], Stopping)
     | ReqSent \<Rightarrow> Some ([Irc, Scr], ReqSent) | AckRcvd \<Rightarrow> Some ([Scr], ReqSent)
     | AckSent \<Rightarrow> Some ([Irc, Scr], AckSent) | Opened \<Rightarrow> Some ([Tld, Scr], ReqSent))"
| "rfc_table c RcvTerminateReq s = (case s of Initial \<Rightarrow> None | Starting \<Rightarrow> None
     | Opened \<Rightarrow> Some ([Tld, Zrc, Sta], Stopping)
     | ReqSent \<Rightarrow> Some ([Sta], ReqSent) | AckRcvd \<Rightarrow> Some ([Sta], ReqSent) | AckSent \<Rightarrow> Some ([Sta], ReqSent)
     | _ \<Rightarrow> Some ([Sta], s))"
| "rfc_table c RcvTerminateAck s = (case s of Initial \<Rightarrow> None | Starting \<Rightarrow> None
     | Closing \<Rightarrow> Some ([Tlf], Closed) | Stopping \<Rightarrow> Some ([Tlf], Stopped)
     | AckRcvd \<Rightarrow> Some ([], ReqSent) | Opened \<Rightarrow> Some ([Tld, Scr], ReqSent) | _ \<Rightarrow> Some ([], s))"
| "rfc_table c RcvUnknownCode s = (case s of Initial \<Rightarrow> None | Starting \<Rightarrow> None | _ \<Rightarrow> Some ([Scj], s))"
| "rfc_table c RcvCodeRejPermitted s = (case s of Initial \<Rightarrow> None | Starting \<Rightarrow> None
     | AckRcvd \<Rightarrow> Some ([], ReqSent) | _ \<Rightarrow> Some ([], s))"
| "rfc_table c RcvCodeRejCatastrophic s = (case s of Initial \<Rightarrow> None | Starting \<Rightarrow> None
     | Closed \<Rightarrow> Some ([Tlf], Closed) | Closing \<Rightarrow> Some ([Tlf], Closed)
     | Opened \<Rightarrow> Some ([Tld, Irc, Str], Stopping) | _ \<Rightarrow> Some ([Tlf], Stopped))"
| "rfc_table c RcvEcho s = (case s of Initial \<Rightarrow> None | Starting \<Rightarrow> None
     | Opened \<Rightarrow> Some ([Ser], Opened) | _ \<Rightarrow> Some ([], s))"

fun action_send :: "rfc_action \<Rightarrow> send option" where
  "action_send Scr = Some SendConfigureRequest"
| "action_send Sca = Some SendConfigureAck"
| "action_send Scn = Some SendConfigureNak"
| "action_send Str = Some SendTerminateReq"
| "action_send Sta = Some SendTerminateAck"
| "action_send Scj = Some SendCodeReject"
| "action_send Ser = Some SendEchoReply"
| "action_send _ = None"

definition out_sends :: "fsm_out \<Rightarrow> send list" where
  "out_sends ot = (case fo_send ot of None \<Rightarrow> [] | Some s \<Rightarrow> [s]) @
                  (case fo_send_extra ot of None \<Rightarrow> [] | Some s \<Rightarrow> [s])"

text \<open>The restart counter after the actions of a cell.\<close>

definition spec_counter :: "rfc_action list \<Rightarrow> fsm \<Rightarrow> nat" where
  "spec_counter as f =
     (if Irc \<in> set as then if Str \<in> set as then max_terminate f else max_configure f
      else if Zrc \<in> set as then 0 else restart_counter f)
     - length (filter (\<lambda>a. a = Scr \<or> a = Str) as)"

definition implements_cell :: "fsm \<Rightarrow> fsm_event \<Rightarrow> rfc_action list \<times> fsm_state \<Rightarrow> bool" where
  "implements_cell f e cell \<longleftrightarrow>
     (let (as, s') = cell; (f', ot) = fsm_step f e in
      fsm_st f' = s' \<and> out_sends ot = List.map_filter action_send as
      \<and> fo_notify ot = \<lparr>nt_up = Tlu \<in> set as, nt_down = Tld \<in> set as,
                        nt_started = Tls \<in> set as, nt_finished = Tlf \<in> set as\<rparr>
      \<and> restart_counter f' = spec_counter as f)"

text \<open>The cells in which the code departs from the table.\<close>

definition departs :: "fsm_event \<Rightarrow> fsm_state \<Rightarrow> bool" where
  "departs e s \<longleftrightarrow>
     (e = EvOpen \<and> s = Closing) \<or> (e = RcvCodeRejPermitted \<and> s = AckRcvd)
     \<or> (e \<in> {RcvConfigAck, RcvConfigNak} \<and> s \<in> {Closed, Stopped})"

lemma fsm_step_cell:
  assumes "rfc_table (restart_counter f > 0) e (fsm_st f) = Some cell" and "\<not> departs e (fsm_st f)"
  shows "implements_cell f e cell"
  using assms
  by (cases e; cases "fsm_st f")
    (auto simp: implements_cell_def fsm_step_def fsm_arm_defs fsm_value_defs out_sends_def
      spec_counter_def departs_def List.map_filter_def Let_def split: if_splits)

text \<open>
  C19 (refinement).  The automaton implements the transition table of RFC 1661: in every cell
  the table defines it moves to the table's state, sends the table's packets in order, raises
  the table's layer notifications and updates the restart counter accordingly, except in six
  cells.  In these it stays where the table moves on (Open in Closing, a permitted Code-Reject
  in Ack-Rcvd), or answers a stray Configure-Ack, -Nak or -Reject in Closed or Stopped with a
  Code-Reject instead of a Terminate-Ack.
\<close>

theorem fsm_implements_rfc1661:
  "(\<forall>cell. rfc_table (restart_counter f > 0) e (fsm_st f) = Some cell \<and> \<not> departs e (fsm_st f)
      \<longrightarrow> implements_cell f e cell)
   \<and> (departs e (fsm_st f) \<longrightarrow>
        fsm_st (fst (fsm_step f e)) = fsm_st f
        \<and> out_sends (snd (fsm_step f e)) =
            (if e \<in> {RcvConfigAck, RcvConfigNak} then [SendCodeReject] else []))"
proof (intro conjI allI impI)
  fix cell
  assume "rfc_table (restart_counter f > 0) e (fsm_st f) = Some cell \<and> \<not> departs e (fsm_st f)"
  then show "implements_cell f e cell" by (simp add: fsm_step_cell)
next
  assume "departs e (fsm_st f)"
  then have *: "fsm_st (fst (fsm_step f e)) = fsm_st f \<and> out_sends (snd (fsm_step f e)) =
            (if e \<in> {RcvConfigAck, RcvConfigNak} then [SendCodeReject] else [])"
    by (auto simp: departs_def fsm_step_def fsm_arm_defs fsm_value_defs out_sends_def)
  then show "fsm_st (fst (fsm_step f e)) = fsm_st f" by blast
  from * show "out_sends (snd (fsm_step f e)) =
            (if e \<in> {RcvConfigAck, RcvConfigNak} then [SendCodeReject] else [])" by blast
qed

theorem fsm_implements_rfc1661_witness:
  "rfc_table (restart_counter fsm_new > 0) EvUp (fsm_st fsm_new) = Some ([], Closed)
   \<and> \<not> departs EvUp (fsm_st fsm_new) \<and> implements_cell fsm_new EvUp ([], Closed)
   \<and> departs RcvConfigAck (fsm_st (fsm_new\<lparr>fsm_st := Stopped\<rparr>))
   \<and> out_sends (snd (fsm_step (fsm_new\<lparr>fsm_st := Stopped\<rparr>) RcvConfigAck)) = [SendCodeReject]"
  using fsm_implements_rfc1661 [of fsm_new EvUp]
    fsm_implements_rfc1661 [of "fsm_new\<lparr>fsm_st := Stopped\<rparr>" RcvConfigAck]
  by (simp add: fsm_new_def departs_def)

subsection \<open>The automaton as a layer and as a machine\<close>

lemma fsm_step_up: "nt_up (fo_notify (snd (fsm_step f e))) \<longleftrightarrow>
    fsm_st f \<noteq> Opened \<and> fsm_st (fst (fsm_step f e)) = Opened"
  by (cases e; cases "fsm_st f")
    (simp_all add: fsm_step_def fsm_arm_defs fsm_value_defs Let_def)

lemma fsm_step_down: "nt_down (fo_notify (snd (fsm_step f e))) \<longleftrightarrow>
    fsm_st f = Opened \<and> fsm_st (fst (fsm_step f e)) \<noteq> Opened"
  by (cases e; cases "fsm_st f")
    (simp_all add: fsm_step_def fsm_arm_defs fsm_value_defs Let_def)

interpretation fsm_layer: layer fsm_step "\<lambda>f. fsm_st f = Opened"
  "\<lambda>ot. nt_up (fo_notify ot)" "\<lambda>ot. nt_down (fo_notify ot)"
  by unfold_locales (rule fsm_step_up, rule fsm_step_down)

definition fsm_bound :: "fsm \<Rightarrow> bool" where
  "fsm_bound f \<longleftrightarrow> max_configure f = 10 \<and> max_terminate f = 2 \<and> max_failure f = 5
     \<and> restart_counter f \<le> 10 \<and> failure_counter f \<le> 5"

lemma fsm_bound_step: "fsm_bound f \<Longrightarrow> fsm_bound (fst (fsm_step f e))"
  by (cases e; cases "fsm_st f")
    (auto simp: fsm_bound_def fsm_step_def fsm_arm_defs fsm_value_defs Let_def)

lemma fsm_bound_new: "fsm_bound fsm_new"
  by (simp add: fsm_bound_def fsm_new_def DEFAULT_MAX_CONFIGURE_def DEFAULT_MAX_TERMINATE_def
    DEFAULT_MAX_FAILURE_def)

interpretation fsm_machine: machine fsm_step "\<lambda>f. f = fsm_new" "\<lambda>e. True" fsm_bound
  by unfold_locales (auto simp: fsm_bound_new fsm_bound_step)

text \<open>
  Along every run of a fresh automaton the restart counter stays within
  Max-Configure, the notifications to the layer above are balanced (there are as many ups as
  downs, plus one while the layer is open), and a step never raises both.
\<close>

theorem fsm_run_invariant:
  fixes es :: "fsm_event list"
  defines "r \<equiv> run_machine fsm_step fsm_new es"
  shows "restart_counter (fst r) \<le> DEFAULT_MAX_CONFIGURE
    \<and> length (filter (\<lambda>ot. nt_up (fo_notify ot)) (snd r)) =
        length (filter (\<lambda>ot. nt_down (fo_notify ot)) (snd r)) + (if fsm_st (fst r) = Opened then 1 else 0)
    \<and> list_all (\<lambda>ot. \<not> (nt_up (fo_notify ot) \<and> nt_down (fo_notify ot))) (snd r)"
proof -
  have ok: "list_all (\<lambda>e. True) es" by (simp add: list_all_iff)
  have "fsm_bound (fst r)" unfolding r_def by (rule fsm_machine.run_from_start) (simp_all add: ok)
  moreover have "list_all (\<lambda>ot. \<not> (nt_up (fo_notify ot) \<and> nt_down (fo_notify ot))) (snd r)"
    unfolding r_def
    by (rule fsm_machine.run_outputs) (use fsm_layer.not_both ok fsm_bound_new in auto)
  moreover have "fsm_st fsm_new \<noteq> Opened" by (simp add: fsm_new_def)
  ultimately show ?thesis
    using fsm_layer.balance [of fsm_new es]
    by (simp add: fsm_bound_def r_def DEFAULT_MAX_CONFIGURE_def)
qed

subsection \<open>Retransmission ends\<close>

text \<open>
  \<open>n\<close> timeouts in a row and what they send: as many retransmissions as the counter allows,
  each re-arming the timer, then the end.
\<close>

definition awaiting :: "fsm_state \<Rightarrow> bool" where
  "awaiting s \<longleftrightarrow> s \<in> {Closing, Stopping, ReqSent, AckRcvd, AckSent}"

lemma timeout_retransmits:
  assumes "awaiting (fsm_st f)" and "restart_counter f = Suc n"
  shows "awaiting (fsm_st (fst (fsm_step f RestartTimeout)))
    \<and> restart_counter (fst (fsm_step f RestartTimeout)) = n
    \<and> is_request (fo_send (snd (fsm_step f RestartTimeout)))
    \<and> fo_restart_timer (snd (fsm_step f RestartTimeout)) = Some TimerStart
    \<and> \<not> nt_finished (fo_notify (snd (fsm_step f RestartTimeout)))"
  using assms
  by (cases "fsm_st f") (simp_all add: awaiting_def fsm_step_def fsm_arm_defs fsm_value_defs Let_def)

lemma timeout_gives_up:
  assumes "awaiting (fsm_st f)" and "restart_counter f = 0"
  shows "fsm_st (fst (fsm_step f RestartTimeout)) \<in> {Closed, Stopped}
    \<and> fo_send (snd (fsm_step f RestartTimeout)) = None
    \<and> nt_finished (fo_notify (snd (fsm_step f RestartTimeout)))"
  using assms
  by (cases "fsm_st f") (simp_all add: awaiting_def fsm_step_def fsm_arm_defs fsm_value_defs Let_def)

lemma timeouts_end:
  assumes "awaiting (fsm_st f)"
  shows "let r = run_machine fsm_step f (replicate (Suc (restart_counter f)) RestartTimeout) in
      fsm_st (fst r) \<in> {Closed, Stopped}
    \<and> list_all (\<lambda>ot. is_request (fo_send ot) \<and> fo_restart_timer ot = Some TimerStart
        \<and> \<not> nt_finished (fo_notify ot)) (butlast (snd r))
    \<and> length (snd r) = Suc (restart_counter f)
    \<and> fo_send (last (snd r)) = None \<and> nt_finished (fo_notify (last (snd r)))"
  using assms
proof (induction "restart_counter f" arbitrary: f)
  case 0
  then show ?case using timeout_gives_up [of f] by (simp add: Let_def split_beta)
next
  case (Suc n)
  define f' where "f' = fst (fsm_step f RestartTimeout)"
  note t = timeout_retransmits [OF Suc.prems Suc.hyps(2) [symmetric]]
  have f': "awaiting (fsm_st f')" "n = restart_counter f'" using t by (simp_all add: f'_def)
  obtain g outs where run: "run_machine fsm_step f' (replicate (Suc n) RestartTimeout) = (g, outs)"
    by (cases "run_machine fsm_step f' (replicate (Suc n) RestartTimeout)")
  with Suc.hyps(1) [OF f'(2) f'(1)] f'(2) have IH: "fsm_st g \<in> {Closed, Stopped}"
    "list_all (\<lambda>ot. is_request (fo_send ot) \<and> fo_restart_timer ot = Some TimerStart
        \<and> \<not> nt_finished (fo_notify ot)) (butlast outs)"
    "length outs = Suc n" "fo_send (last outs) = None" "nt_finished (fo_notify (last outs))"
    by (simp_all add: Let_def del: replicate_Suc run_machine.simps)
  have "run_machine fsm_step f (replicate (Suc (restart_counter f)) RestartTimeout) =
      (g, snd (fsm_step f RestartTimeout) # outs)"
    using run unfolding Suc.hyps(2) [symmetric] f'_def
    by (simp add: Let_def split_beta)
  moreover from IH(3) have "outs \<noteq> []" by auto
  ultimately show ?case using IH t by (simp add: Let_def Suc.hyps(2) [symmetric])
qed

text \<open>
  An automaton that waits for an answer and hears nothing gives up: after as
  many timeouts as the restart counter allows it has retransmitted its request each time and
  re-armed the timer, and the next timeout signals This-Layer-Finished and leaves it in Closed
  or Stopped.  With the default limits that is at most eleven timeouts.
\<close>

theorem fsm_silent_peer_finishes:
  assumes "awaiting (fsm_st f)" and "fsm_bound f"
  shows "\<exists>n \<le> 11. let r = run_machine fsm_step f (replicate n RestartTimeout) in
      fsm_st (fst r) \<in> {Closed, Stopped}
    \<and> nt_finished (fo_notify (last (snd r)))
    \<and> length (filter (\<lambda>ot. is_request (fo_send ot)) (snd r)) = restart_counter f
    \<and> list_all (\<lambda>ot. fo_restart_timer ot = Some TimerStart) (butlast (snd r))"
proof -
  let ?r = "run_machine fsm_step f (replicate (Suc (restart_counter f)) RestartTimeout)"
  let ?P = "\<lambda>ot. is_request (fo_send ot) \<and> fo_restart_timer ot = Some TimerStart
        \<and> \<not> nt_finished (fo_notify ot)"
  obtain g outs where r: "?r = (g, outs)" by (cases ?r)
  note e = timeouts_end [OF assms(1), unfolded Let_def r fst_conv snd_conv]
  have ne: "outs \<noteq> []" using e by auto
  have "outs = butlast outs @ [last outs]" using ne by simp
  moreover have "filter (\<lambda>ot. is_request (fo_send ot)) (butlast outs) = butlast outs"
    using e by (auto simp: list_all_iff intro: filter_True)
  moreover have "\<not> is_request (fo_send (last outs))" using e by (simp add: is_request_def)
  ultimately have "length (filter (\<lambda>ot. is_request (fo_send ot)) outs) = length (butlast outs)"
    by (metis filter_append append_Nil2 filter.simps)
  then have "length (filter (\<lambda>ot. is_request (fo_send ot)) outs) = restart_counter f" using e by simp
  moreover have "list_all (\<lambda>ot. fo_restart_timer ot = Some TimerStart) (butlast outs)"
    using e by (simp add: list_all_iff)
  ultimately show ?thesis
    using e assms(2) r unfolding Let_def fsm_bound_def
    by (intro exI [of _ "Suc (restart_counter f)"]) simp
qed

end
