(* ===== verification/Ppp_Negotiation.thy ===== *)
theory Ppp_Negotiation
  imports Ppp_Codec Ppp_Fsm
begin

text \<open>
  The LCP and IPCP servers of \<open>src/src/ppp/driver.rs\<close> (\<open>LcpServer\<close>, \<open>IpcpServer\<close>): the option
  policy that classifies an inbound Configure-Request, and the packets rendered for the sends
  of the automaton.
\<close>

subsection \<open>Data\<close>

record assigned_addrs =
  aa_ip :: bytes
  aa_mtu :: "u16 option"
  aa_dns1 :: "bytes option"
  aa_dns2 :: "bytes option"
  aa_nbns1 :: "bytes option"
  aa_nbns2 :: "bytes option"

datatype auth_method = AmPap | AmChapMd5 | AmMsChapV2

record lcp_server =
  ls_fsm :: fsm
  ls_last_cr_id :: u8
  ls_last_cr_options :: bytes
  ls_pending_nak :: bytes
  ls_pending_nak_is_reject :: bool
  ls_last_rxr_code :: u8
  ls_last_echo_id :: u8
  ls_last_echo_data :: bytes
  ls_opened :: bool
  ls_auth_method :: auth_method
  ls_peer_mru :: "u16 option"

definition lcp_server_new :: "auth_method \<Rightarrow> lcp_server" where
  "lcp_server_new auth_method =
     \<lparr>ls_fsm = fsm_new, ls_last_cr_id = 0, ls_last_cr_options = [], ls_pending_nak = [],
      ls_pending_nak_is_reject = False, ls_last_rxr_code = 0, ls_last_echo_id = 0,
      ls_last_echo_data = [], ls_opened = False, ls_auth_method = auth_method,
      ls_peer_mru = None\<rparr>"

record ipcp_server =
  is_fsm :: fsm
  is_addrs :: assigned_addrs
  is_local_ip :: bytes
  is_last_cr_id :: u8
  is_last_cr_options :: bytes
  is_pending_nak :: bytes
  is_pending_nak_is_reject :: bool
  is_opened :: bool

definition ipcp_server_new :: "assigned_addrs \<Rightarrow> bytes \<Rightarrow> ipcp_server" where
  "ipcp_server_new addrs local_ip =
     \<lparr>is_fsm = fsm_new, is_addrs = addrs, is_local_ip = local_ip, is_last_cr_id = 0,
      is_last_cr_options = [], is_pending_nak = [], is_pending_nak_is_reject = False,
      is_opened = False\<rparr>"

subsection \<open>The LCP server\<close>

definition lcp_step_fsm :: "lcp_server \<Rightarrow> fsm_event \<Rightarrow> lcp_server \<times> fsm_out" where
  "lcp_step_fsm ls e = (case fsm_step (ls_fsm ls) e of (f, ot) \<Rightarrow> (ls\<lparr>ls_fsm := f\<rparr>, ot))"

definition lcp_open :: "lcp_server \<Rightarrow> lcp_server \<times> fsm_out" where
  "lcp_open ls = (case lcp_step_fsm ls EvOpen of (ls', _) \<Rightarrow> lcp_step_fsm ls' EvUp)"

definition lcp_accepts :: "config_option \<Rightarrow> bool" where
  "lcp_accepts opt \<longleftrightarrow>
     co_typed opt \<in> {Some OptMru, Some OptMagicNumber, Some OptProtocolFieldCompression,
                     Some OptAddressControlFieldCompression, Some OptAuthProtocol}"

text \<open>The verbatim copy of an offending option into a reject body.\<close>

definition push_option :: "bytes \<Rightarrow> u8 \<Rightarrow> config_option \<Rightarrow> bytes" where
  "push_option buf ty opt = buf @ [ty, word_of_nat (encoded_len opt)] @ co_value opt"

fun lcp_classify_loop ::
    "(lcp_packet_error + config_option) list \<Rightarrow> bool \<Rightarrow> bytes \<Rightarrow> u16 option
     \<Rightarrow> bool \<times> bytes \<times> u16 option" where
  "lcp_classify_loop [] any_bad nak mru = (any_bad, nak, mru)"
| "lcp_classify_loop (Inl e # rest) any_bad nak mru = (True, nak, mru)"
| "lcp_classify_loop (Inr opt # rest) any_bad nak mru =
     (let mru' = (if co_typed opt = Some OptMru
                  then (case as_mru opt of Inr m \<Rightarrow> Some m | Inl _ \<Rightarrow> mru) else mru) in
      if \<not> lcp_accepts opt
      then lcp_classify_loop rest True (push_option nak (co_type opt) opt) mru'
      else lcp_classify_loop rest any_bad nak mru')"

definition lcp_classify_configure_request :: "lcp_server \<Rightarrow> bytes \<Rightarrow> lcp_server \<times> fsm_event" where
  "lcp_classify_configure_request ls opts =
     (let (any_bad, nak, mru) =
            lcp_classify_loop (option_iter opts) False [] (ls_peer_mru ls) in
      (ls\<lparr>ls_pending_nak := nak, ls_pending_nak_is_reject := True, ls_peer_mru := mru\<rparr>,
       if any_bad then RcvConfigReqBad else RcvConfigReqGood))"

definition lcp_on_packet :: "lcp_server \<Rightarrow> lcp_packet \<Rightarrow> (lcp_server \<times> fsm_out) \<times> u8" where
  "lcp_on_packet ls packet =
     (let ident = lp_identifier packet;
          (ls', event) =
            (case typed_code packet of
               Some LcpConfigureRequest \<Rightarrow>
                 lcp_classify_configure_request
                   (ls\<lparr>ls_last_cr_id := ident, ls_last_cr_options := lp_data packet\<rparr>)
                   (lp_data packet)
             | Some LcpConfigureAck \<Rightarrow> (ls, RcvConfigAck)
             | Some LcpConfigureNak \<Rightarrow> (ls, RcvConfigNak)
             | Some LcpConfigureReject \<Rightarrow> (ls, RcvConfigNak)
             | Some LcpTerminateRequest \<Rightarrow> (ls, RcvTerminateReq)
             | Some LcpTerminateAck \<Rightarrow> (ls, RcvTerminateAck)
             | Some LcpCodeReject \<Rightarrow> (ls, RcvCodeRejPermitted)
             | Some LcpProtocolReject \<Rightarrow> (ls, RcvCodeRejPermitted)
             | None \<Rightarrow> (ls, RcvUnknownCode)
             | Some _ \<Rightarrow>
                 (ls\<lparr>ls_last_rxr_code := lp_code packet, ls_last_echo_id := ident,
                     ls_last_echo_data := lp_data packet\<rparr>, RcvEcho)) in
      (lcp_step_fsm ls' event, ident))"

text \<open>
  The server's own options.  The temporary buffer has exactly the size \<open>write_option\<close> asserts
  (\<open>own_cr_options_fits\<close> below), so the last branch is never taken.
\<close>

definition filled :: "(bytes \<times> nat) option \<Rightarrow> bytes" where
  "filled r = (case r of Some (tmp, n) \<Rightarrow> take n tmp | None \<Rightarrow> [])"

definition own_auth_protocol :: "auth_method \<Rightarrow> bytes" where
  "own_auth_protocol m = (case m of
     AmPap \<Rightarrow> auth_protocol_pap | AmChapMd5 \<Rightarrow> auth_protocol_chap_md5
   | AmMsChapV2 \<Rightarrow> auth_protocol_mschapv2)"

definition write_own_cr_options :: "lcp_server \<Rightarrow> bytes \<Rightarrow> bytes" where
  "write_own_cr_options ls buf =
     (let proto = own_auth_protocol (ls_auth_method ls);
          tmp = replicate (LCP_OPT_HEADER_LEN +
                  (if ls_auth_method ls = AmPap then 2 else 3)) 0 in
      buf @ filled (write_option tmp (lcp_option_as_u8 OptAuthProtocol) proto))"

subsection \<open>The IPCP server\<close>

definition ipcp_step_fsm :: "ipcp_server \<Rightarrow> fsm_event \<Rightarrow> ipcp_server \<times> fsm_out" where
  "ipcp_step_fsm s e = (case fsm_step (is_fsm s) e of (f, ot) \<Rightarrow> (s\<lparr>is_fsm := f\<rparr>, ot))"

definition ipcp_open :: "ipcp_server \<Rightarrow> ipcp_server \<times> fsm_out" where
  "ipcp_open s = (case ipcp_step_fsm s EvOpen of (s', _) \<Rightarrow> ipcp_step_fsm s' EvUp)"

definition push_v4_option :: "bytes \<Rightarrow> u8 \<Rightarrow> bytes \<Rightarrow> bytes" where
  "push_v4_option buf opt_type addr =
     buf @ filled (write_ipv4_option (replicate IPV4_OPTION_TOTAL_LEN 0) opt_type addr)"

definition handle_optional_dns_like ::
    "bytes \<Rightarrow> bytes \<Rightarrow> config_option \<Rightarrow> bytes option \<Rightarrow> u8 \<Rightarrow> bytes \<times> bytes" where
  "handle_optional_dns_like nak rej opt ours opt_type =
     (case ours of
        Some v \<Rightarrow>
          if read_ipv4_value (co_value opt) = Inr v then (nak, rej)
          else (push_v4_option nak opt_type v, rej)
      | None \<Rightarrow> (nak, push_option rej opt_type opt))"

fun ipcp_classify_loop ::
    "assigned_addrs \<Rightarrow> (lcp_packet_error + config_option) list \<Rightarrow> bytes \<Rightarrow> bytes
     \<Rightarrow> (bytes \<times> bytes) option" where
  "ipcp_classify_loop addrs [] nak rej = Some (nak, rej)"
| "ipcp_classify_loop addrs (Inl e # rest) nak rej = None"
| "ipcp_classify_loop addrs (Inr opt # rest) nak rej =
     (case ipcp_option_from_u8 (co_type opt) of
        Some IpAddress \<Rightarrow>
          if read_ipv4_value (co_value opt) = Inr (aa_ip addrs)
          then ipcp_classify_loop addrs rest nak rej
          else ipcp_classify_loop addrs rest
                 (push_v4_option nak (ipcp_option_as_u8 IpAddress) (aa_ip addrs)) rej
      | Some PrimaryDns \<Rightarrow>
          (case handle_optional_dns_like nak rej opt (aa_dns1 addrs) (ipcp_option_as_u8 PrimaryDns) of
             (nak', rej') \<Rightarrow> ipcp_classify_loop addrs rest nak' rej')
      | Some SecondaryDns \<Rightarrow>
          (case handle_optional_dns_like nak rej opt (aa_dns2 addrs) (ipcp_option_as_u8 SecondaryDns) of
             (nak', rej') \<Rightarrow> ipcp_classify_loop addrs rest nak' rej')
      | Some PrimaryNbns \<Rightarrow>
          (case handle_optional_dns_like nak rej opt (aa_nbns1 addrs) (ipcp_option_as_u8 PrimaryNbns) of
             (nak', rej') \<Rightarrow> ipcp_classify_loop addrs rest nak' rej')
      | Some SecondaryNbns \<Rightarrow>
          (case handle_optional_dns_like nak rej opt (aa_nbns2 addrs) (ipcp_option_as_u8 SecondaryNbns) of
             (nak', rej') \<Rightarrow> ipcp_classify_loop addrs rest nak' rej')
      | _ \<Rightarrow> ipcp_classify_loop addrs rest nak (push_option rej (co_type opt) opt))"

definition ipcp_classify_configure_request :: "ipcp_server \<Rightarrow> bytes \<Rightarrow> ipcp_server \<times> fsm_event" where
  "ipcp_classify_configure_request s opts =
     (let s0 = s\<lparr>is_pending_nak := [], is_pending_nak_is_reject := False\<rparr> in
      case ipcp_classify_loop (is_addrs s) (option_iter opts) [] [] of
        None \<Rightarrow> (s0, RcvConfigReqBad)
      | Some (nak, rej) \<Rightarrow>
          if rej \<noteq> [] then
            (s0\<lparr>is_pending_nak := rej, is_pending_nak_is_reject := True\<rparr>, RcvConfigReqBad)
          else if nak \<noteq> [] then
            (s0\<lparr>is_pending_nak := nak, is_pending_nak_is_reject := False\<rparr>, RcvConfigReqBad)
          else (s0, RcvConfigReqGood))"

definition ipcp_on_packet :: "ipcp_server \<Rightarrow> lcp_packet \<Rightarrow> (ipcp_server \<times> fsm_out) \<times> u8" where
  "ipcp_on_packet s packet =
     (let ident = lp_identifier packet;
          (s', event) =
            (case ipcp_code_from_u8 (lp_code packet) of
               Some IpcpConfigureRequest \<Rightarrow>
                 ipcp_classify_configure_request
                   (s\<lparr>is_last_cr_id := ident, is_last_cr_options := lp_data packet\<rparr>)
                   (lp_data packet)
             | Some IpcpConfigureAck \<Rightarrow> (s, RcvConfigAck)
             | Some IpcpConfigureNak \<Rightarrow> (s, RcvConfigNak)
             | Some IpcpConfigureReject \<Rightarrow> (s, RcvConfigNak)
             | Some IpcpTerminateRequest \<Rightarrow> (s, RcvTerminateReq)
             | Some IpcpTerminateAck \<Rightarrow> (s, RcvTerminateAck)
             | Some IpcpCodeReject \<Rightarrow> (s, RcvCodeRejPermitted)
             | None \<Rightarrow> (s, RcvUnknownCode)) in
      (ipcp_step_fsm s' event, ident))"

subsection \<open>Rendering\<close>

definition encode_protocol_packet :: "u16 \<Rightarrow> u8 \<Rightarrow> u8 \<Rightarrow> bytes \<Rightarrow> bytes" where
  "encode_protocol_packet protocol code identifier body =
     (let total = LCP_HEADER_LEN + length body in
      [ADDRESS_ALL_STATIONS, CONTROL_UI] @ be16 protocol @
      write_lcp_header code identifier (word_of_nat total) @ body)"

definition encode_lcp_frame :: "lcp_code \<Rightarrow> u8 \<Rightarrow> bytes \<Rightarrow> bytes" where
  "encode_lcp_frame code identifier body =
     encode_protocol_packet (protocol_as_u16 PidLcp) (lcp_code_as_u8 code) identifier body"

definition encode_ipcp_frame :: "ipcp_code \<Rightarrow> u8 \<Rightarrow> bytes \<Rightarrow> bytes" where
  "encode_ipcp_frame code identifier body =
     encode_protocol_packet (protocol_as_u16 PidIpcp) (ipcp_code_as_u8 code) identifier body"

text \<open>A send renders to at most one frame; the automaton's identifier is bumped for requests.\<close>

definition render_send :: "lcp_server \<Rightarrow> send option \<Rightarrow> lcp_server \<times> bytes list" where
  "render_send ls snd_op = (case snd_op of
     None \<Rightarrow> (ls, [])
   | Some SendConfigureRequest \<Rightarrow>
       (case bump_identifier (ls_fsm ls) of (f, ident) \<Rightarrow>
         (ls\<lparr>ls_fsm := f\<rparr>,
          [encode_lcp_frame LcpConfigureRequest ident (write_own_cr_options ls [])]))
   | Some SendConfigureAck \<Rightarrow>
       (ls, [encode_lcp_frame LcpConfigureAck (ls_last_cr_id ls) (ls_last_cr_options ls)])
   | Some SendConfigureNak \<Rightarrow>
       (ls, [encode_lcp_frame
               (if ls_pending_nak_is_reject ls then LcpConfigureReject else LcpConfigureNak)
               (ls_last_cr_id ls) (ls_pending_nak ls)])
   | Some SendTerminateReq \<Rightarrow>
       (case bump_identifier (ls_fsm ls) of (f, ident) \<Rightarrow>
         (ls\<lparr>ls_fsm := f\<rparr>, [encode_lcp_frame LcpTerminateRequest ident []]))
   | Some SendTerminateAck \<Rightarrow> (ls, [encode_lcp_frame LcpTerminateAck (ls_last_cr_id ls) []])
   | Some SendEchoReply \<Rightarrow>
       if ls_last_rxr_code ls \<noteq> lcp_code_as_u8 LcpEchoRequest then (ls, [])
       else (ls, [encode_lcp_frame LcpEchoReply (ls_last_echo_id ls)
                    ([0, 0, 0, 0] @
                     (if length (ls_last_echo_data ls) > 4 then drop 4 (ls_last_echo_data ls)
                      else []))])
   | Some SendCodeReject \<Rightarrow> (ls, []))"

definition render_ipcp_send :: "ipcp_server \<Rightarrow> send option \<Rightarrow> ipcp_server \<times> bytes list" where
  "render_ipcp_send s snd_op = (case snd_op of
     None \<Rightarrow> (s, [])
   | Some SendConfigureRequest \<Rightarrow>
       (case bump_identifier (is_fsm s) of (f, ident) \<Rightarrow>
         (s\<lparr>is_fsm := f\<rparr>,
          [encode_ipcp_frame IpcpConfigureRequest ident
             (push_v4_option [] (ipcp_option_as_u8 IpAddress) (is_local_ip s))]))
   | Some SendConfigureAck \<Rightarrow>
       (s, [encode_ipcp_frame IpcpConfigureAck (is_last_cr_id s) (is_last_cr_options s)])
   | Some SendConfigureNak \<Rightarrow>
       (s, [encode_ipcp_frame
              (if is_pending_nak_is_reject s then IpcpConfigureReject else IpcpConfigureNak)
              (is_last_cr_id s) (is_pending_nak s)])
   | Some SendTerminateReq \<Rightarrow>
       (case bump_identifier (is_fsm s) of (f, ident) \<Rightarrow>
         (s\<lparr>is_fsm := f\<rparr>, [encode_ipcp_frame IpcpTerminateRequest ident []]))
   | Some SendTerminateAck \<Rightarrow> (s, [encode_ipcp_frame IpcpTerminateAck (is_last_cr_id s) []])
   | Some SendCodeReject \<Rightarrow> (s, [])
   | Some SendEchoReply \<Rightarrow> (s, []))"

subsection \<open>Lists of parsed options\<close>

text \<open>What a loop over the option iterator sees: options, and possibly an error that ends it.\<close>

lemma parsed_options_cases:
  obtains (ok) opts where "xs = map Inr opts"
    | (err) opts e rest where "xs = map Inr opts @ Inl e # rest"
proof -
  have "(\<exists>opts. xs = map Inr opts) \<or> (\<exists>opts e rest. xs = map Inr opts @ Inl e # rest)"
  proof (induction xs)
    case Nil
    show ?case by (rule disjI1) (rule exI [of _ "[]"], simp)
  next
    case (Cons x xs)
    show ?case
    proof (cases x)
      case (Inl e)
      then show ?thesis by (metis append_Nil list.map_disc_iff)
    next
      case (Inr opt)
      with Cons.IH show ?thesis by (metis append_Cons list.simps(9))
    qed
  qed
  then show ?thesis using ok err by blast
qed

lemma push_option_own: "push_option buf (co_type opt) opt = buf @ encode_option opt"
  by (simp add: push_option_def encode_option_def)

lemma encode_option_ne [simp]: "encode_option opt \<noteq> []"
  by (simp add: encode_option_def)

subsection \<open>LCP: the policy\<close>

lemma lcp_classify_loop_append:
  "\<exists>mru'. lcp_classify_loop (map Inr opts @ rest) bad nak mru =
     lcp_classify_loop rest (bad \<or> list_ex (\<lambda>opt. \<not> lcp_accepts opt) opts)
       (nak @ concat (map encode_option (filter (\<lambda>opt. \<not> lcp_accepts opt) opts))) mru'"
proof (induction opts arbitrary: bad nak mru)
  case Nil
  show ?case by (rule exI [of _ mru]) simp
next
  case (Cons opt opts)
  let ?mru = "if co_typed opt = Some OptMru
      then (case as_mru opt of Inr m \<Rightarrow> Some m | Inl _ \<Rightarrow> mru) else mru"
  show ?case
  proof (cases "lcp_accepts opt")
    case True
    with Cons.IH [of bad nak ?mru] show ?thesis by simp
  next
    case False
    with Cons.IH [of True "push_option nak (co_type opt) opt" ?mru] show ?thesis
      by (simp add: push_option_own)
  qed
qed

lemma lcp_classify_wellformed:
  assumes "option_iter data = map Inr opts"
  shows "snd (lcp_classify_configure_request ls data) =
      (if list_all lcp_accepts opts then RcvConfigReqGood else RcvConfigReqBad)
    \<and> ls_pending_nak (fst (lcp_classify_configure_request ls data)) =
        concat (map encode_option (filter (\<lambda>opt. \<not> lcp_accepts opt) opts))
    \<and> ls_pending_nak_is_reject (fst (lcp_classify_configure_request ls data))"
proof -
  obtain mru' where "lcp_classify_loop (map Inr opts) False [] (ls_peer_mru ls) =
      (list_ex (\<lambda>opt. \<not> lcp_accepts opt) opts,
       concat (map encode_option (filter (\<lambda>opt. \<not> lcp_accepts opt) opts)), mru')"
    using lcp_classify_loop_append [of opts "[]" False "[]" "ls_peer_mru ls"] by auto
  then show ?thesis
    by (auto simp: lcp_classify_configure_request_def assms list_ex_iff list_all_iff)
qed

lemma lcp_classify_malformed:
  assumes "option_iter data = map Inr opts @ Inl e # rest"
  shows "snd (lcp_classify_configure_request ls data) = RcvConfigReqBad"
proof -
  obtain mru' nak where "lcp_classify_loop (option_iter data) False [] (ls_peer_mru ls) = (True, nak, mru')"
    using lcp_classify_loop_append [of opts "Inl e # rest" False "[]" "ls_peer_mru ls"]
    by (auto simp: assms)
  then show ?thesis by (simp add: lcp_classify_configure_request_def)
qed



subsection \<open>IPCP: the policy\<close>

text \<open>
  The policy of RFC 1332 and RFC 1877 as a verdict per option: the value the server holds for
  an address option, and acceptance, suggestion or rejection of what the client asks.
\<close>

datatype ipcp_verdict = IvAccept | IvNak bytes | IvReject

definition held_value :: "assigned_addrs \<Rightarrow> u8 \<Rightarrow> bytes option" where
  "held_value addrs ty =
     (if ty = 3 then Some (aa_ip addrs)
      else if ty = 129 then aa_dns1 addrs
      else if ty = 130 then aa_nbns1 addrs
      else if ty = 131 then aa_dns2 addrs
      else if ty = 132 then aa_nbns2 addrs
      else None)"

definition ipcp_verdict_of :: "assigned_addrs \<Rightarrow> config_option \<Rightarrow> ipcp_verdict" where
  "ipcp_verdict_of addrs opt =
     (case held_value addrs (co_type opt) of
        None \<Rightarrow> IvReject
      | Some v \<Rightarrow> if co_value opt = v then IvAccept else IvNak v)"

lemma ipcp_accept_iff:
  "ipcp_verdict_of addrs opt = IvAccept \<longleftrightarrow> held_value addrs (co_type opt) = Some (co_value opt)"
  by (cases "held_value addrs (co_type opt)") (auto simp: ipcp_verdict_of_def)

definition addrs_wf :: "assigned_addrs \<Rightarrow> bool" where
  "addrs_wf addrs \<longleftrightarrow> (\<forall>ty v. held_value addrs ty = Some v \<longrightarrow> length v = 4)"

lemma push_v4_option_eq:
  "length v = 4 \<Longrightarrow>
   push_v4_option buf ty v = buf @ encode_option \<lparr>co_type = ty, co_value = v\<rparr>"
  by (simp add: push_v4_option_def filled_def write_ipv4_option_def encode_option_def encoded_len_def
    write_at_def wire_defs)

lemma read_ipv4_value_iff: "length v = 4 \<Longrightarrow> read_ipv4_value x = Inr v \<longleftrightarrow> x = v"
  by (auto simp: read_ipv4_value_def wire_defs)

text \<open>One round of the classification loop, by verdict.\<close>

lemma ipcp_classify_loop_step:
  assumes wf: "addrs_wf addrs"
  shows "ipcp_classify_loop addrs (Inr opt # rest) nak rej =
    (case ipcp_verdict_of addrs opt of
       IvAccept \<Rightarrow> ipcp_classify_loop addrs rest nak rej
     | IvNak v \<Rightarrow> ipcp_classify_loop addrs rest
                   (nak @ encode_option \<lparr>co_type = co_type opt, co_value = v\<rparr>) rej
     | IvReject \<Rightarrow> ipcp_classify_loop addrs rest nak (rej @ encode_option opt))"
proof -
  have ip: "length (aa_ip addrs) = 4"
    and dns: "\<And>v. aa_dns1 addrs = Some v \<Longrightarrow> length v = 4" "\<And>v. aa_dns2 addrs = Some v \<Longrightarrow> length v = 4"
    "\<And>v. aa_nbns1 addrs = Some v \<Longrightarrow> length v = 4" "\<And>v. aa_nbns2 addrs = Some v \<Longrightarrow> length v = 4"
    using wf [unfolded addrs_wf_def held_value_def, rule_format, of 3]
      wf [unfolded addrs_wf_def held_value_def, rule_format, of 129]
      wf [unfolded addrs_wf_def held_value_def, rule_format, of 130]
      wf [unfolded addrs_wf_def held_value_def, rule_format, of 131]
      wf [unfolded addrs_wf_def held_value_def, rule_format, of 132] by simp_all
  note push = push_option_own [of _ opt]
  consider "co_type opt = 3" | "co_type opt = 129" | "co_type opt = 130" | "co_type opt = 131"
    | "co_type opt = 132" | "co_type opt = 2" | "co_type opt = 4"
    | "co_type opt \<notin> {2, 3, 4, 129, 130, 131, 132}" by auto
  then show ?thesis
    by cases
      (use push in \<open>simp_all add: ipcp_option_from_u8_def ipcp_verdict_of_def held_value_def
        handle_optional_dns_like_def read_ipv4_value_iff ip dns push_v4_option_eq push_option_def
        split: option.split\<close>)
qed

definition nak_options :: "assigned_addrs \<Rightarrow> config_option list \<Rightarrow> config_option list" where
  "nak_options addrs opts =
     List.map_filter (\<lambda>opt. case ipcp_verdict_of addrs opt of
       IvNak v \<Rightarrow> Some \<lparr>co_type = co_type opt, co_value = v\<rparr> | _ \<Rightarrow> None) opts"

definition reject_options :: "assigned_addrs \<Rightarrow> config_option list \<Rightarrow> config_option list" where
  "reject_options addrs opts = filter (\<lambda>opt. ipcp_verdict_of addrs opt = IvReject) opts"

lemma ipcp_classify_loop_append:
  assumes "addrs_wf addrs"
  shows "ipcp_classify_loop addrs (map Inr opts @ rest) nak rej =
    ipcp_classify_loop addrs rest (nak @ concat (map encode_option (nak_options addrs opts)))
      (rej @ concat (map encode_option (reject_options addrs opts)))"
  by (induction opts arbitrary: nak rej)
    (simp_all add: ipcp_classify_loop_step [OF assms] nak_options_def reject_options_def
      List.map_filter_simps del: ipcp_classify_loop.simps(3) split: ipcp_verdict.split)

lemma ipcp_classify_wellformed:
  assumes wf: "addrs_wf (is_addrs s)" and it: "option_iter data = map Inr opts"
  shows "ipcp_classify_configure_request s data =
    (let s0 = s\<lparr>is_pending_nak := [], is_pending_nak_is_reject := False\<rparr>;
         rej = reject_options (is_addrs s) opts; nak = nak_options (is_addrs s) opts in
     if rej \<noteq> [] then (s0\<lparr>is_pending_nak := concat (map encode_option rej),
                         is_pending_nak_is_reject := True\<rparr>, RcvConfigReqBad)
     else if nak \<noteq> [] then (s0\<lparr>is_pending_nak := concat (map encode_option nak),
                         is_pending_nak_is_reject := False\<rparr>, RcvConfigReqBad)
     else (s0, RcvConfigReqGood))"
proof -
  have "ipcp_classify_loop (is_addrs s) (map Inr opts) [] [] =
      Some (concat (map encode_option (nak_options (is_addrs s) opts)),
            concat (map encode_option (reject_options (is_addrs s) opts)))"
    using ipcp_classify_loop_append [OF wf, of opts "[]" "[]" "[]"] by simp
  moreover have "concat (map encode_option xs) = [] \<longleftrightarrow> xs = []" for xs
    by (cases xs) simp_all
  ultimately show ?thesis
    by (simp add: ipcp_classify_configure_request_def it Let_def)
qed

lemma ipcp_classify_malformed:
  assumes "addrs_wf (is_addrs s)" and "option_iter data = map Inr opts @ Inl e # rest"
  shows "ipcp_classify_configure_request s data =
    (s\<lparr>is_pending_nak := [], is_pending_nak_is_reject := False\<rparr>, RcvConfigReqBad)"
  using ipcp_classify_loop_append [OF assms(1), of opts "Inl e # rest" "[]" "[]"]
  by (simp add: ipcp_classify_configure_request_def assms(2))

lemma all_accepted_iff:
  "reject_options addrs opts = [] \<and> nak_options addrs opts = [] \<longleftrightarrow>
   list_all (\<lambda>opt. ipcp_verdict_of addrs opt = IvAccept) opts"
  by (induction opts)
    (auto simp: reject_options_def nak_options_def List.map_filter_simps split: ipcp_verdict.splits)

text \<open>
  C7 (safety).  The IPCP server acknowledges a Configure-Request only if every option in it is
  an address option that carries the very value the authentication backend assigned; hence a
  client can never have an address of its own choosing acknowledged.  A malformed request is
  never acknowledged.
\<close>

theorem ipcp_ack_only_assigned:
  assumes "addrs_wf (is_addrs s)"
  shows "snd (ipcp_classify_configure_request s data) = RcvConfigReqGood \<longleftrightarrow>
    (\<exists>opts. data = concat (map encode_option opts) \<and> list_all option_fits opts
       \<and> (\<forall>opt \<in> set opts. held_value (is_addrs s) (co_type opt) = Some (co_value opt)))"
proof -
  have acc: "list_all (\<lambda>opt. ipcp_verdict_of (is_addrs s) opt = IvAccept) opts \<longleftrightarrow>
      (\<forall>opt \<in> set opts. held_value (is_addrs s) (co_type opt) = Some (co_value opt))" for opts
    by (simp add: list_all_iff ipcp_accept_iff)
  show ?thesis
  proof (cases "option_iter data" rule: parsed_options_cases)
    case (ok opts)
    have "option_iter data = map Inr opts' \<longleftrightarrow> opts' = opts" for opts'
      unfolding ok by (auto dest: map_injective simp: inj_on_def)
    then have "data = concat (map encode_option opts') \<and> list_all option_fits opts' \<longleftrightarrow> opts' = opts"
      for opts' by (simp only: lcp_options.collect_eq_iff conj_commute)
    then have "(\<exists>opts'. data = concat (map encode_option opts') \<and> list_all option_fits opts'
         \<and> (\<forall>opt \<in> set opts'. held_value (is_addrs s) (co_type opt) = Some (co_value opt)))
      \<longleftrightarrow> (\<forall>opt \<in> set opts. held_value (is_addrs s) (co_type opt) = Some (co_value opt))"
      by (simp only: conj_assoc [symmetric] simp_thms)
    moreover have "snd (ipcp_classify_configure_request s data) = RcvConfigReqGood \<longleftrightarrow>
        reject_options (is_addrs s) opts = [] \<and> nak_options (is_addrs s) opts = []"
      by (simp add: ipcp_classify_wellformed [OF assms ok] Let_def)
    ultimately show ?thesis by (simp only: all_accepted_iff acc)
  next
    case (err opts e rest)
    have "option_iter data \<noteq> map Inr opts'" for opts' :: "config_option list"
    proof
      assume "option_iter data = map Inr opts'"
      then have "Inl e \<in> set (map Inr opts' :: (lcp_packet_error + config_option) list)"
        using err by (metis in_set_conv_decomp)
      then show False by auto
    qed
    then have "\<not> (data = concat (map encode_option opts') \<and> list_all option_fits opts')" for opts'
      by (simp only: lcp_options.collect_eq_iff conj_commute not_False_eq_True)
    then show ?thesis using ipcp_classify_malformed [OF assms err] by auto
  qed
qed

text \<open>The address assignment of a client, for the witnesses.\<close>

definition sample_addrs :: assigned_addrs where
  "sample_addrs = \<lparr>aa_ip = [10, 0, 0, 2], aa_mtu = Some 1400, aa_dns1 = Some [8, 8, 8, 8],
     aa_dns2 = None, aa_nbns1 = None, aa_nbns2 = None\<rparr>"

lemma sample_addrs_wf: "addrs_wf sample_addrs"
  by (auto simp: addrs_wf_def held_value_def sample_addrs_def split: if_splits)

theorem ipcp_ack_only_assigned_witness:
  "addrs_wf (is_addrs (ipcp_server_new sample_addrs [10, 0, 0, 1]))
   \<and> snd (ipcp_classify_configure_request (ipcp_server_new sample_addrs [10, 0, 0, 1])
        (encode_option \<lparr>co_type = 3, co_value = [10, 0, 0, 2]\<rparr>)) = RcvConfigReqGood"
proof -
  let ?s = "ipcp_server_new sample_addrs [10, 0, 0, 1]"
  have wf: "addrs_wf (is_addrs ?s)" by (simp add: ipcp_server_new_def sample_addrs_wf)
  have "snd (ipcp_classify_configure_request ?s
      (encode_option \<lparr>co_type = 3, co_value = [10, 0, 0, 2]\<rparr>)) = RcvConfigReqGood"
    by (rule ipcp_ack_only_assigned [OF wf, THEN iffD2],
        rule exI [of _ "[\<lparr>co_type = 3, co_value = [10, 0, 0, 2]\<rparr>]"])
      (simp add: option_fits_def encoded_len_def wire_defs held_value_def ipcp_server_new_def
        sample_addrs_def)
  with wf show ?thesis by blast
qed

text \<open>What a cooperative client asks next: rejected options dropped, suggestions adopted.\<close>

definition adopt :: "assigned_addrs \<Rightarrow> config_option list \<Rightarrow> config_option list" where
  "adopt addrs opts =
     map (\<lambda>opt. case ipcp_verdict_of addrs opt of
            IvNak v \<Rightarrow> opt\<lparr>co_value := v\<rparr> | _ \<Rightarrow> opt)
       (filter (\<lambda>opt. ipcp_verdict_of addrs opt \<noteq> IvReject) opts)"

lemma adopt_accepted: "list_all (\<lambda>opt. ipcp_verdict_of addrs opt = IvAccept) (adopt addrs opts)"
  by (auto simp: adopt_def list_all_iff ipcp_verdict_of_def split: ipcp_verdict.splits option.splits
    if_splits)

lemma adopt_fits:
  assumes "addrs_wf addrs" and "list_all option_fits opts"
  shows "list_all option_fits (adopt addrs opts)"
proof -
  have "option_fits (opt\<lparr>co_value := v\<rparr>)" if "ipcp_verdict_of addrs opt = IvNak v" for opt v
  proof -
    have "length v = 4"
      using that assms(1) by (auto simp: ipcp_verdict_of_def addrs_wf_def split: option.splits if_splits)
    then show ?thesis by (simp add: option_fits_def encoded_len_def wire_defs)
  qed
  with assms(2) show ?thesis by (auto simp: adopt_def list_all_iff split: ipcp_verdict.splits)
qed

text \<open>
  C28 (liveness).  IPCP negotiation converges with a cooperative client: if it sends a
  well-formed request, the server's answer is a Reject of exactly the options the server has no
  value for, or else a Nak that carries the held value of every option that differs, or else an
  Ack; and the request that drops the rejected options and adopts the suggested values is
  acknowledged.
\<close>

theorem ipcp_converges:
  assumes wf: "addrs_wf (is_addrs s)" and fits: "list_all option_fits opts"
  shows "(let (s', ev) = ipcp_classify_configure_request s (concat (map encode_option opts)) in
      if reject_options (is_addrs s) opts \<noteq> [] then
        ev = RcvConfigReqBad \<and> is_pending_nak_is_reject s'
        \<and> option_iter (is_pending_nak s') = map Inr (reject_options (is_addrs s) opts)
      else if nak_options (is_addrs s) opts \<noteq> [] then
        ev = RcvConfigReqBad \<and> \<not> is_pending_nak_is_reject s'
        \<and> is_pending_nak s' = concat (map encode_option (nak_options (is_addrs s) opts))
      else ev = RcvConfigReqGood)
    \<and> snd (ipcp_classify_configure_request s
        (concat (map encode_option (adopt (is_addrs s) opts)))) = RcvConfigReqGood"
proof
  have it: "option_iter (concat (map encode_option opts)) = map Inr opts"
    using fits by (rule lcp_options.collect_encs)
  have "list_all option_fits (reject_options (is_addrs s) opts)"
    using fits by (auto simp: reject_options_def list_all_iff)
  then show "let (s', ev) = ipcp_classify_configure_request s (concat (map encode_option opts)) in
      if reject_options (is_addrs s) opts \<noteq> [] then
        ev = RcvConfigReqBad \<and> is_pending_nak_is_reject s'
        \<and> option_iter (is_pending_nak s') = map Inr (reject_options (is_addrs s) opts)
      else if nak_options (is_addrs s) opts \<noteq> [] then
        ev = RcvConfigReqBad \<and> \<not> is_pending_nak_is_reject s'
        \<and> is_pending_nak s' = concat (map encode_option (nak_options (is_addrs s) opts))
      else ev = RcvConfigReqGood"
    by (simp add: ipcp_classify_wellformed [OF wf it] Let_def lcp_options.collect_encs)
  have it': "option_iter (concat (map encode_option (adopt (is_addrs s) opts))) =
      map Inr (adopt (is_addrs s) opts)"
    by (rule lcp_options.collect_encs) (rule adopt_fits [OF wf fits])
  have "reject_options (is_addrs s) (adopt (is_addrs s) opts) = []"
    "nak_options (is_addrs s) (adopt (is_addrs s) opts) = []"
    using adopt_accepted all_accepted_iff by blast+
  then show "snd (ipcp_classify_configure_request s
        (concat (map encode_option (adopt (is_addrs s) opts)))) = RcvConfigReqGood"
    by (simp add: ipcp_classify_wellformed [OF wf it'] Let_def)
qed

theorem ipcp_converges_witness:
  "let s = ipcp_server_new sample_addrs [10, 0, 0, 1];
       opts = [\<lparr>co_type = 3, co_value = [0, 0, 0, 0]\<rparr>, \<lparr>co_type = 131, co_value = [0, 0, 0, 0]\<rparr>] in
   addrs_wf (is_addrs s) \<and> list_all option_fits opts
   \<and> snd (ipcp_classify_configure_request s
        (concat (map encode_option (adopt (is_addrs s) opts)))) = RcvConfigReqGood"
proof -
  let ?s = "ipcp_server_new sample_addrs [10, 0, 0, 1]"
  let ?opts = "[\<lparr>co_type = 3, co_value = [0, 0, 0, 0]\<rparr>, \<lparr>co_type = 131, co_value = [0, 0, 0, 0]\<rparr>]
    :: config_option list"
  have wf: "addrs_wf (is_addrs ?s)" by (simp add: ipcp_server_new_def sample_addrs_wf)
  have f: "list_all option_fits ?opts" by (simp add: option_fits_def encoded_len_def wire_defs)
  from ipcp_converges [OF wf f] wf f show ?thesis unfolding Let_def by blast
qed

subsection \<open>Rendered packets\<close>

lemma own_auth_protocol_length:
  "length (own_auth_protocol m) = (if m = AmPap then 2 else 3)"
  by (cases m) (simp_all add: own_auth_protocol_def auth_protocol_pap_def auth_protocol_chap_md5_def
    auth_protocol_mschapv2_def)

lemma own_cr_options_fits:
  "write_option (replicate (LCP_OPT_HEADER_LEN + (if m = AmPap then 2 else 3)) 0) ty
     (own_auth_protocol m) \<noteq> None"
  by (simp add: write_option_def own_auth_protocol_length Let_def)

lemma write_own_cr_options_eq:
  "write_own_cr_options ls buf =
     buf @ encode_option \<lparr>co_type = 3, co_value = own_auth_protocol (ls_auth_method ls)\<rparr>"
  by (simp add: write_own_cr_options_def filled_def write_option_def encode_option_def
    encoded_len_def own_auth_protocol_length write_at_def wire_defs)

lemma length_encode_protocol_packet [simp]:
  "length (encode_protocol_packet pr c i body) = 8 + length body"
  by (simp add: encode_protocol_packet_def write_lcp_header_def)

lemma encode_protocol_packet_decodes:
  assumes "good_parity pr" and "4 + length body < 65536"
  shows "\<exists>info. decode_frame (encode_protocol_packet pr c i body) = Inr \<lparr>pf_protocol = pr, pf_info = info\<rparr>
    \<and> decode_lcp_packet info = Inr \<lparr>lp_code = c, lp_identifier = i, lp_data = body\<rparr>"
proof -
  let ?n = "LCP_HEADER_LEN + length body"
  let ?info = "write_lcp_header c i (word_of_nat ?n) @ body"
  obtain a b where ab: "be16 pr = [a, b]" "from_be16 a b = pr" using be16_split by blast
  have e: "encode_protocol_packet pr c i body = 0xFF # 0x03 # a # b # ?info"
    by (simp only: encode_protocol_packet_def ab Let_def wire_defs append.simps)
  have "decode_frame (encode_protocol_packet pr c i body) = Inr \<lparr>pf_protocol = pr, pf_info = ?info\<rparr>"
    unfolding e using decode_frame_wide(2) [of a b ?info] assms(1) by (simp only: ab)
  moreover have "decode_lcp_packet ?info = Inr \<lparr>lp_code = c, lp_identifier = i, lp_data = body\<rparr>"
    using decode_lcp_packet_encode [of ?n body c i "[]"] assms(2)
    by (simp only: append_Nil2) (simp add: wire_defs)
  ultimately show ?thesis by blast
qed

end
