(* ===== verification/Ppp_Auth.thy ===== *)
theory Ppp_Auth
  imports Ppp_Frame
begin

text \<open>
  The authentication packet codecs of \<open>src/src/ppp/auth.rs\<close>: PAP, CHAP (with the MS-CHAPv2
  layout of its value) and EAP.  Encoders take the caller's buffer; \<open>None\<close> is the panic of one
  of their \<open>assert!\<close>s.
\<close>

datatype auth_error =
    AuthTruncated nat nat
  | AuthLengthTooSmall nat
  | AuthLengthExceedsBuffer nat nat
  | UnexpectedCode u8 u8

definition AUTH_HEADER_LEN :: nat where
  [wire_defs]: "AUTH_HEADER_LEN = 4"

subsection \<open>PAP\<close>

datatype pap_code = PapAuthenticateRequest | PapAuthenticateAck | PapAuthenticateNak

definition pap_code_from_u8 :: "u8 \<Rightarrow> pap_code option" where
  "pap_code_from_u8 v =
     (if v = 1 then Some PapAuthenticateRequest
      else if v = 2 then Some PapAuthenticateAck
      else if v = 3 then Some PapAuthenticateNak
      else None)"

fun pap_code_as_u8 :: "pap_code \<Rightarrow> u8" where
  "pap_code_as_u8 PapAuthenticateRequest = 1"
| "pap_code_as_u8 PapAuthenticateAck = 2"
| "pap_code_as_u8 PapAuthenticateNak = 3"

record authenticate_request =
  ar_identifier :: u8
  ar_peer_id :: bytes
  ar_password :: bytes

definition pap_decode_header :: "bytes \<Rightarrow> pap_code \<Rightarrow> auth_error + (u8 \<times> bytes)" where
  "pap_decode_header buf expect =
     (if length buf < AUTH_HEADER_LEN then Inl (AuthTruncated AUTH_HEADER_LEN (length buf))
      else
        let code = buf ! 0 in
        if code \<noteq> pap_code_as_u8 expect then Inl (UnexpectedCode (pap_code_as_u8 expect) code)
        else
          let identifier = buf ! 1;
              len = unat (from_be16 (buf ! 2) (buf ! 3)) in
          if len < AUTH_HEADER_LEN then Inl (AuthLengthTooSmall len)
          else if len > length buf then Inl (AuthLengthExceedsBuffer len (length buf))
          else Inr (identifier, slice AUTH_HEADER_LEN len buf))"

definition decode_authenticate_request :: "bytes \<Rightarrow> auth_error + authenticate_request" where
  "decode_authenticate_request buf =
     try_bind (pap_decode_header buf PapAuthenticateRequest) (\<lambda>(identifier, body).
       if body = [] then Inl (AuthTruncated 1 0)
       else
         let peer_len = unat (body ! 0) in
         if length body < 1 + peer_len + 1 then Inl (AuthTruncated (1 + peer_len + 1) (length body))
         else
           let peer_id = slice 1 (peer_len + 1) body;
               pw_off = 1 + peer_len;
               pw_len = unat (body ! pw_off);
               pw_start = pw_off + 1 in
           if length body < pw_start + pw_len
           then Inl (AuthTruncated (pw_start + pw_len) (length body))
           else Inr \<lparr>ar_identifier = identifier, ar_peer_id = peer_id,
                     ar_password = slice pw_start (pw_start + pw_len) body\<rparr>)"

definition pap_encode_response ::
    "bytes \<Rightarrow> pap_code \<Rightarrow> u8 \<Rightarrow> bytes \<Rightarrow> (bytes \<times> nat) option" where
  "pap_encode_response out code identifier message =
     (if code \<notin> {PapAuthenticateAck, PapAuthenticateNak} then None
      else
        let msg_len = length message;
            total = AUTH_HEADER_LEN + 1 + msg_len in
        if length out < total then None
        else if msg_len > 255 then None
        else if total > 65535 then None
        else Some (write_at 0 ([pap_code_as_u8 code, identifier] @ be16 (word_of_nat total) @
                               [word_of_nat msg_len] @ message) out, total))"

subsection \<open>CHAP\<close>

datatype chap_code = ChapChallenge | ChapResponse | ChapSuccess | ChapFailure

definition chap_code_from_u8 :: "u8 \<Rightarrow> chap_code option" where
  "chap_code_from_u8 v =
     (if v = 1 then Some ChapChallenge
      else if v = 2 then Some ChapResponse
      else if v = 3 then Some ChapSuccess
      else if v = 4 then Some ChapFailure
      else None)"

fun chap_code_as_u8 :: "chap_code \<Rightarrow> u8" where
  "chap_code_as_u8 ChapChallenge = 1"
| "chap_code_as_u8 ChapResponse = 2"
| "chap_code_as_u8 ChapSuccess = 3"
| "chap_code_as_u8 ChapFailure = 4"

record challenge_response =
  cr_identifier :: u8
  cr_value :: bytes
  cr_name :: bytes

definition chap_decode_header :: "bytes \<Rightarrow> u8 list \<Rightarrow> auth_error + (u8 \<times> bytes)" where
  "chap_decode_header buf accept =
     (if length buf < AUTH_HEADER_LEN then Inl (AuthTruncated AUTH_HEADER_LEN (length buf))
      else
        let code = buf ! 0 in
        if \<not> List.member accept code then Inl (UnexpectedCode (accept ! 0) code)
        else
          let identifier = buf ! 1;
              len = unat (from_be16 (buf ! 2) (buf ! 3)) in
          if len < AUTH_HEADER_LEN then Inl (AuthLengthTooSmall len)
          else if len > length buf then Inl (AuthLengthExceedsBuffer len (length buf))
          else Inr (identifier, slice AUTH_HEADER_LEN len buf))"

definition decode_challenge_response :: "bytes \<Rightarrow> auth_error + challenge_response" where
  "decode_challenge_response buf =
     try_bind (chap_decode_header buf [chap_code_as_u8 ChapChallenge, chap_code_as_u8 ChapResponse])
       (\<lambda>(identifier, body).
       if body = [] then Inl (AuthTruncated 1 0)
       else
         let value_size = unat (body ! 0) in
         if length body < 1 + value_size then Inl (AuthTruncated (1 + value_size) (length body))
         else Inr \<lparr>cr_identifier = identifier,
                   cr_value = slice 1 (value_size + 1) body,
                   cr_name = drop (1 + value_size) body\<rparr>)"

definition encode_challenge_response ::
    "bytes \<Rightarrow> chap_code \<Rightarrow> u8 \<Rightarrow> bytes \<Rightarrow> bytes \<Rightarrow> (bytes \<times> nat) option" where
  "encode_challenge_response out code identifier value name =
     (if code \<notin> {ChapChallenge, ChapResponse} then None
      else
        let total = AUTH_HEADER_LEN + 1 + length value + length name in
        if length out < total then None
        else if length value > 255 then None
        else if total > 65535 then None
        else Some (write_at 0 ([chap_code_as_u8 code, identifier] @ be16 (word_of_nat total) @
                               [word_of_nat (length value)] @ value @ name) out, total))"

definition chap_encode_terminal ::
    "bytes \<Rightarrow> chap_code \<Rightarrow> u8 \<Rightarrow> bytes \<Rightarrow> (bytes \<times> nat) option" where
  "chap_encode_terminal out code identifier message =
     (if code \<notin> {ChapSuccess, ChapFailure} then None
      else
        let total = AUTH_HEADER_LEN + length message in
        if length out < total then None
        else if total > 65535 then None
        else Some (write_at 0 ([chap_code_as_u8 code, identifier] @ be16 (word_of_nat total) @
                               message) out, total))"

subsection \<open>EAP\<close>

datatype eap_code = EapRequest | EapResponse | EapSuccess | EapFailure

definition eap_code_from_u8 :: "u8 \<Rightarrow> eap_code option" where
  "eap_code_from_u8 v =
     (if v = 1 then Some EapRequest
      else if v = 2 then Some EapResponse
      else if v = 3 then Some EapSuccess
      else if v = 4 then Some EapFailure
      else None)"

fun eap_code_as_u8 :: "eap_code \<Rightarrow> u8" where
  "eap_code_as_u8 EapRequest = 1"
| "eap_code_as_u8 EapResponse = 2"
| "eap_code_as_u8 EapSuccess = 3"
| "eap_code_as_u8 EapFailure = 4"

record eap_packet =
  ep_code :: u8
  ep_identifier :: u8
  ep_payload :: bytes

definition eap_typed :: "eap_packet \<Rightarrow> (u8 \<times> bytes) option" where
  "eap_typed p =
     (case eap_code_from_u8 (ep_code p) of
        None \<Rightarrow> None
      | Some EapRequest \<Rightarrow> (case ep_payload p of [] \<Rightarrow> None | t # d \<Rightarrow> Some (t, d))
      | Some EapResponse \<Rightarrow> (case ep_payload p of [] \<Rightarrow> None | t # d \<Rightarrow> Some (t, d))
      | Some EapSuccess \<Rightarrow> None
      | Some EapFailure \<Rightarrow> None)"

definition eap_decode :: "bytes \<Rightarrow> auth_error + eap_packet" where
  "eap_decode buf =
     (if length buf < AUTH_HEADER_LEN then Inl (AuthTruncated AUTH_HEADER_LEN (length buf))
      else
        let code = buf ! 0;
            identifier = buf ! 1;
            len = unat (from_be16 (buf ! 2) (buf ! 3)) in
        if len < AUTH_HEADER_LEN then Inl (AuthLengthTooSmall len)
        else if len > length buf then Inl (AuthLengthExceedsBuffer len (length buf))
        else Inr \<lparr>ep_code = code, ep_identifier = identifier,
                  ep_payload = slice AUTH_HEADER_LEN len buf\<rparr>)"

definition eap_encode_request_response ::
    "bytes \<Rightarrow> eap_code \<Rightarrow> u8 \<Rightarrow> u8 \<Rightarrow> bytes \<Rightarrow> (bytes \<times> nat) option" where
  "eap_encode_request_response out code identifier type_code type_data =
     (if code \<notin> {EapRequest, EapResponse} then None
      else
        let total = AUTH_HEADER_LEN + 1 + length type_data in
        if length out < total then None
        else if total > 65535 then None
        else Some (write_at 0 ([eap_code_as_u8 code, identifier] @ be16 (word_of_nat total) @
                               [type_code] @ type_data) out, total))"

definition eap_encode_terminal :: "bytes \<Rightarrow> eap_code \<Rightarrow> u8 \<Rightarrow> (bytes \<times> nat) option" where
  "eap_encode_terminal out code identifier =
     (if code \<notin> {EapSuccess, EapFailure} then None
      else if length out < AUTH_HEADER_LEN then None
      else Some (write_at 0 ([eap_code_as_u8 code, identifier] @
                             be16 (word_of_nat AUTH_HEADER_LEN)) out, AUTH_HEADER_LEN))"

subsection \<open>Properties\<close>

text \<open>The three header decoders on a packet whose header declares its length.\<close>

lemma declared_length:
  assumes "n < 65536"
  obtains a b where "be16 (word_of_nat n) = [a, b]" and "unat (from_be16 a b) = n"
proof -
  obtain a b where ab: "be16 (word_of_nat n) = [a, b]" "from_be16 a b = word_of_nat n"
    using be16_split by blast
  with assms that show ?thesis by (simp only: unat_of_nat_u16)
qed

lemma pap_decode_header_encode:
  assumes "n = 4 + length body" and "n < 65536"
  shows "pap_decode_header ([pap_code_as_u8 c, i] @ be16 (word_of_nat n) @ body @ pad) c =
    Inr (i, body)"
proof -
  obtain a b where ab: "be16 (word_of_nat n) = [a, b]" "unat (from_be16 a b) = n"
    using declared_length [OF assms(2)] by blast
  have "pap_decode_header ([pap_code_as_u8 c, i] @ [a, b] @ body @ pad) c = Inr (i, body)"
    using assms(1) ab(2) by (simp add: pap_decode_header_def wire_defs slice_def)
  then show ?thesis by (simp only: ab(1))
qed

lemma chap_decode_header_encode:
  assumes "n = 4 + length body" and "n < 65536" and "List.member accept c"
  shows "chap_decode_header ([c, i] @ be16 (word_of_nat n) @ body @ pad) accept = Inr (i, body)"
proof -
  obtain a b where ab: "be16 (word_of_nat n) = [a, b]" "unat (from_be16 a b) = n"
    using declared_length [OF assms(2)] by blast
  have "chap_decode_header ([c, i] @ [a, b] @ body @ pad) accept = Inr (i, body)"
    using assms(1,3) ab(2) by (simp add: chap_decode_header_def wire_defs slice_def)
  then show ?thesis by (simp only: ab(1))
qed

text \<open>
  A PAP Authenticate-Request laid out as RFC 1334 prescribes decodes to its
  identifier, user name and password, exactly, whatever trails it.
\<close>

theorem pap_request_decodes:
  assumes "length peer \<le> 255" and "length pw \<le> 255"
  shows "decode_authenticate_request
      ([1, i] @ be16 (word_of_nat (6 + length peer + length pw)) @
       ([word_of_nat (length peer)] @ peer @ [word_of_nat (length pw)] @ pw) @ pad) =
    Inr \<lparr>ar_identifier = i, ar_peer_id = peer, ar_password = pw\<rparr>"
proof -
  let ?body = "[word_of_nat (length peer)] @ peer @ [word_of_nat (length pw)] @ pw"
  have h: "pap_decode_header ([pap_code_as_u8 PapAuthenticateRequest, i] @
      be16 (word_of_nat (6 + length peer + length pw)) @ ?body @ pad) PapAuthenticateRequest
      = Inr (i, ?body)"
    by (rule pap_decode_header_encode) (use assms in simp_all)
  have "unat (word_of_nat (length peer) :: u8) = length peer"
    "unat (word_of_nat (length pw) :: u8) = length pw"
    using assms by (simp_all add: unat_of_nat_u8)
  then show ?thesis
    using h by (simp add: decode_authenticate_request_def slice_def nth_append Let_def)
qed

text \<open>
  A CHAP Challenge or Response written by \<open>encode_challenge_response\<close> into
  any sufficient buffer decodes to the same identifier, value and name.
\<close>

theorem chap_challenge_roundtrip:
  assumes "c \<in> {ChapChallenge, ChapResponse}" and "length v \<le> 255"
    and "5 + length v + length nm \<le> 65535" and "5 + length v + length nm \<le> length out"
  shows "\<exists>out'. encode_challenge_response out c i v nm = Some (out', 5 + length v + length nm)
    \<and> length out' = length out
    \<and> decode_challenge_response (take (5 + length v + length nm) out') =
        Inr \<lparr>cr_identifier = i, cr_value = v, cr_name = nm\<rparr>"
proof -
  let ?n = "5 + length v + length nm"
  let ?body = "[word_of_nat (length v)] @ v @ nm"
  let ?pkt = "[chap_code_as_u8 c, i] @ be16 (word_of_nat ?n) @ ?body"
  have "encode_challenge_response out c i v nm = Some (write_at 0 ?pkt out, ?n)"
    using assms by (auto simp: encode_challenge_response_def wire_defs Let_def)
  moreover have "take ?n (write_at 0 ?pkt out) = ?pkt"
    using assms(4) by (intro take_write_at) simp_all
  moreover have "length (write_at 0 ?pkt out) = length out" using assms(4) by simp
  moreover have "decode_challenge_response ?pkt = Inr \<lparr>cr_identifier = i, cr_value = v, cr_name = nm\<rparr>"
  proof -
    have "chap_decode_header ([chap_code_as_u8 c, i] @ be16 (word_of_nat ?n) @ ?body @ [])
        [chap_code_as_u8 ChapChallenge, chap_code_as_u8 ChapResponse] = Inr (i, ?body)"
      by (rule chap_decode_header_encode) (use assms in auto)
    moreover have "unat (word_of_nat (length v) :: u8) = length v"
      using assms(2) by (simp add: unat_of_nat_u8)
    ultimately show ?thesis by (simp add: decode_challenge_response_def slice_def Let_def)
  qed
  ultimately show ?thesis by metis
qed

end
