(* ===== verification/Ppp_Driver.thy ===== *)
theory Ppp_Driver
  imports Ppp_Negotiation Ppp_Auth "HOL-Library.Monad_Syntax"
begin

text \<open>
  The PPP orchestrator of \<open>src/src/ppp/driver.rs\<close> (\<open>Ppp\<close>): it demultiplexes inbound frames by
  phase, drives LCP, authentication and IPCP, and returns the frames, timers and events of a
  step.  The result is \<open>None\<close> when an assertion or an \<open>expect\<close> of the code fails.  The 16 bytes
  drawn for a CHAP challenge are an argument of the operations that may draw them.
\<close>

subsection \<open>Data\<close>

datatype timer_owner = OwnerLcp | OwnerIpcp

datatype ppp_event =
    NeedPapAuth bytes bytes
  | NeedChapAuth bytes u8 bytes bytes
  | NeedMsChapV2Auth bytes u8 bytes bytes bytes u8
  | NetworkUp assigned_addrs

record ppp_step =
  ps_frames :: "bytes list"
  ps_timer_starts :: "(timer_owner \<times> nat) list"
  ps_timer_stops :: "timer_owner list"
  ps_event :: "ppp_event option"
  ps_finished :: bool

definition ppp_step_default :: ppp_step where
  "ppp_step_default = \<lparr>ps_frames = [], ps_timer_starts = [], ps_timer_stops = [],
                       ps_event = None, ps_finished = False\<rparr>"

definition push_frame :: "bytes \<Rightarrow> ppp_step \<Rightarrow> ppp_step" where
  "push_frame frame step = step\<lparr>ps_frames := ps_frames step @ [frame]\<rparr>"

datatype auth_verdict = Accept assigned_addrs | Reject bytes

datatype in_flight_method = IfPap u8 | IfChap u8 | IfMsChapV2 u8

datatype phase = Establish | AuthPending | AuthInFlight in_flight_method | Network | Dead

record ppp =
  ppp_phase :: phase
  ppp_lcp :: lcp_server
  ppp_ipcp :: "ipcp_server option"
  ppp_pending_addrs :: "assigned_addrs option"
  ppp_local_ip :: bytes
  ppp_chap_challenge :: "bytes option"
  ppp_chap_id_counter :: u8
  ppp_lcp_extra_id_counter :: u8

definition ppp_new :: "bytes \<Rightarrow> auth_method \<Rightarrow> ppp" where
  "ppp_new local_ip auth_method =
     \<lparr>ppp_phase = Establish, ppp_lcp = lcp_server_new auth_method, ppp_ipcp = None,
      ppp_pending_addrs = None, ppp_local_ip = local_ip, ppp_chap_challenge = None,
      ppp_chap_id_counter = 0, ppp_lcp_extra_id_counter = 0\<rparr>"

subsection \<open>Frame encoders\<close>

definition truncated :: "bytes \<times> nat \<Rightarrow> bytes" where
  "truncated r = take (snd r) (fst r)"

definition encode_pap_frame :: "bytes \<Rightarrow> bytes option" where
  "encode_pap_frame packet =
     map_option truncated
       (encode_frame (replicate (4 + length packet) 0) (protocol_as_u16 PidPap) packet)"

definition encode_chap_frame :: "bytes \<Rightarrow> bytes option" where
  "encode_chap_frame packet =
     map_option truncated
       (encode_frame (replicate (4 + length packet) 0) (protocol_as_u16 PidChap) packet)"

definition SERVER_NAME :: bytes where
  "SERVER_NAME = map (\<lambda>c. of_char c) ''sstp-server''"

definition encode_chap_challenge :: "u8 \<Rightarrow> bytes \<Rightarrow> bytes option" where
  "encode_chap_challenge identifier challenge = do {
     let total = AUTH_HEADER_LEN + 1 + length challenge + length SERVER_NAME;
     r \<leftarrow> encode_challenge_response (replicate total 0) ChapChallenge identifier challenge SERVER_NAME;
     encode_chap_frame (truncated r)
   }"

definition encode_chap_terminal :: "chap_code \<Rightarrow> u8 \<Rightarrow> bytes \<Rightarrow> bytes option" where
  "encode_chap_terminal code identifier message = do {
     let total = AUTH_HEADER_LEN + length message;
     r \<leftarrow> chap_encode_terminal (replicate total 0) code identifier message;
     encode_chap_frame (truncated r)
   }"

definition apply_timer :: "ppp_step \<Rightarrow> restart_timer option \<Rightarrow> timer_owner \<Rightarrow> ppp_step" where
  "apply_timer out op owner = (case op of
     Some TimerStart \<Rightarrow>
       out\<lparr>ps_timer_starts := ps_timer_starts out @ [(owner, DEFAULT_RESTART)]\<rparr>
   | Some TimerStop \<Rightarrow> out\<lparr>ps_timer_stops := ps_timer_stops out @ [owner]\<rparr>
   | None \<Rightarrow> out)"

subsection \<open>Rendering a step\<close>

definition next_chap_id :: "ppp \<Rightarrow> ppp \<times> u8" where
  "next_chap_id p =
     (p\<lparr>ppp_chap_id_counter := ppp_chap_id_counter p + 1\<rparr>, ppp_chap_id_counter p)"

definition enter_auth :: "bytes \<Rightarrow> ppp \<Rightarrow> ppp_step \<Rightarrow> (ppp \<times> ppp_step) option" where
  "enter_auth rnd p out =
     (let p1 = p\<lparr>ppp_lcp := (ppp_lcp p)\<lparr>ls_opened := True\<rparr>, ppp_phase := AuthPending\<rparr> in
      if ls_auth_method (ppp_lcp p1) = AmChapMd5 \<or> ls_auth_method (ppp_lcp p1) = AmMsChapV2 then do {
        let (p2, chap_id) = next_chap_id p1;
        frame \<leftarrow> encode_chap_challenge chap_id rnd;
        Some (p2\<lparr>ppp_chap_challenge := Some rnd\<rparr>, push_frame frame out)
      }
      else Some (p1, out))"

definition render_lcp_step :: "bytes \<Rightarrow> ppp \<Rightarrow> fsm_out \<Rightarrow> (ppp \<times> ppp_step) option" where
  "render_lcp_step rnd p step = do {
     let (ls1, fr1) = render_send (ppp_lcp p) (fo_send step);
     let (ls2, fr2) = render_send ls1 (fo_send_extra step);
     let out = apply_timer (ppp_step_default\<lparr>ps_frames := fr1 @ fr2\<rparr>) (fo_restart_timer step) OwnerLcp;
     let p1 = p\<lparr>ppp_lcp := ls2\<rparr>;
     (p2, out2) \<leftarrow>
       (if nt_up (fo_notify step) \<and> \<not> ls_opened (ppp_lcp p1) then enter_auth rnd p1 out
        else Some (p1, out));
     let p3 = (if nt_down (fo_notify step)
               then p2\<lparr>ppp_lcp := (ppp_lcp p2)\<lparr>ls_opened := False\<rparr>\<rparr> else p2);
     Some (if nt_finished (fo_notify step)
           then (p3\<lparr>ppp_phase := Dead\<rparr>, out2\<lparr>ps_finished := True\<rparr>)
           else (p3, out2))
   }"

definition render_ipcp_step :: "ppp \<Rightarrow> fsm_out \<Rightarrow> (ppp \<times> ppp_step) option" where
  "render_ipcp_step p step =
     (case ppp_ipcp p of
        None \<Rightarrow> None
      | Some ipcp \<Rightarrow>
          (let (s1, fr1) = render_ipcp_send ipcp (fo_send step);
               (s2, fr2) = render_ipcp_send s1 (fo_send_extra step);
               out = apply_timer (ppp_step_default\<lparr>ps_frames := fr1 @ fr2\<rparr>)
                       (fo_restart_timer step) OwnerIpcp;
               up = (nt_up (fo_notify step) \<and> \<not> is_opened s2);
               s3 = (if up then s2\<lparr>is_opened := True\<rparr> else s2);
               out2 = (if up then
                         (case ppp_pending_addrs p of
                            Some addrs \<Rightarrow> out\<lparr>ps_event := Some (NetworkUp addrs)\<rparr>
                          | None \<Rightarrow> out)
                       else out);
               out3 = (if nt_finished (fo_notify step) then out2\<lparr>ps_finished := True\<rparr> else out2) in
           Some (p\<lparr>ppp_ipcp := Some s3\<rparr>, out3)))"

subsection \<open>Authentication results\<close>

definition merge_mtu :: "u16 option \<Rightarrow> u16 option \<Rightarrow> u16 option" where
  "merge_mtu framed peer = (case (framed, peer) of
     (Some f, Some q) \<Rightarrow> Some (min f q)
   | (Some f, None) \<Rightarrow> Some f
   | (None, Some q) \<Rightarrow> Some q
   | (None, None) \<Rightarrow> None)"

definition append_step :: "ppp_step \<Rightarrow> ppp_step \<Rightarrow> ppp_step" where
  "append_step step extra =
     step\<lparr>ps_frames := ps_frames step @ ps_frames extra,
          ps_timer_starts := ps_timer_starts step @ ps_timer_starts extra,
          ps_timer_stops := ps_timer_stops step @ ps_timer_stops extra\<rparr>"

definition advance_to_network ::
    "ppp \<Rightarrow> ppp_step \<Rightarrow> assigned_addrs \<Rightarrow> (ppp \<times> ppp_step) option" where
  "advance_to_network p step addrs0 = do {
     let addrs = addrs0\<lparr>aa_mtu := merge_mtu (aa_mtu addrs0) (ls_peer_mru (ppp_lcp p))\<rparr>;
     let p1 = p\<lparr>ppp_pending_addrs := Some addrs, ppp_phase := Network\<rparr>;
     let (ipcp, fsm_step) = ipcp_open (ipcp_server_new addrs (ppp_local_ip p1));
     (p2, ipcp_step) \<leftarrow> render_ipcp_step (p1\<lparr>ppp_ipcp := Some ipcp\<rparr>) fsm_step;
     let step1 = append_step step ipcp_step;
     let step2 = (if ps_event ipcp_step \<noteq> None then step1\<lparr>ps_event := ps_event ipcp_step\<rparr> else step1);
     Some (p2, step2\<lparr>ps_finished := ps_finished step2 \<or> ps_finished ipcp_step\<rparr>)
   }"

definition tear_down_after_reject :: "bytes \<Rightarrow> ppp \<Rightarrow> ppp_step \<Rightarrow> (ppp \<times> ppp_step) option" where
  "tear_down_after_reject rnd p step = do {
     let (ls, close) = lcp_step_fsm (ppp_lcp p) EvClose;
     (p1, close_step) \<leftarrow> render_lcp_step rnd (p\<lparr>ppp_lcp := ls\<rparr>) close;
     Some (p1\<lparr>ppp_phase := Dead\<rparr>, (append_step step close_step)\<lparr>ps_finished := True\<rparr>)
   }"

definition on_auth_result :: "bytes \<Rightarrow> ppp \<Rightarrow> auth_verdict \<Rightarrow> (ppp \<times> ppp_step) option" where
  "on_auth_result rnd p verdict =
     (case ppp_phase p of
        AuthInFlight method \<Rightarrow>
          (case (method, verdict) of
             (IfPap pap_id, Accept addrs) \<Rightarrow> do {
               body \<leftarrow> pap_encode_response (replicate 16 0) PapAuthenticateAck pap_id [];
               frame \<leftarrow> encode_pap_frame (truncated body);
               advance_to_network p (push_frame frame ppp_step_default) addrs
             }
           | (IfPap pap_id, Reject message) \<Rightarrow> do {
               body \<leftarrow> pap_encode_response (replicate 16 0) PapAuthenticateNak pap_id (take 11 message);
               frame \<leftarrow> encode_pap_frame (truncated body);
               tear_down_after_reject rnd p (push_frame frame ppp_step_default)
             }
           | (IfChap chap_id, Accept addrs) \<Rightarrow> do {
               frame \<leftarrow> encode_chap_terminal ChapSuccess chap_id [];
               advance_to_network p (push_frame frame ppp_step_default) addrs
             }
           | (IfChap chap_id, Reject message) \<Rightarrow> do {
               frame \<leftarrow> encode_chap_terminal ChapFailure chap_id (take 255 message);
               tear_down_after_reject rnd p (push_frame frame ppp_step_default)
             }
           | (IfMsChapV2 _, _) \<Rightarrow> Some (p, ppp_step_default))
      | _ \<Rightarrow> Some (p, ppp_step_default))"

text \<open>\<open>String::from_utf8_lossy\<close>: every maximal ill-formed subsequence becomes U+FFFD.\<close>

definition utf8_cont :: "u8 \<Rightarrow> bool" where
  "utf8_cont b \<longleftrightarrow> 0x80 \<le> b \<and> b \<le> 0xBF"

definition utf8_second :: "u8 \<Rightarrow> u8 \<Rightarrow> bool" where
  "utf8_second b c \<longleftrightarrow>
     (if b = 0xE0 then 0xA0 \<le> c \<and> c \<le> 0xBF
      else if b = 0xED then 0x80 \<le> c \<and> c \<le> 0x9F
      else if b = 0xF0 then 0x90 \<le> c \<and> c \<le> 0xBF
      else if b = 0xF4 then 0x80 \<le> c \<and> c \<le> 0x8F
      else utf8_cont c)"

definition byte_at :: "bytes \<Rightarrow> nat \<Rightarrow> u8" where
  "byte_at bs i = (if i < length bs then bs ! i else 0)"

text \<open>The length of the sequence at the front and whether it is well-formed.\<close>

definition utf8_chunk :: "bytes \<Rightarrow> nat \<times> bool" where
  "utf8_chunk bs =
     (let b = byte_at bs 0 in
      if b < 0x80 then (1, True)
      else if 0xC2 \<le> b \<and> b \<le> 0xDF then
        (if utf8_cont (byte_at bs 1) then (2, True) else (1, False))
      else if 0xE0 \<le> b \<and> b \<le> 0xEF then
        (if \<not> utf8_second b (byte_at bs 1) then (1, False)
         else if \<not> utf8_cont (byte_at bs 2) then (2, False) else (3, True))
      else if 0xF0 \<le> b \<and> b \<le> 0xF4 then
        (if \<not> utf8_second b (byte_at bs 1) then (1, False)
         else if \<not> utf8_cont (byte_at bs 2) then (2, False)
         else if \<not> utf8_cont (byte_at bs 3) then (3, False) else (4, True))
      else (1, False))"

lemma utf8_chunk_pos: "0 < fst (utf8_chunk bs)"
  by (simp add: utf8_chunk_def Let_def)

lemma utf8_chunk_drop: "utf8_chunk bs = (n, ok) \<Longrightarrow> bs \<noteq> [] \<Longrightarrow> 0 < n"
  using utf8_chunk_pos [of bs] by simp

function from_utf8_lossy :: "bytes \<Rightarrow> bytes" where
  "from_utf8_lossy bs =
     (if bs = [] then []
      else case utf8_chunk bs of (n, ok) \<Rightarrow>
        (if ok then take n bs else [0xEF, 0xBF, 0xBD]) @ from_utf8_lossy (drop n bs))"
  by pat_completeness auto
termination
  by (relation "measure length") (auto dest: utf8_chunk_drop [OF sym])

declare from_utf8_lossy.simps [simp del]

definition on_mschap_result ::
    "bytes \<Rightarrow> ppp \<Rightarrow> auth_verdict \<Rightarrow> bytes option \<Rightarrow> bytes option \<Rightarrow> (ppp \<times> ppp_step) option" where
  "on_mschap_result rnd p verdict auth_response error_string =
     (case ppp_phase p of
        AuthInFlight (IfMsChapV2 chap_id) \<Rightarrow>
          (case verdict of
             Accept addrs \<Rightarrow> do {
               let body = (case auth_response of Some b \<Rightarrow> b | None \<Rightarrow> []);
               frame \<leftarrow> encode_chap_terminal ChapSuccess chap_id (take 255 body);
               advance_to_network p (push_frame frame ppp_step_default) addrs
             }
           | Reject message \<Rightarrow> do {
               let body = (case error_string of Some b \<Rightarrow> b
                           | None \<Rightarrow> map (\<lambda>c. of_char c) ''E=691 R=0 V=3 M='' @ from_utf8_lossy message);
               frame \<leftarrow> encode_chap_terminal ChapFailure chap_id (take 255 body);
               tear_down_after_reject rnd p (push_frame frame ppp_step_default)
             })
      | _ \<Rightarrow> Some (p, ppp_step_default))"

subsection \<open>Inbound frames and timers\<close>

definition ppp_open :: "bytes \<Rightarrow> ppp \<Rightarrow> (ppp \<times> ppp_step) option" where
  "ppp_open rnd p = (case lcp_open (ppp_lcp p) of (ls, step) \<Rightarrow>
     render_lcp_step rnd (p\<lparr>ppp_lcp := ls\<rparr>) step)"

definition protocol_reject :: "ppp \<Rightarrow> u16 \<Rightarrow> bytes \<Rightarrow> ppp \<times> ppp_step" where
  "protocol_reject p rejected_protocol rejected_info =
     (if \<not> ls_opened (ppp_lcp p) then (p, ppp_step_default)
      else
        let max_body = unat DEFAULT_MRU - LCP_HEADER_LEN - 2;
            info_len = min (length rejected_info) max_body;
            body = be16 rejected_protocol @ take info_len rejected_info;
            ident = ppp_lcp_extra_id_counter p in
        (p\<lparr>ppp_lcp_extra_id_counter := ident + 1\<rparr>,
         push_frame (encode_lcp_frame LcpProtocolReject ident body) ppp_step_default))"

definition handle_lcp :: "bytes \<Rightarrow> ppp \<Rightarrow> bytes \<Rightarrow> (ppp \<times> ppp_step) option" where
  "handle_lcp rnd p info = (case decode_lcp_packet info of
     Inl _ \<Rightarrow> Some (p, ppp_step_default)
   | Inr packet \<Rightarrow> (case lcp_on_packet (ppp_lcp p) packet of ((ls, step), _) \<Rightarrow>
       render_lcp_step rnd (p\<lparr>ppp_lcp := ls\<rparr>) step))"

definition handle_pap :: "ppp \<Rightarrow> bytes \<Rightarrow> ppp \<times> ppp_step" where
  "handle_pap p info = (case decode_authenticate_request info of
     Inl _ \<Rightarrow> (p, ppp_step_default)
   | Inr req \<Rightarrow>
       (p\<lparr>ppp_phase := AuthInFlight (IfPap (ar_identifier req))\<rparr>,
        ppp_step_default\<lparr>ps_event := Some (NeedPapAuth (ar_peer_id req) (ar_password req))\<rparr>))"

definition handle_chap :: "ppp \<Rightarrow> bytes \<Rightarrow> ppp \<times> ppp_step" where
  "handle_chap p info = (case decode_challenge_response info of
     Inl _ \<Rightarrow> (p, ppp_step_default)
   | Inr resp \<Rightarrow>
       (case ls_auth_method (ppp_lcp p) of
          AmChapMd5 \<Rightarrow>
            if length (cr_value resp) \<noteq> 16 then (p, ppp_step_default)
            else (case ppp_chap_challenge p of
                    None \<Rightarrow> (p, ppp_step_default)
                  | Some challenge \<Rightarrow>
                      (p\<lparr>ppp_phase := AuthInFlight (IfChap (cr_identifier resp))\<rparr>,
                       ppp_step_default\<lparr>ps_event := Some (NeedChapAuth (cr_name resp)
                         (cr_identifier resp) challenge (cr_value resp))\<rparr>))
        | AmMsChapV2 \<Rightarrow>
            if length (cr_value resp) \<noteq> 49 then (p, ppp_step_default)
            else if list_ex (\<lambda>b. b \<noteq> 0) (slice 16 24 (cr_value resp)) then (p, ppp_step_default)
            else (case ppp_chap_challenge p of
                    None \<Rightarrow> (p, ppp_step_default)
                  | Some challenge \<Rightarrow>
                      (p\<lparr>ppp_phase := AuthInFlight (IfMsChapV2 (cr_identifier resp))\<rparr>,
                       ppp_step_default\<lparr>ps_event := Some (NeedMsChapV2Auth (cr_name resp)
                         (cr_identifier resp) challenge (slice 0 16 (cr_value resp))
                         (slice 24 48 (cr_value resp)) (cr_value resp ! 48))\<rparr>))
        | AmPap \<Rightarrow> (p, ppp_step_default)))"

definition handle_ipcp :: "ppp \<Rightarrow> bytes \<Rightarrow> (ppp \<times> ppp_step) option" where
  "handle_ipcp p info = (case decode_lcp_packet info of
     Inl _ \<Rightarrow> Some (p, ppp_step_default)
   | Inr packet \<Rightarrow> (case ppp_ipcp p of
       None \<Rightarrow> Some (p, ppp_step_default)
     | Some ipcp \<Rightarrow> (case ipcp_on_packet ipcp packet of ((s, step), _) \<Rightarrow>
         render_ipcp_step (p\<lparr>ppp_ipcp := Some s\<rparr>) step)))"

definition is_auth_phase :: "phase \<Rightarrow> bool" where
  "is_auth_phase ph = (case ph of AuthPending \<Rightarrow> True | AuthInFlight _ \<Rightarrow> True | _ \<Rightarrow> False)"

definition on_frame :: "bytes \<Rightarrow> ppp \<Rightarrow> bytes \<Rightarrow> (ppp \<times> ppp_step) option" where
  "on_frame rnd p payload = (case decode_frame payload of
     Inl _ \<Rightarrow> Some (p, ppp_step_default)
   | Inr frame \<Rightarrow>
       (case protocol_from_u16 (pf_protocol frame) of
          Some PidLcp \<Rightarrow> handle_lcp rnd p (pf_info frame)
        | Some PidPap \<Rightarrow>
            if is_auth_phase (ppp_phase p) then Some (handle_pap p (pf_info frame))
            else Some (p, ppp_step_default)
        | Some PidChap \<Rightarrow>
            if is_auth_phase (ppp_phase p) then Some (handle_chap p (pf_info frame))
            else Some (p, ppp_step_default)
        | Some PidIpcp \<Rightarrow>
            if ppp_phase p = Network then handle_ipcp p (pf_info frame)
            else Some (p, ppp_step_default)
        | _ \<Rightarrow> Some (protocol_reject p (pf_protocol frame) (pf_info frame))))"

definition ppp_on_timer :: "bytes \<Rightarrow> ppp \<Rightarrow> timer_owner \<Rightarrow> (ppp \<times> ppp_step) option" where
  "ppp_on_timer rnd p owner = (case owner of
     OwnerLcp \<Rightarrow> (case lcp_step_fsm (ppp_lcp p) RestartTimeout of (ls, step) \<Rightarrow>
       render_lcp_step rnd (p\<lparr>ppp_lcp := ls\<rparr>) step)
   | OwnerIpcp \<Rightarrow> (case ppp_ipcp p of
       Some ipcp \<Rightarrow> (case ipcp_step_fsm ipcp RestartTimeout of (s, step) \<Rightarrow>
         render_ipcp_step (p\<lparr>ppp_ipcp := Some s\<rparr>) step)
     | None \<Rightarrow> Some (p, ppp_step_default)))"

subsection \<open>Inputs of the driver\<close>

datatype ppp_input =
    PinOpen bytes
  | PinFrame bytes bytes
  | PinTimer bytes timer_owner
  | PinAuth bytes auth_verdict
  | PinMsChap bytes auth_verdict "bytes option" "bytes option"

fun ppp_input_step :: "ppp \<Rightarrow> ppp_input \<Rightarrow> (ppp \<times> ppp_step) option" where
  "ppp_input_step p (PinOpen rnd) = ppp_open rnd p"
| "ppp_input_step p (PinFrame rnd payload) = on_frame rnd p payload"
| "ppp_input_step p (PinTimer rnd owner) = ppp_on_timer rnd p owner"
| "ppp_input_step p (PinAuth rnd v) = on_auth_result rnd p v"
| "ppp_input_step p (PinMsChap rnd v r e) = on_mschap_result rnd p v r e"

fun input_random :: "ppp_input \<Rightarrow> bytes" where
  "input_random (PinOpen rnd) = rnd"
| "input_random (PinFrame rnd payload) = rnd"
| "input_random (PinTimer rnd owner) = rnd"
| "input_random (PinAuth rnd v) = rnd"
| "input_random (PinMsChap rnd v r e) = rnd"

fun input_accepts :: "ppp_input \<Rightarrow> assigned_addrs option" where
  "input_accepts (PinAuth rnd (Accept a)) = Some a"
| "input_accepts (PinMsChap rnd (Accept a) r e) = Some a"
| "input_accepts _ = None"

definition ppp_machine_step :: "ppp \<Rightarrow> ppp_input \<Rightarrow> ppp \<times> ppp_step option" where
  "ppp_machine_step p i =
     (case ppp_input_step p i of None \<Rightarrow> (p, None) | Some (p', st) \<Rightarrow> (p', Some st))"

subsection \<open>No panic\<close>

lemma encode_auth_frames_total [simp]:
  "encode_pap_frame pkt \<noteq> None" "encode_chap_frame pkt \<noteq> None"
  by (simp_all add: encode_pap_frame_def encode_chap_frame_def encode_frame_def Let_def)

lemma encode_chap_challenge_total: "length rnd = 16 \<Longrightarrow> encode_chap_challenge i rnd \<noteq> None"
  by (simp add: encode_chap_challenge_def encode_challenge_response_def SERVER_NAME_def wire_defs
    del: not_None_eq)

lemma encode_chap_terminal_total:
  "c \<in> {ChapSuccess, ChapFailure} \<Longrightarrow> length msg \<le> 255 \<Longrightarrow> encode_chap_terminal c i msg \<noteq> None"
  by (auto simp: encode_chap_terminal_def chap_encode_terminal_def wire_defs Let_def
    simp del: not_None_eq)

lemma pap_response_total:
  "c \<in> {PapAuthenticateAck, PapAuthenticateNak} \<Longrightarrow> length msg \<le> 11 \<Longrightarrow>
   pap_encode_response (replicate 16 0) c i msg \<noteq> None"
  by (auto simp: pap_encode_response_def wire_defs Let_def)

lemma enter_auth_total: "length rnd = 16 \<Longrightarrow> enter_auth rnd p out \<noteq> None"
  using encode_chap_challenge_total [of rnd]
  by (simp add: enter_auth_def next_chap_id_def bind_eq_None_conv Let_def del: not_None_eq)

lemma render_lcp_step_total: "length rnd = 16 \<Longrightarrow> render_lcp_step rnd p step \<noteq> None"
  using enter_auth_total [of rnd]
  by (simp add: render_lcp_step_def bind_eq_None_conv Let_def split_beta del: not_None_eq)

lemma render_ipcp_step_total: "ppp_ipcp p \<noteq> None \<Longrightarrow> render_ipcp_step p step \<noteq> None"
  by (auto simp: render_ipcp_step_def Let_def split_beta)

lemma advance_to_network_total: "advance_to_network p step addrs \<noteq> None"
  by (simp add: advance_to_network_def Let_def split_beta bind_eq_None_conv render_ipcp_step_total
    del: not_None_eq)

lemma tear_down_total: "length rnd = 16 \<Longrightarrow> tear_down_after_reject rnd p step \<noteq> None"
  by (simp add: tear_down_after_reject_def Let_def split_beta bind_eq_None_conv render_lcp_step_total
    del: not_None_eq)

lemma on_auth_result_total: "length rnd = 16 \<Longrightarrow> on_auth_result rnd p v \<noteq> None"
  by (auto simp: on_auth_result_def bind_eq_None_conv advance_to_network_total tear_down_total
      pap_response_total encode_chap_terminal_total simp del: not_None_eq
    split: phase.split in_flight_method.split auth_verdict.split)

lemma on_mschap_result_total: "length rnd = 16 \<Longrightarrow> on_mschap_result rnd p v r e \<noteq> None"
  by (auto simp: on_mschap_result_def bind_eq_None_conv Let_def advance_to_network_total tear_down_total
      encode_chap_terminal_total simp del: not_None_eq
    split: phase.split in_flight_method.split auth_verdict.split)

lemma on_frame_total: "length rnd = 16 \<Longrightarrow> on_frame rnd p payload \<noteq> None"
  by (auto simp: on_frame_def handle_lcp_def handle_ipcp_def render_lcp_step_total
      render_ipcp_step_total split_beta simp del: not_None_eq
    split: sum.split option.split protocol_id.split)

lemma ppp_input_step_total:
  "length (input_random i) = 16 \<Longrightarrow> ppp_input_step p i \<noteq> None"
  by (cases i)
    (auto simp: ppp_open_def ppp_on_timer_def on_frame_total on_auth_result_total
      on_mschap_result_total render_lcp_step_total render_ipcp_step_total split_beta
      simp del: not_None_eq split: timer_owner.split option.split)

text \<open>
  No input makes the PPP driver panic, in any state: whatever frame the peer
  sends, whichever timer fires and whatever verdict arrives, every assertion of the encoders
  and the \<open>expect\<close> of the IPCP renderer hold.
\<close>

theorem ppp_driver_no_panic:
  assumes "length (input_random i) = 16"
  shows "\<exists>p' st. ppp_input_step p i = Some (p', st)"
  using ppp_input_step_total [OF assms] by (metis not_None_eq surj_pair)

subsection \<open>What each operation may change\<close>

lemma apply_timer_fields [simp]:
  "ps_event (apply_timer out op w) = ps_event out" "ps_frames (apply_timer out op w) = ps_frames out"
  "ps_finished (apply_timer out op w) = ps_finished out"
  by (simp_all add: apply_timer_def split: option.split restart_timer.split)

lemma ppp_step_default_fields [simp]:
  "ps_event ppp_step_default = None" "ps_frames ppp_step_default = []"
  "ps_finished ppp_step_default = False"
  by (simp_all add: ppp_step_default_def)

lemma push_frame_fields [simp]:
  "ps_event (push_frame f st) = ps_event st" "ps_frames (push_frame f st) = ps_frames st @ [f]"
  "ps_finished (push_frame f st) = ps_finished st"
  by (simp_all add: push_frame_def)

lemma append_step_fields [simp]:
  "ps_event (append_step a b) = ps_event a" "ps_frames (append_step a b) = ps_frames a @ ps_frames b"
  "ps_finished (append_step a b) = ps_finished a"
  by (simp_all add: append_step_def)

text \<open>
  The part of the state that only authentication and IPCP touch: an LCP step leaves it alone,
  except that it may draw a challenge and return to the authentication phase or end.
\<close>

definition sent_challenge :: "ppp_step \<Rightarrow> bytes \<Rightarrow> bool" where
  "sent_challenge st c \<longleftrightarrow>
     (\<exists>ident frame. encode_chap_challenge ident c = Some frame \<and> frame \<in> set (ps_frames st))"

lemma sent_challenge_intros:
  "encode_chap_challenge ident c = Some frame \<Longrightarrow> sent_challenge (push_frame frame out) c"
  "sent_challenge b c \<Longrightarrow> sent_challenge ((append_step a b)\<lparr>ps_finished := True\<rparr>) c"
  "sent_challenge out c \<Longrightarrow> sent_challenge (out\<lparr>ps_finished := True\<rparr>) c"
  by (auto simp: sent_challenge_def)

lemma enter_auth_frame:
  "enter_auth rnd p out = Some (p', out') \<Longrightarrow>
     ppp_ipcp p' = ppp_ipcp p \<and> ppp_pending_addrs p' = ppp_pending_addrs p
     \<and> ps_event out' = ps_event out \<and> ppp_phase p' = AuthPending
     \<and> (ppp_chap_challenge p' = ppp_chap_challenge p
        \<or> ppp_chap_challenge p' = Some rnd \<and> sent_challenge out' rnd)"
  by (auto simp: enter_auth_def next_chap_id_def bind_eq_Some_conv Let_def intro: sent_challenge_intros
    split: if_splits)

text \<open>The rendering of an LCP step, taken apart.\<close>

lemma render_lcp_step_parts:
  assumes "render_lcp_step rnd p step = Some (p', out)"
  obtains ls frs out1 p2 out2 p3 where
    "render_send (fst (render_send (ppp_lcp p) (fo_send step))) (fo_send_extra step) = (ls, frs)"
    "out1 = apply_timer (ppp_step_default\<lparr>ps_frames :=
       snd (render_send (ppp_lcp p) (fo_send step)) @ frs\<rparr>) (fo_restart_timer step) OwnerLcp"
    "(if nt_up (fo_notify step) \<and> \<not> ls_opened ls then enter_auth rnd (p\<lparr>ppp_lcp := ls\<rparr>) out1
      else Some (p\<lparr>ppp_lcp := ls\<rparr>, out1)) = Some (p2, out2)"
    "p3 = (if nt_down (fo_notify step) then p2\<lparr>ppp_lcp := (ppp_lcp p2)\<lparr>ls_opened := False\<rparr>\<rparr> else p2)"
    "p' = (if nt_finished (fo_notify step) then p3\<lparr>ppp_phase := Dead\<rparr> else p3)"
    "out = (if nt_finished (fo_notify step) then out2\<lparr>ps_finished := True\<rparr> else out2)"
proof -
  let ?r = "render_send (fst (render_send (ppp_lcp p) (fo_send step))) (fo_send_extra step)"
  let ?out1 = "apply_timer (ppp_step_default\<lparr>ps_frames :=
       snd (render_send (ppp_lcp p) (fo_send step)) @ snd ?r\<rparr>) (fo_restart_timer step) OwnerLcp"
  have lcp: "ppp_lcp (q\<lparr>ppp_lcp := x\<rparr>) = x" for q x
    by simp
  from assms obtain y where
    e: "(if nt_up (fo_notify step) \<and> \<not> ls_opened (fst ?r) then enter_auth rnd (p\<lparr>ppp_lcp := fst ?r\<rparr>) ?out1
      else Some (p\<lparr>ppp_lcp := fst ?r\<rparr>, ?out1)) = Some y"
    and r: "(if nt_finished (fo_notify step)
      then ((if nt_down (fo_notify step) then (fst y)\<lparr>ppp_lcp := (ppp_lcp (fst y))\<lparr>ls_opened := False\<rparr>\<rparr>
             else fst y)\<lparr>ppp_phase := Dead\<rparr>, (snd y)\<lparr>ps_finished := True\<rparr>)
      else (if nt_down (fo_notify step) then (fst y)\<lparr>ppp_lcp := (ppp_lcp (fst y))\<lparr>ls_opened := False\<rparr>\<rparr>
            else fst y, snd y)) = (p', out)"
    unfolding render_lcp_step_def Let_def split_beta bind_eq_Some_conv
    by (simp only: lcp option.inject) blast
  show ?thesis
  proof (rule that [of "fst ?r" "snd ?r" ?out1 "fst y" "snd y"])
    show "p' = (if nt_finished (fo_notify step)
        then (if nt_down (fo_notify step) then (fst y)\<lparr>ppp_lcp := (ppp_lcp (fst y))\<lparr>ls_opened := False\<rparr>\<rparr>
              else fst y)\<lparr>ppp_phase := Dead\<rparr>
        else (if nt_down (fo_notify step) then (fst y)\<lparr>ppp_lcp := (ppp_lcp (fst y))\<lparr>ls_opened := False\<rparr>\<rparr>
              else fst y))"
      and "out = (if nt_finished (fo_notify step) then (snd y)\<lparr>ps_finished := True\<rparr> else snd y)"
      using arg_cong [OF r, of fst] arg_cong [OF r, of snd] by (simp_all split: if_split_asm)
  qed (simp_all add: e)
qed

lemma render_lcp_step_frame:
  assumes "render_lcp_step rnd p step = Some (p', out)"
  shows "ppp_ipcp p' = ppp_ipcp p \<and> ppp_pending_addrs p' = ppp_pending_addrs p
     \<and> ps_event out = None \<and> ppp_phase p' \<in> {ppp_phase p, AuthPending, Dead}
     \<and> (ppp_chap_challenge p' = ppp_chap_challenge p
        \<or> ppp_chap_challenge p' = Some rnd \<and> sent_challenge out rnd)"
proof -
  from assms obtain ls frs out1 p2 out2 p3 where
    o: "out1 = apply_timer (ppp_step_default\<lparr>ps_frames :=
       snd (render_send (ppp_lcp p) (fo_send step)) @ frs\<rparr>) (fo_restart_timer step) OwnerLcp"
    and e: "(if nt_up (fo_notify step) \<and> \<not> ls_opened ls then enter_auth rnd (p\<lparr>ppp_lcp := ls\<rparr>) out1
      else Some (p\<lparr>ppp_lcp := ls\<rparr>, out1)) = Some (p2, out2)"
    and p3: "p3 = (if nt_down (fo_notify step) then p2\<lparr>ppp_lcp := (ppp_lcp p2)\<lparr>ls_opened := False\<rparr>\<rparr> else p2)"
    and p': "p' = (if nt_finished (fo_notify step) then p3\<lparr>ppp_phase := Dead\<rparr> else p3)"
    and out: "out = (if nt_finished (fo_notify step) then out2\<lparr>ps_finished := True\<rparr> else out2)"
    by (rule render_lcp_step_parts)
  have "ppp_ipcp p2 = ppp_ipcp p \<and> ppp_pending_addrs p2 = ppp_pending_addrs p
     \<and> ps_event out2 = None \<and> ppp_phase p2 \<in> {ppp_phase p, AuthPending}
     \<and> (ppp_chap_challenge p2 = ppp_chap_challenge p
        \<or> ppp_chap_challenge p2 = Some rnd \<and> sent_challenge out2 rnd)"
    using e by (auto simp: o split: if_splits dest!: enter_auth_frame)
  then show ?thesis unfolding p' p3 out by (auto intro: sent_challenge_intros)
qed

lemma render_ipcp_send_addrs [simp]:
  "is_addrs (fst (render_ipcp_send s op)) = is_addrs s"
  by (simp add: render_ipcp_send_def split_beta split: option.split send.split)

lemma render_ipcp_step_frame:
  assumes "render_ipcp_step p step = Some (p', out)"
  shows "\<exists>s s'. ppp_ipcp p = Some s \<and> ppp_ipcp p' = Some s' \<and> is_addrs s' = is_addrs s
     \<and> ppp_pending_addrs p' = ppp_pending_addrs p \<and> ppp_phase p' = ppp_phase p
     \<and> ppp_chap_challenge p' = ppp_chap_challenge p \<and> ppp_lcp p' = ppp_lcp p
     \<and> (ps_event out = None \<or> (\<exists>a. ppp_pending_addrs p = Some a \<and> ps_event out = Some (NetworkUp a)))"
  using assms
  by (auto simp: render_ipcp_step_def Let_def split_beta split: option.splits if_splits)

lemma ipcp_step_fsm_addrs [simp]: "is_addrs (fst (ipcp_step_fsm s e)) = is_addrs s"
  by (simp add: ipcp_step_fsm_def split_beta)

lemma ipcp_open_addrs [simp]: "is_addrs (fst (ipcp_open s)) = is_addrs s"
  by (simp add: ipcp_open_def split_beta)

lemma ipcp_classify_addrs [simp]: "is_addrs (fst (ipcp_classify_configure_request s d)) = is_addrs s"
  by (simp add: ipcp_classify_configure_request_def Let_def split: option.split)

lemma ipcp_on_packet_addrs [simp]: "is_addrs (fst (fst (ipcp_on_packet s pkt))) = is_addrs s"
  by (simp add: ipcp_on_packet_def Let_def split_beta split: option.split ipcp_code.split)

lemma handle_pap_frame:
  assumes "handle_pap p info = (p', st)"
  shows "ppp_ipcp p' = ppp_ipcp p \<and> ppp_pending_addrs p' = ppp_pending_addrs p
    \<and> ppp_chap_challenge p' = ppp_chap_challenge p
    \<and> (ps_event st = None \<and> p' = p \<or> (\<exists>u pw. ps_event st = Some (NeedPapAuth u pw)))"
  using assms by (auto simp: handle_pap_def split: sum.splits)

lemma handle_chap_frame:
  assumes "handle_chap p info = (p', st)"
  shows "ppp_ipcp p' = ppp_ipcp p \<and> ppp_pending_addrs p' = ppp_pending_addrs p
    \<and> ppp_chap_challenge p' = ppp_chap_challenge p
    \<and> (ps_event st = None \<and> p' = p
       \<or> (\<exists>c u i r. ppp_chap_challenge p = Some c \<and> ps_event st = Some (NeedChapAuth u i c r))
       \<or> (\<exists>c u i pc nt fl. ppp_chap_challenge p = Some c \<and> ps_event st = Some (NeedMsChapV2Auth u i c pc nt fl)))"
  using assms by (auto simp: handle_chap_def split: sum.splits auth_method.splits if_splits option.splits)

lemma advance_to_network_frame:
  assumes "advance_to_network p step addrs = Some (p', st)" and "ps_event step = None"
  shows "\<exists>m s. ppp_pending_addrs p' = Some (addrs\<lparr>aa_mtu := merge_mtu (aa_mtu addrs) m\<rparr>)
    \<and> m = ls_peer_mru (ppp_lcp p) \<and> ppp_phase p' = Network
    \<and> ppp_ipcp p' = Some s \<and> ppp_pending_addrs p' = Some (is_addrs s)
    \<and> ppp_chap_challenge p' = ppp_chap_challenge p
    \<and> (ps_event st = None \<or> (\<exists>a. ppp_pending_addrs p' = Some a \<and> ps_event st = Some (NetworkUp a)))"
  using assms
  by (auto simp: advance_to_network_def bind_eq_Some_conv Let_def split_beta ipcp_server_new_def
    dest!: render_ipcp_step_frame)

lemma tear_down_frame:
  assumes "tear_down_after_reject rnd p step = Some (p', st)" and "ps_event step = None"
  shows "ppp_ipcp p' = ppp_ipcp p \<and> ppp_pending_addrs p' = ppp_pending_addrs p
    \<and> ps_event st = None \<and> ppp_phase p' = Dead
    \<and> (ppp_chap_challenge p' = ppp_chap_challenge p
        \<or> ppp_chap_challenge p' = Some rnd \<and> sent_challenge st rnd)"
  using assms
  by (auto simp: tear_down_after_reject_def bind_eq_Some_conv Let_def split_beta
    intro: sent_challenge_intros dest!: render_lcp_step_frame)

subsection \<open>The history of a session\<close>

text \<open>
  A history is the list of the inputs so far with the output of each.  The addresses a session
  hands out are those of a verdict in its history that answers an earlier request for
  authentication, and the challenge it forwards is one it has drawn.
\<close>

type_synonym ppp_trace = "(ppp_input \<times> ppp_step option) list"

fun needs_auth :: "ppp_event option \<Rightarrow> bool" where
  "needs_auth (Some (NeedPapAuth u pw)) = True"
| "needs_auth (Some (NeedChapAuth u i c r)) = True"
| "needs_auth (Some (NeedMsChapV2Auth u i c pc nt fl)) = True"
| "needs_auth (Some (NetworkUp a)) = False"
| "needs_auth None = False"

fun in_flight :: "phase \<Rightarrow> bool" where
  "in_flight (AuthInFlight m) = True"
| "in_flight _ = False"

definition auth_requested :: "ppp_trace \<Rightarrow> bool" where
  "auth_requested tr \<longleftrightarrow> (\<exists>i st. (i, Some st) \<in> set tr \<and> needs_auth (ps_event st))"

definition assigned_from :: "ppp_trace \<Rightarrow> assigned_addrs \<Rightarrow> bool" where
  "assigned_from tr a \<longleftrightarrow>
     (\<exists>pre i ot post a0 m. tr = pre @ (i, ot) # post \<and> auth_requested pre
        \<and> input_accepts i = Some a0 \<and> a = a0\<lparr>aa_mtu := merge_mtu (aa_mtu a0) m\<rparr>)"

definition drawn_in :: "ppp_trace \<Rightarrow> bytes \<Rightarrow> bool" where
  "drawn_in tr c \<longleftrightarrow> (\<exists>i st. (i, Some st) \<in> set tr \<and> input_random i = c \<and> sent_challenge st c)"

definition ppp_history :: "ppp_trace \<Rightarrow> ppp \<Rightarrow> bool" where
  "ppp_history tr p \<longleftrightarrow>
     (\<forall>a. ppp_pending_addrs p = Some a \<longrightarrow> assigned_from tr a)
     \<and> (\<forall>s. ppp_ipcp p = Some s \<longrightarrow> ppp_pending_addrs p = Some (is_addrs s))
     \<and> (\<forall>c. ppp_chap_challenge p = Some c \<longrightarrow> drawn_in tr c)
     \<and> (in_flight (ppp_phase p) \<longrightarrow> auth_requested tr)"

text \<open>What the event of a step says about the history.\<close>

fun event_history :: "ppp_trace \<Rightarrow> ppp_event option \<Rightarrow> bool" where
  "event_history tr (Some (NetworkUp a)) = assigned_from tr a"
| "event_history tr (Some (NeedChapAuth u i c r)) = drawn_in tr c"
| "event_history tr (Some (NeedMsChapV2Auth u i c pc nt fl)) = drawn_in tr c"
| "event_history tr (Some (NeedPapAuth u pw)) = True"
| "event_history tr None = True"

lemma auth_requested_mono: "auth_requested tr \<Longrightarrow> auth_requested (tr @ tr')"
  unfolding auth_requested_def by auto

lemma assigned_from_mono: "assigned_from tr a \<Longrightarrow> assigned_from (tr @ tr') a"
  unfolding assigned_from_def by (metis append.assoc append_Cons)

lemma drawn_in_mono: "drawn_in tr c \<Longrightarrow> drawn_in (tr @ tr') c"
  unfolding drawn_in_def by auto

lemma drawn_in_now:
  "sent_challenge st (input_random i) \<Longrightarrow> drawn_in (tr @ [(i, Some st)]) (input_random i)"
  unfolding drawn_in_def by auto

lemma event_history_mono: "event_history tr ev \<Longrightarrow> event_history (tr @ tr') ev"
  by (induction tr ev rule: event_history.induct) (simp_all add: assigned_from_mono drawn_in_mono)

lemmas history_mono = auth_requested_mono assigned_from_mono drawn_in_mono

text \<open>\<open>step_history\<close> is what every input has to establish.\<close>

definition step_history :: "ppp_trace \<Rightarrow> ppp_input \<Rightarrow> ppp \<times> ppp_step \<Rightarrow> bool" where
  "step_history tr i r \<longleftrightarrow>
     ppp_history (tr @ [(i, Some (snd r))]) (fst r)
     \<and> event_history (tr @ [(i, Some (snd r))]) (ps_event (snd r))"

lemma step_history_lcp:
  assumes "ppp_history tr p" and "render_lcp_step (input_random i) (p\<lparr>ppp_lcp := ls\<rparr>) step = Some (p', st)"
  shows "step_history tr i (p', st)"
  using render_lcp_step_frame [OF assms(2)] assms(1)
  by (auto simp: ppp_history_def step_history_def drawn_in_now intro: history_mono)

lemma step_history_ipcp:
  assumes "ppp_history tr p" and "ppp_ipcp p = Some s" and "is_addrs s' = is_addrs s"
    and "render_ipcp_step (p\<lparr>ppp_ipcp := Some s'\<rparr>) step = Some (p', st)"
  shows "step_history tr i (p', st)"
  using render_ipcp_step_frame [OF assms(4)] assms(1-3)
  by (auto simp: ppp_history_def step_history_def intro: history_mono)

lemma step_history_idle:
  "ppp_history tr p \<Longrightarrow> step_history tr i (p, ppp_step_default)"
  by (auto simp: ppp_history_def step_history_def intro: history_mono)

lemma step_history_network:
  assumes "ppp_history tr p" and "advance_to_network p step a = Some (p', st)"
    and "ps_event step = None" and "input_accepts i = Some a" and "ppp_phase p = AuthInFlight m"
  shows "step_history tr i (p', st)"
proof -
  from advance_to_network_frame [OF assms(2,3)] obtain m s where
    f: "ppp_pending_addrs p' = Some (a\<lparr>aa_mtu := merge_mtu (aa_mtu a) m\<rparr>)" "ppp_phase p' = Network"
      "ppp_ipcp p' = Some s" "ppp_pending_addrs p' = Some (is_addrs s)"
      "ppp_chap_challenge p' = ppp_chap_challenge p"
      "ps_event st = None \<or> (\<exists>a. ppp_pending_addrs p' = Some a \<and> ps_event st = Some (NetworkUp a))"
    by blast
  have "auth_requested tr" using assms(1,5) by (simp add: ppp_history_def)
  then have a: "assigned_from (tr @ [(i, Some st)]) (a\<lparr>aa_mtu := merge_mtu (aa_mtu a) m\<rparr>)"
    unfolding assigned_from_def using assms(4) by blast
  show ?thesis using f a assms(1) by (auto simp: ppp_history_def step_history_def intro: drawn_in_mono)
qed

lemma step_history_tear_down:
  assumes "ppp_history tr p" and "tear_down_after_reject (input_random i) p step = Some (p', st)"
    and "ps_event step = None"
  shows "step_history tr i (p', st)"
  using tear_down_frame [OF assms(2,3)] assms(1)
  by (auto simp: ppp_history_def step_history_def drawn_in_now intro: history_mono)

lemma auth_requested_now:
  "needs_auth (ps_event st) \<Longrightarrow> auth_requested (tr @ [(i, Some st)])"
  unfolding auth_requested_def by auto

lemma step_history_pap:
  assumes "ppp_history tr p" and "handle_pap p info = (p', st)"
  shows "step_history tr i (p', st)"
  using handle_pap_frame [OF assms(2)] assms(1)
  by (auto simp: ppp_history_def step_history_def auth_requested_now intro: history_mono)

lemma step_history_chap:
  assumes "ppp_history tr p" and "handle_chap p info = (p', st)"
  shows "step_history tr i (p', st)"
  using handle_chap_frame [OF assms(2)] assms(1)
  by (auto simp: ppp_history_def step_history_def auth_requested_now intro: history_mono)

lemma step_history_reject:
  assumes "ppp_history tr p" and "protocol_reject p pr info = (p', st)"
  shows "step_history tr i (p', st)"
  using assms
  by (auto simp: protocol_reject_def Let_def ppp_history_def step_history_def
    intro: history_mono split: if_splits)

lemma step_history_frame:
  assumes h: "ppp_history tr p" and r: "on_frame rnd p payload = Some (p', st)"
  shows "step_history tr (PinFrame rnd payload) (p', st)"
proof -
  let ?i = "PinFrame rnd payload"
  note idle = step_history_idle [OF h, of ?i]
  have lcp: "handle_lcp rnd p info = Some (p', st) \<Longrightarrow> step_history tr ?i (p', st)" for info
    using idle step_history_lcp [OF h, of ?i]
    by (auto simp: handle_lcp_def split_beta split: sum.splits)
  have ipcp: "handle_ipcp p info = Some (p', st) \<Longrightarrow> step_history tr ?i (p', st)" for info
    using idle
    by (auto simp: handle_ipcp_def split_beta split: sum.splits option.splits
      dest!: step_history_ipcp [OF h _ ipcp_on_packet_addrs, where i = ?i])
  note handlers = lcp ipcp step_history_pap [OF h, of _ _ _ ?i] step_history_chap [OF h, of _ _ _ ?i]
  show ?thesis
  proof (cases "decode_frame payload")
    case (Inl e)
    with r idle show ?thesis by (auto simp: on_frame_def)
  next
    case (Inr f)
    note r' = r [unfolded on_frame_def Inr sum.case]
    have rej: "protocol_reject p (pf_protocol f) (pf_info f) = (p', st) \<Longrightarrow> step_history tr ?i (p', st)"
      by (rule step_history_reject [OF h])
    show ?thesis
    proof (cases "protocol_from_u16 (pf_protocol f)")
      case None
      with r' rej show ?thesis by simp
    next
      case (Some pid)
      show ?thesis
      proof (cases "pid \<in> {PidLcp, PidPap, PidChap, PidIpcp}")
        case True
        with Some r' idle show ?thesis
          by (elim insertE) (auto split: if_splits dest!: handlers)
      next
        case False
        with Some r' rej show ?thesis by (cases pid) simp_all
      qed
    qed
  qed
qed

text \<open>The result of an authentication either changes nothing, or comes from one of the two exits.\<close>

lemma on_auth_result_exits:
  assumes "on_auth_result rnd p v = Some (p', st)"
  shows "(p', st) = (p, ppp_step_default)
    \<or> (\<exists>m step. ppp_phase p = AuthInFlight m \<and> ps_event step = None
        \<and> (case v of Accept a \<Rightarrow> advance_to_network p step a = Some (p', st)
           | Reject msg \<Rightarrow> tear_down_after_reject rnd p step = Some (p', st)))"
  using assms
  by (cases "ppp_phase p"; cases v)
    (auto simp: on_auth_result_def bind_eq_Some_conv intro!: exI [of _ "push_frame _ ppp_step_default"]
      split: in_flight_method.splits)

lemma on_mschap_result_exits:
  assumes "on_mschap_result rnd p v ar es = Some (p', st)"
  shows "(p', st) = (p, ppp_step_default)
    \<or> (\<exists>m step. ppp_phase p = AuthInFlight m \<and> ps_event step = None
        \<and> (case v of Accept a \<Rightarrow> advance_to_network p step a = Some (p', st)
           | Reject msg \<Rightarrow> tear_down_after_reject rnd p step = Some (p', st)))"
  using assms
  by (cases "ppp_phase p"; cases v)
    (auto simp: on_mschap_result_def bind_eq_Some_conv Let_def
      intro!: exI [of _ "push_frame _ ppp_step_default"] split: in_flight_method.splits)

lemma step_history_verdict:
  assumes h: "ppp_history tr p"
    and e: "(p', st) = (p, ppp_step_default)
    \<or> (\<exists>m step. ppp_phase p = AuthInFlight m \<and> ps_event step = None
        \<and> (case v of Accept a \<Rightarrow> advance_to_network p step a = Some (p', st)
           | Reject msg \<Rightarrow> tear_down_after_reject (input_random i) p step = Some (p', st)))"
    and acc: "\<And>a. v = Accept a \<Longrightarrow> input_accepts i = Some a"
  shows "step_history tr i (p', st)"
  using e
proof (elim disjE exE conjE)
  assume "(p', st) = (p, ppp_step_default)"
  with step_history_idle [OF h] show ?thesis by simp
next
  fix m step
  assume "ppp_phase p = AuthInFlight m" "ps_event step = None"
    "case v of Accept a \<Rightarrow> advance_to_network p step a = Some (p', st)
     | Reject msg \<Rightarrow> tear_down_after_reject (input_random i) p step = Some (p', st)"
  then show ?thesis
    by (cases v) (auto intro: step_history_network [OF h] step_history_tear_down [OF h] acc)
qed

lemma step_history_input:
  assumes h: "ppp_history tr p" and r: "ppp_input_step p i = Some (p', st)"
  shows "step_history tr i (p', st)"
proof (cases i)
  case (PinOpen rnd)
  with r step_history_lcp [OF h, of i] show ?thesis by (auto simp: ppp_open_def split_beta)
next
  case (PinFrame rnd payload)
  with r step_history_frame [OF h] show ?thesis by auto
next
  case (PinTimer rnd owner)
  with r step_history_lcp [OF h, of i] step_history_idle [OF h, of i] show ?thesis
    by (auto simp: ppp_on_timer_def split_beta split: timer_owner.splits option.splits
      intro: step_history_ipcp [OF h _ ipcp_step_fsm_addrs])
next
  case (PinAuth rnd v)
  with r show ?thesis by (auto intro!: step_history_verdict [OF h on_auth_result_exits])
next
  case (PinMsChap rnd v ar es)
  with r show ?thesis by (auto intro!: step_history_verdict [OF h on_mschap_result_exits])
qed

lemma ppp_history_mono: "ppp_history tr p \<Longrightarrow> ppp_history (tr @ tr') p"
  by (auto simp: ppp_history_def intro: history_mono)

lemma ppp_history_machine:
  assumes "ppp_history tr p" and "ppp_machine_step p i = (p', ot)"
  shows "ppp_history (tr @ [(i, ot)]) p'
    \<and> (\<forall>st. ot = Some st \<longrightarrow> event_history (tr @ [(i, ot)]) (ps_event st))"
  using assms step_history_input [OF assms(1), of i]
  by (auto simp: ppp_machine_step_def step_history_def ppp_history_mono split: option.splits)

lemma ppp_history_new: "ppp_history [] (ppp_new ip m)"
  by (simp add: ppp_history_def ppp_new_def)

lemma ppp_history_run:
  assumes "ppp_history tr p" and "run_machine ppp_machine_step p is = (p', outs)"
    and "k < length is" and "outs ! k = Some st"
  shows "event_history (tr @ take (Suc k) (zip is outs)) (ps_event st)"
  using assms
proof (induction "is" arbitrary: tr p outs k)
  case Nil
  then show ?case by simp
next
  case (Cons i rest)
  obtain p1 ot where st1: "ppp_machine_step p i = (p1, ot)" by fastforce
  with Cons.prems(2) obtain outs' where run: "run_machine ppp_machine_step p1 rest = (p', outs')"
    and outs: "outs = ot # outs'"
    by (auto simp: Let_def split: prod.splits)
  note h = ppp_history_machine [OF Cons.prems(1) st1]
  show ?case
  proof (cases k)
    case 0
    with h Cons.prems(4) outs show ?thesis by simp
  next
    case (Suc j)
    with Cons.IH [of "tr @ [(i, ot)]" p1 outs' j] h run Cons.prems(3,4) outs
    show ?thesis by simp
  qed
qed

lemma length_run_machine [simp]: "length (snd (run_machine f s es)) = length es"
  by (induction es arbitrary: s) (simp_all add: Let_def split: prod.split, metis snd_conv)

lemma assigned_from_positions:
  assumes "assigned_from (take n (zip is outs)) a" and "length outs = length is" and "n \<le> length is"
  obtains l j st a0 m where "l < j" "j < n" "outs ! l = Some st" "needs_auth (ps_event st)"
    "input_accepts (is ! j) = Some a0" "a = a0\<lparr>aa_mtu := merge_mtu (aa_mtu a0) m\<rparr>"
proof -
  let ?tr = "take n (zip is outs)"
  from assms(1) obtain pre i ot post a0 m where tr: "?tr = pre @ (i, ot) # post"
    and req: "auth_requested pre" and acc: "input_accepts i = Some a0"
    and a: "a = a0\<lparr>aa_mtu := merge_mtu (aa_mtu a0) m\<rparr>"
    unfolding assigned_from_def by blast
  from req obtain l i' st where l: "l < length pre" "pre ! l = (i', Some st)"
    and need: "needs_auth (ps_event st)"
    unfolding auth_requested_def by (metis in_set_conv_nth)
  have len: "length pre < n" using arg_cong [OF tr, of length] assms(2,3) by simp
  have j: "?tr ! length pre = (i, ot)" and l': "?tr ! l = (i', Some st)"
    unfolding tr using l by (simp_all add: nth_append)
  have "is ! length pre = i" and "outs ! l = Some st"
    using j l' len l(1) assms(2,3) by simp_all
  with that [of l "length pre" st a0 m] l(1) len need acc a show ?thesis by simp
qed

text \<open>
  C2 (safety).  The network comes up only for an authenticated peer: when the driver announces
  \<open>NetworkUp a\<close>, an earlier input was an accepting verdict, given after the driver had asked for
  credentials to be checked, and \<open>a\<close> is what that verdict assigned, up to the MTU merged with
  the peer's MRU.
\<close>

theorem ppp_network_up_authorised:
  assumes "run_machine ppp_machine_step (ppp_new ip method) is = (p, outs)"
    and "k < length is" and "outs ! k = Some st" and "ps_event st = Some (NetworkUp a)"
  shows "\<exists>l j st' a0 m. l < j \<and> j \<le> k \<and> outs ! l = Some st' \<and> needs_auth (ps_event st')
    \<and> input_accepts (is ! j) = Some a0 \<and> a = a0\<lparr>aa_mtu := merge_mtu (aa_mtu a0) m\<rparr>"
proof -
  have "assigned_from (take (Suc k) (zip is outs)) a"
    using ppp_history_run [OF ppp_history_new assms(1-3)] assms(4) by simp
  moreover have "length outs = length is"
    using length_run_machine [of ppp_machine_step "ppp_new ip method" "is"] assms(1) by simp
  ultimately obtain l j st' a0 m where "l < j" "j < Suc k" "outs ! l = Some st'"
    "needs_auth (ps_event st')" "input_accepts (is ! j) = Some a0"
    "a = a0\<lparr>aa_mtu := merge_mtu (aa_mtu a0) m\<rparr>"
    using assms(2) by (auto elim: assigned_from_positions)
  then show ?thesis unfolding less_Suc_eq_le by blast
qed

text \<open>A PAP session up to \<open>NetworkUp\<close>, with a peer that asks for no options.\<close>

definition sample_session :: "ppp_input list" where
  "sample_session =
     (let rnd = replicate 16 0 in
      [PinOpen rnd,
       PinFrame rnd [0xFF, 3, 0xC0, 0x21, 2, 1, 0, 4],
       PinFrame rnd [0xFF, 3, 0xC0, 0x21, 1, 7, 0, 4],
       PinFrame rnd [0xFF, 3, 0xC0, 0x23, 1, 9, 0, 8, 1, 0x61, 1, 0x62],
       PinAuth rnd (Accept sample_addrs),
       PinFrame rnd [0xFF, 3, 0x80, 0x21, 2, 1, 0, 4],
       PinFrame rnd [0xFF, 3, 0x80, 0x21, 1, 5, 0, 4]])"

lemmas decode_eval = decode_frame_def strip_address_control_def decode_lcp_packet_def
  decode_authenticate_request_def pap_decode_header_def decode_challenge_response_def
  chap_decode_header_def wire_defs from_be16_def slice_def

lemmas fsm_eval = fsm_step_def fsm_new_def arm_open_def arm_up_def arm_rca_def arm_rcr_good_def
  irc_configure_def consume_def is_request_def bump_identifier_def fsm_value_defs

lemmas negotiation_eval = lcp_server_new_def lcp_step_fsm_def lcp_open_def lcp_on_packet_def
  lcp_classify_configure_request_def ipcp_server_new_def ipcp_step_fsm_def ipcp_open_def
  ipcp_on_packet_def ipcp_classify_configure_request_def render_send_def render_ipcp_send_def
  typed_code_def lcp_code_from_u8_def ipcp_code_from_u8_def option_iter.simps option_next_def
  sample_addrs_def

lemmas driver_eval = ppp_machine_step_def ppp_open_def ppp_new_def on_frame_def handle_lcp_def
  handle_pap_def handle_chap_def handle_ipcp_def is_auth_phase_def render_lcp_step_def
  render_ipcp_step_def enter_auth_def next_chap_id_def apply_timer_def ppp_step_default_def
  on_auth_result_def push_frame_def advance_to_network_def append_step_def merge_mtu_def
  protocol_from_u16_def

lemma sample_session_events:
  "map (map_option ps_event)
      (snd (run_machine ppp_machine_step (ppp_new [10, 0, 0, 1] AmPap) sample_session))
    = [Some None, Some None, Some None, Some (Some (NeedPapAuth [0x61] [0x62])), Some None, Some None,
       Some (Some (NetworkUp sample_addrs))]"
proof -
  obtain body where b: "pap_encode_response (replicate 16 0) PapAuthenticateAck 9 [] = Some body"
    using pap_response_total [of PapAuthenticateAck "[]" 9] by auto
  obtain frame where f: "encode_pap_frame (truncated body) = Some frame"
    using encode_auth_frames_total(1) by (metis not_None_eq)
  show ?thesis
    by (simp add: sample_session_def decode_eval fsm_eval negotiation_eval driver_eval Let_def b f
      del: replicate.simps)
qed

lemma nth_map_Some: "k < length xs \<Longrightarrow> map (map_option f) xs ! k = Some y \<Longrightarrow> \<exists>x. xs ! k = Some x \<and> f x = y"
  by auto

theorem ppp_network_up_authorised_witness:
  "\<exists>p outs st j a0. run_machine ppp_machine_step (ppp_new [10, 0, 0, 1] AmPap) sample_session = (p, outs)
    \<and> 6 < length sample_session \<and> outs ! 6 = Some st \<and> ps_event st = Some (NetworkUp sample_addrs)
    \<and> input_accepts (sample_session ! j) = Some a0"
proof -
  obtain p outs where r:
    "run_machine ppp_machine_step (ppp_new [10, 0, 0, 1] AmPap) sample_session = (p, outs)" by fastforce
  have k: "6 < length sample_session" by (simp add: sample_session_def Let_def)
  have ev: "map (map_option ps_event) outs ! 6 = Some (Some (NetworkUp sample_addrs))"
    using sample_session_events unfolding r by simp
  have "length outs = length sample_session"
    using length_run_machine [of ppp_machine_step "ppp_new [10, 0, 0, 1] AmPap" sample_session] r by simp
  with nth_map_Some [OF _ ev] k obtain st where
    st: "outs ! 6 = Some st" "ps_event st = Some (NetworkUp sample_addrs)" by auto
  from ppp_network_up_authorised [OF r k st] r k st show ?thesis by blast
qed

text \<open>
  C25 (safety).  A response is only ever checked against a challenge of the server: whenever the
  driver asks for a CHAP or MS-CHAPv2 response to be verified, the challenge it passes on is one
  it drew itself and sent to the peer in a Challenge packet of an earlier step.
\<close>

theorem chap_challenge_is_own:
  assumes "run_machine ppp_machine_step (ppp_new ip method) is = (p, outs)"
    and "k < length is" and "outs ! k = Some st"
    and "ps_event st \<in> {Some (NeedChapAuth u i c r), Some (NeedMsChapV2Auth u i c pc nt fl)}"
  shows "\<exists>j st' ident frame. j \<le> k \<and> outs ! j = Some st' \<and> input_random (is ! j) = c
    \<and> encode_chap_challenge ident c = Some frame \<and> frame \<in> set (ps_frames st')"
proof -
  have len: "length outs = length is"
    using length_run_machine [of ppp_machine_step "ppp_new ip method" "is"] assms(1) by simp
  have "drawn_in (take (Suc k) (zip is outs)) c"
    using ppp_history_run [OF ppp_history_new assms(1-3)] assms(4) by auto
  then obtain i' st' where m: "(i', Some st') \<in> set (take (Suc k) (zip is outs))"
    and c: "input_random i' = c" "sent_challenge st' c"
    unfolding drawn_in_def by blast
  from m obtain j where "j \<le> k" "outs ! j = Some st'" "is ! j = i'"
    unfolding in_set_conv_nth using len assms(2) by (auto simp: less_Suc_eq_le)
  with c show ?thesis unfolding sent_challenge_def by blast
qed

text \<open>A CHAP session up to the response of the peer.\<close>

definition sample_chap_session :: "ppp_input list" where
  "sample_chap_session =
     (let rnd = replicate 16 5 in
      [PinOpen rnd,
       PinFrame rnd [0xFF, 3, 0xC0, 0x21, 2, 1, 0, 4],
       PinFrame rnd [0xFF, 3, 0xC0, 0x21, 1, 7, 0, 4],
       PinFrame rnd ([0xFF, 3, 0xC2, 0x23, 2, 0, 0, 22, 16] @ replicate 16 1 @ [0x61])])"

lemma sample_chap_session_event:
  "map (map_option ps_event)
      (snd (run_machine ppp_machine_step (ppp_new [10, 0, 0, 1] AmChapMd5) sample_chap_session)) ! 3
    = Some (Some (NeedChapAuth [0x61] 0 (replicate 16 5) (replicate 16 1)))"
proof -
  obtain frame where f: "encode_chap_challenge 0 (replicate 16 5) = Some frame"
    using encode_chap_challenge_total [of "replicate 16 5" 0] by auto
  show ?thesis
    by (simp add: sample_chap_session_def decode_eval fsm_eval negotiation_eval driver_eval Let_def f
      nth_append del: replicate.simps)
qed

theorem chap_challenge_is_own_witness:
  "\<exists>p outs st j frame. run_machine ppp_machine_step (ppp_new [10, 0, 0, 1] AmChapMd5) sample_chap_session = (p, outs)
    \<and> 3 < length sample_chap_session \<and> outs ! 3 = Some st
    \<and> ps_event st = Some (NeedChapAuth [0x61] 0 (replicate 16 5) (replicate 16 1))
    \<and> input_random (sample_chap_session ! j) = replicate 16 5"
proof -
  let ?ev = "Some (NeedChapAuth [0x61] 0 (replicate 16 5) (replicate 16 1))"
  obtain p outs where r:
    "run_machine ppp_machine_step (ppp_new [10, 0, 0, 1] AmChapMd5) sample_chap_session = (p, outs)"
    by fastforce
  have k: "3 < length sample_chap_session" by (simp add: sample_chap_session_def Let_def)
  have ev: "map (map_option ps_event) outs ! 3 = Some ?ev"
    using sample_chap_session_event unfolding r by simp
  have "length outs = length sample_chap_session"
    using length_run_machine [of ppp_machine_step "ppp_new [10, 0, 0, 1] AmChapMd5" sample_chap_session] r
    by simp
  with nth_map_Some [OF _ ev] k obtain st where st: "outs ! 3 = Some st" "ps_event st = ?ev" by auto
  then have "ps_event st \<in> {?ev, Some (NeedMsChapV2Auth [0x61] 0 (replicate 16 5) [] [] 0)}" by simp
  from chap_challenge_is_own [OF r k st(1) this] r k st show ?thesis by blast
qed

subsection \<open>The phases of a session\<close>

text \<open>What may lead into each phase.\<close>

definition phase_entered :: "phase \<Rightarrow> ppp_input \<Rightarrow> ppp_step \<Rightarrow> phase \<Rightarrow> bool" where
  "phase_entered from i st to = (to = from \<or> (case to of
     Establish \<Rightarrow> False
   | AuthPending \<Rightarrow> input_accepts i = None
   | AuthInFlight _ \<Rightarrow> is_auth_phase from \<and> needs_auth (ps_event st)
   | Network \<Rightarrow> in_flight from \<and> input_accepts i \<noteq> None
   | Dead \<Rightarrow> ps_finished st))"

lemma render_lcp_step_dead:
  assumes "render_lcp_step rnd p step = Some (p', out)" and "ppp_phase p' = Dead"
  shows "ppp_phase p = Dead \<or> ps_finished out"
proof -
  from assms(1) obtain ls out1 p2 out2 p3 where
    e: "(if nt_up (fo_notify step) \<and> \<not> ls_opened ls then enter_auth rnd (p\<lparr>ppp_lcp := ls\<rparr>) out1
      else Some (p\<lparr>ppp_lcp := ls\<rparr>, out1)) = Some (p2, out2)"
    and p3: "p3 = (if nt_down (fo_notify step) then p2\<lparr>ppp_lcp := (ppp_lcp p2)\<lparr>ls_opened := False\<rparr>\<rparr> else p2)"
    and p': "p' = (if nt_finished (fo_notify step) then p3\<lparr>ppp_phase := Dead\<rparr> else p3)"
    and out: "out = (if nt_finished (fo_notify step) then out2\<lparr>ps_finished := True\<rparr> else out2)"
    by (rule render_lcp_step_parts)
  have "ppp_phase p2 \<in> {ppp_phase p, AuthPending}"
    using e by (auto split: if_splits dest!: enter_auth_frame)
  with assms(2) show ?thesis unfolding p' p3 out by (auto split: if_splits)
qed

lemma phase_entered_lcp:
  assumes "render_lcp_step rnd (p\<lparr>ppp_lcp := ls\<rparr>) step = Some (p', st)" and "input_accepts i = None"
  shows "phase_entered (ppp_phase p) i st (ppp_phase p')"
  using render_lcp_step_frame [OF assms(1)] render_lcp_step_dead [OF assms(1)] assms(2)
  by (auto simp: phase_entered_def)

lemma phase_entered_ipcp:
  assumes "render_ipcp_step (p\<lparr>ppp_ipcp := s\<rparr>) step = Some (p', st)" and "ppp_phase p = ph"
  shows "phase_entered ph i st (ppp_phase p')"
  using render_ipcp_step_frame [OF assms(1)] assms(2) by (auto simp: phase_entered_def)

lemma phase_entered_pap:
  "handle_pap p info = (p', st) \<Longrightarrow> is_auth_phase (ppp_phase p) \<Longrightarrow>
   phase_entered (ppp_phase p) i st (ppp_phase p')"
  by (auto simp: handle_pap_def phase_entered_def split: sum.splits)

lemma phase_entered_chap:
  "handle_chap p info = (p', st) \<Longrightarrow> is_auth_phase (ppp_phase p) \<Longrightarrow>
   phase_entered (ppp_phase p) i st (ppp_phase p')"
  by (auto simp: handle_chap_def phase_entered_def
    split: sum.splits auth_method.splits if_splits option.splits)

lemma phase_entered_idle [simp]: "phase_entered ph i st ph"
  by (simp add: phase_entered_def)

lemma phase_entered_reject:
  "protocol_reject p pr info = (p', st) \<Longrightarrow> phase_entered (ppp_phase p) i st (ppp_phase p')"
  by (auto simp: protocol_reject_def Let_def split: if_splits)

lemma phase_entered_frame:
  assumes "on_frame rnd p payload = Some (p', st)"
  shows "phase_entered (ppp_phase p) (PinFrame rnd payload) st (ppp_phase p')"
  using assms
  by (auto simp: on_frame_def handle_lcp_def handle_ipcp_def split_beta
      split: sum.splits option.splits protocol_id.splits if_splits
      intro: phase_entered_lcp phase_entered_ipcp phase_entered_pap phase_entered_chap phase_entered_reject)

lemma phase_entered_verdict:
  assumes "(p', st) = (p, ppp_step_default)
    \<or> (\<exists>m step. ppp_phase p = AuthInFlight m \<and> ps_event step = None
        \<and> (case v of Accept a \<Rightarrow> advance_to_network p step a = Some (p', st)
           | Reject msg \<Rightarrow> tear_down_after_reject rnd p step = Some (p', st)))"
    and "\<And>a. v = Accept a \<Longrightarrow> input_accepts i = Some a"
  shows "phase_entered (ppp_phase p) i st (ppp_phase p')"
  using assms
  by (cases v)
    (auto simp: phase_entered_def tear_down_after_reject_def bind_eq_Some_conv Let_def split_beta
      dest!: advance_to_network_frame)

text \<open>
  Every change of phase has its cause: authentication is in flight only after the
  driver, while authenticating, asked for credentials to be checked; the network phase is
  entered only from there and only by an accepting verdict; a session ends only with a step
  that reports it finished; and the first phase is never entered again.
\<close>

theorem ppp_phase_transitions:
  assumes "ppp_input_step p i = Some (p', st)"
  shows "phase_entered (ppp_phase p) i st (ppp_phase p')"
proof (cases i)
  case (PinOpen rnd)
  with assms show ?thesis by (auto simp: ppp_open_def split_beta intro: phase_entered_lcp)
next
  case (PinFrame rnd payload)
  with assms phase_entered_frame show ?thesis by simp
next
  case (PinTimer rnd owner)
  with assms show ?thesis
    by (auto simp: ppp_on_timer_def split_beta split: timer_owner.splits option.splits
      intro: phase_entered_lcp phase_entered_ipcp)
next
  case (PinAuth rnd v)
  with assms show ?thesis by (auto intro!: phase_entered_verdict [OF on_auth_result_exits])
next
  case (PinMsChap rnd v ar es)
  with assms show ?thesis by (auto intro!: phase_entered_verdict [OF on_mschap_result_exits])
qed

end
