(* ===== verification/Auth_Types.thy ===== *)
theory Auth_Types
  imports Ppp_Driver
begin

text \<open>
  The data that crosses the boundary between RADIUS and a session: \<open>src/src/shape/mod.rs\<close>
  (shaping policy), \<open>src/src/auth/route.rs\<close> (framed routes), \<open>src/src/auth/mod.rs\<close> (accept
  data and session policy), and the outcomes of \<open>src/src/auth/bridge.rs\<close> with the projections
  that build them.  Durations are seconds; addresses are four bytes.
\<close>

record rate_spec =
  rate_bps :: u64
  burst_rate_bps :: "u64 option"
  burst_threshold_bps :: "u64 option"
  burst_time_secs :: "u32 option"
  min_rate_bps :: "u64 option"

record shaping_policy =
  sh_egress :: "rate_spec option"
  sh_ingress :: "rate_spec option"
  sh_priority :: "u8 option"

definition shaping_is_empty :: "shaping_policy \<Rightarrow> bool" where
  "shaping_is_empty p \<longleftrightarrow> sh_egress p = None \<and> sh_ingress p = None"

record framed_route =
  fr_dest :: bytes
  fr_prefix :: u8
  fr_gateway :: "bytes option"
  fr_metric :: "u32 option"

record auth_accept =
  ac_framed_ip :: bytes
  ac_framed_netmask :: "bytes option"
  ac_framed_mtu :: "u32 option"
  ac_primary_dns :: "bytes option"
  ac_secondary_dns :: "bytes option"
  ac_primary_nbns :: "bytes option"
  ac_secondary_nbns :: "bytes option"
  ac_mppe_send_key :: bytes
  ac_mppe_recv_key :: bytes
  ac_mschap2_success :: "bytes option"
  ac_shaping :: "shaping_policy option"
  ac_framed_routes :: "framed_route list"
  ac_class :: "bytes option"
  ac_session_timeout :: "nat option"
  ac_idle_timeout :: "nat option"
  ac_acct_interim_interval :: "nat option"

record session_policy =
  sp_framed_routes :: "framed_route list"
  sp_class :: "bytes option"
  sp_session_timeout :: "nat option"
  sp_idle_timeout :: "nat option"
  sp_acct_interim_interval :: "nat option"

definition session_policy_default :: session_policy where
  "session_policy_default =
     \<lparr>sp_framed_routes = [], sp_class = None, sp_session_timeout = None, sp_idle_timeout = None,
      sp_acct_interim_interval = None\<rparr>"

definition policy_from_accept :: "auth_accept \<Rightarrow> session_policy" where
  "policy_from_accept accept =
     \<lparr>sp_framed_routes = ac_framed_routes accept, sp_class = ac_class accept,
      sp_session_timeout = ac_session_timeout accept, sp_idle_timeout = ac_idle_timeout accept,
      sp_acct_interim_interval = ac_acct_interim_interval accept\<rparr>"

subsection \<open>Outcomes of the authentication bridge\<close>

record auth_outcome =
  ao_verdict :: auth_verdict
  ao_shaping :: "shaping_policy option"
  ao_policy :: session_policy

record mschap_outcome = auth_outcome +
  mo_auth_response :: "bytes option"
  mo_error_string :: "bytes option"
  mo_hlak :: "bytes option"

definition clamp_mtu :: "u16 \<Rightarrow> u16" where
  "clamp_mtu m = (if m < 576 then 576 else if 1500 < m then 1500 else m)"

definition project_addrs :: "auth_accept \<Rightarrow> assigned_addrs" where
  "project_addrs accept =
     \<lparr>aa_ip = ac_framed_ip accept,
      aa_mtu = (case ac_framed_mtu accept of
                  None \<Rightarrow> None
                | Some m \<Rightarrow> if unat m \<le> 65535 then Some (clamp_mtu (ucast m)) else None),
      aa_dns1 = ac_primary_dns accept, aa_dns2 = ac_secondary_dns accept,
      aa_nbns1 = ac_primary_nbns accept, aa_nbns2 = ac_secondary_nbns accept\<rparr>"

definition hlak_from_mppe :: "auth_accept \<Rightarrow> bytes option" where
  "hlak_from_mppe accept =
     (if length (ac_mppe_send_key accept) \<noteq> 16 \<or> length (ac_mppe_recv_key accept) \<noteq> 16 then None
      else Some (ac_mppe_recv_key accept @ ac_mppe_send_key accept))"

definition bridge_reject :: "bytes \<Rightarrow> auth_outcome" where
  "bridge_reject message =
     \<lparr>ao_verdict = Reject message, ao_shaping = None, ao_policy = session_policy_default\<rparr>"

definition accept_outcome :: "auth_accept \<Rightarrow> auth_outcome" where
  "accept_outcome accept =
     \<lparr>ao_verdict = Accept (project_addrs accept), ao_shaping = ac_shaping accept,
      ao_policy = policy_from_accept accept\<rparr>"

definition mschap_reject :: "bytes \<Rightarrow> mschap_outcome" where
  "mschap_reject message =
     \<lparr>ao_verdict = Reject message, ao_shaping = None, ao_policy = session_policy_default,
      mo_auth_response = None, mo_error_string = None, mo_hlak = None\<rparr>"

lemma project_addrs_mtu:
  "aa_mtu (project_addrs a) = Some m \<Longrightarrow> 576 \<le> m \<and> m \<le> 1500"
  by (auto simp: project_addrs_def clamp_mtu_def not_less split: option.splits if_splits)

lemma hlak_length: "hlak_from_mppe a = Some k \<Longrightarrow> length k = 32"
  by (auto simp: hlak_from_mppe_def split: if_splits)

end
