(* ===== verification/Shape_Mss.thy ===== *)
theory Shape_Mss
  imports Prelude "HOL-Library.Sublist"
begin

text \<open>
  The TCP segment size advertised on the inner interface: \<open>src/src/shape/mss.rs\<close>.  The version
  and the cipher are the names libssl gives them.  All the values are far below the width of
  the integers of the source, so they are natural numbers; a saturating subtraction is the
  subtraction of naturals.
\<close>

definition tls_record_overhead :: "string \<Rightarrow> string \<Rightarrow> nat" where
  "tls_record_overhead version cipher =
     (if version = ''TLSv1.3'' then 22
      else if version = ''TLSv1.2'' then
        if sublist ''CHACHA20'' cipher then 21
        else if sublist ''GCM'' cipher then 29
        else 56
      else 56)"

record mss4_bounds =
  mb_mss_link :: nat
  mb_mss_underlay :: nat
  mb_mss4 :: nat
  mb_tls_overhead :: nat
  mb_encap :: nat

definition UNDERLAY_PMTU :: nat where "UNDERLAY_PMTU = 1500"
definition INNER_IP_TCP :: nat where "INNER_IP_TCP = 40"
definition OUTER_IP_TCP :: nat where "OUTER_IP_TCP = 40"
definition SSTP_DATA :: nat where "SSTP_DATA = 4"
definition PPP_ACP :: nat where "PPP_ACP = 4"

definition clamp :: "nat \<Rightarrow> nat \<Rightarrow> nat \<Rightarrow> nat" where
  "clamp lo hi n = max lo (min hi n)"

definition compute_mss4 :: "nat \<Rightarrow> string \<Rightarrow> string \<Rightarrow> mss4_bounds" where
  "compute_mss4 mtu version cipher =
     (let tls = tls_record_overhead version cipher;
          mtu_clamped = clamp 576 1500 mtu;
          mss_link = mtu_clamped - INNER_IP_TCP;
          encap = OUTER_IP_TCP + tls + SSTP_DATA + PPP_ACP;
          mss_underlay = UNDERLAY_PMTU - (encap + INNER_IP_TCP) in
      \<lparr>mb_mss_link = mss_link, mb_mss_underlay = mss_underlay,
       mb_mss4 = clamp 536 1460 (min mss_link mss_underlay),
       mb_tls_overhead = tls, mb_encap = encap\<rparr>)"

lemma tls_record_overhead_range: "21 \<le> tls_record_overhead v c \<and> tls_record_overhead v c \<le> 56"
  by (simp add: tls_record_overhead_def)

lemmas mss_defs = compute_mss4_def UNDERLAY_PMTU_def INNER_IP_TCP_def OUTER_IP_TCP_def
  SSTP_DATA_def PPP_ACP_def Let_def

lemma clamp_id: "lo \<le> n \<Longrightarrow> n \<le> hi \<Longrightarrow> clamp lo hi n = n"
  by (simp add: clamp_def)

lemma clamp_bounds: "lo \<le> hi \<Longrightarrow> lo \<le> clamp lo hi n \<and> clamp lo hi n \<le> hi"
  by (simp add: clamp_def)

text \<open>The outer clamp of the source never changes the value.\<close>

lemma mss4_eq:
  "mb_mss4 (compute_mss4 mtu v c) =
     min (clamp 576 1500 mtu - 40) (1412 - tls_record_overhead v c)"
proof -
  have "clamp 536 1460 (min (clamp 576 1500 mtu - 40) (1412 - tls_record_overhead v c)) =
      min (clamp 576 1500 mtu - 40) (1412 - tls_record_overhead v c)"
    using clamp_bounds [of 576 1500 mtu] tls_record_overhead_range [of v c]
    by (intro clamp_id; simp add: min_def; arith)
  then show ?thesis by (simp add: mss_defs)
qed


end
