(* ===== verification/Sstp_Frame.thy ===== *)
theory Sstp_Frame
  imports Interfaces
begin

text \<open>
  The outer SSTP framing of \<open>src/src/sstp/frame.rs\<close>, with the message-type codes of
  \<open>src/src/sstp/msg.rs\<close> it decodes: \<open>packet_parse\<close> is \<open>Packet::parse\<close>, \<open>parse_body\<close> is
  \<open>ControlPacket::parse_body\<close> and \<open>write_header\<close> is the function of that name.  The lemmas give
  the bounds of what a parse consumes, that it looks at the declared length only, and the
  round trip with the header writer.
\<close>

subsection \<open>Constants and message types\<close>

definition SSTP_VERSION_1_0 :: u8 where
  [wire_defs]: "SSTP_VERSION_1_0 = 0x10"

definition SSTP_HEADER_LEN :: nat where
  [wire_defs]: "SSTP_HEADER_LEN = 4"

definition SSTP_CONTROL_EXTRA_LEN :: nat where
  [wire_defs]: "SSTP_CONTROL_EXTRA_LEN = 4"

definition SSTP_MAX_PACKET_LEN :: nat where
  [wire_defs]: "SSTP_MAX_PACKET_LEN = 0x0FFF"

datatype message_type =
    MtCallConnectRequest
  | MtCallConnectAck
  | MtCallConnectNak
  | MtCallConnected
  | MtCallAbort
  | MtCallDisconnect
  | MtCallDisconnectAck
  | MtEchoRequest
  | MtEchoResponse

definition message_type_from_u16 :: "u16 \<Rightarrow> message_type option" where
  "message_type_from_u16 v =
     (if v = 0x0001 then Some MtCallConnectRequest
      else if v = 0x0002 then Some MtCallConnectAck
      else if v = 0x0003 then Some MtCallConnectNak
      else if v = 0x0004 then Some MtCallConnected
      else if v = 0x0005 then Some MtCallAbort
      else if v = 0x0006 then Some MtCallDisconnect
      else if v = 0x0007 then Some MtCallDisconnectAck
      else if v = 0x0008 then Some MtEchoRequest
      else if v = 0x0009 then Some MtEchoResponse
      else None)"

fun message_type_as_u16 :: "message_type \<Rightarrow> u16" where
  "message_type_as_u16 MtCallConnectRequest = 0x0001"
| "message_type_as_u16 MtCallConnectAck = 0x0002"
| "message_type_as_u16 MtCallConnectNak = 0x0003"
| "message_type_as_u16 MtCallConnected = 0x0004"
| "message_type_as_u16 MtCallAbort = 0x0005"
| "message_type_as_u16 MtCallDisconnect = 0x0006"
| "message_type_as_u16 MtCallDisconnectAck = 0x0007"
| "message_type_as_u16 MtEchoRequest = 0x0008"
| "message_type_as_u16 MtEchoResponse = 0x0009"

subsection \<open>Packets\<close>

datatype parse_error =
    Truncated
  | UnsupportedVersion u8
  | LengthMismatch (declared: nat) (available: nat)
  | LengthTooSmall nat
  | UnknownMessageType u16
  | UnknownAttributeId u8
  | AttributeLength nat nat
  | AttributeSize (actual: nat) (expected: nat)

record control_packet =
  cp_msg_type :: message_type
  cp_num_attrs :: u16
  cp_attrs :: bytes

datatype packet = Data bytes | Control control_packet

definition parse_body :: "bytes \<Rightarrow> parse_error + control_packet" where
  "parse_body body =
     (if length body < SSTP_CONTROL_EXTRA_LEN then Inl Truncated
      else
        let msg_type_raw = from_be16 (body ! 0) (body ! 1) in
        case message_type_from_u16 msg_type_raw of
          None \<Rightarrow> Inl (UnknownMessageType msg_type_raw)
        | Some msg_type \<Rightarrow>
            Inr \<lparr>cp_msg_type = msg_type,
                 cp_num_attrs = from_be16 (body ! 2) (body ! 3),
                 cp_attrs = drop SSTP_CONTROL_EXTRA_LEN body\<rparr>)"

definition packet_parse :: "bytes \<Rightarrow> parse_error + (packet \<times> nat)" where
  "packet_parse buf =
     (if length buf < SSTP_HEADER_LEN then Inl Truncated
      else
        let version = buf ! 0 in
        if version \<noteq> SSTP_VERSION_1_0 then Inl (UnsupportedVersion version)
        else
          let c = (buf ! 1 AND 0x01 \<noteq> 0);
              len = unat (from_be16 (buf ! 2) (buf ! 3)) AND SSTP_MAX_PACKET_LEN in
          if len < SSTP_HEADER_LEN then Inl (LengthTooSmall len)
          else if len > length buf then Inl (LengthMismatch len (length buf))
          else
            let body = slice SSTP_HEADER_LEN len buf in
            if c then try_bind (parse_body body) (\<lambda>cp. Inr (Control cp, len))
            else Inr (Data body, len))"

text \<open>The writer fills the whole 4-byte array, so it is a function of its arguments alone.\<close>

definition write_header :: "bool \<Rightarrow> nat \<Rightarrow> bytes" where
  "write_header control total_len =
     [SSTP_VERSION_1_0, (if control then 1 else 0)] @
     be16 (word_of_nat total_len AND word_of_nat SSTP_MAX_PACKET_LEN)"

subsection \<open>Twelve-bit lengths\<close>

lemma nat_and_4095: "(n :: nat) AND 4095 = n mod 4096"
  using take_bit_eq_mask [of 12 n] take_bit_eq_mod [of 12 n] by (simp add: mask_eq_exp_minus_1)

lemma u16_and_4095: "n < 4096 \<Longrightarrow> (word_of_nat n :: u16) AND 4095 = word_of_nat n"
proof -
  assume n: "n < 4096"
  have "take_bit 12 (word_of_nat n :: u16) = word_of_nat n"
    using n by (simp add: word_unat_eq_iff unat_of_nat_u16 unsigned_take_bit_eq take_bit_nat_eq_self)
  then show ?thesis by (simp add: take_bit_eq_mask mask_eq_exp_minus_1)
qed

lemma header_length_bytes:
  assumes "n < 4096" and "be16 (word_of_nat n AND 4095) = [a, b]"
  shows "unat (from_be16 a b) AND 4095 = n"
proof -
  have "be16 (word_of_nat n) = [a, b]" using assms by (simp add: u16_and_4095)
  then have "from_be16 a b = word_of_nat n" by (metis be16_split list.inject)
  then show ?thesis using assms(1) by (simp add: unat_of_nat_u16 nat_and_4095)
qed

lemma length_write_header [simp, wire_len]: "length (write_header c n) = 4"
  by (simp add: write_header_def)

lemma write_header_shape:
  assumes "n < 4096"
  obtains a b where "write_header c n = [0x10, (if c then 1 else 0), a, b]"
    and "unat (from_be16 a b) AND 4095 = n"
proof -
  obtain a b where ab: "be16 (word_of_nat n AND 4095) = [a, b]"
    using be16_split by blast
  then have "write_header c n = [0x10, (if c then 1 else 0), a, b]"
    by (simp add: write_header_def wire_defs)
  then show thesis using header_length_bytes [OF assms ab] by (rule that)
qed

subsection \<open>What a parse consumes\<close>

lemma packet_parse_consumed:
  "packet_parse buf = Inr (pkt, n) \<Longrightarrow> 4 \<le> n \<and> n \<le> length buf \<and> n \<le> 4095"
  by (auto simp: packet_parse_def wire_defs Let_def try_bind_Inr_iff nat_and_4095 split: if_splits)

text \<open>The header fields of a buffer that is at least a header long.\<close>

lemma packet_parse_Cons4:
  "packet_parse (v # f # a # b # rest) =
     (if v \<noteq> 0x10 then Inl (UnsupportedVersion v)
      else
        let len = unat (from_be16 a b) AND 4095 in
        if len < 4 then Inl (LengthTooSmall len)
        else if len > length rest + 4 then Inl (LengthMismatch len (length rest + 4))
        else if f AND 1 \<noteq> 0
          then try_bind (parse_body (take (len - 4) rest)) (\<lambda>cp. Inr (Control cp, len))
          else Inr (Data (take (len - 4) rest), len))"
  by (simp add: packet_parse_def wire_defs slice_def Let_def)

lemma packet_parse_prefix:
  assumes ok: "packet_parse buf = Inr (pkt, n)" and eq: "take n buf' = take n buf"
  shows "packet_parse buf' = Inr (pkt, n)"
proof -
  from packet_parse_consumed [OF ok] have n: "4 \<le> n" "n \<le> length buf" by auto
  then obtain v f a b rest where buf: "buf = v # f # a # b # rest"
    using list_ge_4 [of buf] by auto
  have len': "n \<le> length buf'"
    using eq n(2) by (metis length_take min.absorb2 min.cobounded1)
  then obtain v' f' a' b' rest' where buf': "buf' = v' # f' # a' # b' # rest'"
    using n list_ge_4 [of buf'] by auto
  obtain m where m: "n = Suc (Suc (Suc (Suc m)))"
    using n(1) by (auto simp: nat_le_iff_add numeral_eq_Suc)
  have hd: "v' = v" "f' = f" "a' = a" "b' = b" and tk: "take m rest' = take m rest"
    using eq by (simp_all add: buf buf' m)
  have "unat (from_be16 a b) AND 4095 = n"
    using ok by (auto simp: buf packet_parse_Cons4 Let_def try_bind_Inr_iff split: if_splits)
  then show ?thesis
    using ok len' tk by (auto simp: buf buf' hd packet_parse_Cons4 m split: if_splits)
qed

lemma packet_parse_append:
  "packet_parse buf = Inr (pkt, n) \<Longrightarrow> packet_parse (buf @ extra) = Inr (pkt, n)"
  by (rule packet_parse_prefix) (use packet_parse_consumed [of buf pkt n] in simp_all)

subsection \<open>Round trip with the header writer\<close>

lemma packet_parse_data_frame:
  assumes "length p \<le> 4091"
  shows "packet_parse (write_header False (4 + length p) @ p @ rest) = Inr (Data p, 4 + length p)"
proof -
  have "4 + length p < 4096" using assms by simp
  then obtain a b where h: "write_header False (4 + length p) = [0x10, 0, a, b]"
    "unat (from_be16 a b) AND 4095 = 4 + length p"
    by (rule write_header_shape [where c = False]) auto
  then show ?thesis by (simp add: packet_parse_Cons4)
qed

lemma packet_parse_control_frame:
  assumes "length body \<le> 4091"
  shows "packet_parse (write_header True (4 + length body) @ body @ rest) =
    try_bind (parse_body body) (\<lambda>cp. Inr (Control cp, 4 + length body))"
proof -
  have "4 + length body < 4096" using assms by simp
  then obtain a b where h: "write_header True (4 + length body) = [0x10, 1, a, b]"
    "unat (from_be16 a b) AND 4095 = 4 + length body"
    by (rule write_header_shape [where c = True]) auto
  then show ?thesis by (simp add: packet_parse_Cons4)
qed

text \<open>
  For every payload that fits the 12-bit length field, writing the outer
  header in front of it and parsing the result, with any bytes following, gives the payload
  back as a data packet and consumes exactly header and payload; with the control bit set the
  same bytes parse as the control packet the body parser makes of the payload.
\<close>

theorem frame_header_roundtrip:
  assumes "length p \<le> 4091"
  shows "packet_parse (write_header False (SSTP_HEADER_LEN + length p) @ p @ rest)
           = Inr (Data p, SSTP_HEADER_LEN + length p)
       \<and> packet_parse (write_header True (SSTP_HEADER_LEN + length p) @ p @ rest)
           = try_bind (parse_body p) (\<lambda>cp. Inr (Control cp, SSTP_HEADER_LEN + length p))"
  using assms packet_parse_data_frame packet_parse_control_frame
  by (simp add: SSTP_HEADER_LEN_def)

text \<open>
  A successful parse consumes between 4 and 4095 bytes, never more than the
  buffer holds, and its result is determined by exactly those bytes: any other buffer that
  agrees on them, longer or shorter, parses to the same packet.
\<close>

theorem frame_parse_local:
  assumes "packet_parse buf = Inr (pkt, n)"
  shows "4 \<le> n \<and> n \<le> length buf \<and> n \<le> SSTP_MAX_PACKET_LEN
       \<and> packet_parse (take n buf @ other) = Inr (pkt, n)"
proof -
  have c: "4 \<le> n" "n \<le> length buf" "n \<le> 4095" using packet_parse_consumed [OF assms] by auto
  then have "take n (take n buf @ other) = take n buf" by simp
  from packet_parse_prefix [OF assms this] c show ?thesis by (simp add: SSTP_MAX_PACKET_LEN_def)
qed

end
