(* ===== verification/Sstp_Attr.thy ===== *)
theory Sstp_Attr
  imports Sstp_Frame
begin

text \<open>
  The SSTP attribute codec of \<open>src/src/sstp/attr.rs\<close>: attribute identifiers and status codes,
  the typed views of an attribute, the attribute iterator \<open>AttrIter\<close> (\<open>attr_next\<close> is one call
  of \<open>next\<close>, \<open>attr_iter\<close> the whole iteration) and the header writer.  The iterator is shown to
  implement the interface \<open>tlv_iter\<close>.
\<close>

subsection \<open>Identifiers and status codes\<close>

definition ATTR_HEADER_LEN :: nat where
  [wire_defs]: "ATTR_HEADER_LEN = 4"

datatype attribute_id =
    AttrNoError
  | EncapsulatedProtocolId
  | AttrStatusInfo
  | AttrCryptoBinding
  | AttrCryptoBindingReq

definition attribute_id_from_u8 :: "u8 \<Rightarrow> attribute_id option" where
  "attribute_id_from_u8 v =
     (if v = 0x00 then Some AttrNoError
      else if v = 0x01 then Some EncapsulatedProtocolId
      else if v = 0x02 then Some AttrStatusInfo
      else if v = 0x03 then Some AttrCryptoBinding
      else if v = 0x04 then Some AttrCryptoBindingReq
      else None)"

fun attribute_id_as_u8 :: "attribute_id \<Rightarrow> u8" where
  "attribute_id_as_u8 AttrNoError = 0x00"
| "attribute_id_as_u8 EncapsulatedProtocolId = 0x01"
| "attribute_id_as_u8 AttrStatusInfo = 0x02"
| "attribute_id_as_u8 AttrCryptoBinding = 0x03"
| "attribute_id_as_u8 AttrCryptoBindingReq = 0x04"

definition CERT_HASH_PROTOCOL_SHA1 :: u8 where
  [wire_defs]: "CERT_HASH_PROTOCOL_SHA1 = 0x01"

definition CERT_HASH_PROTOCOL_SHA256 :: u8 where
  [wire_defs]: "CERT_HASH_PROTOCOL_SHA256 = 0x02"

definition SSTP_ENCAPSULATED_PROTOCOL_PPP :: u16 where
  [wire_defs]: "SSTP_ENCAPSULATED_PROTOCOL_PPP = 0x0001"

datatype status_code =
    StNoError
  | DuplicateAttribute
  | UnrecognizedAttribute
  | InvalidAttribValueLength
  | StValueNotSupported
  | UnacceptedFrameReceived
  | RetryCountExceeded
  | InvalidFrameReceived
  | StNegotiationTimeout
  | StAttribNotSupportedInMsg
  | RequiredAttributeMissing
  | StatusInfoNotSupportedInMsg

fun status_code_as_u32 :: "status_code \<Rightarrow> u32" where
  "status_code_as_u32 StNoError = 0x00"
| "status_code_as_u32 DuplicateAttribute = 0x01"
| "status_code_as_u32 UnrecognizedAttribute = 0x02"
| "status_code_as_u32 InvalidAttribValueLength = 0x03"
| "status_code_as_u32 StValueNotSupported = 0x04"
| "status_code_as_u32 UnacceptedFrameReceived = 0x05"
| "status_code_as_u32 RetryCountExceeded = 0x06"
| "status_code_as_u32 InvalidFrameReceived = 0x07"
| "status_code_as_u32 StNegotiationTimeout = 0x08"
| "status_code_as_u32 StAttribNotSupportedInMsg = 0x09"
| "status_code_as_u32 RequiredAttributeMissing = 0x0a"
| "status_code_as_u32 StatusInfoNotSupportedInMsg = 0x0b"

subsection \<open>Attributes and their typed views\<close>

record attribute =
  at_id :: attribute_id
  at_value :: bytes

record crypto_binding_req =
  cbr_hash_bitmask :: u8
  cbr_nonce :: bytes

definition CRYPTO_BINDING_REQ_VALUE_LEN :: nat where
  [wire_defs]: "CRYPTO_BINDING_REQ_VALUE_LEN = 36"

record crypto_binding =
  cb_hash_protocol :: u8
  cb_nonce :: bytes
  cb_cert_hash_block :: bytes
  cb_compound_mac_block :: bytes

definition CRYPTO_BINDING_VALUE_LEN :: nat where
  [wire_defs]: "CRYPTO_BINDING_VALUE_LEN = 100"

definition cb_hash_len :: "crypto_binding \<Rightarrow> nat option" where
  "cb_hash_len cb =
     (if cb_hash_protocol cb = CERT_HASH_PROTOCOL_SHA1 then Some 20
      else if cb_hash_protocol cb = CERT_HASH_PROTOCOL_SHA256 then Some 32
      else None)"

record status_info =
  si_attrib_id :: u8
  si_status :: u32
  si_attrib_value :: bytes

definition as_encapsulated_protocol :: "attribute \<Rightarrow> parse_error + u16" where
  "as_encapsulated_protocol a =
     (if at_id a \<noteq> EncapsulatedProtocolId
      then Inl (UnknownAttributeId (attribute_id_as_u8 (at_id a)))
      else if length (at_value a) \<noteq> 2 then Inl (AttributeSize (length (at_value a)) 2)
      else Inr (from_be16 (at_value a ! 0) (at_value a ! 1)))"

definition as_crypto_binding_req :: "attribute \<Rightarrow> parse_error + crypto_binding_req" where
  "as_crypto_binding_req a =
     (if at_id a \<noteq> AttrCryptoBindingReq
      then Inl (UnknownAttributeId (attribute_id_as_u8 (at_id a)))
      else if length (at_value a) \<noteq> CRYPTO_BINDING_REQ_VALUE_LEN
      then Inl (AttributeSize (length (at_value a)) CRYPTO_BINDING_REQ_VALUE_LEN)
      else Inr \<lparr>cbr_hash_bitmask = at_value a ! 3, cbr_nonce = slice 4 36 (at_value a)\<rparr>)"

definition as_crypto_binding :: "attribute \<Rightarrow> parse_error + crypto_binding" where
  "as_crypto_binding a =
     (if at_id a \<noteq> AttrCryptoBinding
      then Inl (UnknownAttributeId (attribute_id_as_u8 (at_id a)))
      else if length (at_value a) \<noteq> CRYPTO_BINDING_VALUE_LEN
      then Inl (AttributeSize (length (at_value a)) CRYPTO_BINDING_VALUE_LEN)
      else Inr \<lparr>cb_hash_protocol = at_value a ! 3,
                cb_nonce = slice 4 36 (at_value a),
                cb_cert_hash_block = slice 36 68 (at_value a),
                cb_compound_mac_block = slice 68 100 (at_value a)\<rparr>)"

definition as_status_info :: "attribute \<Rightarrow> parse_error + status_info" where
  "as_status_info a =
     (if at_id a \<noteq> AttrStatusInfo
      then Inl (UnknownAttributeId (attribute_id_as_u8 (at_id a)))
      else if length (at_value a) < 8 then Inl (AttributeSize (length (at_value a)) 8)
      else Inr \<lparr>si_attrib_id = at_value a ! 3,
                si_status = from_be32 (at_value a ! 4) (at_value a ! 5)
                              (at_value a ! 6) (at_value a ! 7),
                si_attrib_value = drop 8 (at_value a)\<rparr>)"

subsection \<open>The iterator\<close>

definition attr_next :: "bytes \<Rightarrow> ((parse_error + attribute) \<times> bytes) option" where
  "attr_next buf =
     (if buf = [] then None
      else if length buf < ATTR_HEADER_LEN then Some (Inl Truncated, [])
      else
        let id_raw = buf ! 1;
            len = unat (from_be16 (buf ! 2) (buf ! 3)) AND SSTP_MAX_PACKET_LEN in
        if len < ATTR_HEADER_LEN \<or> len > length buf
        then Some (Inl (AttributeLength len (length buf)), [])
        else case attribute_id_from_u8 id_raw of
            None \<Rightarrow> Some (Inl (UnknownAttributeId id_raw), drop len buf)
          | Some ident \<Rightarrow>
              Some (Inr \<lparr>at_id = ident, at_value = slice ATTR_HEADER_LEN len buf\<rparr>, drop len buf))"

lemma attr_next_progress: "attr_next buf = Some (r, rest) \<Longrightarrow> length rest < length buf"
  by (auto simp: attr_next_def wire_defs Let_def split: if_splits option.splits)

function attr_iter :: "bytes \<Rightarrow> (parse_error + attribute) list" where
  "attr_iter buf =
     (case attr_next buf of None \<Rightarrow> [] | Some (r, rest) \<Rightarrow> r # attr_iter rest)"
  by pat_completeness auto
termination
  by (relation "measure length") (auto simp: attr_next_progress)

declare attr_iter.simps [simp del]

definition write_attr_header :: "attribute_id \<Rightarrow> nat \<Rightarrow> bytes" where
  "write_attr_header ident total_len =
     [0, attribute_id_as_u8 ident] @
     be16 (word_of_nat total_len AND word_of_nat SSTP_MAX_PACKET_LEN)"

text \<open>The canonical encoding of an attribute, as the encoders assemble it.\<close>

definition encode_attribute :: "attribute \<Rightarrow> bytes" where
  "encode_attribute a =
     write_attr_header (at_id a) (ATTR_HEADER_LEN + length (at_value a)) @ at_value a"

definition attr_fits :: "attribute \<Rightarrow> bool" where
  "attr_fits a \<longleftrightarrow> ATTR_HEADER_LEN + length (at_value a) \<le> SSTP_MAX_PACKET_LEN"

subsection \<open>The iterator implements the interface\<close>

lemma attribute_id_roundtrip [simp]: "attribute_id_from_u8 (attribute_id_as_u8 i) = Some i"
  by (cases i) (simp_all add: attribute_id_from_u8_def)

lemma length_write_attr_header [simp, wire_len]: "length (write_attr_header i n) = 4"
  by (simp add: write_attr_header_def)

lemma attr_next_Cons4:
  "attr_next (z # i # a # b # rest) =
     (let len = unat (from_be16 a b) AND 4095 in
      if len < 4 \<or> len > length rest + 4
      then Some (Inl (AttributeLength len (length rest + 4)), [])
      else case attribute_id_from_u8 i of
          None \<Rightarrow> Some (Inl (UnknownAttributeId i), drop (len - 4) rest)
        | Some ident \<Rightarrow>
            Some (Inr \<lparr>at_id = ident, at_value = take (len - 4) rest\<rparr>, drop (len - 4) rest))"
  by (auto simp: attr_next_def wire_defs slice_def Let_def drop_Cons4 split: option.splits)

lemma attr_next_encode:
  assumes "attr_fits a"
  shows "attr_next (encode_attribute a @ rest) = Some (Inr a, rest)"
proof -
  have n: "4 + length (at_value a) < 4096" using assms by (simp add: attr_fits_def wire_defs)
  obtain x y where xy: "be16 (word_of_nat (4 + length (at_value a)) AND 4095) = [x, y]"
    using be16_split by blast
  from header_length_bytes [OF n xy] show ?thesis
    by (simp add: encode_attribute_def write_attr_header_def wire_defs xy [simplified]
      attr_next_Cons4)
qed

interpretation sstp_attrs: tlv_iter attr_next encode_attribute attr_fits attr_iter
proof unfold_locales
  show "attr_next buf = None \<longleftrightarrow> buf = []" for buf
    by (auto simp: attr_next_def Let_def split: option.splits)
  show "attr_fits x \<Longrightarrow> attr_next (encode_attribute x @ rest) = Some (Inr x, rest)" for x rest
    by (rule attr_next_encode)
  show "attr_next buf = Some (r, rest) \<Longrightarrow> length rest < length buf" for buf r rest
    by (rule attr_next_progress)
  show "attr_iter buf = (case attr_next buf of None \<Rightarrow> [] | Some (r, rest) \<Rightarrow> r # attr_iter rest)"
    for buf by (rule attr_iter.simps)
qed

subsection \<open>Properties\<close>

text \<open>
  Iterating over the concatenated encodings of any list of attributes that
  fit the 12-bit length field yields exactly those attributes, in order and without an error.
\<close>

theorem attr_iter_roundtrip:
  assumes "list_all attr_fits as"
  shows "attr_iter (concat (map encode_attribute as)) = map Inr as"
  using assms by (rule sstp_attrs.collect_encs)

lemma attr_iter_Nil [simp]: "attr_iter [] = []"
  by (rule sstp_attrs.collect_Nil)

lemma attr_iter_singleton:
  assumes "attr_next buf = Some (Inr a, [])"
  shows "attr_iter buf = [Inr a]"
  by (subst attr_iter.simps) (simp add: assms)

text \<open>An attribute area that yields one attribute and nothing else has that attribute's size.\<close>

lemma attr_next_exhausted:
  assumes "attr_next buf = Some (Inr a, rest)" and "attr_next rest = None"
  shows "length buf = ATTR_HEADER_LEN + length (at_value a)"
  using assms
  by (auto simp: attr_next_def wire_defs Let_def slice_def split: if_splits option.splits)

end
