(* ===== verification/Sstp_Msg.thy ===== *)
theory Sstp_Msg
  imports Sstp_Attr
begin

text \<open>
  Typed SSTP control messages of \<open>src/src/sstp/msg.rs\<close>: \<open>parse_control\<close> and
  \<open>parse_control_payload\<close>, and the encoders.  An encoder takes the caller's buffer and returns
  it with the message written at its front together with the number of bytes written;
  \<open>None\<close> is the panic of its \<open>assert!\<close>.  The encoders' field-by-field writes are contiguous
  from offset 0, so each is one write of the concatenated fields.
\<close>

subsection \<open>Typed view\<close>

datatype control_message =
    CmCallConnectRequest (protocol_id: u16)
  | CmCallConnected crypto_binding
  | CmCallDisconnect
  | CmCallDisconnectAck
  | CmEchoRequest
  | CmEchoResponse
  | CmCallAbort
  | CmOther control_packet

definition parse_control :: "control_packet \<Rightarrow> parse_error + control_message" where
  "parse_control pkt =
     (case cp_msg_type pkt of
        MtCallConnectRequest \<Rightarrow>
          (case attr_next (cp_attrs pkt) of
             None \<Rightarrow> Inl (AttributeLength 0 0)
           | Some (first, it) \<Rightarrow>
               try_bind first (\<lambda>a.
               try_bind (as_encapsulated_protocol a) (\<lambda>proto.
                 if attr_next it \<noteq> None
                 then Inl (AttributeLength (length (cp_attrs pkt)) (ATTR_HEADER_LEN + 2))
                 else Inr (CmCallConnectRequest proto))))
      | MtCallConnected \<Rightarrow>
          (case attr_next (cp_attrs pkt) of
             None \<Rightarrow> Inl (AttributeLength 0 0)
           | Some (first, it) \<Rightarrow>
               try_bind first (\<lambda>a.
               try_bind (as_crypto_binding a) (\<lambda>cb.
                 if attr_next it \<noteq> None
                 then Inl (AttributeLength (length (cp_attrs pkt))
                            (ATTR_HEADER_LEN + CRYPTO_BINDING_VALUE_LEN))
                 else Inr (CmCallConnected cb))))
      | MtCallDisconnect \<Rightarrow> Inr CmCallDisconnect
      | MtCallDisconnectAck \<Rightarrow> Inr CmCallDisconnectAck
      | MtEchoRequest \<Rightarrow> Inr CmEchoRequest
      | MtEchoResponse \<Rightarrow> Inr CmEchoResponse
      | MtCallAbort \<Rightarrow> Inr CmCallAbort
      | MtCallConnectAck \<Rightarrow> Inr (CmOther pkt)
      | MtCallConnectNak \<Rightarrow> Inr (CmOther pkt))"

definition parse_control_payload :: "bytes \<Rightarrow> parse_error + control_message" where
  "parse_control_payload payload = try_bind (parse_body payload) parse_control"

subsection \<open>Encoders\<close>

definition CALL_CONNECT_ACK_LEN :: nat where
  [wire_defs]: "CALL_CONNECT_ACK_LEN = 48"

definition CALL_CONNECTED_LEN :: nat where
  [wire_defs]: "CALL_CONNECTED_LEN = 112"

definition STATUS_INFO_FIXED_LEN :: nat where
  [wire_defs]: "STATUS_INFO_FIXED_LEN = ATTR_HEADER_LEN + 8"

definition EMPTY_CONTROL_LEN :: nat where
  [wire_defs]: "EMPTY_CONTROL_LEN = SSTP_HEADER_LEN + SSTP_CONTROL_EXTRA_LEN"

definition write_control_extra :: "message_type \<Rightarrow> u16 \<Rightarrow> bytes" where
  "write_control_extra ty num_attrs = be16 (message_type_as_u16 ty) @ be16 num_attrs"

definition write_status_info_attr :: "u8 \<Rightarrow> status_code \<Rightarrow> bytes" where
  "write_status_info_attr attrib_id status =
     write_attr_header AttrStatusInfo STATUS_INFO_FIXED_LEN @
     [0, 0, 0, attrib_id] @ be32 (status_code_as_u32 status)"

definition encode_call_connect_ack :: "bytes \<Rightarrow> u8 \<Rightarrow> bytes \<Rightarrow> (bytes \<times> nat) option" where
  "encode_call_connect_ack out hash_bitmask nonce =
     (if length out < CALL_CONNECT_ACK_LEN then None
      else Some
        (write_at 0
           (write_header True CALL_CONNECT_ACK_LEN @
            write_control_extra MtCallConnectAck 1 @
            write_attr_header AttrCryptoBindingReq
              (ATTR_HEADER_LEN + CRYPTO_BINDING_REQ_VALUE_LEN) @
            [0, 0, 0, hash_bitmask] @ nonce) out,
         CALL_CONNECT_ACK_LEN))"

definition encode_call_connect_nak ::
    "bytes \<Rightarrow> u8 \<Rightarrow> status_code \<Rightarrow> (bytes \<times> nat) option" where
  "encode_call_connect_nak out offending_attr status =
     (let total = EMPTY_CONTROL_LEN + STATUS_INFO_FIXED_LEN in
      if length out < total then None
      else Some
        (write_at 0
           (write_header True total @
            write_control_extra MtCallConnectNak 1 @
            write_status_info_attr offending_attr status) out,
         total))"

definition encode_status_info_message ::
    "bytes \<Rightarrow> message_type \<Rightarrow> (u8 \<times> status_code) option \<Rightarrow> (bytes \<times> nat) option" where
  "encode_status_info_message out ty status =
     (let total = EMPTY_CONTROL_LEN +
                    (case status of None \<Rightarrow> 0 | Some _ \<Rightarrow> STATUS_INFO_FIXED_LEN);
          num_attrs = (case status of None \<Rightarrow> 0 | Some _ \<Rightarrow> 1) in
      if length out < total then None
      else Some
        (write_at 0
           (write_header True total @
            write_control_extra ty num_attrs @
            (case status of None \<Rightarrow> []
             | Some (attrib_id, st) \<Rightarrow> write_status_info_attr attrib_id st)) out,
         total))"

definition encode_call_abort ::
    "bytes \<Rightarrow> (u8 \<times> status_code) option \<Rightarrow> (bytes \<times> nat) option" where
  "encode_call_abort out status = encode_status_info_message out MtCallAbort status"

definition encode_call_disconnect :: "bytes \<Rightarrow> bool \<Rightarrow> (bytes \<times> nat) option" where
  "encode_call_disconnect out include_status_info =
     encode_status_info_message out MtCallDisconnect
       (if include_status_info then Some (attribute_id_as_u8 AttrNoError, StNoError) else None)"

definition encode_empty_control :: "bytes \<Rightarrow> message_type \<Rightarrow> (bytes \<times> nat) option" where
  "encode_empty_control out ty =
     (if ty \<notin> {MtCallDisconnectAck, MtEchoRequest, MtEchoResponse} then None
      else if length out < EMPTY_CONTROL_LEN then None
      else Some
        (write_at 0 (write_header True EMPTY_CONTROL_LEN @ write_control_extra ty 0) out,
         EMPTY_CONTROL_LEN))"

text \<open>
  The client-side \<open>Call Connected\<close> builder used for the Compound MAC computation.  The
  output array has exactly 112 bytes, all of which are written; \<open>split_at_mut\<close> panics when
  the certificate hash is longer than its 32-byte field.
\<close>

definition encode_call_connected_pre_mac :: "u8 \<Rightarrow> bytes \<Rightarrow> bytes \<Rightarrow> bytes option" where
  "encode_call_connected_pre_mac hash_protocol nonce cert_hash =
     (if length cert_hash > 32 then None
      else Some
        (write_header True CALL_CONNECTED_LEN @
         write_control_extra MtCallConnected 1 @
         write_attr_header AttrCryptoBinding (ATTR_HEADER_LEN + CRYPTO_BINDING_VALUE_LEN) @
         [0, 0, 0, hash_protocol] @ nonce @
         cert_hash @ replicate (32 - length cert_hash) 0 @
         replicate 32 0))"

definition install_compound_mac :: "bytes \<Rightarrow> bytes \<Rightarrow> bytes option" where
  "install_compound_mac buf mac =
     (if length mac > 32 then None
      else Some (write_at 80 (mac @ replicate (32 - length mac) 0) buf))"

subsection \<open>Lengths\<close>

lemma length_write_control_extra [simp, wire_len]: "length (write_control_extra t n) = 4"
  by (simp add: write_control_extra_def)

lemma length_write_status_info_attr [simp, wire_len]: "length (write_status_info_attr a s) = 12"
  by (simp add: write_status_info_attr_def)

lemma message_type_roundtrip [simp]: "message_type_from_u16 (message_type_as_u16 t) = Some t"
  by (cases t) (simp_all add: message_type_from_u16_def)

lemma parse_body_extra [simp]:
  "parse_body (write_control_extra t n @ attrs) =
     Inr \<lparr>cp_msg_type = t, cp_num_attrs = n, cp_attrs = attrs\<rparr>"
proof -
  obtain a b where ab: "be16 (message_type_as_u16 t) = [a, b]" "from_be16 a b = message_type_as_u16 t"
    using be16_split by blast
  obtain c d where cd: "be16 n = [c, d]" "from_be16 c d = n"
    using be16_split by blast
  show ?thesis
    by (simp add: parse_body_def write_control_extra_def wire_defs ab cd)
qed

text \<open>A control message assembled from its fields parses back to those fields.\<close>

lemma parse_assembled:
  assumes "n = 8 + length attrs" and "n \<le> 4095"
  shows "packet_parse (write_header True n @ write_control_extra t k @ attrs) =
    Inr (Control \<lparr>cp_msg_type = t, cp_num_attrs = k, cp_attrs = attrs\<rparr>, n)"
  using assms packet_parse_control_frame [of "write_control_extra t k @ attrs" "[]"]
  by (simp add: add.assoc [symmetric])

lemma parse_assembled_empty:
  "packet_parse (write_header True 8 @ write_control_extra t k) =
    Inr (Control \<lparr>cp_msg_type = t, cp_num_attrs = k, cp_attrs = []\<rparr>, 8)"
  using parse_assembled [of 8 "[]" t k] by simp

text \<open>The attribute area of a control packet is what remains of its declared length.\<close>

lemma packet_parse_control_length:
  assumes "packet_parse buf = Inr (Control cp, n)"
  shows "n = 8 + length (cp_attrs cp)"
  using assms
  by (auto simp: packet_parse_def parse_body_def wire_defs Let_def try_bind_Inr_iff nat_and_4095
    split: if_splits option.splits)

lemmas encoder_defs = encode_call_connect_ack_def encode_call_connect_nak_def
  encode_status_info_message_def encode_call_abort_def encode_call_disconnect_def
  encode_empty_control_def


subsection \<open>Encoders: totality and round trips\<close>

lemma status_info_attr_parses:
  "attr_next (write_status_info_attr a st) =
     Some (Inr \<lparr>at_id = AttrStatusInfo, at_value = [0, 0, 0, a] @ be32 (status_code_as_u32 st)\<rparr>, [])"
proof -
  let ?x = "\<lparr>at_id = AttrStatusInfo, at_value = [0, 0, 0, a] @ be32 (status_code_as_u32 st)\<rparr>"
  have "write_status_info_attr a st = encode_attribute ?x"
    by (simp add: write_status_info_attr_def encode_attribute_def wire_defs)
  moreover have "attr_fits ?x" by (simp add: attr_fits_def wire_defs)
  ultimately show ?thesis using attr_next_encode [of ?x "[]"] by simp
qed

lemma as_status_info_status_attr:
  "as_status_info \<lparr>at_id = AttrStatusInfo, at_value = [0, 0, 0, a] @ be32 w\<rparr> =
     Inr \<lparr>si_attrib_id = a, si_status = w, si_attrib_value = []\<rparr>"
proof -
  obtain p q r s where b: "be32 w = [p, q, r, s]" by (simp add: be32_def)
  show ?thesis using from_be32_be32 [OF b] by (simp add: as_status_info_def b)
qed

text \<open>What a receiver reads of a message: its type and the attributes of its area.\<close>

definition message_view ::
    "bytes \<Rightarrow> (message_type \<times> (parse_error + attribute) list \<times> nat) option" where
  "message_view buf =
     (case packet_parse buf of
        Inr (Control cp, n) \<Rightarrow> Some (cp_msg_type cp, attr_iter (cp_attrs cp), n)
      | _ \<Rightarrow> None)"

lemma message_view_assembled:
  "n = 8 + length attrs \<Longrightarrow> n \<le> 4095 \<Longrightarrow>
    message_view (write_header True n @ write_control_extra t k @ attrs) = Some (t, attr_iter attrs, n)"
  by (simp add: message_view_def parse_assembled)

text \<open>
  The result of an encoder that did not panic: the buffer keeps its length and starts with a
  well-formed control packet of the given type that fills exactly the reported bytes.
\<close>

definition encoded :: "bytes \<Rightarrow> message_type \<Rightarrow> (bytes \<times> nat) option \<Rightarrow> bool" where
  "encoded out t r \<longleftrightarrow>
     (\<exists>out' n cp. r = Some (out', n) \<and> length out' = length out \<and> 0 < n \<and> n \<le> 48
       \<and> packet_parse out' = Inr (Control cp, n) \<and> cp_msg_type cp = t)"

lemma encoded_assembled:
  assumes "n = 8 + length attrs" and "n \<le> 48" and "n \<le> length out"
  shows "encoded out t
    (Some (write_at 0 (write_header True n @ write_control_extra t k @ attrs) out, n))"
proof -
  let ?m = "write_header True n @ write_control_extra t k @ attrs"
  have "packet_parse (?m @ drop n out) =
      Inr (Control \<lparr>cp_msg_type = t, cp_num_attrs = k, cp_attrs = attrs\<rparr>, n)"
    by (rule packet_parse_append, rule parse_assembled) (use assms in simp_all)
  then show ?thesis using assms by (simp add: encoded_def write_at_def)
qed

lemma encode_status_info_message_encoded:
  "20 \<le> length out \<Longrightarrow> encoded out t (encode_status_info_message out t st)"
  using encoded_assembled [of 8 "[]" out t 0]
  by (auto simp: encode_status_info_message_def Let_def wire_defs encoded_assembled
      split: option.splits)

lemma encode_call_abort_encoded:
  "20 \<le> length out \<Longrightarrow> encoded out MtCallAbort (encode_call_abort out st)"
  unfolding encode_call_abort_def by (rule encode_status_info_message_encoded)

lemma encode_call_disconnect_encoded:
  "20 \<le> length out \<Longrightarrow> encoded out MtCallDisconnect (encode_call_disconnect out b)"
  unfolding encode_call_disconnect_def by (rule encode_status_info_message_encoded)

lemma encode_call_connect_nak_encoded:
  "20 \<le> length out \<Longrightarrow> encoded out MtCallConnectNak (encode_call_connect_nak out a st)"
  by (auto simp: encode_call_connect_nak_def Let_def wire_defs encoded_assembled)

lemma encode_call_connect_ack_encoded:
  "48 \<le> length out \<Longrightarrow> length nonce = 32 \<Longrightarrow>
   encoded out MtCallConnectAck (encode_call_connect_ack out m nonce)"
  by (auto simp: encode_call_connect_ack_def Let_def wire_defs encoded_assembled)

lemma encode_empty_control_encoded:
  "8 \<le> length out \<Longrightarrow> t \<in> {MtCallDisconnectAck, MtEchoRequest, MtEchoResponse} \<Longrightarrow>
   encoded out t (encode_empty_control out t)"
  using encoded_assembled [of 8 "[]" out t 0]
  by (auto simp: encode_empty_control_def Let_def wire_defs)

lemmas encoded_intros = encode_call_abort_encoded encode_call_disconnect_encoded
  encode_call_connect_nak_encoded encode_call_connect_ack_encoded encode_empty_control_encoded

text \<open>
  \<open>encode_call_connect_ack\<close> writes exactly 48 bytes that a receiver parses as
  a Call Connect Ack with a single Crypto-Binding-Req carrying the advertised hash bitmask and
  the nonce; the rest of the buffer is untouched.
\<close>

theorem call_connect_ack_roundtrip:
  assumes "length nonce = 32" and "48 \<le> length out"
  shows "\<exists>out' a. encode_call_connect_ack out m nonce = Some (out', 48)
    \<and> length out' = length out \<and> drop 48 out' = drop 48 out
    \<and> message_view out' = Some (MtCallConnectAck, [Inr a], 48)
    \<and> as_crypto_binding_req a = Inr \<lparr>cbr_hash_bitmask = m, cbr_nonce = nonce\<rparr>"
proof -
  let ?a = "\<lparr>at_id = AttrCryptoBindingReq, at_value = [0, 0, 0, m] @ nonce\<rparr>"
  let ?msg = "write_header True 48 @ write_control_extra MtCallConnectAck 1 @ encode_attribute ?a"
  let ?out = "?msg @ drop 48 out"
  have fits: "attr_fits ?a" and len: "length (encode_attribute ?a) = 40"
    using assms(1) by (simp_all add: attr_fits_def encode_attribute_def wire_defs)
  have enc: "encode_call_connect_ack out m nonce = Some (?out, 48)"
    using assms by (simp add: encode_call_connect_ack_def encode_attribute_def wire_defs write_at_def)
  have "packet_parse ?out = Inr (Control \<lparr>cp_msg_type = MtCallConnectAck, cp_num_attrs = 1,
      cp_attrs = encode_attribute ?a\<rparr>, 48)"
    using packet_parse_append [OF parse_assembled, of 48 "encode_attribute ?a"] len by simp
  moreover have "attr_iter (encode_attribute ?a) = [Inr ?a]"
    using attr_next_encode [OF fits, of "[]"] by (simp add: attr_iter_singleton)
  ultimately have view: "message_view ?out = Some (MtCallConnectAck, [Inr ?a], 48)"
    by (simp add: message_view_def)
  have "as_crypto_binding_req ?a = Inr \<lparr>cbr_hash_bitmask = m, cbr_nonce = nonce\<rparr>"
    using assms(1) by (simp add: as_crypto_binding_req_def wire_defs slice_def)
  moreover have "length ?out = length out" "drop 48 ?out = drop 48 out"
    using len assms(2) by simp_all
  ultimately show ?thesis using enc view by blast
qed

text \<open>
  The status-carrying messages decode to what was encoded: a Call Connect
  Nak, and a Call Abort with status, carry one Status-Info with the given attribute id and
  status code, and a Call Abort without status carries no attribute.
\<close>

theorem status_messages_roundtrip:
  assumes "20 \<le> length out"
  shows "(\<exists>out' v. encode_call_connect_nak out aid st = Some (out', 20)
      \<and> message_view (take 20 out') = Some (MtCallConnectNak, [Inr v], 20)
      \<and> as_status_info v = Inr \<lparr>si_attrib_id = aid, si_status = status_code_as_u32 st, si_attrib_value = []\<rparr>)
    \<and> (\<exists>out' v. encode_call_abort out (Some (aid, st)) = Some (out', 20)
      \<and> message_view (take 20 out') = Some (MtCallAbort, [Inr v], 20)
      \<and> as_status_info v = Inr \<lparr>si_attrib_id = aid, si_status = status_code_as_u32 st, si_attrib_value = []\<rparr>)
    \<and> (\<exists>out'. encode_call_abort out None = Some (out', 8)
      \<and> message_view (take 8 out') = Some (MtCallAbort, [], 8))"
proof -
  let ?v = "\<lparr>at_id = AttrStatusInfo, at_value = [0, 0, 0, aid] @ be32 (status_code_as_u32 st)\<rparr>"
  let ?msg = "\<lambda>t. write_header True 20 @ write_control_extra t 1 @ write_status_info_attr aid st"
  have it: "attr_iter (write_status_info_attr aid st) = [Inr ?v]"
    by (rule attr_iter_singleton) (rule status_info_attr_parses)
  have view: "message_view (?msg t) = Some (t, [Inr ?v], 20)" for t
    using message_view_assembled [of 20 "write_status_info_attr aid st" t 1] by (simp add: it)
  have tk: "take 20 (write_at 0 (?msg t) out) = ?msg t" for t
    using assms by (intro take_write_at) simp_all
  have si: "as_status_info ?v =
      Inr \<lparr>si_attrib_id = aid, si_status = status_code_as_u32 st, si_attrib_value = []\<rparr>"
    by (rule as_status_info_status_attr)
  have "encode_call_connect_nak out aid st = Some (write_at 0 (?msg MtCallConnectNak) out, 20)"
    "encode_call_abort out (Some (aid, st)) = Some (write_at 0 (?msg MtCallAbort) out, 20)"
    using assms by (simp_all add: encoder_defs wire_defs)
  moreover have "encode_call_abort out None =
      Some (write_at 0 (write_header True 8 @ write_control_extra MtCallAbort 0) out, 8)"
    using assms by (simp add: encoder_defs wire_defs)
  moreover have "message_view (take 8 (write_at 0 (write_header True 8 @
      write_control_extra MtCallAbort 0) out)) = Some (MtCallAbort, [], 8)"
    using assms by (simp add: take_write_at message_view_def parse_assembled_empty)
  ultimately show ?thesis using view tk si by metis
qed

subsection \<open>Call Connected\<close>

text \<open>
  The fields of a Call Connected message at the offsets the encoder writes them: the 48 bytes
  before the certificate hash block, the hash block and the MAC block.
\<close>

lemma pre_mac_shape:
  assumes "encode_call_connected_pre_mac hp nonce ch = Some buf" and "length nonce = 32"
  obtains attr where "buf = write_header True 112 @ write_control_extra MtCallConnected 1 @ attr @
      replicate 32 0"
    and "attr = write_attr_header AttrCryptoBinding 104 @ [0, 0, 0, hp] @ nonce @ ch @
      replicate (32 - length ch) 0"
    and "length attr = 72" and "length ch \<le> 32"
proof -
  have "length ch \<le> 32"
    using assms(1) by (simp add: encode_call_connected_pre_mac_def split: if_splits)
  then show ?thesis
    using assms that by (auto simp: encode_call_connected_pre_mac_def wire_defs)
qed

lemma parse_control_call_connected:
  assumes "length nonce = 32" "length hash_block = 32" "length mac_block = 32"
  shows "parse_control \<lparr>cp_msg_type = MtCallConnected, cp_num_attrs = k,
      cp_attrs = write_attr_header AttrCryptoBinding 104 @ [0, 0, 0, hp] @ nonce @ hash_block @ mac_block\<rparr>
    = Inr (CmCallConnected \<lparr>cb_hash_protocol = hp, cb_nonce = nonce,
        cb_cert_hash_block = hash_block, cb_compound_mac_block = mac_block\<rparr>)"
proof -
  let ?a = "\<lparr>at_id = AttrCryptoBinding, at_value = [0, 0, 0, hp] @ nonce @ hash_block @ mac_block\<rparr>"
  have fits: "attr_fits ?a" using assms by (simp add: attr_fits_def wire_defs)
  have "attr_next (encode_attribute ?a) = Some (Inr ?a, [])"
    using attr_next_encode [OF fits, of "[]"] by simp
  moreover have "encode_attribute ?a =
      write_attr_header AttrCryptoBinding 104 @ [0, 0, 0, hp] @ nonce @ hash_block @ mac_block"
    using assms by (simp add: encode_attribute_def wire_defs)
  moreover have "attr_next [] = None" by (simp add: attr_next_def)
  ultimately show ?thesis
    using assms
    by (simp add: parse_control_def as_crypto_binding_def wire_defs slice_def)
qed

lemma installed_call_connected:
  assumes "encode_call_connected_pre_mac hp nonce ch = Some pre"
    and "install_compound_mac pre mac = Some buf"
    and "length nonce = 32"
  shows "\<exists>cp. packet_parse buf = Inr (Control cp, 112)
    \<and> parse_control cp = Inr (CmCallConnected
        \<lparr>cb_hash_protocol = hp, cb_nonce = nonce,
         cb_cert_hash_block = ch @ replicate (32 - length ch) 0,
         cb_compound_mac_block = mac @ replicate (32 - length mac) 0\<rparr>)
    \<and> write_at 80 (replicate 32 0) buf = pre"
proof -
  have mac: "length mac \<le> 32" and
    buf: "buf = write_at 80 (mac @ replicate (32 - length mac) 0) pre"
    using assms(2) by (simp_all add: install_compound_mac_def split: if_splits)
  let ?m = "mac @ replicate (32 - length mac) 0"
  obtain attr where pre: "pre = write_header True 112 @ write_control_extra MtCallConnected 1 @ attr
      @ replicate 32 0"
    and attr: "attr = write_attr_header AttrCryptoBinding 104 @ [0, 0, 0, hp] @ nonce @ ch @
      replicate (32 - length ch) 0"
    and len: "length attr = 72" "length ch \<le> 32"
    using pre_mac_shape [OF assms(1,3)] by blast
  have b: "buf = write_header True 112 @ write_control_extra MtCallConnected 1 @ attr @ ?m"
    unfolding buf pre write_at_def using len mac by simp
  let ?cp = "\<lparr>cp_msg_type = MtCallConnected, cp_num_attrs = 1, cp_attrs = attr @ ?m\<rparr>"
  have parsed: "packet_parse buf = Inr (Control ?cp, 112)"
    unfolding b by (rule parse_assembled) (use len mac in simp_all)
  have typed: "parse_control ?cp = Inr (CmCallConnected
        \<lparr>cb_hash_protocol = hp, cb_nonce = nonce,
         cb_cert_hash_block = ch @ replicate (32 - length ch) 0, cb_compound_mac_block = ?m\<rparr>)"
    using parse_control_call_connected [of nonce "ch @ replicate (32 - length ch) 0" ?m 1 hp]
      assms(3) len mac by (simp add: attr)
  have "write_at 80 (replicate 32 0) buf = pre"
    unfolding b pre write_at_def using len mac by simp
  with parsed typed show ?thesis by blast
qed

text \<open>
  A Call Connected message built by \<open>encode_call_connected_pre_mac\<close> and
  completed by \<open>install_compound_mac\<close> parses to the same hash protocol, nonce, certificate hash
  and MAC, each zero-padded to its 32-byte block; and zeroing the MAC block again gives back
  exactly the bytes over which the MAC was to be computed.
\<close>

theorem call_connected_roundtrip:
  assumes "encode_call_connected_pre_mac hp nonce ch = Some pre"
    and "install_compound_mac pre mac = Some buf"
    and "length nonce = 32"
  shows "\<exists>cp. packet_parse buf = Inr (Control cp, CALL_CONNECTED_LEN)
    \<and> parse_control cp = Inr (CmCallConnected
        \<lparr>cb_hash_protocol = hp, cb_nonce = nonce,
         cb_cert_hash_block = ch @ replicate (32 - length ch) 0,
         cb_compound_mac_block = mac @ replicate (32 - length mac) 0\<rparr>)
    \<and> write_at 80 (replicate 32 0) buf = pre"
  using installed_call_connected [OF assms] unfolding CALL_CONNECTED_LEN_def .

text \<open>
  A packet that parses as a typed Call Connected message is exactly 112 bytes
  long and its nonce, certificate hash and MAC blocks are 32 bytes each.  The binding check may
  therefore copy the whole packet into a 112-byte array and address the MAC block at 80..112
  without a bounds failure.
\<close>

lemma call_connected_length:
  assumes "packet_parse buf = Inr (Control cp, n)"
    and "parse_control cp = Inr (CmCallConnected cb)"
  shows "n = CALL_CONNECTED_LEN \<and> length (take n buf) = CALL_CONNECTED_LEN
    \<and> length (cb_nonce cb) = 32 \<and> length (cb_cert_hash_block cb) = 32
    \<and> length (cb_compound_mac_block cb) = 32"
proof -
  obtain a rest where nxt: "attr_next (cp_attrs cp) = Some (Inr a, rest)" "attr_next rest = None"
    and cb: "as_crypto_binding a = Inr cb"
    using assms(2)
    by (auto simp: parse_control_def try_bind_Inr_iff simp del: not_None_eq
      split: message_type.splits option.splits if_splits)
  have a: "length (at_value a) = 100"
    using cb by (simp add: as_crypto_binding_def wire_defs split: if_splits)
  have "length (cp_attrs cp) = 104" using attr_next_exhausted [OF nxt] a by (simp add: wire_defs)
  moreover have "n = 8 + length (cp_attrs cp)" and "n \<le> length buf"
    using packet_parse_control_length [OF assms(1)] packet_parse_consumed [OF assms(1)] by auto
  ultimately have "n = 112" "length (take n buf) = 112" by simp_all
  with cb a show ?thesis
    by (auto simp: as_crypto_binding_def wire_defs split: if_splits)
qed

end
