(* ===== verification/Crypto_Binding.thy ===== *)
theory Crypto_Binding
  imports Sstp_Msg
begin

text \<open>
  The Crypto Binding check of \<open>src/src/sstp/binding.rs\<close> with the key derivation of
  \<open>src/src/crypto/hmac.rs\<close> and the comparison of \<open>src/src/crypto/mod.rs\<close>.  The primitives of
  AWS-LC that these call (\<open>HMAC\<close> over SHA-1 and SHA-256, \<open>CRYPTO_memcmp\<close>) are the fields of a
  record \<open>crypto_lib\<close> that every definition takes as an argument; the streaming HMAC interface
  is the HMAC of the concatenated updates.  The one law used of them is that \<open>CRYPTO_memcmp\<close>
  returns 0 exactly on equal inputs, and, for an honest client's message, the digest sizes.
\<close>

subsection \<open>Primitives\<close>

record crypto_lib =
  cl_memcmp :: "bytes \<Rightarrow> bytes \<Rightarrow> int"
  cl_hmac_sha1 :: "bytes \<Rightarrow> bytes \<Rightarrow> bytes"
  cl_hmac_sha256 :: "bytes \<Rightarrow> bytes \<Rightarrow> bytes"

definition memcmp_law :: "crypto_lib \<Rightarrow> bool" where
  "memcmp_law lib \<longleftrightarrow>
     (\<forall>a b. length a = length b \<longrightarrow> (cl_memcmp lib a b = 0 \<longleftrightarrow> a = b))"

definition digest_sizes :: "crypto_lib \<Rightarrow> bool" where
  "digest_sizes lib \<longleftrightarrow>
     (\<forall>k m. length (cl_hmac_sha1 lib k m) = 20 \<and> length (cl_hmac_sha256 lib k m) = 32)"

definition const_time_eq :: "crypto_lib \<Rightarrow> bytes \<Rightarrow> bytes \<Rightarrow> bool" where
  "const_time_eq lib a b =
     (if length a \<noteq> length b then False
      else if a = [] then True
      else cl_memcmp lib a b = 0)"

definition SHA1_OUTPUT_LEN :: nat where
  [wire_defs]: "SHA1_OUTPUT_LEN = 20"

definition SHA256_OUTPUT_LEN :: nat where
  [wire_defs]: "SHA256_OUTPUT_LEN = 32"

definition prf_plus_sha1_cmk :: "crypto_lib \<Rightarrow> bytes \<Rightarrow> bytes \<Rightarrow> bytes" where
  "prf_plus_sha1_cmk lib key seed =
     (let len_le = rev (be16 (word_of_nat SHA1_OUTPUT_LEN)) in
      cl_hmac_sha1 lib key (seed @ len_le @ [0x01]))"

definition prf_plus_sha256_cmk :: "crypto_lib \<Rightarrow> bytes \<Rightarrow> bytes \<Rightarrow> bytes" where
  "prf_plus_sha256_cmk lib key seed =
     (let len_le = rev (be16 (word_of_nat SHA256_OUTPUT_LEN)) in
      cl_hmac_sha256 lib key (seed @ len_le @ [0x01]))"

subsection \<open>The binding check\<close>

definition CMK_SEED :: bytes where
  "CMK_SEED = map (\<lambda>c. of_char c) ''SSTP inner method derived CMK''"

datatype binding_outcome = BindOk | BindAttribNotSupportedInMsg | BindValueNotSupported

record server_binding_state =
  server_nonce :: bytes
  server_cert_hash_sha1 :: bytes
  server_cert_hash_sha256 :: bytes
  server_hash_protocol_supported :: u8
  hlak :: "bytes option"

definition binding_verify ::
    "crypto_lib \<Rightarrow> crypto_binding \<Rightarrow> server_binding_state \<Rightarrow> bytes \<Rightarrow> binding_outcome" where
  "binding_verify lib binding state pkt_zeroed =
     (let hp = cb_hash_protocol binding in
      if hp \<noteq> CERT_HASH_PROTOCOL_SHA1 \<and> hp \<noteq> CERT_HASH_PROTOCOL_SHA256
      then BindValueNotSupported
      else
        let hash_len = (if hp = CERT_HASH_PROTOCOL_SHA1 then 20 else 32) in
        if server_hash_protocol_supported state AND hp = 0 then BindValueNotSupported
        else if cb_nonce binding \<noteq> server_nonce state then BindValueNotSupported
        else
          let server_cert_hash =
                (if hp = CERT_HASH_PROTOCOL_SHA1 then server_cert_hash_sha1 state
                 else server_cert_hash_sha256 state) in
          if \<not> const_time_eq lib (take hash_len (cb_cert_hash_block binding)) server_cert_hash
          then BindValueNotSupported
          else
            let key = (case hlak state of None \<Rightarrow> replicate 32 0 | Some k \<Rightarrow> k);
                mac_ok =
                  (if hp = CERT_HASH_PROTOCOL_SHA1 then
                     let cmk = prf_plus_sha1_cmk lib key CMK_SEED;
                         computed = cl_hmac_sha1 lib cmk pkt_zeroed in
                     const_time_eq lib computed (take 20 (cb_compound_mac_block binding))
                   else
                     let cmk = prf_plus_sha256_cmk lib key CMK_SEED;
                         computed = cl_hmac_sha256 lib cmk pkt_zeroed in
                     const_time_eq lib computed (take 32 (cb_compound_mac_block binding))) in
            if mac_ok then BindOk else BindValueNotSupported)"

subsection \<open>Specification and correctness\<close>

lemma const_time_eq_iff: "memcmp_law lib \<Longrightarrow> const_time_eq lib a b \<longleftrightarrow> a = b"
  by (auto simp: const_time_eq_def memcmp_law_def)

text \<open>
  The contract of [MS-SSTP] 3.3.5.2.3: the key, digest and certificate hash a hash protocol
  selects, and the MAC the server expects over a packet.
\<close>

definition spec_hash_len :: "u8 \<Rightarrow> nat option" where
  "spec_hash_len hp = (if hp = 1 then Some 20 else if hp = 2 then Some 32 else None)"

definition spec_cert_hash :: "server_binding_state \<Rightarrow> u8 \<Rightarrow> bytes" where
  "spec_cert_hash st hp =
     (if hp = 1 then server_cert_hash_sha1 st else server_cert_hash_sha256 st)"

definition spec_compound_mac :: "crypto_lib \<Rightarrow> server_binding_state \<Rightarrow> u8 \<Rightarrow> bytes \<Rightarrow> bytes" where
  "spec_compound_mac lib st hp pkt =
     (let mac = (if hp = 1 then cl_hmac_sha1 lib else cl_hmac_sha256 lib);
          n = (if hp = 1 then 20 else 32);
          key = (case hlak st of None \<Rightarrow> replicate 32 0 | Some k \<Rightarrow> k) in
      mac (mac key (CMK_SEED @ [n, 0, 1])) pkt)"

lemma le16_output_lens:
  "rev (be16 (word_of_nat 20)) = [20, 0]" "rev (be16 (word_of_nat 32)) = [32, 0]"
  by (simp_all add: be16_def)

lemma prf_plus_cmk:
  "prf_plus_sha1_cmk lib key CMK_SEED = cl_hmac_sha1 lib key (CMK_SEED @ [20, 0, 1])"
  "prf_plus_sha256_cmk lib key CMK_SEED = cl_hmac_sha256 lib key (CMK_SEED @ [32, 0, 1])"
  by (simp_all add: prf_plus_sha1_cmk_def prf_plus_sha256_cmk_def wire_defs le16_output_lens
    del: of_nat_numeral)

lemma binding_verify_cases: "binding_verify lib b st pkt \<in> {BindOk, BindValueNotSupported}"
  by (simp add: binding_verify_def Let_def)

lemma binding_verify_iff:
  assumes "memcmp_law lib"
  shows "binding_verify lib b st pkt = BindOk \<longleftrightarrow>
    (\<exists>n. spec_hash_len (cb_hash_protocol b) = Some n
      \<and> server_hash_protocol_supported st AND cb_hash_protocol b \<noteq> 0
      \<and> cb_nonce b = server_nonce st
      \<and> take n (cb_cert_hash_block b) = spec_cert_hash st (cb_hash_protocol b)
      \<and> take n (cb_compound_mac_block b) = spec_compound_mac lib st (cb_hash_protocol b) pkt)"
  by (auto simp: binding_verify_def spec_hash_len_def spec_cert_hash_def spec_compound_mac_def
      const_time_eq_iff [OF assms] prf_plus_cmk wire_defs Let_def)

subsection \<open>Properties\<close>

text \<open>A concrete library for the witnesses: exact comparison and constant-size digests.\<close>

definition toy_lib :: crypto_lib where
  "toy_lib = \<lparr>cl_memcmp = (\<lambda>a b. if a = b then 0 else 1),
              cl_hmac_sha1 = (\<lambda>k m. replicate 20 (of_nat (length m))),
              cl_hmac_sha256 = (\<lambda>k m. replicate 32 (of_nat (length m)))\<rparr>"

lemma toy_lib_laws: "memcmp_law toy_lib" "digest_sizes toy_lib"
  by (simp_all add: memcmp_law_def digest_sizes_def toy_lib_def)

text \<open>
  C6 (refinement).  The binding check accepts a Crypto Binding attribute exactly when its hash
  protocol is SHA-1 or SHA-256 and was advertised, its nonce is the one the server sent, the
  active part of its certificate hash is the server's, and the active part of its MAC is the
  HMAC under the derived key over the packet; every other attribute is answered with
  \<open>ValueNotSupported\<close>.
\<close>

theorem binding_verify_correct:
  assumes "memcmp_law lib"
  shows "binding_verify lib b st pkt =
    (if (\<exists>n. spec_hash_len (cb_hash_protocol b) = Some n
          \<and> server_hash_protocol_supported st AND cb_hash_protocol b \<noteq> 0
          \<and> cb_nonce b = server_nonce st
          \<and> take n (cb_cert_hash_block b) = spec_cert_hash st (cb_hash_protocol b)
          \<and> take n (cb_compound_mac_block b) = spec_compound_mac lib st (cb_hash_protocol b) pkt)
     then BindOk else BindValueNotSupported)"
  using binding_verify_iff [OF assms, of b st pkt] binding_verify_cases [of lib b st pkt] by auto

theorem binding_verify_correct_witness:
  "memcmp_law toy_lib \<and>
   binding_verify toy_lib
     \<lparr>cb_hash_protocol = 2, cb_nonce = [7], cb_cert_hash_block = replicate 32 9,
      cb_compound_mac_block = replicate 32 3\<rparr>
     \<lparr>server_nonce = [7], server_cert_hash_sha1 = [], server_cert_hash_sha256 = replicate 32 9,
      server_hash_protocol_supported = 2, hlak = None\<rparr> [0, 0, 0] = BindOk"
  using toy_lib_laws(1)
    binding_verify_correct [OF toy_lib_laws(1),
      of "\<lparr>cb_hash_protocol = 2, cb_nonce = [7], cb_cert_hash_block = replicate 32 9,
           cb_compound_mac_block = replicate 32 3\<rparr>"
         "\<lparr>server_nonce = [7], server_cert_hash_sha1 = [], server_cert_hash_sha256 = replicate 32 9,
           server_hash_protocol_supported = 2, hlak = None\<rparr>" "[0, 0, 0]"]
  by (simp add: spec_hash_len_def spec_cert_hash_def spec_compound_mac_def toy_lib_def)

text \<open>
  C21 (functional).  An honest client is accepted: the Call Connected message built for an
  advertised hash protocol with the server's nonce and certificate hash, whose MAC is the HMAC
  of the message with its MAC block zeroed, parses to a binding that \<open>verify\<close> accepts.
\<close>

theorem honest_client_accepted:
  assumes lib: "memcmp_law lib" "digest_sizes lib"
    and hp: "spec_hash_len hp = Some n" "server_hash_protocol_supported st AND hp \<noteq> 0"
    and st: "length (server_nonce st) = 32" "length (spec_cert_hash st hp) = n"
    and pre: "encode_call_connected_pre_mac hp (server_nonce st) (spec_cert_hash st hp) = Some pre"
    and buf: "install_compound_mac pre (spec_compound_mac lib st hp pre) = Some buf"
  shows "\<exists>cp cb. packet_parse buf = Inr (Control cp, 112)
    \<and> parse_control cp = Inr (CmCallConnected cb)
    \<and> binding_verify lib cb st (write_at 80 (replicate 32 0) buf) = BindOk"
proof -
  let ?mac = "spec_compound_mac lib st hp pre"
  have mac: "length ?mac = n"
    using lib(2) hp(1) by (auto simp: spec_compound_mac_def digest_sizes_def spec_hash_len_def Let_def
      split: if_splits)
  let ?cb = "\<lparr>cb_hash_protocol = hp, cb_nonce = server_nonce st,
         cb_cert_hash_block = spec_cert_hash st hp @ replicate (32 - length (spec_cert_hash st hp)) 0,
         cb_compound_mac_block = ?mac @ replicate (32 - length ?mac) 0\<rparr>"
  note installed = installed_call_connected [OF pre buf st(1)]
  have "binding_verify lib ?cb st pre = BindOk"
    using hp st(2) mac by (simp add: binding_verify_iff [OF lib(1)])
  with installed show ?thesis by auto
qed

text \<open>A server state and its honest client, for the witness.\<close>

definition toy_binding_state :: server_binding_state where
  "toy_binding_state = \<lparr>server_nonce = replicate 32 7, server_cert_hash_sha1 = replicate 20 8,
     server_cert_hash_sha256 = replicate 32 9, server_hash_protocol_supported = 3, hlak = None\<rparr>"

lemma toy_binding_state_facts:
  "spec_hash_len 2 = Some 32" "server_hash_protocol_supported toy_binding_state AND 2 \<noteq> 0"
  "length (server_nonce toy_binding_state) = 32" "length (spec_cert_hash toy_binding_state 2) = 32"
  by (simp_all add: spec_hash_len_def spec_cert_hash_def toy_binding_state_def)

lemma length_spec_compound_mac: "digest_sizes lib \<Longrightarrow> length (spec_compound_mac lib st hp pkt) \<le> 32"
  by (simp add: spec_compound_mac_def digest_sizes_def Let_def)

theorem honest_client_accepted_witness:
  "\<exists>pre buf cp cb.
     encode_call_connected_pre_mac 2 (server_nonce toy_binding_state)
       (spec_cert_hash toy_binding_state 2) = Some pre
   \<and> install_compound_mac pre (spec_compound_mac toy_lib toy_binding_state 2 pre) = Some buf
   \<and> packet_parse buf = Inr (Control cp, 112)
   \<and> parse_control cp = Inr (CmCallConnected cb)
   \<and> binding_verify toy_lib cb toy_binding_state (write_at 80 (replicate 32 0) buf) = BindOk"
proof -
  obtain pre where p: "encode_call_connected_pre_mac 2 (server_nonce toy_binding_state)
      (spec_cert_hash toy_binding_state 2) = Some pre"
    by (simp add: encode_call_connected_pre_mac_def toy_binding_state_facts)
  obtain buf where b:
    "install_compound_mac pre (spec_compound_mac toy_lib toy_binding_state 2 pre) = Some buf"
    using length_spec_compound_mac [OF toy_lib_laws(2), of toy_binding_state 2 pre]
    by (simp add: install_compound_mac_def)
  from honest_client_accepted [OF toy_lib_laws toy_binding_state_facts p b] p b show ?thesis by blast
qed

end
