(* ===== verification/Sstp_State.thy ===== *)
theory Sstp_State
  imports Crypto_Binding "HOL-Library.Monad_Syntax"
begin

text \<open>
  The server-side SSTP state machine of \<open>src/src/sstp/state.rs\<close>.  A handler takes the machine
  and the caller's transmit buffer and returns both updated with its \<open>StepOut\<close>; the result is
  \<open>None\<close> when an encoder's \<open>assert!\<close> fails.  Durations are in seconds.  The nonce that
  \<open>RAND_bytes\<close> fills is an argument of the handler that draws it.
\<close>

subsection \<open>Timers, states and step outputs\<close>

definition TIMER_VAL_NEGOTIATION :: nat where "TIMER_VAL_NEGOTIATION = 60"
definition TIMER_VAL_ABORT_STATE_TIMER_1 :: nat where "TIMER_VAL_ABORT_STATE_TIMER_1 = 3"
definition TIMER_VAL_ABORT_STATE_TIMER_2 :: nat where "TIMER_VAL_ABORT_STATE_TIMER_2 = 1"
definition TIMER_VAL_DISCONNECT_STATE_TIMER_1 :: nat where "TIMER_VAL_DISCONNECT_STATE_TIMER_1 = 5"
definition TIMER_VAL_DISCONNECT_STATE_TIMER_2 :: nat where "TIMER_VAL_DISCONNECT_STATE_TIMER_2 = 1"
definition TIMER_VAL_HELLO :: nat where "TIMER_VAL_HELLO = 60"

datatype sstp_state =
    ServerCallDisconnected
  | ServerConnectRequestPending
  | ServerCallConnectedPending
  | ServerCallConnected
  | CallAbortPending
  | CallAbortTimeoutPending
  | CallDisconnectAckPending
  | CallDisconnectTimeoutPending

datatype timer = Negotiation | Hello | AbortT1 | AbortT2 | DisconnectT1 | DisconnectT2

datatype notify_higher = StartPpp | SstpEstablished

datatype terminate = TerminateNone | Graceful | Abrupt

record step_out =
  so_send_len :: nat
  so_timer_stop :: "timer option"
  so_timer_start :: "(timer \<times> nat) option"
  so_notify :: "notify_higher option"
  so_terminate :: terminate

definition step_out_new :: step_out where
  "step_out_new = \<lparr>so_send_len = 0, so_timer_stop = None, so_timer_start = None,
                   so_notify = None, so_terminate = TerminateNone\<rparr>"

datatype abort_reason =
    CryptoBindingInvalid
  | CryptoBindingMissing
  | NegotiationTimeout
  | UnexpectedMessage
  | AbortReasonNone

fun to_status :: "abort_reason \<Rightarrow> (u8 \<times> status_code) option" where
  "to_status CryptoBindingInvalid =
     Some (attribute_id_as_u8 AttrCryptoBinding, StValueNotSupported)"
| "to_status CryptoBindingMissing =
     Some (attribute_id_as_u8 AttrStatusInfo, StAttribNotSupportedInMsg)"
| "to_status NegotiationTimeout =
     Some (attribute_id_as_u8 AttrStatusInfo, StNegotiationTimeout)"
| "to_status UnexpectedMessage =
     Some (attribute_id_as_u8 AttrStatusInfo, UnacceptedFrameReceived)"
| "to_status AbortReasonNone = None"

subsection \<open>The machine\<close>

record state_machine =
  sm_state :: sstp_state
  sm_cert_hash_sha1 :: bytes
  sm_cert_hash_sha256 :: bytes
  sm_binding :: "server_binding_state option"

type_synonym handler_result = "(state_machine \<times> bytes \<times> step_out) option"

definition state_machine_new :: "bytes \<Rightarrow> bytes \<Rightarrow> state_machine" where
  "state_machine_new cert_hash_sha1 cert_hash_sha256 =
     \<lparr>sm_state = ServerCallDisconnected,
      sm_cert_hash_sha1 = cert_hash_sha1,
      sm_cert_hash_sha256 = cert_hash_sha256,
      sm_binding = None\<rparr>"

definition transition :: "sstp_state \<Rightarrow> state_machine \<Rightarrow> state_machine" where
  "transition new sm = sm\<lparr>sm_state := new\<rparr>"

definition on_https_accepted :: "state_machine \<Rightarrow> state_machine \<times> step_out" where
  "on_https_accepted sm =
     (transition ServerConnectRequestPending sm,
      step_out_new\<lparr>so_timer_start := Some (Negotiation, TIMER_VAL_NEGOTIATION)\<rparr>)"

definition start_abort :: "abort_reason \<Rightarrow> state_machine \<Rightarrow> bytes \<Rightarrow> handler_result" where
  "start_abort reason sm tx = do {
     (tx', n) \<leftarrow> encode_call_abort tx (to_status reason);
     Some (transition CallAbortPending sm, tx',
           step_out_new\<lparr>so_send_len := n,
             so_timer_start := Some (AbortT1, TIMER_VAL_ABORT_STATE_TIMER_1)\<rparr>)
   }"

definition unexpected :: "state_machine \<Rightarrow> bytes \<Rightarrow> handler_result" where
  "unexpected sm tx = start_abort UnexpectedMessage sm tx"

definition is_in_terminal_drain :: "state_machine \<Rightarrow> bool" where
  "is_in_terminal_drain sm \<longleftrightarrow>
     sm_state sm \<in> {CallAbortTimeoutPending, CallAbortPending,
                    CallDisconnectAckPending, CallDisconnectTimeoutPending}"

definition advance_to_connected :: "state_machine \<Rightarrow> state_machine \<times> step_out" where
  "advance_to_connected sm =
     (transition ServerCallConnected sm,
      step_out_new\<lparr>so_timer_stop := Some Negotiation,
                   so_timer_start := Some (Hello, TIMER_VAL_HELLO),
                   so_notify := Some SstpEstablished\<rparr>)"

definition on_data_packet :: "state_machine \<Rightarrow> step_out" where
  "on_data_packet sm =
     (if sm_state sm = ServerCallConnected
      then step_out_new\<lparr>so_timer_start := Some (Hello, TIMER_VAL_HELLO)\<rparr>
      else step_out_new)"

definition on_inner_auth_completed :: "bytes option \<Rightarrow> state_machine \<Rightarrow> state_machine" where
  "on_inner_auth_completed key sm =
     (case sm_binding sm of
        None \<Rightarrow> sm
      | Some b \<Rightarrow> sm\<lparr>sm_binding := Some (b\<lparr>hlak := key\<rparr>)\<rparr>)"

definition on_higher_layer_disconnect :: "state_machine \<Rightarrow> bytes \<Rightarrow> handler_result" where
  "on_higher_layer_disconnect sm tx = do {
     (tx', n) \<leftarrow> encode_call_disconnect tx True;
     Some (transition CallDisconnectAckPending sm, tx',
           step_out_new\<lparr>so_send_len := n,
             so_timer_start := Some (DisconnectT1, TIMER_VAL_DISCONNECT_STATE_TIMER_1)\<rparr>)
   }"

subsection \<open>Per-message handlers\<close>

definition on_call_connect_request ::
    "bytes \<Rightarrow> u16 \<Rightarrow> state_machine \<Rightarrow> bytes \<Rightarrow> handler_result" where
  "on_call_connect_request nonce pid sm tx =
     (if is_in_terminal_drain sm then Some (sm, tx, step_out_new)
      else if sm_state sm \<noteq> ServerConnectRequestPending then start_abort UnexpectedMessage sm tx
      else if pid \<noteq> SSTP_ENCAPSULATED_PROTOCOL_PPP then do {
        (tx', n) \<leftarrow> encode_call_connect_nak tx (attribute_id_as_u8 EncapsulatedProtocolId)
                     StValueNotSupported;
        Some (sm, tx', step_out_new\<lparr>so_send_len := n\<rparr>)
      }
      else do {
        let hash_bitmask = CERT_HASH_PROTOCOL_SHA1 OR CERT_HASH_PROTOCOL_SHA256;
        (tx', n) \<leftarrow> encode_call_connect_ack tx hash_bitmask nonce;
        let sm' = sm\<lparr>sm_binding := Some
                    \<lparr>server_nonce = nonce,
                     server_cert_hash_sha1 = sm_cert_hash_sha1 sm,
                     server_cert_hash_sha256 = sm_cert_hash_sha256 sm,
                     server_hash_protocol_supported = hash_bitmask,
                     hlak = None\<rparr>\<rparr>;
        Some (transition ServerCallConnectedPending sm', tx',
              step_out_new\<lparr>so_send_len := n, so_notify := Some StartPpp\<rparr>)
      })"

definition on_binding_outcome ::
    "binding_outcome \<Rightarrow> state_machine \<Rightarrow> bytes \<Rightarrow> handler_result" where
  "on_binding_outcome r sm tx =
     (case r of
        BindOk \<Rightarrow> (case advance_to_connected sm of (sm', so) \<Rightarrow> Some (sm', tx, so))
      | BindAttribNotSupportedInMsg \<Rightarrow> start_abort CryptoBindingMissing sm tx
      | BindValueNotSupported \<Rightarrow> start_abort CryptoBindingInvalid sm tx)"

definition on_call_connected_structural ::
    "crypto_lib \<Rightarrow> crypto_binding \<Rightarrow> state_machine \<Rightarrow> bytes \<Rightarrow> handler_result" where
  "on_call_connected_structural lib cb sm tx =
     (if is_in_terminal_drain sm then Some (sm, tx, step_out_new)
      else if sm_state sm \<noteq> ServerCallConnectedPending then start_abort UnexpectedMessage sm tx
      else case sm_binding sm of
          None \<Rightarrow> start_abort CryptoBindingMissing sm tx
        | Some state \<Rightarrow> on_binding_outcome (binding_verify lib cb state []) sm tx)"

definition verify_call_connected ::
    "crypto_lib \<Rightarrow> crypto_binding \<Rightarrow> bytes \<Rightarrow> state_machine \<Rightarrow> bytes \<Rightarrow> handler_result" where
  "verify_call_connected lib cb packet_with_zeroed_mac sm tx =
     (if sm_state sm \<noteq> ServerCallConnectedPending then start_abort UnexpectedMessage sm tx
      else case sm_binding sm of
          None \<Rightarrow> start_abort CryptoBindingMissing sm tx
        | Some state \<Rightarrow>
            on_binding_outcome (binding_verify lib cb state packet_with_zeroed_mac) sm tx)"

definition on_call_disconnect :: "state_machine \<Rightarrow> bytes \<Rightarrow> handler_result" where
  "on_call_disconnect sm tx =
     (if sm_state sm \<in> {CallAbortTimeoutPending, CallAbortPending, CallDisconnectTimeoutPending}
      then Some (sm, tx, step_out_new)
      else if sm_state sm = CallDisconnectAckPending then do {
        (tx', n) \<leftarrow> encode_empty_control tx MtCallDisconnectAck;
        Some (transition CallDisconnectTimeoutPending sm, tx',
              step_out_new\<lparr>so_send_len := n, so_timer_stop := Some DisconnectT1,
                so_timer_start := Some (DisconnectT2, TIMER_VAL_DISCONNECT_STATE_TIMER_2)\<rparr>)
      }
      else do {
        (tx', n) \<leftarrow> encode_empty_control tx MtCallDisconnectAck;
        Some (transition CallDisconnectTimeoutPending sm, tx',
              step_out_new\<lparr>so_send_len := n,
                so_timer_start := Some (DisconnectT2, TIMER_VAL_DISCONNECT_STATE_TIMER_2)\<rparr>)
      })"

definition on_call_disconnect_ack :: "state_machine \<Rightarrow> bytes \<Rightarrow> handler_result" where
  "on_call_disconnect_ack sm tx =
     (if sm_state sm = CallDisconnectAckPending then
        Some (transition ServerCallDisconnected sm, tx,
              step_out_new\<lparr>so_timer_stop := Some DisconnectT1, so_terminate := Graceful\<rparr>)
      else if sm_state sm \<in> {CallAbortPending, CallAbortTimeoutPending, CallDisconnectTimeoutPending}
      then Some (sm, tx, step_out_new)
      else start_abort UnexpectedMessage sm tx)"

definition on_call_abort :: "state_machine \<Rightarrow> bytes \<Rightarrow> handler_result" where
  "on_call_abort sm tx =
     (if sm_state sm = CallAbortPending then
        Some (transition CallAbortTimeoutPending sm, tx,
              step_out_new\<lparr>so_timer_stop := Some AbortT1,
                so_timer_start := Some (AbortT2, TIMER_VAL_ABORT_STATE_TIMER_2)\<rparr>)
      else if sm_state sm \<in> {CallAbortTimeoutPending, CallDisconnectTimeoutPending}
      then Some (sm, tx, step_out_new)
      else do {
        (tx', n) \<leftarrow> encode_call_abort tx (to_status AbortReasonNone);
        Some (transition CallAbortTimeoutPending sm, tx',
              step_out_new\<lparr>so_send_len := n,
                so_timer_start := Some (AbortT2, TIMER_VAL_ABORT_STATE_TIMER_2)\<rparr>)
      })"

definition on_echo_request :: "state_machine \<Rightarrow> bytes \<Rightarrow> handler_result" where
  "on_echo_request sm tx =
     (if sm_state sm = ServerCallConnected then do {
        (tx', n) \<leftarrow> encode_empty_control tx MtEchoResponse;
        Some (sm, tx', step_out_new\<lparr>so_send_len := n,
                         so_timer_start := Some (Hello, TIMER_VAL_HELLO)\<rparr>)
      }
      else if sm_state sm \<in> {CallAbortTimeoutPending, CallAbortPending,
                             CallDisconnectAckPending, CallDisconnectTimeoutPending}
      then Some (sm, tx, step_out_new)
      else start_abort UnexpectedMessage sm tx)"

definition on_echo_response :: "state_machine \<Rightarrow> bytes \<Rightarrow> handler_result" where
  "on_echo_response sm tx =
     (if sm_state sm = ServerCallConnected then
        Some (sm, tx, step_out_new\<lparr>so_timer_start := Some (Hello, TIMER_VAL_HELLO)\<rparr>)
      else if sm_state sm \<in> {CallAbortTimeoutPending, CallAbortPending,
                             CallDisconnectAckPending, CallDisconnectTimeoutPending}
      then Some (sm, tx, step_out_new)
      else start_abort UnexpectedMessage sm tx)"

definition on_hello_expired :: "state_machine \<Rightarrow> bytes \<Rightarrow> handler_result" where
  "on_hello_expired sm tx =
     (if sm_state sm \<noteq> ServerCallConnected then Some (sm, tx, step_out_new)
      else do {
        (tx', n) \<leftarrow> encode_empty_control tx MtEchoRequest;
        Some (sm, tx', step_out_new\<lparr>so_send_len := n,
                         so_timer_start := Some (Hello, TIMER_VAL_HELLO)\<rparr>)
      })"

definition on_hello_timeout_no_response :: "state_machine \<Rightarrow> step_out" where
  "on_hello_timeout_no_response sm = step_out_new\<lparr>so_terminate := Abrupt\<rparr>"

fun on_timer :: "timer \<Rightarrow> state_machine \<Rightarrow> bytes \<Rightarrow> handler_result" where
  "on_timer Negotiation sm tx = start_abort NegotiationTimeout sm tx"
| "on_timer Hello sm tx = on_hello_expired sm tx"
| "on_timer AbortT1 sm tx =
     Some (transition CallAbortTimeoutPending sm, tx,
           step_out_new\<lparr>so_timer_start := Some (AbortT2, TIMER_VAL_ABORT_STATE_TIMER_2)\<rparr>)"
| "on_timer AbortT2 sm tx = Some (sm, tx, step_out_new\<lparr>so_terminate := Graceful\<rparr>)"
| "on_timer DisconnectT1 sm tx = Some (sm, tx, step_out_new\<lparr>so_terminate := Graceful\<rparr>)"
| "on_timer DisconnectT2 sm tx = Some (sm, tx, step_out_new\<lparr>so_terminate := Graceful\<rparr>)"

fun on_message ::
    "crypto_lib \<Rightarrow> bytes \<Rightarrow> control_message \<Rightarrow> state_machine \<Rightarrow> bytes \<Rightarrow> handler_result" where
  "on_message lib nonce (CmCallConnectRequest pid) sm tx = on_call_connect_request nonce pid sm tx"
| "on_message lib nonce (CmCallConnected cb) sm tx = on_call_connected_structural lib cb sm tx"
| "on_message lib nonce CmCallDisconnect sm tx = on_call_disconnect sm tx"
| "on_message lib nonce CmCallDisconnectAck sm tx = on_call_disconnect_ack sm tx"
| "on_message lib nonce CmCallAbort sm tx = on_call_abort sm tx"
| "on_message lib nonce CmEchoRequest sm tx = on_echo_request sm tx"
| "on_message lib nonce CmEchoResponse sm tx = on_echo_response sm tx"
| "on_message lib nonce (CmOther pkt) sm tx = unexpected sm tx"

definition MIN_TX_BUF :: nat where
  "MIN_TX_BUF = (if CALL_CONNECT_ACK_LEN > EMPTY_CONTROL_LEN then CALL_CONNECT_ACK_LEN
                 else EMPTY_CONTROL_LEN)"

subsection \<open>The events of a connection\<close>

text \<open>
  The entry points the session task calls after \<open>on_https_accepted\<close>.  A received message
  carries the nonce that \<open>RAND_bytes\<close> would return if it is drawn.
\<close>

datatype sstp_event =
    SeMessage bytes control_message
  | SeCallConnected crypto_binding bytes
  | SeDataPacket
  | SeInnerAuth "bytes option"
  | SeDisconnect
  | SeTimer timer
  | SeHelloNoResponse

fun sstp_step :: "crypto_lib \<Rightarrow> sstp_event \<Rightarrow> state_machine \<Rightarrow> bytes \<Rightarrow> handler_result" where
  "sstp_step lib (SeMessage nonce msg) sm tx = on_message lib nonce msg sm tx"
| "sstp_step lib (SeCallConnected cb pkt) sm tx = verify_call_connected lib cb pkt sm tx"
| "sstp_step lib SeDataPacket sm tx = Some (sm, tx, on_data_packet sm)"
| "sstp_step lib (SeInnerAuth key) sm tx = Some (on_inner_auth_completed key sm, tx, step_out_new)"
| "sstp_step lib SeDisconnect sm tx = on_higher_layer_disconnect sm tx"
| "sstp_step lib (SeTimer t) sm tx = on_timer t sm tx"
| "sstp_step lib SeHelloNoResponse sm tx = Some (sm, tx, on_hello_timeout_no_response sm)"

fun sstp_event_ok :: "sstp_event \<Rightarrow> bool" where
  "sstp_event_ok (SeMessage nonce msg) = (length nonce = 32)"
| "sstp_event_ok e = True"

definition sstp_machine_step ::
    "crypto_lib \<Rightarrow> state_machine \<times> bytes \<Rightarrow> sstp_event \<Rightarrow> (state_machine \<times> bytes) \<times> step_out option" where
  "sstp_machine_step lib st e =
     (case sstp_step lib e (fst st) (snd st) of
        None \<Rightarrow> (st, None)
      | Some (sm, tx, so) \<Rightarrow> ((sm, tx), Some so))"

subsection \<open>No panic, and well-formed replies\<close>

text \<open>What a handler promises of its result: no panic, and a reply that is one control packet.\<close>

definition good_result :: "bytes \<Rightarrow> handler_result \<Rightarrow> bool" where
  "good_result tx r \<longleftrightarrow>
     (\<exists>sm' tx' so. r = Some (sm', tx', so) \<and> length tx' = length tx \<and> so_send_len so \<le> 48
       \<and> (so_send_len so \<noteq> 0 \<longrightarrow> (\<exists>cp. packet_parse tx' = Inr (Control cp, so_send_len so))))"

lemma good_result_silent [simp]: "so_send_len so = 0 \<Longrightarrow> good_result tx (Some (sm, tx, so))"
  by (simp add: good_result_def)

lemma good_result_encoded:
  assumes "encoded tx t r" and "\<And>n. so_send_len (f n) = n"
  shows "good_result tx (Option.bind r (\<lambda>(tx', n). Some (sm, tx', f n)))"
  using assms by (auto simp: encoded_def good_result_def)

lemma step_out_new_fields [simp]:
  "so_send_len step_out_new = 0" "so_timer_stop step_out_new = None"
  "so_timer_start step_out_new = None" "so_notify step_out_new = None"
  "so_terminate step_out_new = TerminateNone"
  by (simp_all add: step_out_new_def)

lemma transition_fields [simp]:
  "sm_state (transition q sm) = q" "sm_binding (transition q sm) = sm_binding sm"
  "sm_cert_hash_sha1 (transition q sm) = sm_cert_hash_sha1 sm"
  "sm_cert_hash_sha256 (transition q sm) = sm_cert_hash_sha256 sm"
  by (simp_all add: transition_def)

lemma start_abort_good [simp]: "48 \<le> length tx \<Longrightarrow> good_result tx (start_abort r sm tx)"
  unfolding start_abort_def by (rule good_result_encoded) (auto intro: encoded_intros)

lemma on_binding_outcome_good [simp]:
  "48 \<le> length tx \<Longrightarrow> good_result tx (on_binding_outcome r sm tx)"
  by (cases r) (simp_all add: on_binding_outcome_def advance_to_connected_def)

lemmas sstp_handler_defs = on_call_connect_request_def on_call_connected_structural_def
  verify_call_connected_def on_call_disconnect_def on_call_disconnect_ack_def on_call_abort_def
  on_echo_request_def on_echo_response_def on_hello_expired_def unexpected_def
  on_higher_layer_disconnect_def on_data_packet_def on_hello_timeout_no_response_def

lemma on_timer_good: "48 \<le> length tx \<Longrightarrow> good_result tx (on_timer t sm tx)"
  by (cases t) (auto simp: sstp_handler_defs intro!: good_result_encoded encoded_intros)

lemma on_message_good:
  "48 \<le> length tx \<Longrightarrow> length nonce = 32 \<Longrightarrow> good_result tx (on_message lib nonce msg sm tx)"
  by (cases msg)
    (auto simp: sstp_handler_defs Let_def intro!: good_result_encoded encoded_intros split: option.split)

lemma sstp_step_good:
  assumes "48 \<le> length tx" and "sstp_event_ok e"
  shows "good_result tx (sstp_step lib e sm tx)"
  using assms
  by (cases e)
    (auto simp: on_timer_good on_message_good verify_call_connected_def
      on_higher_layer_disconnect_def on_data_packet_def on_hello_timeout_no_response_def
      intro!: good_result_encoded encoded_intros split: option.split)

lemma MIN_TX_BUF_eq: "MIN_TX_BUF = 48"
  by (simp add: MIN_TX_BUF_def wire_defs)

text \<open>
  C20 (safety).  With a transmit buffer of \<open>MIN_TX_BUF\<close> bytes no handler of the state machine
  panics, in any state and on any event; the buffer keeps its size, and what is to be sent is
  one well-formed SSTP control packet that fills exactly the announced bytes.
\<close>

theorem sstp_step_total:
  assumes "MIN_TX_BUF \<le> length tx" and "sstp_event_ok e"
  shows "\<exists>sm' tx' so. sstp_step lib e sm tx = Some (sm', tx', so)
    \<and> length tx' = length tx \<and> so_send_len so \<le> MIN_TX_BUF
    \<and> (so_send_len so = 0 \<or> (\<exists>cp. packet_parse tx' = Inr (Control cp, so_send_len so)))"
  using sstp_step_good [of tx e lib sm] assms by (auto simp: good_result_def MIN_TX_BUF_eq)

theorem sstp_step_total_witness:
  "\<exists>sm' tx' so cp. sstp_step toy_lib (SeMessage (replicate 32 7) (CmCallConnectRequest 1))
      (fst (on_https_accepted (state_machine_new [] []))) (replicate 48 0) = Some (sm', tx', so)
    \<and> so_send_len so = 48 \<and> packet_parse tx' = Inr (Control cp, so_send_len so)"
proof -
  let ?r = "sstp_step toy_lib (SeMessage (replicate 32 7) (CmCallConnectRequest 1))
      (fst (on_https_accepted (state_machine_new [] []))) (replicate 48 0)"
  obtain sm' tx' so where r: "?r = Some (sm', tx', so)"
    and so: "so_send_len so = 0 \<or> (\<exists>cp. packet_parse tx' = Inr (Control cp, so_send_len so))"
    using sstp_step_total [of "replicate 48 0" "SeMessage (replicate 32 7) (CmCallConnectRequest 1)"
      toy_lib "fst (on_https_accepted (state_machine_new [] []))"]
    by (auto simp: MIN_TX_BUF_eq)
  have "so_send_len so = 48"
    using r by (simp add: on_call_connect_request_def is_in_terminal_drain_def on_https_accepted_def
      encode_call_connect_ack_def wire_defs Let_def bind_eq_Some_conv) auto
  with r so show ?thesis by auto
qed

subsection \<open>Phases\<close>

text \<open>
  The abstract life of a call: it is negotiated, then connected, then torn down, then closed.
\<close>

fun phase_rank :: "sstp_state \<Rightarrow> nat" where
  "phase_rank ServerConnectRequestPending = 0"
| "phase_rank ServerCallConnectedPending = 1"
| "phase_rank ServerCallConnected = 2"
| "phase_rank CallAbortPending = 3"
| "phase_rank CallAbortTimeoutPending = 3"
| "phase_rank CallDisconnectAckPending = 3"
| "phase_rank CallDisconnectTimeoutPending = 3"
| "phase_rank ServerCallDisconnected = 4"

lemma start_abort_result:
  "start_abort r sm tx = Some (sm', tx', so) \<Longrightarrow>
     sm' = transition CallAbortPending sm \<and> so_notify so = None \<and> so_timer_stop so = None
     \<and> so_timer_start so = Some (AbortT1, 3) \<and> so_terminate so = TerminateNone"
  by (auto simp: start_abort_def bind_eq_Some_conv TIMER_VAL_ABORT_STATE_TIMER_1_def)

lemma on_binding_outcome_result:
  "on_binding_outcome r sm tx = Some (sm', tx', so) \<Longrightarrow>
     (r = BindOk \<and> (sm', so) = advance_to_connected sm) \<or>
     (r \<noteq> BindOk \<and> sm' = transition CallAbortPending sm \<and> so_notify so = None
       \<and> so_timer_stop so = None \<and> so_timer_start so = Some (AbortT1, 3)
       \<and> so_terminate so = TerminateNone)"
  by (cases r) (auto simp: on_binding_outcome_def dest: start_abort_result split: prod.splits)

lemma on_inner_auth_completed_state [simp]:
  "sm_state (on_inner_auth_completed key sm) = sm_state sm"
  by (simp add: on_inner_auth_completed_def split: option.split)

text \<open>One handler at a time: the state after it and whether it announces the connection.\<close>

definition announces :: "state_machine \<Rightarrow> state_machine \<Rightarrow> step_out \<Rightarrow> bool" where
  "announces sm sm' so \<longleftrightarrow>
     (so_notify so = Some SstpEstablished \<longleftrightarrow>
        sm_state sm' = ServerCallConnected \<and> sm_state sm \<noteq> ServerCallConnected)"

lemma on_message_phase:
  assumes "on_message lib nonce msg sm tx = Some (sm', tx', so)"
    and "sm_state sm \<noteq> ServerCallDisconnected"
  shows "phase_rank (sm_state sm) \<le> phase_rank (sm_state sm') \<and> announces sm sm' so"
  using assms
  by (cases msg; cases "sm_state sm")
    (auto simp: sstp_handler_defs announces_def is_in_terminal_drain_def advance_to_connected_def
      bind_eq_Some_conv Let_def
      dest!: start_abort_result on_binding_outcome_result split: option.splits if_splits)

lemma on_timer_phase:
  assumes "on_timer t sm tx = Some (sm', tx', so)" and "sm_state sm \<noteq> ServerCallDisconnected"
  shows "phase_rank (sm_state sm) \<le> phase_rank (sm_state sm') \<and> announces sm sm' so"
  using assms
  by (cases t; cases "sm_state sm")
    (auto simp: sstp_handler_defs announces_def bind_eq_Some_conv dest!: start_abort_result
      split: if_splits)

lemma sstp_step_phase:
  assumes "sstp_step lib e sm tx = Some (sm', tx', so)" and "sm_state sm \<noteq> ServerCallDisconnected"
  shows "phase_rank (sm_state sm) \<le> phase_rank (sm_state sm') \<and> announces sm sm' so"
proof (cases e)
  case (SeMessage nonce msg)
  with assms show ?thesis by (auto dest: on_message_phase)
next
  case (SeTimer t)
  with assms show ?thesis by (auto dest: on_timer_phase)
next
  case (SeCallConnected cb pkt)
  with assms show ?thesis
    by (cases "sm_state sm")
      (auto simp: verify_call_connected_def announces_def advance_to_connected_def
        dest!: start_abort_result on_binding_outcome_result split: option.splits if_splits)
qed (use assms in \<open>cases "sm_state sm"; auto simp: sstp_handler_defs announces_def bind_eq_Some_conv
      split: if_splits\<close>)+



subsection \<open>Connected only after a verified binding\<close>

text \<open>
  What the history of a call must contain for the machine to be waiting for the Call Connected
  message, with the given binding state, and to be connected.
\<close>

definition binding_from :: "bytes \<Rightarrow> bytes \<Rightarrow> sstp_event list \<Rightarrow> server_binding_state \<Rightarrow> bool" where
  "binding_from h1 h256 es b \<longleftrightarrow>
     (\<exists>nonce key. SeMessage nonce (CmCallConnectRequest SSTP_ENCAPSULATED_PROTOCOL_PPP) \<in> set es
       \<and> (key = None \<or> SeInnerAuth key \<in> set es)
       \<and> b = \<lparr>server_nonce = nonce, server_cert_hash_sha1 = h1, server_cert_hash_sha256 = h256,
              server_hash_protocol_supported = 3, hlak = key\<rparr>)"

definition verified_by ::
    "crypto_lib \<Rightarrow> bytes \<Rightarrow> bytes \<Rightarrow> sstp_event list \<Rightarrow> bool" where
  "verified_by lib h1 h256 es \<longleftrightarrow>
     (\<exists>b cb pkt. binding_from h1 h256 es b \<and> binding_verify lib cb b pkt = BindOk
       \<and> (SeCallConnected cb pkt \<in> set es
          \<or> (pkt = [] \<and> (\<exists>nonce. SeMessage nonce (CmCallConnected cb) \<in> set es))))"

definition call_history ::
    "crypto_lib \<Rightarrow> bytes \<Rightarrow> bytes \<Rightarrow> sstp_event list \<Rightarrow> state_machine \<Rightarrow> bool" where
  "call_history lib h1 h256 es sm \<longleftrightarrow>
     sm_cert_hash_sha1 sm = h1 \<and> sm_cert_hash_sha256 sm = h256
     \<and> (\<forall>b. sm_binding sm = Some b \<longrightarrow> binding_from h1 h256 es b)
     \<and> (sm_state sm \<in> {ServerCallConnectedPending, ServerCallConnected} \<longrightarrow> sm_binding sm \<noteq> None)
     \<and> (sm_state sm = ServerCallConnected \<longrightarrow> verified_by lib h1 h256 es)"

lemma binding_from_mono: "binding_from h1 h256 es b \<Longrightarrow> binding_from h1 h256 (es @ es') b"
  by (auto simp: binding_from_def)

lemma verified_by_mono: "verified_by lib h1 h256 es \<Longrightarrow> verified_by lib h1 h256 (es @ es')"
  unfolding verified_by_def by (auto 0 4 dest: binding_from_mono)

text \<open>A step that neither touches the binding nor connects extends any history.\<close>

lemma call_history_extend:
  assumes "call_history lib h1 h256 es sm"
    and "sm_cert_hash_sha1 sm' = sm_cert_hash_sha1 sm" "sm_cert_hash_sha256 sm' = sm_cert_hash_sha256 sm"
    and "sm_binding sm' = sm_binding sm"
    and "sm_state sm' = sm_state sm
      \<or> sm_state sm' \<notin> {ServerCallConnectedPending, ServerCallConnected}"
  shows "call_history lib h1 h256 (es @ [e]) sm'"
  using assms by (auto simp: call_history_def intro: binding_from_mono verified_by_mono)

lemma call_history_abort:
  "call_history lib h1 h256 es sm \<Longrightarrow> start_abort r sm tx = Some (sm', tx', so) \<Longrightarrow>
   call_history lib h1 h256 (es @ [e]) sm'"
  by (drule start_abort_result) (auto intro: call_history_extend)

lemma call_history_connect:
  assumes h: "call_history lib h1 h256 es sm" and b: "sm_binding sm = Some b"
    and r: "on_binding_outcome (binding_verify lib cb b pkt) sm tx = Some (sm', tx', so)"
    and e: "e = SeCallConnected cb pkt \<or> (pkt = [] \<and> (\<exists>n. e = SeMessage n (CmCallConnected cb)))"
  shows "call_history lib h1 h256 (es @ [e]) sm'"
proof (cases "binding_verify lib cb b pkt = BindOk")
  case True
  then have "sm' = transition ServerCallConnected sm"
    using on_binding_outcome_result [OF r] by (auto simp: advance_to_connected_def)
  moreover have "binding_from h1 h256 (es @ [e]) b"
    using h b by (auto simp: call_history_def intro: binding_from_mono)
  moreover from this have "verified_by lib h1 h256 (es @ [e])"
    using True e unfolding verified_by_def by auto
  ultimately show ?thesis using h b by (auto simp: call_history_def)
next
  case False
  then have "sm' = transition CallAbortPending sm" using on_binding_outcome_result [OF r] by auto
  then show ?thesis by (auto intro: call_history_extend [OF h])
qed

lemma call_history_request:
  assumes h: "call_history lib h1 h256 es sm"
    and r: "on_call_connect_request nonce pid sm tx = Some (sm', tx', so)"
  shows "call_history lib h1 h256 (es @ [SeMessage nonce (CmCallConnectRequest pid)]) sm'"
proof (cases "sm_state sm = ServerConnectRequestPending \<and> pid = SSTP_ENCAPSULATED_PROTOCOL_PPP")
  case True
  then show ?thesis using r h
    by (auto simp: on_call_connect_request_def is_in_terminal_drain_def bind_eq_Some_conv Let_def
        call_history_def binding_from_def wire_defs)
next
  case False
  then show ?thesis using r
    by (auto simp: on_call_connect_request_def bind_eq_Some_conv Let_def split: if_splits
        intro: call_history_abort [OF h] call_history_extend [OF h])
qed

lemma call_history_step:
  assumes h: "call_history lib h1 h256 es sm" and r: "sstp_step lib e sm tx = Some (sm', tx', so)"
  shows "call_history lib h1 h256 (es @ [e]) sm'"
proof (cases e)
  case (SeMessage nonce msg)
  show ?thesis
  proof (cases msg)
    case (CmCallConnectRequest pid)
    with SeMessage r show ?thesis by (auto intro: call_history_request [OF h])
  next
    case (CmCallConnected cb)
    with SeMessage r show ?thesis
      by (auto simp: on_call_connected_structural_def split: if_splits option.splits
        intro: call_history_abort [OF h] call_history_extend [OF h] call_history_connect [OF h])
  qed (use SeMessage r in \<open>auto simp: sstp_handler_defs bind_eq_Some_conv split: if_splits
        intro: call_history_abort [OF h] call_history_extend [OF h]\<close>)
next
  case (SeCallConnected cb pkt)
  with r show ?thesis
    by (auto simp: verify_call_connected_def split: if_splits option.splits
      intro: call_history_abort [OF h] call_history_connect [OF h])
next
  case (SeInnerAuth key)
  with r have sm': "sm' = on_inner_auth_completed key sm" by simp
  show ?thesis
  proof (cases "sm_binding sm")
    case None
    with sm' show ?thesis
      by (auto simp: on_inner_auth_completed_def intro: call_history_extend [OF h])
  next
    case (Some b)
    then have "binding_from h1 h256 es b" using h by (simp add: call_history_def)
    then have "binding_from h1 h256 (es @ [e]) (b\<lparr>hlak := key\<rparr>)"
      unfolding SeInnerAuth binding_from_def by auto
    with Some sm' h show ?thesis
      by (auto simp: on_inner_auth_completed_def call_history_def intro: verified_by_mono)
  qed
next
  case (SeTimer t)
  with r show ?thesis
    by (cases t) (auto simp: sstp_handler_defs bind_eq_Some_conv split: if_splits
      intro: call_history_abort [OF h] call_history_extend [OF h])
qed (use r in \<open>auto simp: sstp_handler_defs bind_eq_Some_conv intro: call_history_extend [OF h]\<close>)

lemma call_history_run:
  assumes "run_machine (sstp_machine_step lib) (sm, tx) es = ((sm', tx'), outs)"
    and "call_history lib h1 h256 [] sm"
  shows "call_history lib h1 h256 es sm'"
  using assms
proof (induction es arbitrary: sm' tx' outs rule: rev_induct)
  case Nil
  then show ?case by simp
next
  case (snoc e es)
  obtain sm1 tx1 outs1 where run: "run_machine (sstp_machine_step lib) (sm, tx) es = ((sm1, tx1), outs1)"
    by (metis surj_pair)
  with snoc have h: "call_history lib h1 h256 es sm1" by blast
  from snoc.prems(1) run have s: "fst (sstp_machine_step lib (sm1, tx1) e) = (sm', tx')"
    by (auto simp: run_machine_append Let_def split: prod.splits)
  show ?case
  proof (cases "sstp_step lib e sm1 tx1")
    case None
    with s have "sm' = sm1" by (simp add: sstp_machine_step_def)
    then show ?thesis by (auto intro: call_history_extend [OF h])
  next
    case (Some p)
    then obtain so where "sstp_step lib e sm1 tx1 = Some (sm', tx', so)"
      using s by (cases p) (auto simp: sstp_machine_step_def)
    then show ?thesis by (rule call_history_step [OF h])
  qed
qed

subsection \<open>The machine implements the interface\<close>

definition accepted_machine :: "bytes \<Rightarrow> bytes \<Rightarrow> state_machine" where
  "accepted_machine h1 h256 = fst (on_https_accepted (state_machine_new h1 h256))"

lemma call_history_accepted: "call_history lib h1 h256 [] (accepted_machine h1 h256)"
  by (simp add: call_history_def accepted_machine_def on_https_accepted_def state_machine_new_def)

text \<open>
  The invariant of a call: the transmit buffer is large enough, and while the server waits for
  the Call Connected message, or is connected, it holds the binding state to check against.
\<close>

definition sm_inv :: "state_machine \<times> bytes \<Rightarrow> bool" where
  "sm_inv st \<longleftrightarrow> MIN_TX_BUF \<le> length (snd st)
     \<and> (sm_state (fst st) \<in> {ServerCallConnectedPending, ServerCallConnected}
          \<longrightarrow> sm_binding (fst st) \<noteq> None)
     \<and> (\<forall>b. sm_binding (fst st) = Some b \<longrightarrow>
          server_hash_protocol_supported b = 3 \<and> length (server_nonce b) = 32
          \<and> server_cert_hash_sha1 b = sm_cert_hash_sha1 (fst st)
          \<and> server_cert_hash_sha256 b = sm_cert_hash_sha256 (fst st))"

lemma sm_inv_keep:
  assumes "sm_inv (sm, tx)" and "length tx' = length tx"
    and "sm_cert_hash_sha1 sm' = sm_cert_hash_sha1 sm" "sm_cert_hash_sha256 sm' = sm_cert_hash_sha256 sm"
    and "sm_binding sm' = sm_binding sm"
    and "sm_binding sm \<noteq> None \<or> sm_state sm' = sm_state sm
      \<or> sm_state sm' \<notin> {ServerCallConnectedPending, ServerCallConnected}"
  shows "sm_inv (sm', tx')"
  using assms by (auto simp: sm_inv_def)

lemma sm_inv_abort:
  "sm_inv (sm, tx) \<Longrightarrow> start_abort r sm tx = Some (sm', tx', so) \<Longrightarrow> length tx' = length tx \<Longrightarrow>
   sm_inv (sm', tx')"
  by (drule start_abort_result) (auto intro: sm_inv_keep)

lemma sm_inv_outcome:
  "sm_inv (sm, tx) \<Longrightarrow> on_binding_outcome r sm tx = Some (sm', tx', so) \<Longrightarrow> length tx' = length tx \<Longrightarrow>
   sm_binding sm = Some b \<Longrightarrow> sm_inv (sm', tx')"
  by (drule on_binding_outcome_result) (auto simp: advance_to_connected_def intro: sm_inv_keep)

lemma sm_inv_request:
  assumes i: "sm_inv (sm, tx)" and n: "length nonce = 32" and l: "length tx' = length tx"
    and r: "on_call_connect_request nonce pid sm tx = Some (sm', tx', so)"
  shows "sm_inv (sm', tx')"
proof (cases "sm_state sm = ServerConnectRequestPending \<and> pid = SSTP_ENCAPSULATED_PROTOCOL_PPP")
  case True
  then show ?thesis using r i n l
    by (auto simp: on_call_connect_request_def is_in_terminal_drain_def bind_eq_Some_conv Let_def
        sm_inv_def wire_defs)
next
  case False
  then show ?thesis using r l
    by (auto simp: on_call_connect_request_def bind_eq_Some_conv Let_def split: if_splits
        intro: sm_inv_abort [OF i] sm_inv_keep [OF i])
qed

lemma sm_inv_step:
  assumes i: "sm_inv (sm, tx)" and ok: "sstp_event_ok e"
    and r: "sstp_step lib e sm tx = Some (sm', tx', so)"
  shows "sm_inv (sm', tx')"
proof -
  have l: "length tx' = length tx"
    using sstp_step_good [of tx e lib sm] i ok r by (auto simp: sm_inv_def MIN_TX_BUF_eq good_result_def)
  show ?thesis
  proof (cases e)
    case (SeMessage nonce msg)
    show ?thesis
    proof (cases msg)
      case (CmCallConnectRequest pid)
      with SeMessage r ok l show ?thesis by (auto intro: sm_inv_request [OF i])
    next
      case (CmCallConnected cb)
      with SeMessage r l show ?thesis
        by (auto simp: on_call_connected_structural_def split: if_splits option.splits
          intro: sm_inv_abort [OF i] sm_inv_outcome [OF i] sm_inv_keep [OF i])
    qed (use SeMessage r l in \<open>auto simp: sstp_handler_defs bind_eq_Some_conv split: if_splits
          intro: sm_inv_abort [OF i] sm_inv_keep [OF i]\<close>)
  next
    case (SeCallConnected cb pkt)
    with r l show ?thesis
      by (auto simp: verify_call_connected_def split: if_splits option.splits
        intro: sm_inv_abort [OF i] sm_inv_outcome [OF i])
  next
    case (SeInnerAuth key)
    with r i show ?thesis
      by (auto simp: on_inner_auth_completed_def sm_inv_def split: option.splits)
  next
    case (SeTimer t)
    with r l show ?thesis
      by (cases t) (auto simp: sstp_handler_defs bind_eq_Some_conv split: if_splits
        intro: sm_inv_abort [OF i] sm_inv_keep [OF i])
  qed (use r l in \<open>auto simp: sstp_handler_defs bind_eq_Some_conv intro: sm_inv_keep [OF i]\<close>)
qed

interpretation sstp_fsm: machine "sstp_machine_step lib"
  "\<lambda>st. (\<exists>h1 h256. fst st = accepted_machine h1 h256) \<and> MIN_TX_BUF \<le> length (snd st)"
  sstp_event_ok sm_inv
proof unfold_locales
  fix st :: "state_machine \<times> bytes" and e
  show "(\<exists>h1 h256. fst st = accepted_machine h1 h256) \<and> MIN_TX_BUF \<le> length (snd st) \<Longrightarrow> sm_inv st"
    by (auto simp: sm_inv_def accepted_machine_def on_https_accepted_def state_machine_new_def)
  show "sm_inv st \<Longrightarrow> sstp_event_ok e \<Longrightarrow> sm_inv (fst (sstp_machine_step lib st e))"
    by (cases st) (auto simp: sstp_machine_step_def split: option.splits intro: sm_inv_step)
qed

lemma sstp_machine_no_panic:
  "sm_inv st \<Longrightarrow> sstp_event_ok e \<Longrightarrow> snd (sstp_machine_step lib st e) \<noteq> None"
  using sstp_step_good [of "snd st" e lib "fst st"]
  by (auto simp: sm_inv_def MIN_TX_BUF_eq good_result_def sstp_machine_step_def)

text \<open>
  Along every sequence of events of an accepted connection no step panics and
  the invariant of the call holds: the binding state is present whenever a Call Connected
  message can be checked, advertises both hash protocols, and carries the certificate hashes
  of the machine.
\<close>

theorem sstp_run_invariant:
  assumes "MIN_TX_BUF \<le> length tx" and "list_all sstp_event_ok es"
  shows "sm_inv (fst (run_machine (sstp_machine_step lib) (accepted_machine h1 h256, tx) es))
    \<and> list_all (\<lambda>r. r \<noteq> None) (snd (run_machine (sstp_machine_step lib) (accepted_machine h1 h256, tx) es))"
proof -
  have i: "sm_inv (accepted_machine h1 h256, tx)" using assms by (intro sstp_fsm.start_inv) auto
  from sstp_fsm.run_inv [OF i assms(2)]
    sstp_fsm.run_outputs [where P = "\<lambda>r. r \<noteq> None", OF sstp_machine_no_panic i assms(2)]
  show ?thesis by blast
qed

text \<open>
  C1 (safety).  The machine is connected only if the history of the call contains an accepted
  Call Connect Request and a Call Connected message whose Crypto Binding was verified against
  the nonce drawn for that request, the server's certificate hashes, and the key of an inner
  authentication (or none).  The MAC is computed over the packet given with the message; the
  structural path of \<open>on_message\<close> computes it over the empty string.
\<close>

theorem sstp_connected_verified:
  assumes "run_machine (sstp_machine_step lib) (accepted_machine h1 h256, tx) es = ((sm, tx'), outs)"
    and "sm_state sm = ServerCallConnected"
  shows "\<exists>nonce key cb pkt.
      SeMessage nonce (CmCallConnectRequest SSTP_ENCAPSULATED_PROTOCOL_PPP) \<in> set es
    \<and> (key = None \<or> SeInnerAuth key \<in> set es)
    \<and> (SeCallConnected cb pkt \<in> set es \<or> pkt = [] \<and> (\<exists>n. SeMessage n (CmCallConnected cb) \<in> set es))
    \<and> binding_verify lib cb
        \<lparr>server_nonce = nonce, server_cert_hash_sha1 = h1, server_cert_hash_sha256 = h256,
         server_hash_protocol_supported = 3, hlak = key\<rparr> pkt = BindOk"
proof -
  have "call_history lib h1 h256 es sm"
    using call_history_run [OF assms(1) call_history_accepted] .
  then have "verified_by lib h1 h256 es" using assms(2) by (simp add: call_history_def)
  then show ?thesis unfolding verified_by_def binding_from_def by blast
qed

text \<open>An honest exchange with the toy library, as the session task feeds it.\<close>

definition toy_exchange :: "sstp_event list" where
  "toy_exchange =
     [SeMessage (replicate 32 7) (CmCallConnectRequest 1),
      SeCallConnected \<lparr>cb_hash_protocol = 2, cb_nonce = replicate 32 7,
        cb_cert_hash_block = replicate 32 9, cb_compound_mac_block = replicate 32 2\<rparr> [0, 0]]"

lemma toy_exchange_connects:
  "\<exists>sm tx outs. run_machine (sstp_machine_step toy_lib)
      (accepted_machine [] (replicate 32 9), replicate 48 0) toy_exchange = ((sm, tx), outs)
    \<and> sm_state sm = ServerCallConnected"
  by (simp add: toy_exchange_def sstp_machine_step_def on_call_connect_request_def
      accepted_machine_def on_https_accepted_def state_machine_new_def is_in_terminal_drain_def
      encode_call_connect_ack_def wire_defs verify_call_connected_def on_binding_outcome_def
      advance_to_connected_def binding_verify_def const_time_eq_def toy_lib_def transition_def Let_def)

theorem sstp_connected_verified_witness:
  "\<exists>sm tx outs nonce. run_machine (sstp_machine_step toy_lib)
      (accepted_machine [] (replicate 32 9), replicate 48 0) toy_exchange = ((sm, tx), outs)
    \<and> sm_state sm = ServerCallConnected
    \<and> SeMessage nonce (CmCallConnectRequest SSTP_ENCAPSULATED_PROTOCOL_PPP) \<in> set toy_exchange"
proof -
  obtain sm tx outs where r: "run_machine (sstp_machine_step toy_lib)
      (accepted_machine [] (replicate 32 9), replicate 48 0) toy_exchange = ((sm, tx), outs)"
    and c: "sm_state sm = ServerCallConnected"
    using toy_exchange_connects by blast
  from sstp_connected_verified [OF r c] r c show ?thesis by blast
qed

end
