(* ===== verification/Session_Base.thy ===== *)
theory Session_Base
  imports Auth_Types Shape_Mss Sstp_State "HOL-Library.Monad_Syntax"
begin

text \<open>
  The session task of \<open>src/src/session.rs\<close>: its state, the calls it makes to the outside, and
  the functions that put the results of the two protocol machines into effect
  (\<open>apply_step\<close>, \<open>write_ppp_as_sstp_data\<close>, \<open>handle_ppp_step\<close>, \<open>handle_sstp_step\<close>).

  Everything the task cannot compute itself comes from an environment record: whether the n-th
  call succeeds, the bytes the random generator returns, and the answers of the RADIUS bridge,
  of the kernel and of the TLS layer.  \<open>ss_calls\<close> counts the calls, so every call may have its
  own answer.  The effects on the outside are logged in \<open>ss_log\<close>, in order.  A result is
  \<open>None\<close> when the code panics; the flag is false when the session task returns.  Times are
  milliseconds.
\<close>

subsection \<open>Effects, environment and state\<close>

datatype data_path_mode = DpAuto | DpKernel | DpTun

record kppp =
  kp_kernel :: bool
  kp_ifname :: string
  kp_ifindex :: nat
  kp_mtu :: nat

datatype session_end =
    UserRequest | LostCarrier | IdleTimeoutEnd | SessionTimeoutEnd | AdminReset | NasReboot
  | NasError | ServiceUnavailable

datatype acct_terminate_cause =
    USER_REQUEST | LOST_CARRIER | IDLE_TIMEOUT | SESSION_TIMEOUT | ADMIN_RESET | NAS_REBOOT
  | NAS_ERROR | SERVICE_UNAVAILABLE

fun to_terminate_cause :: "session_end \<Rightarrow> acct_terminate_cause" where
  "to_terminate_cause UserRequest = USER_REQUEST"
| "to_terminate_cause LostCarrier = LOST_CARRIER"
| "to_terminate_cause IdleTimeoutEnd = IDLE_TIMEOUT"
| "to_terminate_cause SessionTimeoutEnd = SESSION_TIMEOUT"
| "to_terminate_cause AdminReset = ADMIN_RESET"
| "to_terminate_cause NasReboot = NAS_REBOOT"
| "to_terminate_cause NasError = NAS_ERROR"
| "to_terminate_cause ServiceUnavailable = SERVICE_UNAVAILABLE"

datatype acct_event = AcctStart | AcctInterimUpdate | AcctStop acct_terminate_cause

record acct_counters =
  ct_session_time :: u32
  ct_input_octets :: u64
  ct_output_octets :: u64
  ct_input_packets :: u32
  ct_output_packets :: u32

definition acct_counters_default :: acct_counters where
  "acct_counters_default =
     \<lparr>ct_session_time = 0, ct_input_octets = 0, ct_output_octets = 0, ct_input_packets = 0,
      ct_output_packets = 0\<rparr>"

record acct_session =
  as_session_id :: string
  as_authentic :: nat
  as_framed_ip :: bytes
  as_nas_ip :: "bytes option"
  as_nas_port :: u32
  as_class :: "bytes option"

text \<open>Lower-case hexadecimal, padded with zeros to a width.\<close>

definition hex_digit :: "nat \<Rightarrow> char" where
  "hex_digit n = ''0123456789abcdef'' ! n"

fun hex_string :: "nat \<Rightarrow> string" where
  "hex_string n = (if n < 16 then [hex_digit n] else hex_string (n div 16) @ [hex_digit (n mod 16)])"

declare hex_string.simps [simp del]

definition hex_padded :: "nat \<Rightarrow> nat \<Rightarrow> string" where
  "hex_padded width n =
     (let ds = hex_string n in replicate (width - length ds) (CHR ''0'') @ ds)"

definition acct_session_new :: "nat \<Rightarrow> bytes \<Rightarrow> u32 \<Rightarrow> acct_session" where
  "acct_session_new nanos framed_ip nas_port =
     \<lparr>as_session_id = hex_padded 16 nanos, as_authentic = 1, as_framed_ip = framed_ip,
      as_nas_ip = None, as_nas_port = nas_port, as_class = None\<rparr>"

record acct_state =
  at_username :: bytes
  at_ifindex :: nat
  at_session :: acct_session
  at_started :: nat
  at_last_counters :: acct_counters

datatype effect =
    EffTls bytes
  | EffKmodControl bytes
  | EffTun bytes
  | EffKeyUpdate bool
  | EffAuth ppp_event auth_outcome
  | EffNetdev kppp bytes
  | EffNetdevGone kppp
  | EffShape nat shaping_policy
  | EffMss string nat
  | EffMssGone string nat
  | EffRoute nat framed_route
  | EffAcct bytes acct_session acct_event acct_counters

record link_stats =
  st_rx_bytes :: u64
  st_tx_bytes :: u64
  st_rx_packets :: u64
  st_tx_packets :: u64

datatype ktls_install = KtlsInstalled | KtlsBufferedData | KtlsFailed

text \<open>What the session is configured with, and the outside it runs against.\<close>

record session_env =
  env_id :: u64
  env_local_ip :: bytes
  env_auth_method :: auth_method
  env_data_path :: data_path_mode
  env_acct :: bool
  env_crypto :: crypto_lib
  env_ktls_compatible :: bool
  env_tls_version :: string
  env_cipher :: string
  env_mss_table :: bool
  env_ok :: "nat \<Rightarrow> bool"
  env_nonce :: "nat \<Rightarrow> bytes"
  env_challenge :: "nat \<Rightarrow> bytes"
  env_pap :: "nat \<Rightarrow> bytes \<Rightarrow> bytes \<Rightarrow> auth_outcome"
  env_chap :: "nat \<Rightarrow> bytes \<Rightarrow> u8 \<Rightarrow> bytes \<Rightarrow> bytes \<Rightarrow> auth_outcome"
  env_mschap :: "nat \<Rightarrow> bytes \<Rightarrow> u8 \<Rightarrow> bytes \<Rightarrow> bytes \<Rightarrow> bytes \<Rightarrow> u8 \<Rightarrow> mschap_outcome"
  env_install_ktls :: "nat \<Rightarrow> ktls_install"
  env_tun :: "nat \<Rightarrow> (string \<times> nat) option"
  env_ppp_unit :: "nat \<Rightarrow> (string \<times> nat) option"
  env_send_control :: "nat \<Rightarrow> bool list \<times> bool"
  env_recv_control :: "nat \<Rightarrow> (bytes option) option"
  env_stats :: "nat \<Rightarrow> link_stats option"
  env_nanos :: "nat \<Rightarrow> nat"

text \<open>The part of \<open>SessionInfo\<close> the task publishes after the handshake.\<close>

record session_info =
  si_username :: "bytes option"
  si_assigned_ip :: "bytes option"
  si_ifname :: "string option"
  si_mtu :: "nat option"
  si_backend :: "string option"
  si_shaping :: "shaping_policy option"

definition session_info_default :: session_info where
  "session_info_default =
     \<lparr>si_username = None, si_assigned_ip = None, si_ifname = None, si_mtu = None,
      si_backend = None, si_shaping = None\<rparr>"

record session =
  ss_ssm :: state_machine
  ss_tx_buf :: bytes
  ss_rx_buf :: bytes
  ss_sstp_timer :: "(timer \<times> nat) option"
  ss_ppp :: "ppp option"
  ss_ppp_timer :: "(timer_owner \<times> nat) option"
  ss_kppp :: "kppp option"
  ss_kmod_fd :: bool
  ss_last_rx :: nat
  ss_hello_echo_pending :: bool
  ss_mss_handle :: "(string \<times> nat) option"
  ss_info :: session_info
  ss_acct_interim_period :: nat
  ss_last_acct_interim :: nat
  ss_pending_shaping :: "shaping_policy option"
  ss_pending_policy :: "session_policy option"
  ss_pending_username :: "bytes option"
  ss_pending_hlak :: "bytes option"
  ss_acct_state :: "acct_state option"
  ss_acct_cause :: session_end
  ss_session_deadline :: "nat option"
  ss_idle_timeout :: "nat option"
  ss_idle_deadline :: "nat option"
  ss_last_activity_octets :: nat
  ss_now :: nat
  ss_calls :: nat
  ss_log :: "effect list"

text \<open>One call to the outside, and one with an effect.\<close>

definition called :: "session \<Rightarrow> session" where
  "called s = s\<lparr>ss_calls := Suc (ss_calls s)\<rparr>"

definition log_effect :: "effect \<Rightarrow> session \<Rightarrow> session" where
  "log_effect e s = s\<lparr>ss_log := ss_log s @ [e]\<rparr>"

definition tls_write :: "session_env \<Rightarrow> bytes \<Rightarrow> session \<Rightarrow> session \<times> bool" where
  "tls_write env bs s = (called (log_effect (EffTls bs) s), env_ok env (ss_calls s))"

definition tls_flush :: "session_env \<Rightarrow> session \<Rightarrow> session \<times> bool" where
  "tls_flush env s = (called s, env_ok env (ss_calls s))"

subsection \<open>Writing PPP frames\<close>

definition write_ppp_as_sstp_data ::
    "session_env \<Rightarrow> bytes \<Rightarrow> session \<Rightarrow> (session \<times> bool) option" where
  "write_ppp_as_sstp_data env payload s =
     (let total = SSTP_HEADER_LEN + length payload in
      if total > length (ss_tx_buf s) then None
      else
        let tx = write_at 0 (write_header False total @ payload) (ss_tx_buf s) in
        Some (tls_write env (take total tx) (s\<lparr>ss_tx_buf := tx\<rparr>)))"

subsection \<open>Applying a step of the SSTP machine\<close>

record sstp_outcome =
  keep_going :: bool
  start_ppp :: bool

definition sstp_outcome_stop :: sstp_outcome where
  "sstp_outcome_stop = \<lparr>keep_going = False, start_ppp = False\<rparr>"

text \<open>
  The kernel module refuses a control packet while the socket is full; the code then waits for
  the socket to become writable and tries again.  The environment gives the results of the
  waits and of the last attempt.
\<close>

fun send_control_loop :: "bool list \<times> bool \<Rightarrow> bool" where
  "send_control_loop ([], final) = final"
| "send_control_loop (w # ws, final) = (w \<and> send_control_loop (ws, final))"

definition send_step :: "session_env \<Rightarrow> nat \<Rightarrow> session \<Rightarrow> (session \<times> bool) option" where
  "send_step env n s =
     (if n = 0 then Some (s, True)
      else if length (ss_tx_buf s) < n then None
      else if (case ss_kppp s of Some k \<Rightarrow> kp_kernel k | None \<Rightarrow> False) then
        if n < SSTP_HEADER_LEN then None
        else Some (called (log_effect (EffKmodControl (slice SSTP_HEADER_LEN n (ss_tx_buf s))) s),
                   send_control_loop (env_send_control env (ss_calls s)))
      else case tls_write env (take n (ss_tx_buf s)) s of
          (s1, ok) \<Rightarrow> if ok then Some (tls_flush env s1) else Some (s1, False))"

text \<open>Stopping a timer clears the slot if it holds that timer; starting one overwrites it.\<close>

definition timer_slot_stop :: "'t option \<Rightarrow> ('t \<times> nat) option \<Rightarrow> ('t \<times> nat) option" where
  "timer_slot_stop stop slot =
     (case (stop, slot) of
        (Some t, Some (t', d)) \<Rightarrow> if t' = t then None else slot
      | _ \<Rightarrow> slot)"

definition update_sstp_timer :: "step_out \<Rightarrow> session \<Rightarrow> session" where
  "update_sstp_timer out s =
     (let slot = timer_slot_stop (so_timer_stop out) (ss_sstp_timer s) in
      s\<lparr>ss_sstp_timer :=
          (case so_timer_start out of
             Some (which, dur) \<Rightarrow> if which \<noteq> Hello then Some (which, ss_now s + 1000 * dur) else slot
           | None \<Rightarrow> slot)\<rparr>)"

definition apply_step ::
    "session_env \<Rightarrow> step_out \<Rightarrow> session \<Rightarrow> (session \<times> sstp_outcome) option" where
  "apply_step env out s = do {
     (s1, ok) \<leftarrow> send_step env (so_send_len out) s;
     if \<not> ok then Some (s1, sstp_outcome_stop)
     else
       let s2 = update_sstp_timer out s1 in
       Some (s2, (case so_terminate out of
                    TerminateNone \<Rightarrow> \<lparr>keep_going = True, start_ppp = so_notify out = Some StartPpp\<rparr>
                  | Graceful \<Rightarrow> sstp_outcome_stop
                  | Abrupt \<Rightarrow> sstp_outcome_stop))
   }"

subsection \<open>Bringing up the data path\<close>

definition KPPP_DEFAULT_MTU :: nat where "KPPP_DEFAULT_MTU = 1400"

definition effective_mtu :: "nat option \<Rightarrow> nat" where
  "effective_mtu requested =
     (case requested of None \<Rightarrow> KPPP_DEFAULT_MTU | Some m \<Rightarrow> max 576 (min 1500 m))"

definition bring_up_tun :: "session_env \<Rightarrow> nat \<Rightarrow> session \<Rightarrow> session \<times> kppp option" where
  "bring_up_tun env mtu s =
     (called s, map_option (\<lambda>(name, i).
         \<lparr>kp_kernel = False, kp_ifname = name, kp_ifindex = i, kp_mtu = mtu\<rparr>)
         (env_tun env (ss_calls s)))"

definition bring_up_ppp :: "session_env \<Rightarrow> nat \<Rightarrow> session \<Rightarrow> session \<times> kppp option" where
  "bring_up_ppp env mtu s =
     (called s, map_option (\<lambda>(name, i).
         \<lparr>kp_kernel = True, kp_ifname = name, kp_ifindex = i, kp_mtu = mtu\<rparr>)
         (env_ppp_unit env (ss_calls s)))"

definition kppp_bring_up ::
    "session_env \<Rightarrow> data_path_mode \<Rightarrow> nat option \<Rightarrow> session \<Rightarrow> session \<times> kppp option" where
  "kppp_bring_up env mode requested s =
     (let mtu = effective_mtu requested in
      case mode of
        DpTun \<Rightarrow> bring_up_tun env mtu s
      | DpKernel \<Rightarrow> bring_up_ppp env mtu s
      | DpAuto \<Rightarrow> (case bring_up_ppp env mtu s of
                     (s1, Some k) \<Rightarrow> (s1, Some k)
                   | (s1, None) \<Rightarrow> bring_up_tun env mtu s1))"

text \<open>The choice of the data path, with the installation of kernel TLS it may need.\<close>

definition choose_data_path :: "session_env \<Rightarrow> session \<Rightarrow> session \<times> data_path_mode option" where
  "choose_data_path env s =
     (let mode = (case env_data_path env of
                    DpAuto \<Rightarrow> if env_ktls_compatible env then DpKernel else DpTun
                  | m \<Rightarrow> m) in
      if mode = DpKernel \<and> env_ktls_compatible env then
        (called s, (case env_install_ktls env (ss_calls s) of
                      KtlsInstalled \<Rightarrow> Some mode
                    | KtlsBufferedData \<Rightarrow> if env_data_path env = DpAuto then Some DpTun else None
                    | KtlsFailed \<Rightarrow> None))
      else (s, Some mode))"

definition publish_auth_accept :: "bytes \<Rightarrow> bytes \<Rightarrow> session_info \<Rightarrow> session_info" where
  "publish_auth_accept user assigned_ip g =
     g\<lparr>si_username := Some user, si_assigned_ip := Some assigned_ip\<rparr>"

definition publish_data_path ::
    "string \<Rightarrow> nat \<Rightarrow> string \<Rightarrow> shaping_policy option \<Rightarrow> session_info \<Rightarrow> session_info" where
  "publish_data_path ifname mtu backend shaping g =
     g\<lparr>si_ifname := Some ifname, si_mtu := Some mtu, si_backend := Some backend,
       si_shaping := shaping\<rparr>"

text \<open>A call whose failure is only logged: the effect happens if it succeeds.\<close>

definition attempt :: "session_env \<Rightarrow> effect \<Rightarrow> session \<Rightarrow> session" where
  "attempt env e s =
     (if env_ok env (ss_calls s) then log_effect e (called s) else called s)"

definition apply_shaping :: "session_env \<Rightarrow> kppp \<Rightarrow> session \<Rightarrow> session" where
  "apply_shaping env k s =
     (case ss_pending_shaping s of
        None \<Rightarrow> s
      | Some policy \<Rightarrow>
          let s1 = called (s\<lparr>ss_pending_shaping := None\<rparr>) in
          if env_ok env (ss_calls s) then attempt env (EffShape (kp_ifindex k) policy) s1 else s1)"

definition apply_mss :: "session_env \<Rightarrow> nat option \<Rightarrow> kppp \<Rightarrow> session \<Rightarrow> session" where
  "apply_mss env link_mtu k s =
     (if \<not> env_mss_table env then s
      else
        let mtu = (case link_mtu of Some m \<Rightarrow> m | None \<Rightarrow> 1500);
            bounds = compute_mss4 mtu (env_tls_version env) (env_cipher env) in
        if env_ok env (ss_calls s) then
          (log_effect (EffMss (kp_ifname k) (mb_mss4 bounds)) (called s))
            \<lparr>ss_mss_handle := Some (kp_ifname k, mb_mss4 bounds)\<rparr>
        else called s)"

definition apply_routes :: "session_env \<Rightarrow> kppp \<Rightarrow> session \<Rightarrow> session" where
  "apply_routes env k s =
     (case ss_pending_policy s of
        None \<Rightarrow> s
      | Some policy \<Rightarrow>
          if sp_framed_routes policy = [] then s
          else if env_ok env (ss_calls s)
          then fold (\<lambda>r. attempt env (EffRoute (kp_ifindex k) r)) (sp_framed_routes policy) (called s)
          else called s)"

definition acct_start :: "session_env \<Rightarrow> kppp \<Rightarrow> bytes \<Rightarrow> session \<Rightarrow> session" where
  "acct_start env k peer_ip s0 =
     (let s = s0\<lparr>ss_pending_username := None\<rparr> in
      case ss_pending_username s0 of
        None \<Rightarrow> s
      | Some user \<Rightarrow>
          if \<not> env_acct env then s
          else
            let session0 = acct_session_new (env_nanos env (ss_calls s)) peer_ip (ucast (env_id env));
                session = (case ss_pending_policy s of
                             Some p \<Rightarrow> session0\<lparr>as_class := sp_class p\<rparr>
                           | None \<Rightarrow> session0);
                counters = acct_counters_default in
            (log_effect (EffAcct user session AcctStart counters) (called s))
              \<lparr>ss_acct_state := Some \<lparr>at_username = user, at_ifindex = kp_ifindex k,
                 at_session = session, at_started = ss_now s, at_last_counters = counters\<rparr>\<rparr>)"

definition network_up :: "session_env \<Rightarrow> assigned_addrs \<Rightarrow> session \<Rightarrow> session \<times> bool" where
  "network_up env addrs s =
     (let peer_ip = aa_ip addrs;
          link_mtu = map_option unat (aa_mtu addrs) in
      if ss_kppp s \<noteq> None then (s, True)
      else case choose_data_path env s of
          (s1, None) \<Rightarrow> (s1, False)
        | (s1, Some mode) \<Rightarrow>
            (case kppp_bring_up env mode link_mtu s1 of
               (s2, None) \<Rightarrow> (s2, False)
             | (s2, Some k) \<Rightarrow>
                 let backend = (if kp_kernel k then ''kmod'' else ''tun'');
                     s3 = (log_effect (EffNetdev k peer_ip) s2)
                            \<lparr>ss_info := publish_data_path (kp_ifname k) (kp_mtu k) backend
                                          (ss_pending_shaping s2) (ss_info s2)\<rparr>;
                     s4 = apply_mss env link_mtu k (apply_shaping env k s3);
                     s5 = (apply_routes env k s4)\<lparr>ss_kppp := Some k\<rparr> in
                 (acct_start env k peer_ip s5, True)))"

subsection \<open>Applying a step of the PPP driver\<close>

fun write_frames :: "session_env \<Rightarrow> bytes list \<Rightarrow> session \<Rightarrow> (session \<times> bool) option" where
  "write_frames env [] s = Some (s, True)"
| "write_frames env (f # fs) s = do {
     (s1, ok) \<leftarrow> write_ppp_as_sstp_data env f s;
     if ok then write_frames env fs s1 else Some (s1, False)
   }"

definition update_ppp_timer :: "ppp_step \<Rightarrow> session \<Rightarrow> session" where
  "update_ppp_timer step s =
     s\<lparr>ss_ppp_timer :=
         fold (\<lambda>(owner, dur) slot. Some (owner, ss_now s + 1000 * dur)) (ps_timer_starts step)
           (fold (\<lambda>owner slot. timer_slot_stop (Some owner) slot) (ps_timer_stops step)
             (ss_ppp_timer s))\<rparr>"

definition render_ppp_step :: "session_env \<Rightarrow> ppp_step \<Rightarrow> session \<Rightarrow> (session \<times> bool) option" where
  "render_ppp_step env step s = do {
     (s1, ok) \<leftarrow> write_frames env (ps_frames step) s;
     if \<not> ok then Some (s1, False)
     else
       let (s2, flushed) = (if ps_frames step \<noteq> [] then tls_flush env s1 else (s1, True)) in
       Some (if flushed then update_ppp_timer step s2 else s2, flushed)
   }"

text \<open>What an accepting verdict leaves behind for the time the network comes up.\<close>

definition stash_accept :: "'a auth_outcome_scheme \<Rightarrow> bytes \<Rightarrow> session \<Rightarrow> session" where
  "stash_accept outcome user s =
     (case ao_verdict outcome of
        Accept addrs \<Rightarrow> s\<lparr>ss_pending_shaping := ao_shaping outcome,
                          ss_pending_policy := Some (ao_policy outcome),
                          ss_pending_username := Some user,
                          ss_info := publish_auth_accept user (aa_ip addrs) (ss_info s)\<rparr>
      | Reject message \<Rightarrow> s)"

text \<open>
  The credentials go to RADIUS; the verdict goes back to the driver, which answers with its
  next step.
\<close>

definition submit_pap ::
    "session_env \<Rightarrow> bytes \<Rightarrow> bytes \<Rightarrow> ppp \<Rightarrow> session \<Rightarrow> session \<times> (ppp \<times> ppp_step) option" where
  "submit_pap env peer_id password p s =
     (let user = from_utf8_lossy peer_id;
          outcome = env_pap env (ss_calls s) user password;
          s1 = called (log_effect (EffAuth (NeedPapAuth peer_id password) outcome) s) in
      (stash_accept outcome user s1,
       on_auth_result (env_challenge env (ss_calls s)) p (ao_verdict outcome)))"

definition submit_chap ::
    "session_env \<Rightarrow> bytes \<Rightarrow> u8 \<Rightarrow> bytes \<Rightarrow> bytes \<Rightarrow> ppp \<Rightarrow> session
       \<Rightarrow> session \<times> (ppp \<times> ppp_step) option" where
  "submit_chap env username chap_id challenge response p s =
     (let user = from_utf8_lossy username;
          outcome = env_chap env (ss_calls s) user chap_id response challenge;
          s1 = called (log_effect
                 (EffAuth (NeedChapAuth username chap_id challenge response) outcome) s) in
      (stash_accept outcome user s1,
       on_auth_result (env_challenge env (ss_calls s)) p (ao_verdict outcome)))"

definition submit_mschapv2 ::
    "session_env \<Rightarrow> bytes \<Rightarrow> u8 \<Rightarrow> bytes \<Rightarrow> bytes \<Rightarrow> bytes \<Rightarrow> u8 \<Rightarrow> ppp \<Rightarrow> session
       \<Rightarrow> session \<times> (ppp \<times> ppp_step) option" where
  "submit_mschapv2 env username chap_id authenticator_challenge peer_challenge nt_response flags p s =
     (let user = from_utf8_lossy username;
          outcome = env_mschap env (ss_calls s) user chap_id authenticator_challenge peer_challenge
                      nt_response flags;
          s1 = called (log_effect
                 (EffAuth (NeedMsChapV2Auth username chap_id authenticator_challenge peer_challenge
                    nt_response flags) (auth_outcome.truncate outcome)) s);
          s2 = stash_accept outcome user s1;
          s3 = (case ao_verdict outcome of
                  Accept _ \<Rightarrow> s2\<lparr>ss_pending_hlak := mo_hlak outcome\<rparr>
                | Reject _ \<Rightarrow> s2) in
      (s3, on_mschap_result (env_challenge env (ss_calls s)) p (ao_verdict outcome)
             (mo_auth_response outcome) (mo_error_string outcome)))"

definition submit_auth ::
    "session_env \<Rightarrow> ppp_event \<Rightarrow> ppp \<Rightarrow> session \<Rightarrow> (session \<times> ppp_step) option" where
  "submit_auth env ev p s =
     (let finish = (\<lambda>(s', r). case r of
              None \<Rightarrow> None
            | Some (p', step) \<Rightarrow> Some (s'\<lparr>ss_ppp := Some p'\<rparr>, step)) in
      case ev of
        NeedPapAuth peer_id password \<Rightarrow> finish (submit_pap env peer_id password p s)
      | NeedChapAuth username chap_id challenge response \<Rightarrow>
          finish (submit_chap env username chap_id challenge response p s)
      | NeedMsChapV2Auth username chap_id authenticator_challenge peer_challenge nt_response flags \<Rightarrow>
          finish (submit_mschapv2 env username chap_id authenticator_challenge peer_challenge
            nt_response flags p s)
      | NetworkUp _ \<Rightarrow> None)"

lemma verdict_step_settles:
  assumes "(p', st) = (p, ppp_step_default)
    \<or> (\<exists>m step. ppp_phase p = AuthInFlight m \<and> ps_event step = None
        \<and> (case v of Accept a \<Rightarrow> advance_to_network p step a = Some (p', st)
           | Reject msg \<Rightarrow> tear_down_after_reject rnd p step = Some (p', st)))"
  shows "\<not> needs_auth (ps_event st)"
  using assms
  by (cases v) (auto dest!: advance_to_network_frame tear_down_frame)

lemma submit_auth_settles:
  assumes "submit_auth env ev p s = Some (s', step)"
  shows "\<not> needs_auth (ps_event step)"
  using assms
  by (auto simp: submit_auth_def submit_pap_def submit_chap_def submit_mschapv2_def Let_def split: ppp_event.splits option.splits
    dest!: on_auth_result_exits on_mschap_result_exits verdict_step_settles)

text \<open>
  A verdict makes the driver produce another step, which the code handles in a loop.  It ends
  because that step never asks for credentials again.
\<close>

function handle_ppp_step ::
    "session_env \<Rightarrow> ppp_step \<Rightarrow> session \<Rightarrow> (session \<times> bool) option" where
  "handle_ppp_step env step s = do {
     (s1, ok) \<leftarrow> render_ppp_step env step s;
     if \<not> ok then Some (s1, False)
     else case ps_event step of
         None \<Rightarrow> Some (s1, \<not> ps_finished step)
       | Some (NetworkUp addrs) \<Rightarrow>
           (case network_up env addrs s1 of
              (s2, up) \<Rightarrow> Some (s2, up \<and> \<not> ps_finished step))
       | Some ev \<Rightarrow>
           (case ss_ppp s1 of
              None \<Rightarrow> None
            | Some p \<Rightarrow> do {
                (s2, step2) \<leftarrow> submit_auth env ev p s1;
                handle_ppp_step env step2 s2
              })
   }"
  by pat_completeness auto
termination
  by (relation "measure (\<lambda>(env, step, s). if needs_auth (ps_event step) then 1 else 0)")
    (auto dest!: submit_auth_settles)

declare handle_ppp_step.simps [simp del]

definition handle_sstp_step ::
    "session_env \<Rightarrow> step_out \<Rightarrow> session \<Rightarrow> (session \<times> bool) option" where
  "handle_sstp_step env out s = do {
     (s1, outcome) \<leftarrow> apply_step env out s;
     if \<not> keep_going outcome then Some (s1, False)
     else if start_ppp outcome then
       if ss_ppp s1 \<noteq> None then Some (s1, True)
       else do {
         (p, step) \<leftarrow> ppp_open (env_challenge env (ss_calls s1))
                      (ppp_new (env_local_ip env) (env_auth_method env));
         handle_ppp_step env step ((called s1)\<lparr>ss_ppp := Some p\<rparr>)
       }
     else Some (s1, True)
   }"

end
