(* ===== verification/Text_Parse.thy ===== *)
theory Text_Parse
  imports Prelude Complex_Main
begin

text \<open>
  What the text parsers of the server use of Rust's standard library.  A \<open>&str\<close> is the list of
  its code points.  The definitions follow the documented behaviour of \<open>str::trim\<close>,
  \<open>split_ascii_whitespace\<close>, \<open>splitn\<close>, \<open>split_once\<close>, and of \<open>from_str\<close> for integers, for
  \<open>Ipv4Addr\<close> and for \<open>f64\<close>.
\<close>

type_synonym str = "nat list"

definition lit :: "string \<Rightarrow> str" where
  "lit s = map of_char s"

subsection \<open>Splitting\<close>

definition char_is_whitespace :: "nat \<Rightarrow> bool" where
  "char_is_whitespace c \<longleftrightarrow>
     9 \<le> c \<and> c \<le> 13 \<or> c \<in> {0x20, 0x85, 0xA0, 0x1680, 0x2028, 0x2029, 0x202F, 0x205F, 0x3000}
     \<or> 0x2000 \<le> c \<and> c \<le> 0x200A"

definition str_trim :: "str \<Rightarrow> str" where
  "str_trim s = rev (dropWhile char_is_whitespace (rev (dropWhile char_is_whitespace s)))"

definition is_ascii_whitespace :: "nat \<Rightarrow> bool" where
  "is_ascii_whitespace c \<longleftrightarrow> c \<in> {9, 10, 12, 13, 32}"

function split_ascii_whitespace :: "str \<Rightarrow> str list" where
  "split_ascii_whitespace s =
     (case dropWhile is_ascii_whitespace s of
        [] \<Rightarrow> []
      | c # cs \<Rightarrow> (c # takeWhile (\<lambda>x. \<not> is_ascii_whitespace x) cs)
                  # split_ascii_whitespace (dropWhile (\<lambda>x. \<not> is_ascii_whitespace x) cs))"
  by pat_completeness auto
termination
proof (relation "measure length")
  fix s c cs
  assume "dropWhile is_ascii_whitespace s = c # cs"
  then have "length (c # cs) \<le> length s" using length_dropWhile_le [of is_ascii_whitespace s] by simp
  then show "(dropWhile (\<lambda>x. \<not> is_ascii_whitespace x) cs, s) \<in> measure length"
    using length_dropWhile_le [of "\<lambda>x. \<not> is_ascii_whitespace x" cs] by simp
qed simp

declare split_ascii_whitespace.simps [simp del]

definition str_split_once :: "nat \<Rightarrow> str \<Rightarrow> (str \<times> str) option" where
  "str_split_once c s =
     (if c \<in> set s then Some (takeWhile (\<lambda>x. x \<noteq> c) s, drop 1 (dropWhile (\<lambda>x. x \<noteq> c) s)) else None)"

fun splitn :: "nat \<Rightarrow> nat \<Rightarrow> str \<Rightarrow> str list" where
  "splitn 0 c s = []"
| "splitn (Suc 0) c s = [s]"
| "splitn (Suc (Suc n)) c s =
     (case str_split_once c s of None \<Rightarrow> [s] | Some (a, b) \<Rightarrow> a # splitn (Suc n) c b)"

subsection \<open>Integers\<close>

definition is_digit :: "nat \<Rightarrow> bool" where
  "is_digit c \<longleftrightarrow> 48 \<le> c \<and> c \<le> 57"

definition digits_value :: "str \<Rightarrow> nat" where
  "digits_value s = foldl (\<lambda>v c. 10 * v + (c - 48)) 0 s"

definition parse_digits :: "str \<Rightarrow> nat option" where
  "parse_digits s = (if s \<noteq> [] \<and> list_all is_digit s then Some (digits_value s) else None)"

definition bounded :: "nat \<Rightarrow> nat \<Rightarrow> nat option" where
  "bounded m n = (if n \<le> m then Some n else None)"

text \<open>An unsigned type with largest value \<open>m\<close>: one leading plus sign is allowed.\<close>

definition parse_unsigned :: "nat \<Rightarrow> str \<Rightarrow> nat option" where
  "parse_unsigned m s =
     Option.bind (parse_digits (if s \<noteq> [] \<and> hd s = 43 then tl s else s)) (bounded m)"

definition parse_i64 :: "str \<Rightarrow> int option" where
  "parse_i64 s =
     (if s \<noteq> [] \<and> hd s = 45
      then map_option (\<lambda>n. - int n) (Option.bind (parse_digits (tl s)) (bounded (2 ^ 63)))
      else map_option int (parse_unsigned (2 ^ 63 - 1) s))"

subsection \<open>IPv4 addresses\<close>

definition read_octet :: "str \<Rightarrow> (u8 \<times> str) option" where
  "read_octet s =
     (let ds = takeWhile is_digit s in
      if ds = [] \<or> length ds > 3 \<or> (hd ds = 48 \<and> length ds > 1) \<or> digits_value ds > 255 then None
      else Some (word_of_nat (digits_value ds), dropWhile is_digit s))"

definition read_dot :: "str \<Rightarrow> str option" where
  "read_dot s = (case s of c # cs \<Rightarrow> if c = 46 then Some cs else None | [] \<Rightarrow> None)"

definition parse_ipv4 :: "str \<Rightarrow> bytes option" where
  "parse_ipv4 s =
     (if length s > 15 then None
      else do {
        (a, s1) \<leftarrow> read_octet s;
        s2 \<leftarrow> read_dot s1;
        (b, s3) \<leftarrow> read_octet s2;
        s4 \<leftarrow> read_dot s3;
        (c, s5) \<leftarrow> read_octet s4;
        s6 \<leftarrow> read_dot s5;
        (d, s7) \<leftarrow> read_octet s6;
        if s7 = [] then Some [a, b, c, d] else None
      })"

subsection \<open>Floating point\<close>

text \<open>
  A binary64 value: a magnitude that is a multiple of a power of two, with a sign.  Rounding is
  to the nearest value, ties to even, with gradual underflow.
\<close>

datatype f64 = F64Nan | F64Inf bool | F64 bool rat

definition pow2 :: "int \<Rightarrow> rat" where
  "pow2 e = (if 0 \<le> e then 2 ^ nat e else 1 / 2 ^ nat (- e))"

fun bit_len :: "nat \<Rightarrow> nat" where
  "bit_len n = (if n = 0 then 0 else Suc (bit_len (n div 2)))"

declare bit_len.simps [simp del]

definition round_half_even :: "rat \<Rightarrow> int" where
  "round_half_even x =
     (let f = \<lfloor>x\<rfloor>; d = x - of_int f in
      if d < 1 / 2 then f else if d > 1 / 2 then f + 1 else if even f then f else f + 1)"

text \<open>The exponent for which the significand of \<open>x > 0\<close> has 53 bits, or the smallest one.\<close>

definition f64_exponent :: "rat \<Rightarrow> int" where
  "f64_exponent x =
     (let (p, q) = quotient_of x;
          e = int (bit_len (nat p)) - int (bit_len (nat q)) - 53 in
      max (- 1074) (if 2 ^ 53 \<le> x / pow2 e then e + 1 else e))"

definition f64_round :: "bool \<Rightarrow> rat \<Rightarrow> f64" where
  "f64_round neg x =
     (if x \<le> 0 then F64 neg 0
      else
        let e = f64_exponent x; r = of_int (round_half_even (x / pow2 e)) * pow2 e in
        if r \<ge> 2 ^ 1024 then F64Inf neg else F64 neg r)"

definition lower :: "nat \<Rightarrow> nat" where
  "lower c = (if 65 \<le> c \<and> c \<le> 90 then c + 32 else c)"

definition split_sign :: "str \<Rightarrow> bool \<times> str" where
  "split_sign s = (case s of c # cs \<Rightarrow> if c = 45 then (True, cs) else if c = 43 then (False, cs) else (False, s)
                   | [] \<Rightarrow> (False, s))"

text \<open>The optional exponent part; \<open>None\<close> if it is malformed.\<close>

definition parse_exponent :: "str \<Rightarrow> int option" where
  "parse_exponent s =
     (case s of
        [] \<Rightarrow> Some 0
      | c # cs \<Rightarrow>
          if lower c = 101 then
            (case split_sign cs of (neg, ds) \<Rightarrow>
               map_option (\<lambda>n. if neg then - int n else int n) (parse_digits ds))
          else None)"

definition parse_decimal :: "str \<Rightarrow> rat option" where
  "parse_decimal s =
     (let whole = takeWhile is_digit s; r = dropWhile is_digit s;
          frac = (case r of c # cs \<Rightarrow> if c = 46 then takeWhile is_digit cs else [] | [] \<Rightarrow> []);
          r2 = (case r of c # cs \<Rightarrow> if c = 46 then dropWhile is_digit cs else r | [] \<Rightarrow> []) in
      if whole = [] \<and> frac = [] then None
      else map_option (\<lambda>e.
          let k = e - int (length frac) in
          rat_of_nat (digits_value (whole @ frac)) * (if 0 \<le> k then 10 ^ nat k else 1 / 10 ^ nat (- k)))
        (parse_exponent r2))"

definition parse_f64 :: "str \<Rightarrow> f64 option" where
  "parse_f64 s =
     (case split_sign s of (neg, r) \<Rightarrow>
        if map lower r \<in> {lit ''inf'', lit ''infinity''} then Some (F64Inf neg)
        else if map lower r = lit ''nan'' then Some F64Nan
        else map_option (f64_round neg) (parse_decimal r))"

text \<open>Multiplication by an integer, and the truncating and saturating cast to \<open>u64\<close>.\<close>

definition f64_scale :: "f64 \<Rightarrow> nat \<Rightarrow> f64" where
  "f64_scale f k = (case f of F64 neg x \<Rightarrow> f64_round neg (x * of_nat k) | _ \<Rightarrow> f)"

definition f64_as_u64 :: "f64 \<Rightarrow> nat" where
  "f64_as_u64 f =
     (case f of
        F64 neg x \<Rightarrow> if neg then 0 else min (2 ^ 64 - 1) (nat \<lfloor>x\<rfloor>)
      | F64Inf neg \<Rightarrow> if neg then 0 else 2 ^ 64 - 1
      | F64Nan \<Rightarrow> 0)"

subsection \<open>Printing\<close>

text \<open>The bytes of a literal.\<close>

definition ascii :: "string \<Rightarrow> bytes" where
  "ascii s = map of_char s"

fun show_nat :: "nat \<Rightarrow> str" where
  "show_nat n = (if n < 10 then [48 + n] else show_nat (n div 10) @ [48 + n mod 10])"

declare show_nat.simps [simp del]

lemma show_nat_digits: "list_all is_digit (show_nat n)"
proof (induction n rule: show_nat.induct)
  case (1 n)
  have "is_digit (48 + n mod 10)" "n < 10 \<Longrightarrow> is_digit (48 + n)" by (simp_all add: is_digit_def)
  with 1 show ?case by (subst show_nat.simps) simp
qed

lemma show_nat_nonempty [simp]: "show_nat n \<noteq> []"
  by (subst show_nat.simps) simp

lemma digits_value_show_nat [simp]: "digits_value (show_nat n) = n"
proof (induction n rule: show_nat.induct)
  case (1 n)
  then show ?case by (subst show_nat.simps) (auto simp: digits_value_def)
qed

lemma parse_digits_show_nat [simp]: "parse_digits (show_nat n) = Some n"
  by (simp add: parse_digits_def show_nat_digits)

lemma show_nat_hd: "is_digit (hd (show_nat n))"
  using show_nat_digits [of n] by (cases "show_nat n") auto

lemma parse_unsigned_show_nat [simp]: "n \<le> m \<Longrightarrow> parse_unsigned m (show_nat n) = Some n"
  using show_nat_hd [of n] by (auto simp: parse_unsigned_def bounded_def is_digit_def)

lemma show_nat_hd_zero: "hd (show_nat n) = 48 \<Longrightarrow> n = 0"
proof (induction n rule: show_nat.induct)
  case (1 n)
  show ?case
  proof (cases "n < 10")
    case True
    with 1(2) show ?thesis by (simp add: show_nat.simps [of n])
  next
    case False
    with 1 show ?thesis by (simp add: show_nat.simps [of n])
  qed
qed

definition show_ipv4 :: "bytes \<Rightarrow> str" where
  "show_ipv4 a = show_nat (unat (a ! 0)) @ 46 # show_nat (unat (a ! 1)) @ 46 # show_nat (unat (a ! 2))
     @ 46 # show_nat (unat (a ! 3))"

lemma show_nat_width: "n < 10 ^ Suc k \<Longrightarrow> length (show_nat n) \<le> Suc k"
proof (induction k arbitrary: n)
  case (Suc k)
  then have "n div 10 < 10 ^ Suc k" by simp
  with Suc.IH [of "n div 10"] show ?case by (subst show_nat.simps) simp
qed (simp add: show_nat.simps)

lemma length_show_nat: "n < 256 \<Longrightarrow> length (show_nat n) \<le> 3"
  using show_nat_width [of n 2] by simp

lemma takeWhile_digits: "takeWhile is_digit (show_nat n @ c # s) = show_nat n" "dropWhile is_digit (show_nat n @ c # s) = c # s"
  if "\<not> is_digit c" for c
  using show_nat_digits [of n] that by (auto simp: list_all_iff)

lemma read_octet_show:
  assumes "n < 256" and "s = [] \<or> \<not> is_digit (hd s)"
  shows "read_octet (show_nat n @ s) = Some (word_of_nat n, s)"
proof -
  have w: "takeWhile is_digit (show_nat n @ s) = show_nat n" "dropWhile is_digit (show_nat n @ s) = s"
    using assms(2) show_nat_digits [of n] by (cases s; auto simp: list_all_iff)+
  have "\<not> (hd (show_nat n) = 48 \<and> length (show_nat n) > 1)"
    using show_nat_hd_zero [of n] by (auto simp: show_nat.simps [of 0])
  with w length_show_nat [OF assms(1)] assms(1) show ?thesis by (auto simp: read_octet_def)
qed

lemma parse_show_ipv4:
  assumes "length a = 4"
  shows "parse_ipv4 (show_ipv4 a) = Some a"
proof -
  obtain w x y z where a: "a = [w, x, y, z]"
    using assms by (auto simp: numeral_eq_Suc length_Suc_conv)
  have len: "length (show_nat (unat (v :: u8))) \<le> 3" for v
    using unsigned_less [of v] by (intro length_show_nat) simp
  have "length (show_ipv4 a) \<le> 15"
    using len [of w] len [of x] len [of y] len [of z] by (simp add: show_ipv4_def a)
  moreover have lt: "unat (v :: u8) < 256" for v using unsigned_less [of v] by simp
  have dot: "\<not> is_digit 46" by (simp add: is_digit_def)
  ultimately show ?thesis
    by (simp add: parse_ipv4_def show_ipv4_def a read_octet_show [OF lt] read_octet_show [OF lt, of "[]", simplified]
      read_dot_def dot)
qed

subsection \<open>Fields separated by spaces\<close>

fun join_fields :: "str list \<Rightarrow> str" where
  "join_fields [] = []"
| "join_fields [f] = f"
| "join_fields (f # g # fs) = f @ 32 # join_fields (g # fs)"

definition plain :: "str \<Rightarrow> bool" where
  "plain f \<longleftrightarrow> f \<noteq> [] \<and> list_all (\<lambda>c. 33 \<le> c \<and> c < 127) f"

lemma plain_not_space: "plain f \<Longrightarrow> c \<in> set f \<Longrightarrow> \<not> is_ascii_whitespace c \<and> \<not> char_is_whitespace c"
  by (auto simp: plain_def list_all_iff is_ascii_whitespace_def char_is_whitespace_def)

lemma split_plain_front:
  assumes "plain f" and "s = [] \<or> is_ascii_whitespace (hd s)"
  shows "split_ascii_whitespace (f @ s) = f # split_ascii_whitespace s"
proof -
  obtain c cs where f: "f = c # cs" using assms(1) by (cases f) (auto simp: plain_def)
  have c: "\<not> is_ascii_whitespace c" and cs: "\<forall>x\<in>set cs. \<not> is_ascii_whitespace x"
    using plain_not_space [OF assms(1)] by (auto simp: f)
  have "dropWhile is_ascii_whitespace (f @ s) = c # cs @ s" using c by (simp add: f)
  moreover have "takeWhile (\<lambda>x. \<not> is_ascii_whitespace x) (cs @ s) = cs"
    "dropWhile (\<lambda>x. \<not> is_ascii_whitespace x) (cs @ s) = s"
    using cs assms(2) by (cases s; auto)+
  ultimately show ?thesis by (subst split_ascii_whitespace.simps) (simp add: f)
qed

lemma split_leading_space: "split_ascii_whitespace (32 # s) = split_ascii_whitespace s"
  by (subst (1 2) split_ascii_whitespace.simps) (simp add: is_ascii_whitespace_def)

lemma split_join_fields:
  "list_all plain fs \<Longrightarrow> split_ascii_whitespace (join_fields fs) = fs"
proof (induction fs rule: join_fields.induct)
  case 1
  then show ?case by (subst split_ascii_whitespace.simps) simp
next
  case (2 f)
  then show ?case using split_plain_front [of f "[]"] by (simp add: split_ascii_whitespace.simps [of "[]"])
next
  case (3 f g fs)
  then show ?case
    using split_plain_front [of f "32 # join_fields (g # fs)"]
    by (simp add: split_leading_space) (simp add: is_ascii_whitespace_def)
qed

lemma join_fields_ends:
  "list_all plain fs \<Longrightarrow> fs \<noteq> [] \<Longrightarrow>
    join_fields fs \<noteq> [] \<and> \<not> char_is_whitespace (hd (join_fields fs)) \<and> \<not> char_is_whitespace (last (join_fields fs))"
proof (induction fs rule: join_fields.induct)
  case (2 f)
  then have "f \<noteq> []" "plain f" by (simp_all add: plain_def)
  with plain_not_space [of f] show ?case by simp
next
  case (3 f g fs)
  then have "f \<noteq> []" "plain f" by (simp_all add: plain_def)
  with 3 plain_not_space [of f "hd f"] show ?case by simp
qed simp

lemma trim_ends: "s \<noteq> [] \<Longrightarrow> \<not> char_is_whitespace (hd s) \<Longrightarrow> \<not> char_is_whitespace (last s) \<Longrightarrow> str_trim s = s"
proof -
  assume s: "s \<noteq> []" "\<not> char_is_whitespace (hd s)" "\<not> char_is_whitespace (last s)"
  have keep: "dropWhile char_is_whitespace t = t" if "t \<noteq> []" "\<not> char_is_whitespace (hd t)" for t
    using that by (cases t) simp_all
  show ?thesis using s keep [of s] keep [of "rev s"] by (simp add: str_trim_def hd_rev)
qed

lemma show_nat_plain: "plain (show_nat n)" "47 \<notin> set (show_nat n)"
  using show_nat_digits [of n] by (auto simp: plain_def list_all_iff is_digit_def)

end
