(* ===== verification/Auth_Route.thy ===== *)
theory Auth_Route
  imports Auth_Types Text_Parse
begin

text \<open>
  The \<open>Framed-Route\<close> attribute, \<open>src/src/auth/route.rs\<close>, and the strict decoding of UTF-8 the
  reply decoder puts before it.
\<close>

subsection \<open>UTF-8\<close>

text \<open>The code point of a well-formed sequence, and \<open>core::str::from_utf8\<close>.\<close>

definition utf8_code_point :: "bytes \<Rightarrow> nat" where
  "utf8_code_point bs =
     (let low = (\<lambda>b. unat b mod 64) in
      if length bs = 1 then unat (bs ! 0)
      else if length bs = 2 then (unat (bs ! 0) mod 32) * 64 + low (bs ! 1)
      else if length bs = 3 then ((unat (bs ! 0) mod 16) * 64 + low (bs ! 1)) * 64 + low (bs ! 2)
      else (((unat (bs ! 0) mod 8) * 64 + low (bs ! 1)) * 64 + low (bs ! 2)) * 64 + low (bs ! 3))"

function from_utf8 :: "bytes \<Rightarrow> str option" where
  "from_utf8 bs =
     (if bs = [] then Some []
      else case utf8_chunk bs of (n, ok) \<Rightarrow>
        if ok then map_option (\<lambda>s. utf8_code_point (take n bs) # s) (from_utf8 (drop n bs)) else None)"
  by pat_completeness auto
termination
  by (relation "measure length") (auto dest: utf8_chunk_drop [OF sym])

declare from_utf8.simps [simp del]

lemma from_utf8_ascii: "list_all (\<lambda>b. b < 0x80) bs \<Longrightarrow> from_utf8 bs = Some (map unat bs)"
proof (induction bs)
  case (Cons b bs)
  then have "utf8_chunk (b # bs) = (1, True)" by (simp add: utf8_chunk_def byte_at_def)
  with Cons show ?case by (subst from_utf8.simps) (simp add: utf8_code_point_def)
qed (simp add: from_utf8.simps)

subsection \<open>Routes\<close>

datatype framed_route_error =
    MissingDest
  | InvalidDest str
  | InvalidPrefix str
  | MissingGateway
  | InvalidGateway str
  | InvalidMetric str

definition classful_prefix :: "u8 \<Rightarrow> u8" where
  "classful_prefix b = (if b \<le> 127 then 8 else if b \<le> 191 then 16 else 24)"

definition parse_dest_prefix :: "str \<Rightarrow> framed_route_error + (bytes \<times> u8)" where
  "parse_dest_prefix tok =
     (case str_split_once 47 tok of
        Some (addr_part, prefix_part) \<Rightarrow>
          (case parse_ipv4 addr_part of
             None \<Rightarrow> Inl (InvalidDest addr_part)
           | Some addr \<Rightarrow>
               (case parse_unsigned 255 prefix_part of
                  None \<Rightarrow> Inl (InvalidPrefix prefix_part)
                | Some prefix \<Rightarrow>
                    if prefix > 32 then Inl (InvalidPrefix prefix_part)
                    else Inr (addr, word_of_nat prefix)))
      | None \<Rightarrow>
          (case parse_ipv4 tok of
             None \<Rightarrow> Inl (InvalidDest tok)
           | Some addr \<Rightarrow> Inr (addr, classful_prefix (addr ! 0))))"

text \<open>The gateway and the metric, from the tokens that are left.\<close>

definition parse_gateway :: "str list \<Rightarrow> framed_route_error + (bytes option \<times> str list)" where
  "parse_gateway tokens =
     (case tokens of
        [] \<Rightarrow> Inl MissingGateway
      | gw_tok # rest \<Rightarrow>
          (case parse_ipv4 gw_tok of
             None \<Rightarrow> Inl (InvalidGateway gw_tok)
           | Some gw_addr \<Rightarrow> Inr (if gw_addr = [0, 0, 0, 0] then None else Some gw_addr, rest)))"

definition parse_metric :: "str list \<Rightarrow> framed_route_error + u32 option" where
  "parse_metric tokens =
     (case tokens of
        [] \<Rightarrow> Inr None
      | m # _ \<Rightarrow>
          (case parse_unsigned (2 ^ 32 - 1) m of
             None \<Rightarrow> Inl (InvalidMetric m)
           | Some v \<Rightarrow> Inr (Some (word_of_nat v))))"

definition framed_route_parse :: "str \<Rightarrow> framed_route_error + framed_route" where
  "framed_route_parse s =
     (case split_ascii_whitespace s of
        [] \<Rightarrow> Inl MissingDest
      | dest_tok # tokens \<Rightarrow>
          try_bind (parse_dest_prefix dest_tok) (\<lambda>(dest, prefix).
          try_bind (parse_gateway tokens) (\<lambda>(gateway, tokens).
          try_bind (parse_metric tokens) (\<lambda>metric.
            Inr \<lparr>fr_dest = dest, fr_prefix = prefix, fr_gateway = gateway, fr_metric = metric\<rparr>))))"

definition route_wf :: "framed_route \<Rightarrow> bool" where
  "route_wf r \<longleftrightarrow> length (fr_dest r) = 4 \<and> fr_prefix r \<le> 32
     \<and> (\<forall>g. fr_gateway r = Some g \<longrightarrow> length g = 4 \<and> g \<noteq> [0, 0, 0, 0])"

lemma parse_ipv4_length: "parse_ipv4 s = Some a \<Longrightarrow> length a = 4"
  by (auto simp: parse_ipv4_def bind_eq_Some_conv split: if_splits)

lemma parse_dest_prefix_wf:
  assumes "parse_dest_prefix tok = Inr (a, p)"
  shows "length a = 4 \<and> p \<le> 32"
proof -
  have small: "word_of_nat n \<le> (32 :: u8)" if "n \<le> 32" for n :: nat
    using that by (simp add: word_le_nat_alt unat_of_nat_u8)
  from assms show ?thesis
    by (auto simp: parse_dest_prefix_def classful_prefix_def not_less dest: parse_ipv4_length intro: small
      split: option.splits if_splits)
qed

lemma parse_gateway_wf: "parse_gateway ts = Inr (Some g, rest) \<Longrightarrow> length g = 4 \<and> g \<noteq> [0, 0, 0, 0]"
  by (auto simp: parse_gateway_def split: list.splits option.splits if_splits dest: parse_ipv4_length)

lemma framed_route_parse_wf: "framed_route_parse s = Inr r \<Longrightarrow> route_wf r"
  by (auto simp: framed_route_parse_def route_wf_def try_bind_Inr_iff
    split: list.splits dest!: parse_dest_prefix_wf dest: parse_gateway_wf)

subsection \<open>Round trip\<close>

definition show_route :: "framed_route \<Rightarrow> str" where
  "show_route r = join_fields
     ((show_ipv4 (fr_dest r) @ 47 # show_nat (unat (fr_prefix r)))
      # show_ipv4 (case fr_gateway r of Some g \<Rightarrow> g | None \<Rightarrow> [0, 0, 0, 0])
      # (case fr_metric r of Some m \<Rightarrow> [show_nat (unat m)] | None \<Rightarrow> []))"

lemma show_ipv4_plain: "plain (show_ipv4 a)" "47 \<notin> set (show_ipv4 a)"
  using show_nat_plain by (auto simp: show_ipv4_def plain_def)

lemma parse_dest_prefix_show:
  assumes "length a = 4" and "p \<le> 32"
  shows "parse_dest_prefix (show_ipv4 a @ 47 # show_nat (unat p)) = Inr (a, p)"
proof -
  have front: "\<And>x. x \<in> set (show_ipv4 a) \<Longrightarrow> x \<noteq> 47" using show_ipv4_plain(2) by metis
  then have "str_split_once 47 (show_ipv4 a @ 47 # show_nat (unat p)) = Some (show_ipv4 a, show_nat (unat p))"
    by (simp add: str_split_once_def takeWhile_append2 dropWhile_append2)
  moreover have "unat p \<le> 32" using assms(2) by (simp add: word_le_nat_alt)
  ultimately show ?thesis using parse_show_ipv4 [OF assms(1)] by (simp add: parse_dest_prefix_def)
qed

text \<open>
  Every framed route is read back from its text, a missing gateway being
  written as \<open>0.0.0.0\<close>; and whatever is read has a four-byte destination, a prefix of at most 32
  bits, and a gateway that is not the all-zero address.
\<close>

theorem framed_route_roundtrip:
  shows "(route_wf r \<longrightarrow> framed_route_parse (show_route r) = Inr r)
    \<and> (framed_route_parse s = Inr r' \<longrightarrow> route_wf r')"
proof (intro conjI impI)
  assume wf: "route_wf r"
  let ?g = "case fr_gateway r of Some g \<Rightarrow> g | None \<Rightarrow> [0, 0, 0, 0]"
  let ?fs = "(show_ipv4 (fr_dest r) @ 47 # show_nat (unat (fr_prefix r))) # show_ipv4 ?g
    # (case fr_metric r of Some m \<Rightarrow> [show_nat (unat m)] | None \<Rightarrow> [])"
  have "plain (show_ipv4 (fr_dest r) @ 47 # show_nat (unat (fr_prefix r)))"
    using show_ipv4_plain(1) show_nat_plain(1) by (simp add: plain_def)
  then have split: "split_ascii_whitespace (show_route r) = ?fs"
    unfolding show_route_def by (intro split_join_fields) (simp add: show_ipv4_plain show_nat_plain split: option.split)
  have g: "parse_ipv4 (show_ipv4 ?g) = Some ?g"
    using wf by (intro parse_show_ipv4) (auto simp: route_wf_def split: option.split)
  have dest: "parse_dest_prefix (show_ipv4 (fr_dest r) @ 47 # show_nat (unat (fr_prefix r))) = Inr (fr_dest r, fr_prefix r)"
    using wf by (intro parse_dest_prefix_show) (simp_all add: route_wf_def)
  have gate: "(if ?g = [0, 0, 0, 0] then None else Some ?g) = fr_gateway r"
    using wf by (auto simp: route_wf_def split: option.split)
  have "unat m \<le> 4294967295" for m :: u32 using unat_u32_less [of m] by linarith
  then have metric: "parse_unsigned 4294967295 (show_nat (unat m)) = Some (unat m)" for m :: u32 by simp
  show "framed_route_parse (show_route r) = Inr r"
    unfolding framed_route_parse_def split
    by (cases "fr_metric r") (simp_all add: dest g gate parse_gateway_def parse_metric_def metric)
next
  assume "framed_route_parse s = Inr r'"
  then show "route_wf r'" by (rule framed_route_parse_wf)
qed

end
