(* ===== verification/Shape_Mikrotik.thy ===== *)
theory Shape_Mikrotik
  imports Auth_Types Text_Parse
begin

text \<open>
  The parser of the \<open>Mikrotik-Rate-Limit\<close> attribute, \<open>src/src/shape/mikrotik.rs\<close>.  Rates are
  64-bit words; the decimal mantissas go through binary64 arithmetic as in the code.
\<close>

datatype mikrotik_error =
    MrEmpty
  | MrBadPair str
  | MrBadNumber str str
  | MrPriorityRange int
  | MrExtra

record 'a rate_pair =
  pr_rx :: 'a
  pr_tx :: 'a

definition U64_MAX :: nat where "U64_MAX = 2 ^ 64 - 1"

subsection \<open>Fields\<close>

definition bps_suffix :: "str \<Rightarrow> str \<times> nat" where
  "bps_suffix s =
     (let c = lower (last s) in
      if c = 107 then (butlast s, 1000)
      else if c = 109 then (butlast s, 1000000)
      else if c = 103 then (butlast s, 1000000000)
      else (s, 1))"

definition parse_bps :: "str \<Rightarrow> str \<Rightarrow> mikrotik_error + u64" where
  "parse_bps s field =
     (let bad = Inl (MrBadNumber field s) in
      if s = [] then bad
      else case bps_suffix s of (num, multiplier) \<Rightarrow>
        if num = [] then bad
        else case parse_unsigned U64_MAX num of
            Some n \<Rightarrow> if n * multiplier \<le> U64_MAX then Inr (word_of_nat (n * multiplier)) else bad
          | None \<Rightarrow>
              (case parse_f64 num of
                 Some (F64 neg x) \<Rightarrow>
                   if neg \<and> x \<noteq> 0 then bad
                   else (case f64_scale (F64 neg x) multiplier of
                           F64 neg' y \<Rightarrow> if y > 2 ^ 64 then bad
                                        else Inr (word_of_nat (f64_as_u64 (F64 neg' y)))
                         | _ \<Rightarrow> bad)
               | _ \<Rightarrow> bad))"

definition parse_u32 :: "str \<Rightarrow> str \<Rightarrow> mikrotik_error + u32" where
  "parse_u32 s field =
     (case parse_unsigned (2 ^ 32 - 1) s of
        Some n \<Rightarrow> Inr (word_of_nat n) | None \<Rightarrow> Inl (MrBadNumber field s))"

text \<open>\<open>rx[/tx]\<close>, with the parser of one half as an argument.\<close>

definition parse_halves :: "(str \<Rightarrow> str \<Rightarrow> mikrotik_error + 'a) \<Rightarrow> str \<Rightarrow> str \<Rightarrow> mikrotik_error + 'a rate_pair" where
  "parse_halves p field name =
     (let halves = splitn 3 47 field in
      try_bind (p (hd halves) name) (\<lambda>rx.
      try_bind (case tl halves of s # _ \<Rightarrow> p s name | [] \<Rightarrow> Inr rx) (\<lambda>tx.
        if length halves > 2 then Inl (MrBadPair name) else Inr \<lparr>pr_rx = rx, pr_tx = tx\<rparr>)))"

lemma splitn_nonempty: "splitn (Suc n) c s \<noteq> []"
  by (cases n) (auto split: option.split)

definition parse_pair :: "str \<Rightarrow> str \<Rightarrow> mikrotik_error + u64 rate_pair" where
  "parse_pair field name = parse_halves parse_bps field name"

definition parse_pair_u32 :: "str \<Rightarrow> str \<Rightarrow> mikrotik_error + u32 rate_pair" where
  "parse_pair_u32 field name = parse_halves parse_u32 field name"

definition parse_priority :: "str \<Rightarrow> mikrotik_error + u8" where
  "parse_priority field =
     (case parse_i64 field of
        None \<Rightarrow> Inl (MrBadNumber (lit ''priority'') field)
      | Some n \<Rightarrow> if 1 \<le> n \<and> n \<le> 8 then Inr (word_of_int n) else Inl (MrPriorityRange n))"

definition build_spec ::
    "u64 \<Rightarrow> u64 option \<Rightarrow> u64 option \<Rightarrow> u32 option \<Rightarrow> u64 option \<Rightarrow> rate_spec option" where
  "build_spec rate burst_rate burst_threshold burst_time min_rate =
     (if rate = 0 \<and> burst_rate = None \<and> min_rate = None then None
      else Some \<lparr>rate_bps = rate, burst_rate_bps = burst_rate, burst_threshold_bps = burst_threshold,
                 burst_time_secs = burst_time, min_rate_bps = min_rate\<rparr>)"

subsection \<open>The attribute\<close>

text \<open>\<open>fields.next().map(..).transpose()?\<close>\<close>

definition next_field :: "(str \<Rightarrow> mikrotik_error + 'a) \<Rightarrow> str list \<Rightarrow> mikrotik_error + ('a option \<times> str list)" where
  "next_field p fs =
     (case fs of
        [] \<Rightarrow> Inr (None, [])
      | f # rest \<Rightarrow> try_bind (p f) (\<lambda>v. Inr (Some v, rest)))"

definition build_policy ::
    "u64 rate_pair \<Rightarrow> u64 rate_pair option \<Rightarrow> u64 rate_pair option \<Rightarrow> u32 rate_pair option
      \<Rightarrow> u8 option \<Rightarrow> u64 rate_pair option \<Rightarrow> shaping_policy" where
  "build_policy rate burst_rate burst_threshold burst_time priority min_rate =
     \<lparr>sh_egress = build_spec (pr_rx rate) (map_option pr_rx burst_rate) (map_option pr_rx burst_threshold)
                   (map_option pr_rx burst_time) (map_option pr_rx min_rate),
      sh_ingress = build_spec (pr_tx rate) (map_option pr_tx burst_rate) (map_option pr_tx burst_threshold)
                   (map_option pr_tx burst_time) (map_option pr_tx min_rate),
      sh_priority = priority\<rparr>"

definition mikrotik_parse :: "str \<Rightarrow> mikrotik_error + shaping_policy" where
  "mikrotik_parse value =
     (let trimmed = str_trim value in
      if trimmed = [] then Inl MrEmpty
      else case split_ascii_whitespace trimmed of
          [] \<Rightarrow> Inl MrEmpty
        | f # fs \<Rightarrow>
            try_bind (parse_pair f (lit ''rate'')) (\<lambda>rate.
            try_bind (next_field (\<lambda>f. parse_pair f (lit ''burst-rate'')) fs) (\<lambda>(burst_rate, fs).
            try_bind (next_field (\<lambda>f. parse_pair f (lit ''burst-threshold'')) fs) (\<lambda>(burst_threshold, fs).
            try_bind (next_field (\<lambda>f. parse_pair_u32 f (lit ''burst-time'')) fs) (\<lambda>(burst_time, fs).
            try_bind (next_field parse_priority fs) (\<lambda>(priority, fs).
            try_bind (next_field (\<lambda>f. parse_pair f (lit ''min-rate'')) fs) (\<lambda>(min_rate, fs).
              if fs \<noteq> [] then Inl MrExtra
              else Inr (build_policy rate burst_rate burst_threshold burst_time priority min_rate))))))))"

subsection \<open>Results\<close>

lemma parse_priority_range: "parse_priority f = Inr p \<Longrightarrow> 1 \<le> p \<and> p \<le> 8"
proof -
  assume "parse_priority f = Inr p"
  then obtain n where n: "1 \<le> n" "n \<le> 8" "p = word_of_int n"
    by (auto simp: parse_priority_def split: option.splits if_splits)
  then have "n \<in> {1, 2, 3, 4, 5, 6, 7, 8}" by auto
  with n(3) show ?thesis by (auto simp: word_le_def)
qed

lemma next_field_result:
  assumes "next_field p fs = Inr (v, rest)"
  shows "(fs = [] \<longrightarrow> v = None) \<and> (v = None \<longrightarrow> rest = []) \<and> (\<forall>x. v = Some x \<longrightarrow> fs \<noteq> [] \<and> p (hd fs) = Inr x)"
  using assms by (auto simp: next_field_def try_bind_Inr_iff split: list.splits)

definition spec_fields :: "rate_spec \<Rightarrow> bool list" where
  "spec_fields sp = [burst_rate_bps sp \<noteq> None, burst_threshold_bps sp \<noteq> None, burst_time_secs sp \<noteq> None,
     min_rate_bps sp \<noteq> None]"

definition policy_wf :: "shaping_policy \<Rightarrow> bool" where
  "policy_wf p \<longleftrightarrow>
     (\<forall>q. sh_priority p = Some q \<longrightarrow> 1 \<le> q \<and> q \<le> 8)
     \<and> (\<forall>a b. sh_egress p = Some a \<and> sh_ingress p = Some b \<longrightarrow> spec_fields a = spec_fields b)
     \<and> (\<forall>a. sh_egress p = Some a \<or> sh_ingress p = Some a \<longrightarrow>
          sorted_wrt (\<lambda>x y. y \<longrightarrow> x) (spec_fields a)
          \<and> (rate_bps a \<noteq> 0 \<or> burst_rate_bps a \<noteq> None)
          \<and> (min_rate_bps a \<noteq> None \<longrightarrow> sh_priority p \<noteq> None))"

lemma build_policy_wf:
  assumes "\<forall>q. pr = Some q \<longrightarrow> 1 \<le> q \<and> q \<le> 8" and "thr \<noteq> None \<longrightarrow> burst \<noteq> None"
    and "time \<noteq> None \<longrightarrow> thr \<noteq> None" and "pr \<noteq> None \<longrightarrow> time \<noteq> None" and "mr \<noteq> None \<longrightarrow> pr \<noteq> None"
  shows "policy_wf (build_policy rate burst thr time pr mr)"
  using assms
  by (auto simp: policy_wf_def build_policy_def build_spec_def spec_fields_def split: if_splits)



subsection \<open>Round trip\<close>

lemma splitn_pair: "splitn 3 47 (show_nat a @ 47 # show_nat b) = [show_nat a, show_nat b]"
proof -
  have front: "\<And>x. x \<in> set (show_nat a) \<Longrightarrow> x \<noteq> 47" using show_nat_plain(2) [of a] by metis
  have "takeWhile (\<lambda>x. x \<noteq> 47) (show_nat a @ 47 # s) = show_nat a"
    "dropWhile (\<lambda>x. x \<noteq> 47) (show_nat a @ 47 # s) = 47 # s" for s
    using front by (simp_all add: takeWhile_append2 dropWhile_append2)
  then show ?thesis using show_nat_plain(2) by (simp add: numeral_3_eq_3 str_split_once_def)
qed

lemma parse_bps_show: "parse_bps (show_nat (unat x)) field = Inr x"
proof -
  have "is_digit (last (show_nat (unat x)))"
    using show_nat_digits [of "unat x"] by (simp add: list_all_iff)
  then have "bps_suffix (show_nat (unat x)) = (show_nat (unat x), 1)"
    by (auto simp: bps_suffix_def lower_def is_digit_def Let_def)
  moreover have "unat x < 2 ^ LENGTH(64)" by (rule unsigned_less)
  then have "unat x \<le> U64_MAX" by (simp add: U64_MAX_def)
  ultimately show ?thesis by (simp add: parse_bps_def)
qed

lemma parse_u32_show: "parse_u32 (show_nat (unat x)) field = Inr x"
proof -
  have "unat x \<le> 4294967295" using unat_u32_less [of x] by linarith
  then show ?thesis by (simp add: parse_u32_def)
qed

definition show_pair :: "('w::len) word rate_pair \<Rightarrow> str" where
  "show_pair p = show_nat (unat (pr_rx p)) @ 47 # show_nat (unat (pr_tx p))"

lemma show_pair_plain: "plain (show_pair p)"
  using show_nat_plain(1) [of "unat (pr_rx p)"] show_nat_plain(1) [of "unat (pr_tx p)"]
  by (simp add: plain_def show_pair_def)

lemma parse_pair_show: "parse_pair (show_pair p) name = Inr p" "parse_pair_u32 (show_pair q) name = Inr q"
  by (simp_all add: parse_pair_def parse_pair_u32_def parse_halves_def show_pair_def splitn_pair parse_bps_show
    parse_u32_show)

lemma parse_priority_show: "1 \<le> n \<Longrightarrow> n \<le> 8 \<Longrightarrow> parse_priority (show_nat n) = Inr (word_of_nat n)"
  using show_nat_hd [of n] by (auto simp: parse_priority_def parse_i64_def is_digit_def)

text \<open>
  Every rate limit of the grammar is read back exactly: for any 64-bit rates
  and any number of trailing fields left out, the attribute text with the fields in order gives
  the policy with those values, \<open>rx\<close> as the egress and \<open>tx\<close> as the ingress direction.
\<close>

theorem mikrotik_roundtrip:
  assumes "1 \<le> k" and "k \<le> 6" and "1 \<le> prio" and "prio \<le> 8"
  shows "mikrotik_parse (join_fields (take k
        [show_pair rate, show_pair burst, show_pair thr, show_pair time, show_nat prio, show_pair mr]))
    = Inr (build_policy rate (if 2 \<le> k then Some burst else None) (if 3 \<le> k then Some thr else None)
        (if 4 \<le> k then Some time else None) (if 5 \<le> k then Some (word_of_nat prio) else None)
        (if 6 \<le> k then Some mr else None))"
proof -
  let ?fs = "take k [show_pair rate, show_pair burst, show_pair thr, show_pair time, show_nat prio, show_pair mr]"
  have k: "k \<in> {1, 2, 3, 4, 5, 6}" using assms by auto
  then have plain: "list_all plain ?fs" "?fs \<noteq> []" by (auto simp: show_pair_plain show_nat_plain)
  from join_fields_ends [OF this] trim_ends have "str_trim (join_fields ?fs) = join_fields ?fs" "join_fields ?fs \<noteq> []"
    by blast+
  with split_join_fields [OF plain(1)] k parse_priority_show [OF assms(3,4)] show ?thesis
    by (auto simp: mikrotik_parse_def next_field_def parse_pair_show)
qed

end
