(* ===== verification/Auth_Request.thy ===== *)
theory Auth_Request
  imports Prelude
begin

text \<open>
  The attributes of an Access-Request, \<open>src/src/auth/request.rs\<close>.  The packet buffer belongs to
  the RADIUS library: it is the list of the attributes added so far, and \<open>fits\<close> says whether the
  library accepts one more; a refusal is its \<open>CodecError\<close>.  The password cipher is a parameter
  as well.
\<close>

datatype attr_name =
    UserName | UserPassword | ChapPassword | ChapChallenge | NasIpAddress | NasPort | NasPortType
  | ServiceType | FramedProtocol | FramedIpAddress | CallingStationId | CalledStationId
  | NasIdentifier | ConnectInfo | StateAttr | EapMessage | MsChapChallenge | MsChap2Response
  | AcctStatusType | AcctAuthentic | AcctSessionId | ClassAttr | AcctDelayTime | AcctSessionTime
  | AcctInputOctets | AcctOutputOctets | AcctInputGigawords | AcctOutputGigawords
  | AcctInputPackets | AcctOutputPackets | AcctTerminateCause

datatype attr_value = VInt u32 | VBytes bytes

type_synonym packet_buffer = "(attr_name \<times> attr_value) list"

datatype codec_error = CodecError

definition add :: "(packet_buffer \<Rightarrow> bool) \<Rightarrow> attr_name \<Rightarrow> attr_value \<Rightarrow> packet_buffer \<Rightarrow> codec_error + packet_buffer" where
  "add fits n v buf = (if fits (buf @ [(n, v)]) then Inr (buf @ [(n, v)]) else Inl CodecError)"

text \<open>\<open>if let Some(x) = .. { buf.add(..)?; }\<close>\<close>

definition add_opt :: "(packet_buffer \<Rightarrow> bool) \<Rightarrow> attr_name \<Rightarrow> bytes option \<Rightarrow> packet_buffer \<Rightarrow> codec_error + packet_buffer" where
  "add_opt fits n v buf = (case v of Some x \<Rightarrow> add fits n (VBytes x) buf | None \<Rightarrow> Inr buf)"

subsection \<open>Request builders\<close>

definition NAS_PORT_TYPE_VIRTUAL :: u32 where "NAS_PORT_TYPE_VIRTUAL = 5"
definition SERVICE_TYPE_FRAMED_USER :: u32 where "SERVICE_TYPE_FRAMED_USER = 2"
definition FRAMED_PROTOCOL_PPP :: u32 where "FRAMED_PROTOCOL_PPP = 1"
definition MAX_ATTR_VALUE :: nat where "MAX_ATTR_VALUE = 253"

record access_request_ctx =
  rq_username :: bytes
  rq_calling_station_id :: "bytes option"
  rq_nas_identifier :: "bytes option"
  rq_nas_ip_address :: "bytes option"
  rq_called_station_id :: "bytes option"
  rq_connect_info :: "bytes option"

definition apply_common ::
    "(packet_buffer \<Rightarrow> bool) \<Rightarrow> access_request_ctx \<Rightarrow> packet_buffer \<Rightarrow> codec_error + packet_buffer" where
  "apply_common fits ctx buf =
     try_bind (add fits UserName (VBytes (rq_username ctx)) buf) (\<lambda>buf.
     try_bind (add fits NasPortType (VInt NAS_PORT_TYPE_VIRTUAL) buf) (\<lambda>buf.
     try_bind (add_opt fits NasIpAddress (rq_nas_ip_address ctx) buf) (\<lambda>buf.
     try_bind (add_opt fits CallingStationId (rq_calling_station_id ctx) buf) (\<lambda>buf.
     try_bind (add_opt fits CalledStationId (rq_called_station_id ctx) buf) (\<lambda>buf.
     try_bind (add_opt fits NasIdentifier (rq_nas_identifier ctx) buf) (\<lambda>buf.
     try_bind (add_opt fits ConnectInfo (rq_connect_info ctx) buf) (\<lambda>buf.
     try_bind (add fits ServiceType (VInt SERVICE_TYPE_FRAMED_USER) buf) (\<lambda>buf.
       add fits FramedProtocol (VInt FRAMED_PROTOCOL_PPP) buf))))))))"

definition apply_pap ::
    "(packet_buffer \<Rightarrow> bool) \<Rightarrow> (bytes \<Rightarrow> bytes \<Rightarrow> bytes \<Rightarrow> bytes) \<Rightarrow> access_request_ctx \<Rightarrow> bytes \<Rightarrow> bytes \<Rightarrow> bytes
      \<Rightarrow> packet_buffer \<Rightarrow> codec_error + packet_buffer" where
  "apply_pap fits encrypt ctx authenticator secret password_cleartext buf =
     try_bind (apply_common fits ctx buf) (\<lambda>buf.
       add fits UserPassword (VBytes (encrypt password_cleartext secret authenticator)) buf)"

definition apply_chap_md5 ::
    "(packet_buffer \<Rightarrow> bool) \<Rightarrow> access_request_ctx \<Rightarrow> u8 \<Rightarrow> bytes \<Rightarrow> bytes \<Rightarrow> packet_buffer
      \<Rightarrow> codec_error + packet_buffer" where
  "apply_chap_md5 fits ctx chap_ident response challenge buf =
     try_bind (apply_common fits ctx buf) (\<lambda>buf.
     try_bind (add fits ChapPassword (VBytes (chap_ident # response)) buf) (\<lambda>buf.
       add fits ChapChallenge (VBytes challenge) buf))"

text \<open>The 50-byte response block: identifier, flags, peer challenge, eight zeros, NT response.\<close>

definition mschap2_response :: "u8 \<Rightarrow> u8 \<Rightarrow> bytes \<Rightarrow> bytes \<Rightarrow> bytes" where
  "mschap2_response chap_ident flags peer_challenge nt_response =
     write_at 26 nt_response (write_at 2 peer_challenge (write_at 0 [chap_ident, flags] (replicate 50 0)))"

definition apply_mschapv2 ::
    "(packet_buffer \<Rightarrow> bool) \<Rightarrow> access_request_ctx \<Rightarrow> bytes \<Rightarrow> u8 \<Rightarrow> bytes \<Rightarrow> bytes \<Rightarrow> u8 \<Rightarrow> packet_buffer
      \<Rightarrow> codec_error + packet_buffer" where
  "apply_mschapv2 fits ctx authenticator_challenge chap_ident peer_challenge nt_response flags buf =
     try_bind (apply_common fits ctx buf) (\<lambda>buf.
     try_bind (add fits MsChapChallenge (VBytes authenticator_challenge) buf) (\<lambda>buf.
       add fits MsChap2Response (VBytes (mschap2_response chap_ident flags peer_challenge nt_response)) buf))"

function chunks :: "nat \<Rightarrow> 'a list \<Rightarrow> 'a list list" where
  "chunks n xs = (if xs = [] \<or> n = 0 then [] else take n xs # chunks n (drop n xs))"
  by pat_completeness auto
termination
  by (relation "measure (\<lambda>(n, xs). length xs)") auto

declare chunks.simps [simp del]

fun add_all :: "(packet_buffer \<Rightarrow> bool) \<Rightarrow> attr_name \<Rightarrow> bytes list \<Rightarrow> packet_buffer \<Rightarrow> codec_error + packet_buffer" where
  "add_all fits n [] buf = Inr buf"
| "add_all fits n (c # cs) buf = try_bind (add fits n (VBytes c) buf) (add_all fits n cs)"

definition apply_eap ::
    "(packet_buffer \<Rightarrow> bool) \<Rightarrow> access_request_ctx \<Rightarrow> bytes \<Rightarrow> bytes option \<Rightarrow> packet_buffer
      \<Rightarrow> codec_error + packet_buffer" where
  "apply_eap fits ctx eap_payload state buf =
     try_bind (apply_common fits ctx buf) (\<lambda>buf.
     try_bind (add_opt fits StateAttr state buf) (\<lambda>buf.
       if eap_payload = [] then add fits EapMessage (VBytes []) buf
       else add_all fits EapMessage (chunks MAX_ATTR_VALUE eap_payload) buf))"

subsection \<open>What is in a request\<close>

lemma add_Inr [simp]: "add fits n v buf = Inr buf' \<longleftrightarrow> fits (buf @ [(n, v)]) \<and> buf' = buf @ [(n, v)]"
  by (auto simp: add_def)

lemma add_opt_Inr: "add_opt fits n v buf = Inr buf' \<Longrightarrow> \<exists>b. buf' = buf @ b \<and> set (map fst b) \<subseteq> {n}"
  by (auto simp: add_opt_def split: option.splits)

lemma add_all_Inr: "add_all fits n cs buf = Inr buf' \<Longrightarrow> buf' = buf @ map (\<lambda>c. (n, VBytes c)) cs"
  by (induction cs arbitrary: buf) (fastforce simp: try_bind_Inr_iff)+

definition values_of :: "attr_name \<Rightarrow> packet_buffer \<Rightarrow> attr_value list" where
  "values_of n buf = map snd (filter (\<lambda>a. fst a = n) buf)"

lemma values_of_append [simp]:
  "values_of n (a @ b) = values_of n a @ values_of n b" "values_of n [] = []"
  "values_of n ((m, v) # b) = (if m = n then v # values_of n b else values_of n b)"
  by (simp_all add: values_of_def)

lemma values_of_none: "n \<notin> set (map fst b) \<Longrightarrow> values_of n b = []"
  by (induction b) (auto simp: values_of_def)

lemma values_of_outside: "fst ` set b \<subseteq> A \<Longrightarrow> n \<notin> A \<Longrightarrow> values_of n b = []"
  by (rule values_of_none) auto

lemma apply_common_Inr:
  assumes "apply_common fits ctx buf = Inr buf'"
  shows "\<exists>b. buf' = buf @ b \<and> values_of UserName b = [VBytes (rq_username ctx)]
    \<and> set (map fst b) \<subseteq> {UserName, NasPortType, NasIpAddress, CallingStationId, CalledStationId,
        NasIdentifier, ConnectInfo, ServiceType, FramedProtocol}"
proof -
  from assms obtain b1 b2 b3 b4 b5 where
    b: "set (map fst b1) \<subseteq> {NasIpAddress}" "set (map fst b2) \<subseteq> {CallingStationId}"
      "set (map fst b3) \<subseteq> {CalledStationId}" "set (map fst b4) \<subseteq> {NasIdentifier}" "set (map fst b5) \<subseteq> {ConnectInfo}"
    and buf': "buf' = buf @ (UserName, VBytes (rq_username ctx)) # (NasPortType, VInt NAS_PORT_TYPE_VIRTUAL)
      # b1 @ b2 @ b3 @ b4 @ b5 @ [(ServiceType, VInt SERVICE_TYPE_FRAMED_USER), (FramedProtocol, VInt FRAMED_PROTOCOL_PPP)]"
    by (fastforce simp: apply_common_def try_bind_Inr_iff dest!: add_opt_Inr)
  have "values_of UserName (b1 @ b2 @ b3 @ b4 @ b5) = []" by (rule values_of_none) (use b in auto)
  with b buf' show ?thesis by auto
qed

lemma chunks_concat: "0 < n \<Longrightarrow> concat (chunks n xs) = xs"
  by (induction n xs rule: chunks.induct) (subst chunks.simps, auto)

lemma chunks_bound: "list_all (\<lambda>c. c \<noteq> [] \<and> length c \<le> n) (chunks n xs)"
  by (induction n xs rule: chunks.induct) (subst chunks.simps, auto)

fun attr_bytes :: "attr_value \<Rightarrow> bytes" where
  "attr_bytes (VBytes b) = b"
| "attr_bytes (VInt n) = be32 n"

text \<open>
  The fragments of an EAP message put together give the message, no fragment
  exceeds the 253 bytes of an attribute, there is at least one fragment, and the request carries
  the user name and the state of the conversation exactly once.
\<close>

theorem eap_fragments:
  assumes "apply_eap fits ctx eap_payload state [] = Inr buf"
  shows "concat (map attr_bytes (values_of EapMessage buf)) = eap_payload
    \<and> list_all (\<lambda>v. length (attr_bytes v) \<le> MAX_ATTR_VALUE) (values_of EapMessage buf)
    \<and> values_of EapMessage buf \<noteq> []
    \<and> values_of UserName buf = [VBytes (rq_username ctx)]
    \<and> values_of StateAttr buf = (case state of Some s \<Rightarrow> [VBytes s] | None \<Rightarrow> [])"
proof -
  let ?cs = "if eap_payload = [] then [[]] else chunks MAX_ATTR_VALUE eap_payload"
  from assms obtain b1 where b1: "apply_common fits ctx [] = Inr b1"
    and buf: "buf = b1 @ (case state of Some s \<Rightarrow> [(StateAttr, VBytes s)] | None \<Rightarrow> [])
      @ map (\<lambda>c. (EapMessage, VBytes c)) ?cs"
    by (cases state) (auto simp: apply_eap_def try_bind_Inr_iff add_opt_def split: if_splits dest!: add_all_Inr)
  from apply_common_Inr [OF b1] have c: "values_of UserName b1 = [VBytes (rq_username ctx)]"
    "values_of StateAttr b1 = []" "values_of EapMessage b1 = []"
    by (auto elim: values_of_outside)
  have m: "values_of n (map (\<lambda>c. (EapMessage, VBytes c)) cs) = (if n = EapMessage then map VBytes cs else [])" for n cs
    by (induction cs) auto
  have "?cs \<noteq> []" by (simp add: chunks.simps [of _ eap_payload] MAX_ATTR_VALUE_def)
  moreover have "concat ?cs = eap_payload" "list_all (\<lambda>c. length c \<le> MAX_ATTR_VALUE) ?cs"
    using chunks_concat [of MAX_ATTR_VALUE eap_payload] chunks_bound [of MAX_ATTR_VALUE eap_payload]
    by (auto simp: MAX_ATTR_VALUE_def list_all_iff)
  ultimately show ?thesis unfolding buf
    by (auto simp: c m comp_def list.pred_map split: option.split)
qed

end
