(* ===== verification/Auth_Bridge.thy ===== *)
theory Auth_Bridge
  imports Auth_Route Shape_Mikrotik Auth_Request
begin

text \<open>
  From credentials to a verdict: the decoder of RADIUS replies (\<open>src/src/auth/reply.rs\<close>), the
  authentication round trips and the EAP conversation (\<open>src/src/auth/client.rs\<close>), and the
  dispatcher jobs that try the configured servers in order (\<open>src/src/auth/bridge.rs\<close>).

  The RADIUS library is a parameter: its attribute accessors, the key decryption, and its client,
  which builds a request with the closure it is given, sends it, checks the reply's authenticator
  and returns the reply.
\<close>

subsection \<open>The RADIUS library\<close>

datatype reply_attr =
    RFramedIpAddress | RFramedIpNetmask | RFramedMtu | RMsPrimaryDnsServer | RMsSecondaryDnsServer
  | RMsPrimaryNbnsServer | RMsSecondaryNbnsServer | RMsMppeSendKey | RMsMppeRecvKey | RClass
  | RSessionTimeout | RIdleTimeout | RAcctInterimInterval | RMsChap2Success | RReplyMessage
  | RMsChapError | RMikrotikRateLimit | RState

datatype client_error = CeIo bytes | CeTimeout | CeOther bytes

datatype access_outcome =
    OutcomeAccept bytes bytes
  | OutcomeReject bytes
  | OutcomeChallenge bytes

record 'a radius_lib =
  rl_addr :: "reply_attr \<Rightarrow> bytes \<Rightarrow> bytes option"
  rl_int :: "reply_attr \<Rightarrow> bytes \<Rightarrow> u32 option"
  rl_octets :: "reply_attr \<Rightarrow> bytes \<Rightarrow> bytes option"
  rl_text :: "reply_attr \<Rightarrow> bytes \<Rightarrow> bytes option"
  rl_iter :: "bytes \<Rightarrow> (unit + (nat \<times> bytes)) list"
  rl_framed_route :: nat
  rl_mppe_key_decrypt :: "bytes \<Rightarrow> bytes \<Rightarrow> bytes \<Rightarrow> bytes option"
  rl_eap_reassemble :: "bytes \<Rightarrow> bytes"
  rl_fits :: "packet_buffer \<Rightarrow> bool"
  rl_user_password_encrypt :: "bytes \<Rightarrow> bytes \<Rightarrow> bytes \<Rightarrow> bytes"
  rl_access_request :: "'a \<Rightarrow> bytes \<Rightarrow> (packet_buffer \<Rightarrow> bytes \<Rightarrow> codec_error + packet_buffer)
    \<Rightarrow> client_error + access_outcome"

subsection \<open>Errors\<close>

datatype transport_error = TeIo bytes | TeTimeout | TeOther bytes

datatype access_error =
    Rejected "bytes option"
  | UnexpectedChallenge
  | MissingAttribute string
  | TransportErr transport_error
  | Malformed string

fun from_client_error :: "client_error \<Rightarrow> access_error" where
  "from_client_error (CeIo m) = TransportErr (TeIo m)"
| "from_client_error CeTimeout = TransportErr TeTimeout"
| "from_client_error (CeOther m) = TransportErr (TeOther m)"

fun transport_error_string :: "transport_error \<Rightarrow> bytes" where
  "transport_error_string (TeIo m) = ascii ''i/o: '' @ m"
| "transport_error_string TeTimeout = ascii ''no reply within retry budget''"
| "transport_error_string (TeOther m) = m"

text \<open>\<open>Display\<close> of the errors that do not end the search; a rejection is never printed.\<close>

fun auth_error_string :: "access_error \<Rightarrow> bytes" where
  "auth_error_string UnexpectedChallenge = ascii ''unexpected Access-Challenge''"
| "auth_error_string (MissingAttribute a) = ascii ''access accepted but missing attribute: '' @ ascii a"
| "auth_error_string (TransportErr t) = ascii ''transport: '' @ transport_error_string t"
| "auth_error_string (Malformed m) = ascii ''malformed reply: '' @ ascii m"

subsection \<open>Replies\<close>

definition MIN_ACCT_INTERIM :: nat where "MIN_ACCT_INTERIM = 30"

definition mppe_key :: "'a radius_lib \<Rightarrow> bytes \<Rightarrow> bytes \<Rightarrow> bytes \<Rightarrow> reply_attr \<Rightarrow> access_error + bytes" where
  "mppe_key L attrs secret ra handle =
     (case rl_octets L handle attrs of
        None \<Rightarrow> Inr []
      | Some raw \<Rightarrow>
          (case rl_mppe_key_decrypt L raw secret ra of
             Some k \<Rightarrow> Inr k
           | None \<Rightarrow> Inl (Malformed ''MPPE key decrypt failed'')))"

definition mikrotik_rate_limit :: "'a radius_lib \<Rightarrow> bytes \<Rightarrow> shaping_policy option" where
  "mikrotik_rate_limit L attrs =
     (case rl_text L RMikrotikRateLimit attrs of
        None \<Rightarrow> None
      | Some value \<Rightarrow>
          (case from_utf8 value of
             None \<Rightarrow> None
           | Some s \<Rightarrow>
               (case mikrotik_parse s of
                  Inr p \<Rightarrow> if shaping_is_empty p then None else Some p
                | Inl e \<Rightarrow> None)))"

fun framed_routes_loop :: "nat \<Rightarrow> (unit + (nat \<times> bytes)) list \<Rightarrow> framed_route list" where
  "framed_routes_loop code [] = []"
| "framed_routes_loop code (Inl _ # slots) = []"
| "framed_routes_loop code (Inr (t, value) # slots) =
     (if t \<noteq> code then framed_routes_loop code slots
      else case from_utf8 value of
          None \<Rightarrow> framed_routes_loop code slots
        | Some s \<Rightarrow>
            (case framed_route_parse s of
               Inr r \<Rightarrow> r # framed_routes_loop code slots
             | Inl e \<Rightarrow> framed_routes_loop code slots))"

definition decode_framed_routes :: "'a radius_lib \<Rightarrow> bytes \<Rightarrow> framed_route list" where
  "decode_framed_routes L attrs = framed_routes_loop (rl_framed_route L) (rl_iter L attrs)"

definition decode_accept :: "'a radius_lib \<Rightarrow> bytes \<Rightarrow> bytes \<Rightarrow> bytes \<Rightarrow> access_error + auth_accept" where
  "decode_accept L attrs secret request_authenticator =
     (case rl_addr L RFramedIpAddress attrs of
        None \<Rightarrow> Inl (MissingAttribute ''Framed-IP-Address'')
      | Some framed_ip \<Rightarrow>
          try_bind (mppe_key L attrs secret request_authenticator RMsMppeSendKey) (\<lambda>send_key.
          try_bind (mppe_key L attrs secret request_authenticator RMsMppeRecvKey) (\<lambda>recv_key.
            Inr \<lparr>ac_framed_ip = framed_ip,
                 ac_framed_netmask = rl_addr L RFramedIpNetmask attrs,
                 ac_framed_mtu = rl_int L RFramedMtu attrs,
                 ac_primary_dns = rl_addr L RMsPrimaryDnsServer attrs,
                 ac_secondary_dns = rl_addr L RMsSecondaryDnsServer attrs,
                 ac_primary_nbns = rl_addr L RMsPrimaryNbnsServer attrs,
                 ac_secondary_nbns = rl_addr L RMsSecondaryNbnsServer attrs,
                 ac_mppe_send_key = send_key,
                 ac_mppe_recv_key = recv_key,
                 ac_mschap2_success = map_option (drop 1) (rl_octets L RMsChap2Success attrs),
                 ac_shaping = mikrotik_rate_limit L attrs,
                 ac_framed_routes = decode_framed_routes L attrs,
                 ac_class = rl_octets L RClass attrs,
                 ac_session_timeout = map_option unat (rl_int L RSessionTimeout attrs),
                 ac_idle_timeout = map_option unat (rl_int L RIdleTimeout attrs),
                 ac_acct_interim_interval =
                   map_option (\<lambda>s. if unat s < MIN_ACCT_INTERIM then MIN_ACCT_INTERIM else unat s)
                     (rl_int L RAcctInterimInterval attrs)\<rparr>)))"

definition reject_reason :: "'a radius_lib \<Rightarrow> bytes \<Rightarrow> bytes option" where
  "reject_reason L attrs = rl_text L RReplyMessage attrs"

definition mschap_error :: "'a radius_lib \<Rightarrow> bytes \<Rightarrow> bytes option" where
  "mschap_error L attrs = map_option (\<lambda>s. from_utf8_lossy (drop 1 s)) (rl_text L RMsChapError attrs)"

subsection \<open>Round trips\<close>

definition project_terminal :: "'a radius_lib \<Rightarrow> access_outcome \<Rightarrow> bytes \<Rightarrow> access_error + auth_accept" where
  "project_terminal L outcome secret =
     (case outcome of
        OutcomeAccept authenticator attributes \<Rightarrow> decode_accept L attributes secret authenticator
      | OutcomeReject attributes \<Rightarrow> Inl (Rejected (reject_reason L attributes))
      | OutcomeChallenge attributes \<Rightarrow> Inl UnexpectedChallenge)"

definition request_then :: "client_error + access_outcome \<Rightarrow> (access_outcome \<Rightarrow> access_error + 'b) \<Rightarrow> access_error + 'b" where
  "request_then r k = (case r of Inl e \<Rightarrow> Inl (from_client_error e) | Inr outcome \<Rightarrow> k outcome)"

definition authenticate_pap ::
    "'a radius_lib \<Rightarrow> 'a \<Rightarrow> bytes \<Rightarrow> access_request_ctx \<Rightarrow> bytes \<Rightarrow> access_error + auth_accept" where
  "authenticate_pap L peer secret ctx password =
     request_then
       (rl_access_request L peer secret
         (\<lambda>buf ra. apply_pap (rl_fits L) (rl_user_password_encrypt L) ctx ra secret password buf))
       (\<lambda>outcome. project_terminal L outcome secret)"

definition authenticate_chap_md5 ::
    "'a radius_lib \<Rightarrow> 'a \<Rightarrow> bytes \<Rightarrow> access_request_ctx \<Rightarrow> u8 \<Rightarrow> bytes \<Rightarrow> bytes \<Rightarrow> access_error + auth_accept" where
  "authenticate_chap_md5 L peer secret ctx chap_ident response challenge =
     request_then
       (rl_access_request L peer secret (\<lambda>buf ra. apply_chap_md5 (rl_fits L) ctx chap_ident response challenge buf))
       (\<lambda>outcome. project_terminal L outcome secret)"

definition authenticate_mschapv2 ::
    "'a radius_lib \<Rightarrow> 'a \<Rightarrow> bytes \<Rightarrow> access_request_ctx \<Rightarrow> bytes \<Rightarrow> u8 \<Rightarrow> bytes \<Rightarrow> bytes \<Rightarrow> u8
      \<Rightarrow> access_error + auth_accept" where
  "authenticate_mschapv2 L peer secret ctx authenticator_challenge chap_ident peer_challenge nt_response flags =
     request_then
       (rl_access_request L peer secret (\<lambda>buf ra. apply_mschapv2 (rl_fits L) ctx authenticator_challenge chap_ident
         peer_challenge nt_response flags buf))
       (\<lambda>outcome. project_terminal L outcome secret)"

text \<open>One round of the EAP conversation; the state is the attribute to be echoed.\<close>

datatype eap_step = EapContinue bytes | EapAccept auth_accept | EapReject "bytes option"

definition eap_session_step ::
    "'a radius_lib \<Rightarrow> 'a \<Rightarrow> bytes \<Rightarrow> access_request_ctx \<Rightarrow> bytes \<Rightarrow> bytes option
      \<Rightarrow> bytes option \<times> (access_error + eap_step)" where
  "eap_session_step L peer secret ctx eap_from_peer state =
     (case rl_access_request L peer secret (\<lambda>buf ra. apply_eap (rl_fits L) ctx eap_from_peer state buf) of
        Inl e \<Rightarrow> (state, Inl (from_client_error e))
      | Inr (OutcomeAccept authenticator attributes) \<Rightarrow>
          (None, try_bind (decode_accept L attributes secret authenticator) (\<lambda>accept. Inr (EapAccept accept)))
      | Inr (OutcomeReject attributes) \<Rightarrow> (None, Inr (EapReject (reject_reason L attributes)))
      | Inr (OutcomeChallenge attributes) \<Rightarrow>
          (let eap_request = rl_eap_reassemble L attributes in
           if eap_request = [] then (state, Inl (Malformed ''Access-Challenge without EAP-Message''))
           else (rl_octets L RState attributes, Inr (EapContinue eap_request))))"

subsection \<open>Jobs of the dispatcher\<close>

record auth_job =
  jb_username :: bytes
  jb_peer_ip :: bytes

definition job_ctx :: "bytes option \<Rightarrow> 'j auth_job_scheme \<Rightarrow> access_request_ctx" where
  "job_ctx nas job =
     \<lparr>rq_username = jb_username job, rq_calling_station_id = Some (jb_peer_ip job), rq_nas_identifier = nas,
      rq_nas_ip_address = None, rq_called_station_id = None, rq_connect_info = None\<rparr>"

definition failure_message :: "bytes option \<Rightarrow> bytes" where
  "failure_message last_err =
     (case last_err of
        None \<Rightarrow> ascii ''auth failed: no RADIUS servers reachable''
      | Some e \<Rightarrow> ascii ''auth failed: '' @ e)"

definition transport_failure :: "bytes option \<Rightarrow> auth_outcome" where
  "transport_failure last_err = bridge_reject (failure_message last_err)"

record pap_job = auth_job +
  jb_password :: bytes

fun run_pap :: "'a radius_lib \<Rightarrow> bytes option \<Rightarrow> pap_job \<Rightarrow> ('a \<times> bytes) list \<Rightarrow> bytes option \<Rightarrow> auth_outcome" where
  "run_pap L nas job [] last_err = transport_failure last_err"
| "run_pap L nas job ((addr, secret) # servers) last_err =
     (case authenticate_pap L addr secret (job_ctx nas job) (jb_password job) of
        Inr accept \<Rightarrow> accept_outcome accept
      | Inl (Rejected msg) \<Rightarrow> bridge_reject (case msg of Some m \<Rightarrow> m | None \<Rightarrow> ascii ''access rejected'')
      | Inl e \<Rightarrow> run_pap L nas job servers (Some (auth_error_string e)))"

record chap_job = auth_job +
  jb_chap_id :: u8
  jb_response :: bytes
  jb_challenge :: bytes

fun run_chap :: "'a radius_lib \<Rightarrow> bytes option \<Rightarrow> chap_job \<Rightarrow> ('a \<times> bytes) list \<Rightarrow> bytes option \<Rightarrow> auth_outcome" where
  "run_chap L nas job [] last_err = transport_failure last_err"
| "run_chap L nas job ((addr, secret) # servers) last_err =
     (case authenticate_chap_md5 L addr secret (job_ctx nas job) (jb_chap_id job) (jb_response job) (jb_challenge job) of
        Inr accept \<Rightarrow> accept_outcome accept
      | Inl (Rejected msg) \<Rightarrow> bridge_reject (case msg of Some m \<Rightarrow> m | None \<Rightarrow> ascii ''access rejected'')
      | Inl e \<Rightarrow> run_chap L nas job servers (Some (auth_error_string e)))"

record mschap_job = auth_job +
  jb_ms_chap_id :: u8
  jb_authenticator_challenge :: bytes
  jb_peer_challenge :: bytes
  jb_nt_response :: bytes
  jb_flags :: u8

definition mschap_accept_outcome :: "auth_accept \<Rightarrow> mschap_outcome" where
  "mschap_accept_outcome accept =
     \<lparr>ao_verdict = Accept (project_addrs accept), ao_shaping = ac_shaping accept,
      ao_policy = policy_from_accept accept, mo_auth_response = ac_mschap2_success accept,
      mo_error_string = None, mo_hlak = hlak_from_mppe accept\<rparr>"

definition mschap_rejected_outcome :: "'a radius_lib \<Rightarrow> bytes \<Rightarrow> mschap_outcome" where
  "mschap_rejected_outcome L attributes =
     (let error_string = mschap_error L attributes;
          reason = (case reject_reason L attributes of
                      Some r \<Rightarrow> r
                    | None \<Rightarrow> (case error_string of Some e \<Rightarrow> e | None \<Rightarrow> ascii ''access rejected'')) in
      \<lparr>ao_verdict = Reject reason, ao_shaping = None, ao_policy = session_policy_default,
       mo_auth_response = None, mo_error_string = error_string, mo_hlak = None\<rparr>)"

fun run_mschapv2 :: "'a radius_lib \<Rightarrow> bytes option \<Rightarrow> mschap_job \<Rightarrow> ('a \<times> bytes) list \<Rightarrow> bytes option \<Rightarrow> mschap_outcome" where
  "run_mschapv2 L nas job [] last_err = mschap_reject (failure_message last_err)"
| "run_mschapv2 L nas job ((addr, secret) # servers) last_err =
     (case rl_access_request L addr secret (\<lambda>buf ra. apply_mschapv2 (rl_fits L) (job_ctx nas job)
             (jb_authenticator_challenge job) (jb_ms_chap_id job) (jb_peer_challenge job) (jb_nt_response job)
             (jb_flags job) buf) of
        Inr (OutcomeAccept authenticator attributes) \<Rightarrow>
          (case decode_accept L attributes secret authenticator of
             Inr accept \<Rightarrow> mschap_accept_outcome accept
           | Inl e \<Rightarrow> run_mschapv2 L nas job servers (Some (auth_error_string e)))
      | Inr (OutcomeReject attributes) \<Rightarrow> mschap_rejected_outcome L attributes
      | Inr (OutcomeChallenge attributes) \<Rightarrow>
          run_mschapv2 L nas job servers (Some (ascii ''unexpected Access-Challenge''))
      | Inl e \<Rightarrow> run_mschapv2 L nas job servers (Some (auth_error_string (from_client_error e))))"

text \<open>
  What the session task gets: a closed queue and a dropped reply channel are rejections.
\<close>

definition dispatch_basic :: "bool \<Rightarrow> auth_outcome option \<Rightarrow> auth_outcome" where
  "dispatch_basic queued reply =
     (if \<not> queued then bridge_reject (ascii ''auth dispatcher unavailable'')
      else case reply of Some outcome \<Rightarrow> outcome | None \<Rightarrow> bridge_reject (ascii ''auth dispatcher dropped reply''))"

definition dispatch_mschapv2 :: "bool \<Rightarrow> mschap_outcome option \<Rightarrow> mschap_outcome" where
  "dispatch_mschapv2 queued reply =
     (if \<not> queued then mschap_reject (ascii ''auth dispatcher unavailable'')
      else case reply of Some outcome \<Rightarrow> outcome | None \<Rightarrow> mschap_reject (ascii ''auth dispatcher dropped reply''))"

subsection \<open>Failover\<close>

text \<open>
  The loop over the servers: an attempt gives an answer or an error, the first answer counts.
\<close>

locale failover =
  fixes attempt :: "'srv \<Rightarrow> 'out + 'err"
    and loop :: "'srv list \<Rightarrow> 'err option \<Rightarrow> 'out"
    and give_up :: "'err option \<Rightarrow> 'out"
  assumes loop_nil: "loop [] e = give_up e"
    and loop_cons: "loop (s # ss) e = (case attempt s of Inl r \<Rightarrow> r | Inr e' \<Rightarrow> loop ss (Some e'))"
begin

lemma first_answer:
  "list_all (\<lambda>s. \<exists>e. attempt s = Inr e) pre \<Longrightarrow> attempt s = Inl r \<Longrightarrow> loop (pre @ s # post) e = r"
  by (induction pre arbitrary: e) (auto simp: loop_cons)

lemma answer_or_none:
  "(\<exists>pre s post r. ss = pre @ s # post \<and> list_all (\<lambda>s. \<exists>e. attempt s = Inr e) pre \<and> attempt s = Inl r
      \<and> loop ss e = r)
   \<or> (list_all (\<lambda>s. \<exists>e. attempt s = Inr e) ss \<and> (\<exists>e'. loop ss e = give_up e'))"
proof (induction ss arbitrary: e)
  case (Cons s ss)
  show ?case
  proof (cases "attempt s")
    case (Inl r)
    then have "loop (s # ss) e = r" by (simp add: loop_cons)
    with Inl show ?thesis by (intro disjI1 exI [of _ "[]"]) auto
  next
    case (Inr e')
    then have l: "loop (s # ss) e = loop ss (Some e')" by (simp add: loop_cons)
    from Cons.IH [of "Some e'"] show ?thesis
    proof
      assume "\<exists>pre t post r. ss = pre @ t # post \<and> list_all (\<lambda>s. \<exists>e. attempt s = Inr e) pre \<and> attempt t = Inl r
        \<and> loop ss (Some e') = r"
      then obtain pre t post r where "ss = pre @ t # post" "list_all (\<lambda>s. \<exists>e. attempt s = Inr e) pre"
        "attempt t = Inl r" "loop ss (Some e') = r" by blast
      then show ?thesis using Inr l by (intro disjI1 exI [of _ "s # pre"]) auto
    qed (use Inr l in auto)
  qed
qed (auto simp: loop_nil)

end

definition basic_answer :: "access_error + auth_accept \<Rightarrow> auth_outcome + bytes" where
  "basic_answer r =
     (case r of
        Inr accept \<Rightarrow> Inl (accept_outcome accept)
      | Inl (Rejected msg) \<Rightarrow> Inl (bridge_reject (case msg of Some m \<Rightarrow> m | None \<Rightarrow> ascii ''access rejected''))
      | Inl e \<Rightarrow> Inr (auth_error_string e))"

definition pap_attempt :: "'a radius_lib \<Rightarrow> bytes option \<Rightarrow> pap_job \<Rightarrow> 'a \<times> bytes \<Rightarrow> auth_outcome + bytes" where
  "pap_attempt L nas job srv =
     basic_answer (authenticate_pap L (fst srv) (snd srv) (job_ctx nas job) (jb_password job))"

definition chap_attempt :: "'a radius_lib \<Rightarrow> bytes option \<Rightarrow> chap_job \<Rightarrow> 'a \<times> bytes \<Rightarrow> auth_outcome + bytes" where
  "chap_attempt L nas job srv =
     basic_answer (authenticate_chap_md5 L (fst srv) (snd srv) (job_ctx nas job) (jb_chap_id job) (jb_response job)
       (jb_challenge job))"

definition mschap_access_request :: "'a radius_lib \<Rightarrow> bytes option \<Rightarrow> mschap_job \<Rightarrow> 'a \<times> bytes \<Rightarrow> client_error + access_outcome" where
  "mschap_access_request L nas job srv =
     rl_access_request L (fst srv) (snd srv) (\<lambda>buf ra. apply_mschapv2 (rl_fits L) (job_ctx nas job)
       (jb_authenticator_challenge job) (jb_ms_chap_id job) (jb_peer_challenge job) (jb_nt_response job)
       (jb_flags job) buf)"

definition mschap_attempt :: "'a radius_lib \<Rightarrow> bytes option \<Rightarrow> mschap_job \<Rightarrow> 'a \<times> bytes \<Rightarrow> mschap_outcome + bytes" where
  "mschap_attempt L nas job srv =
     (case mschap_access_request L nas job srv of
        Inr (OutcomeAccept authenticator attributes) \<Rightarrow>
          (case decode_accept L attributes (snd srv) authenticator of
             Inr accept \<Rightarrow> Inl (mschap_accept_outcome accept)
           | Inl e \<Rightarrow> Inr (auth_error_string e))
      | Inr (OutcomeReject attributes) \<Rightarrow> Inl (mschap_rejected_outcome L attributes)
      | Inr (OutcomeChallenge attributes) \<Rightarrow> Inr (ascii ''unexpected Access-Challenge'')
      | Inl e \<Rightarrow> Inr (auth_error_string (from_client_error e)))"

interpretation pap: failover "pap_attempt L nas job" "run_pap L nas job" transport_failure
  by unfold_locales
    (auto simp: pap_attempt_def basic_answer_def split: sum.split access_error.split)

interpretation chap: failover "chap_attempt L nas job" "run_chap L nas job" transport_failure
  by unfold_locales
    (auto simp: chap_attempt_def basic_answer_def split: sum.split access_error.split)

interpretation mschap: failover "mschap_attempt L nas job" "run_mschapv2 L nas job" "\<lambda>e. mschap_reject (failure_message e)"
  by unfold_locales
    (auto simp: mschap_attempt_def mschap_access_request_def split: sum.split access_outcome.split)

subsection \<open>Who grants a login\<close>

definition pap_access_request :: "'a radius_lib \<Rightarrow> bytes option \<Rightarrow> pap_job \<Rightarrow> 'a \<times> bytes \<Rightarrow> client_error + access_outcome" where
  "pap_access_request L nas job srv =
     rl_access_request L (fst srv) (snd srv) (\<lambda>buf ra. apply_pap (rl_fits L) (rl_user_password_encrypt L)
       (job_ctx nas job) ra (snd srv) (jb_password job) buf)"

definition chap_access_request :: "'a radius_lib \<Rightarrow> bytes option \<Rightarrow> chap_job \<Rightarrow> 'a \<times> bytes \<Rightarrow> client_error + access_outcome" where
  "chap_access_request L nas job srv =
     rl_access_request L (fst srv) (snd srv) (\<lambda>buf ra. apply_chap_md5 (rl_fits L) (job_ctx nas job)
       (jb_chap_id job) (jb_response job) (jb_challenge job) buf)"

text \<open>A server decides if it rejects, or accepts with a reply that can be decoded.\<close>

definition decides_accept ::
    "'a radius_lib \<Rightarrow> ('a \<times> bytes \<Rightarrow> client_error + access_outcome) \<Rightarrow> 'a \<times> bytes \<Rightarrow> auth_accept \<Rightarrow> bool" where
  "decides_accept L request srv accept \<longleftrightarrow>
     (\<exists>authenticator attributes. request srv = Inr (OutcomeAccept authenticator attributes)
        \<and> decode_accept L attributes (snd srv) authenticator = Inr accept)"

definition decides ::
    "'a radius_lib \<Rightarrow> ('a \<times> bytes \<Rightarrow> client_error + access_outcome) \<Rightarrow> 'a \<times> bytes \<Rightarrow> bool" where
  "decides L request srv \<longleftrightarrow>
     (\<exists>attributes. request srv = Inr (OutcomeReject attributes)) \<or> (\<exists>accept. decides_accept L request srv accept)"

definition granted ::
    "'a radius_lib \<Rightarrow> ('a \<times> bytes \<Rightarrow> client_error + access_outcome) \<Rightarrow> ('a \<times> bytes) list \<Rightarrow> auth_accept \<Rightarrow> bool" where
  "granted L request servers accept \<longleftrightarrow>
     (\<exists>pre srv post. servers = pre @ srv # post \<and> (\<forall>s\<in>set pre. \<not> decides L request s)
        \<and> decides_accept L request srv accept)"

text \<open>A failover loop over servers whose attempts decide as their requests do.\<close>

locale granting = failover attempt loop give_up
  for attempt :: "'a \<times> bytes \<Rightarrow> 'out + bytes" and loop and give_up +
  fixes L :: "'a radius_lib"
    and request :: "'a \<times> bytes \<Rightarrow> client_error + access_outcome"
    and verdict :: "'out \<Rightarrow> auth_verdict"
  assumes decide: "(\<exists>r. attempt s = Inl r) \<longleftrightarrow> decides L request s"
    and accept: "attempt s = Inl r \<Longrightarrow>
      verdict r = Accept a \<longleftrightarrow> (\<exists>acc. decides_accept L request s acc \<and> a = project_addrs acc)"
    and none: "verdict (give_up e) \<noteq> Accept a"
begin

lemma accepts_iff_granted:
  "verdict (loop ss e) = Accept a \<longleftrightarrow> (\<exists>acc. granted L request ss acc \<and> a = project_addrs acc)"
proof -
  have err: "(\<exists>e. attempt s = Inr e) \<longleftrightarrow> \<not> decides L request s" for s
    using decide [of s] by (cases "attempt s") auto
  have pre: "list_all (\<lambda>s. \<exists>e. attempt s = Inr e) pre \<longleftrightarrow> (\<forall>s\<in>set pre. \<not> decides L request s)" for pre
    by (simp add: err list_all_iff)
  show ?thesis
  proof
    assume P: "verdict (loop ss e) = Accept a"
    from answer_or_none [of ss e] show "\<exists>acc. granted L request ss acc \<and> a = project_addrs acc"
    proof
      assume "\<exists>pre s post r. ss = pre @ s # post \<and> list_all (\<lambda>s. \<exists>e. attempt s = Inr e) pre \<and> attempt s = Inl r
        \<and> loop ss e = r"
      then obtain p s post r where s: "ss = p @ s # post" "list_all (\<lambda>s. \<exists>e. attempt s = Inr e) p"
        "attempt s = Inl r" "loop ss e = r" by blast
      with P accept [OF s(3)] obtain acc where "decides_accept L request s acc" "a = project_addrs acc" by auto
      with s(1,2) pre show ?thesis unfolding granted_def by blast
    qed (use P none in auto)
  next
    assume "\<exists>acc. granted L request ss acc \<and> a = project_addrs acc"
    then obtain acc p s post where s: "ss = p @ s # post" "\<forall>s\<in>set p. \<not> decides L request s"
      "decides_accept L request s acc" "a = project_addrs acc" by (auto simp: granted_def)
    then obtain r where r: "attempt s = Inl r" using decide [of s] by (auto simp: decides_def)
    with s first_answer [of p s r post e] pre accept [OF r, of a] show "verdict (loop ss e) = Accept a" by auto
  qed
qed

end

lemma decode_accept_not_rejected: "decode_accept L attrs secret ra \<noteq> Inl (Rejected m)"
  by (auto simp: decode_accept_def mppe_key_def try_bind_def split: option.splits sum.splits)

text \<open>The answer of one server, for the two methods that share \<open>project_terminal\<close>.\<close>

lemma basic_answer_cases:
  "basic_answer (request_then q (\<lambda>oc. project_terminal L oc secret)) =
     (case q of
        Inl e \<Rightarrow> Inr (auth_error_string (from_client_error e))
      | Inr (OutcomeReject attributes) \<Rightarrow>
          Inl (bridge_reject (case reject_reason L attributes of Some m \<Rightarrow> m | None \<Rightarrow> ascii ''access rejected''))
      | Inr (OutcomeChallenge attributes) \<Rightarrow> Inr (auth_error_string UnexpectedChallenge)
      | Inr (OutcomeAccept authenticator attributes) \<Rightarrow>
          (case decode_accept L attributes secret authenticator of
             Inr acc \<Rightarrow> Inl (accept_outcome acc)
           | Inl e \<Rightarrow> Inr (auth_error_string e)))"
proof (cases q)
  case (Inl e)
  then show ?thesis by (cases e) (simp_all add: basic_answer_def request_then_def)
next
  case (Inr oc)
  then show ?thesis
    by (cases oc) (auto simp: basic_answer_def request_then_def project_terminal_def decode_accept_not_rejected
        split: sum.split access_error.split)
qed

lemma pap_attempt_cases: "pap_attempt L nas job srv =
    basic_answer (request_then (pap_access_request L nas job srv) (\<lambda>oc. project_terminal L oc (snd srv)))"
  by (simp add: pap_attempt_def authenticate_pap_def pap_access_request_def)

lemma chap_attempt_cases: "chap_attempt L nas job srv =
    basic_answer (request_then (chap_access_request L nas job srv) (\<lambda>oc. project_terminal L oc (snd srv)))"
  by (simp add: chap_attempt_def authenticate_chap_md5_def chap_access_request_def)

lemmas granting_simps = decides_def decides_accept_def accept_outcome_def bridge_reject_def transport_failure_def
  mschap_reject_def mschap_accept_outcome_def mschap_rejected_outcome_def Let_def

interpretation pap_granting: granting "pap_attempt L nas job" "run_pap L nas job" transport_failure L
    "pap_access_request L nas job" ao_verdict
  by unfold_locales
    (auto simp: granting_simps pap_attempt_cases basic_answer_cases split: sum.splits access_outcome.splits)

interpretation chap_granting: granting "chap_attempt L nas job" "run_chap L nas job" transport_failure L
    "chap_access_request L nas job" ao_verdict
  by unfold_locales
    (auto simp: granting_simps chap_attempt_cases basic_answer_cases split: sum.splits access_outcome.splits)

interpretation mschap_granting: granting "mschap_attempt L nas job" "run_mschapv2 L nas job"
    "\<lambda>e. mschap_reject (failure_message e)" L "mschap_access_request L nas job" ao_verdict
  by unfold_locales
    (auto simp: granting_simps mschap_attempt_def split: sum.splits access_outcome.splits)

text \<open>
  C8 (safety).  A dispatcher job yields an Accept exactly when one of the configured servers answered
  the request of that method with an Access-Accept that decodes, and no server before it decided:
  every earlier one failed in transport, challenged, or sent an Access-Accept that cannot be decoded.
  In particular a rejection is final, a failing list of servers never admits anyone, and the addresses
  handed to the session are those of the deciding reply.  This holds for PAP, CHAP and MS-CHAPv2.
\<close>

theorem bridge_accept_authorised:
  "(ao_verdict (run_pap L nas pj servers e) = Accept a \<longleftrightarrow>
      (\<exists>acc. granted L (pap_access_request L nas pj) servers acc \<and> a = project_addrs acc))
   \<and> (ao_verdict (run_chap L nas cj servers e) = Accept a \<longleftrightarrow>
      (\<exists>acc. granted L (chap_access_request L nas cj) servers acc \<and> a = project_addrs acc))
   \<and> (ao_verdict (run_mschapv2 L nas mj servers e) = Accept a \<longleftrightarrow>
      (\<exists>acc. granted L (mschap_access_request L nas mj) servers acc \<and> a = project_addrs acc))"
  by (intro conjI pap_granting.accepts_iff_granted chap_granting.accepts_iff_granted mschap_granting.accepts_iff_granted)

end
