(* ===== verification/Auth_Acct.thy ===== *)
theory Auth_Acct
  imports Session_Base Auth_Bridge
begin

text \<open>
  RADIUS accounting: the record builder, the client with its identifiers and retransmissions
  (\<open>src/src/auth/accounting.rs\<close>), and the dispatcher (\<open>src/src/auth/acct_bridge.rs\<close>).

  Many records are in flight at once.  Each is a transaction, a task that owns the receiving end of
  a channel; the map of identifiers in flight owns the sending ends, and one reader task moves
  replies from the socket to the channels.  The tasks meet in short critical sections and at their
  suspension points, so an execution is a sequence of actions, each the code between two of these.
  The packet codec and the keyed digest of the RADIUS library are parameters.
\<close>

subsection \<open>Building a record\<close>

record acct_lib =
  al_fits :: "packet_buffer \<Rightarrow> bool"
  al_seal :: "u8 \<Rightarrow> packet_buffer \<Rightarrow> bytes \<Rightarrow> bytes"
  al_verify_response :: "bytes \<Rightarrow> bytes \<Rightarrow> bytes \<Rightarrow> bool"
  al_accounting_response :: u8

datatype acct_error =
    AcctIo
  | AcctCodec codec_error
  | AcctTimeout
  | IdentifierExhausted
  | AuthenticatorMismatch
  | UnexpectedReply u8
  | Cancelled

fun status_type :: "acct_event \<Rightarrow> u32" where
  "status_type AcctStart = 1"
| "status_type (AcctStop cause) = 2"
| "status_type AcctInterimUpdate = 3"

text \<open>The numbers of the causes are those of RFC 2866.\<close>

fun terminate_cause_code :: "acct_terminate_cause \<Rightarrow> u32" where
  "terminate_cause_code USER_REQUEST = 1"
| "terminate_cause_code LOST_CARRIER = 2"
| "terminate_cause_code IDLE_TIMEOUT = 4"
| "terminate_cause_code SESSION_TIMEOUT = 5"
| "terminate_cause_code ADMIN_RESET = 6"
| "terminate_cause_code NAS_ERROR = 9"
| "terminate_cause_code NAS_REBOOT = 11"
| "terminate_cause_code SERVICE_UNAVAILABLE = 15"

definition add_if :: "(packet_buffer \<Rightarrow> bool) \<Rightarrow> bool \<Rightarrow> attr_name \<Rightarrow> attr_value \<Rightarrow> packet_buffer \<Rightarrow> codec_error + packet_buffer" where
  "add_if fits c n v buf = (if c then add fits n v buf else Inr buf)"

definition octets_lo :: "u64 \<Rightarrow> u32" where
  "octets_lo n = ucast n"

definition octets_hi :: "u64 \<Rightarrow> u32" where
  "octets_hi n = ucast (drop_bit 32 n)"

definition add_counters :: "(packet_buffer \<Rightarrow> bool) \<Rightarrow> acct_counters \<Rightarrow> packet_buffer \<Rightarrow> codec_error + packet_buffer" where
  "add_counters fits counters buf =
     (let in_hi = octets_hi (ct_input_octets counters); out_hi = octets_hi (ct_output_octets counters) in
     try_bind (add fits AcctSessionTime (VInt (ct_session_time counters)) buf) (\<lambda>buf.
     try_bind (add fits AcctInputOctets (VInt (octets_lo (ct_input_octets counters))) buf) (\<lambda>buf.
     try_bind (add fits AcctOutputOctets (VInt (octets_lo (ct_output_octets counters))) buf) (\<lambda>buf.
     try_bind (add_if fits (in_hi \<noteq> 0) AcctInputGigawords (VInt in_hi) buf) (\<lambda>buf.
     try_bind (add_if fits (out_hi \<noteq> 0) AcctOutputGigawords (VInt out_hi) buf) (\<lambda>buf.
     try_bind (add fits AcctInputPackets (VInt (ct_input_packets counters)) buf) (\<lambda>buf.
       add fits AcctOutputPackets (VInt (ct_output_packets counters)) buf)))))))"

definition build_attrs ::
    "(packet_buffer \<Rightarrow> bool) \<Rightarrow> access_request_ctx \<Rightarrow> acct_session \<Rightarrow> acct_event \<Rightarrow> acct_counters \<Rightarrow> u32
      \<Rightarrow> codec_error + packet_buffer" where
  "build_attrs fits ctx session event counters delay_secs =
     try_bind (add fits UserName (VBytes (rq_username ctx)) []) (\<lambda>buf.
     try_bind (add_opt fits NasIpAddress (as_nas_ip session) buf) (\<lambda>buf.
     try_bind (add_opt fits NasIdentifier (rq_nas_identifier ctx) buf) (\<lambda>buf.
     try_bind (add fits NasPort (VInt (as_nas_port session)) buf) (\<lambda>buf.
     try_bind (add fits NasPortType (VInt NAS_PORT_TYPE_VIRTUAL) buf) (\<lambda>buf.
     try_bind (add fits ServiceType (VInt SERVICE_TYPE_FRAMED_USER) buf) (\<lambda>buf.
     try_bind (add fits FramedProtocol (VInt FRAMED_PROTOCOL_PPP) buf) (\<lambda>buf.
     try_bind (add fits FramedIpAddress (VBytes (as_framed_ip session)) buf) (\<lambda>buf.
     try_bind (add_opt fits CallingStationId (rq_calling_station_id ctx) buf) (\<lambda>buf.
     try_bind (add fits AcctStatusType (VInt (status_type event)) buf) (\<lambda>buf.
     try_bind (add fits AcctAuthentic (VInt (word_of_nat (as_authentic session))) buf) (\<lambda>buf.
     try_bind (add fits AcctSessionId (VBytes (ascii (as_session_id session))) buf) (\<lambda>buf.
     try_bind (add_opt fits ClassAttr (as_class session) buf) (\<lambda>buf.
     try_bind (add_if fits (delay_secs \<noteq> 0) AcctDelayTime (VInt delay_secs) buf) (\<lambda>buf.
     try_bind (if event = AcctStart then Inr buf else add_counters fits counters buf) (\<lambda>buf.
       case event of
         AcctStop cause \<Rightarrow> add fits AcctTerminateCause (VInt (terminate_cause_code cause)) buf
       | _ \<Rightarrow> Inr buf)))))))))))))))"

definition build ::
    "acct_lib \<Rightarrow> u8 \<Rightarrow> bytes \<Rightarrow> access_request_ctx \<Rightarrow> acct_session \<Rightarrow> acct_event \<Rightarrow> acct_counters \<Rightarrow> u32
      \<Rightarrow> acct_error + bytes" where
  "build L identifier secret ctx session event counters delay_secs =
     (case build_attrs (al_fits L) ctx session event counters delay_secs of
        Inl e \<Rightarrow> Inl (AcctCodec e)
      | Inr buf \<Rightarrow> Inr (al_seal L identifier buf secret))"

text \<open>A slice of the sealed request; it panics on a request shorter than a header.\<close>

definition request_authenticator_from :: "bytes \<Rightarrow> bytes option" where
  "request_authenticator_from bytes = (if length bytes < 20 then None else Some (slice 4 20 bytes))"

definition verify :: "acct_lib \<Rightarrow> bytes \<Rightarrow> bytes \<Rightarrow> bytes \<Rightarrow> acct_error + unit" where
  "verify L reply secret request_authenticator =
     (if length reply < 20 then Inl AuthenticatorMismatch
      else if reply ! 0 \<noteq> al_accounting_response L then Inl (UnexpectedReply (reply ! 0))
      else if \<not> al_verify_response L reply request_authenticator secret then Inl AuthenticatorMismatch
      else Inr ())"

subsection \<open>Identifiers\<close>

text \<open>The map holds, for each identifier in flight, the transaction at the other end of the channel.\<close>

record peer_state =
  ps_next_id :: u8
  ps_inflight :: "u8 \<rightharpoonup> nat"

definition peer_state_default :: peer_state where
  "peer_state_default = \<lparr>ps_next_id = 0, ps_inflight = Map.empty\<rparr>"

fun allocate_loop :: "nat \<Rightarrow> peer_state \<Rightarrow> u8 option \<times> peer_state" where
  "allocate_loop 0 s = (None, s)"
| "allocate_loop (Suc n) s =
     (let ident = ps_next_id s; s' = s\<lparr>ps_next_id := ident + 1\<rparr> in
      if ps_inflight s ident = None then (Some ident, s') else allocate_loop n s')"

definition allocate :: "peer_state \<Rightarrow> u8 option \<times> peer_state" where
  "allocate s = allocate_loop 256 s"

subsection \<open>Transactions\<close>

record acct_retry =
  rt_initial_timeout :: nat
  rt_max_attempts :: u32
  rt_backoff_multiplier :: u32

definition acct_retry_default :: acct_retry where
  "acct_retry_default = \<lparr>rt_initial_timeout = 1000, rt_max_attempts = 5, rt_backoff_multiplier = 2\<rparr>"

text \<open>\<open>Duration::saturating_mul\<close>, in milliseconds: the largest duration has 64 bits of seconds.\<close>

definition duration_max :: nat where "duration_max = (2 ^ 64) * 1000 - 1"

definition saturating_mul :: "nat \<Rightarrow> nat \<Rightarrow> nat" where
  "saturating_mul d k = min (d * k) duration_max"

datatype chan = ChanEmpty | ChanSent bytes | ChanClosed

datatype tx_phase =
    TxSend
  | TxWait bytes
  | TxReclaim "acct_error + unit"
  | TxDone "acct_error + unit"
  | TxPanicked

record 'p txn =
  tx_peer :: 'p
  tx_secret :: bytes
  tx_ctx :: access_request_ctx
  tx_session :: acct_session
  tx_event :: acct_event
  tx_counters :: acct_counters
  tx_id :: u8
  tx_attempt :: nat
  tx_wait :: nat
  tx_chan :: chan
  tx_phase :: tx_phase

datatype 'p acct_log = AlSent nat bytes | AlRecv 'p bytes

record 'p acct_client =
  ac_peers :: "'p \<rightharpoonup> peer_state"
  ac_txns :: "nat \<rightharpoonup> 'p txn"
  ac_log :: "'p acct_log list"

definition acct_client_bind :: "'p acct_client" where
  "acct_client_bind = \<lparr>ac_peers = Map.empty, ac_txns = Map.empty, ac_log = []\<rparr>"

definition set_txn :: "nat \<Rightarrow> 'p txn \<Rightarrow> 'p acct_client \<Rightarrow> 'p acct_client" where
  "set_txn t x c = c\<lparr>ac_txns := (ac_txns c)(t \<mapsto> x)\<rparr>"

text \<open>Dropping the sending end closes an empty channel; a value already sent stays readable.\<close>

definition drop_sender :: "nat option \<Rightarrow> 'p acct_client \<Rightarrow> 'p acct_client" where
  "drop_sender s c =
     (case s of
        None \<Rightarrow> c
      | Some t \<Rightarrow>
          (case ac_txns c t of
             Some x \<Rightarrow> if tx_chan x = ChanEmpty then set_txn t (x\<lparr>tx_chan := ChanClosed\<rparr>) c else c
           | None \<Rightarrow> c))"

text \<open>The first critical section of \<open>send\<close>, up to the call of \<open>send_inner\<close>.\<close>

definition send_begin :: "acct_retry \<Rightarrow> nat \<Rightarrow> 'p txn \<Rightarrow> 'p acct_client \<Rightarrow> 'p acct_client" where
  "send_begin retry t x c =
     (let slot = (case ac_peers c (tx_peer x) of Some s \<Rightarrow> s | None \<Rightarrow> peer_state_default) in
      case allocate slot of
        (None, slot') \<Rightarrow>
          set_txn t (x\<lparr>tx_phase := TxDone (Inl IdentifierExhausted)\<rparr>)
            (c\<lparr>ac_peers := (ac_peers c)(tx_peer x \<mapsto> slot')\<rparr>)
      | (Some ident, slot') \<Rightarrow>
          set_txn t (x\<lparr>tx_id := ident, tx_attempt := 0, tx_wait := rt_initial_timeout retry, tx_chan := ChanEmpty,
              tx_phase := TxSend\<rparr>)
            (drop_sender (ps_inflight slot' ident)
              (c\<lparr>ac_peers := (ac_peers c)(tx_peer x \<mapsto> slot'\<lparr>ps_inflight := (ps_inflight slot')(ident \<mapsto> t)\<rparr>)\<rparr>)))"

text \<open>One iteration of the loop of \<open>send_inner\<close>, up to the wait for a reply.\<close>

definition transmit :: "acct_lib \<Rightarrow> nat \<Rightarrow> u32 \<Rightarrow> bool \<Rightarrow> 'p txn \<Rightarrow> 'p acct_client \<Rightarrow> 'p acct_client" where
  "transmit L t delay_secs io_ok x c =
     (case build L (tx_id x) (tx_secret x) (tx_ctx x) (tx_session x) (tx_event x) (tx_counters x) delay_secs of
        Inl e \<Rightarrow> set_txn t (x\<lparr>tx_phase := TxReclaim (Inl e)\<rparr>) c
      | Inr bytes \<Rightarrow>
          if io_ok
          then set_txn t (x\<lparr>tx_phase := TxWait bytes\<rparr>) (c\<lparr>ac_log := ac_log c @ [AlSent t bytes]\<rparr>)
          else set_txn t (x\<lparr>tx_phase := TxReclaim (Inl AcctIo)\<rparr>) c)"

definition attempts :: "acct_retry \<Rightarrow> nat" where
  "attempts retry = max (unat (rt_max_attempts retry)) 1"

text \<open>
  The end of the wait: a reply or the loss of the sender ends the transaction, the timer starts the
  next iteration, or ends the loop.  The channel is looked at before the timer.
\<close>

definition wait_over :: "acct_lib \<Rightarrow> acct_retry \<Rightarrow> nat \<Rightarrow> bytes \<Rightarrow> 'p txn \<Rightarrow> 'p acct_client \<Rightarrow> 'p acct_client" where
  "wait_over L retry t req x c =
     (case tx_chan x of
        ChanSent reply \<Rightarrow>
          (case request_authenticator_from req of
             Some ra \<Rightarrow> set_txn t (x\<lparr>tx_phase := TxReclaim (verify L reply (tx_secret x) ra)\<rparr>) c
           | None \<Rightarrow> set_txn t (x\<lparr>tx_phase := TxPanicked\<rparr>) c)
      | ChanClosed \<Rightarrow> set_txn t (x\<lparr>tx_phase := TxReclaim (Inl Cancelled)\<rparr>) c
      | ChanEmpty \<Rightarrow>
          if tx_attempt x + 1 < attempts retry
          then set_txn t (x\<lparr>tx_attempt := tx_attempt x + 1, tx_phase := TxSend,
                 tx_wait := saturating_mul (tx_wait x) (max (unat (rt_backoff_multiplier retry)) 1)\<rparr>) c
          else set_txn t (x\<lparr>tx_attempt := tx_attempt x + 1, tx_phase := TxReclaim (Inl AcctTimeout)\<rparr>) c)"

text \<open>The second critical section of \<open>send\<close>.\<close>

definition reclaim :: "nat \<Rightarrow> (acct_error + unit) \<Rightarrow> 'p txn \<Rightarrow> 'p acct_client \<Rightarrow> 'p acct_client" where
  "reclaim t result x c =
     (let c = set_txn t (x\<lparr>tx_phase := TxDone result\<rparr>) c in
      case ac_peers c (tx_peer x) of
        None \<Rightarrow> c
      | Some slot \<Rightarrow>
          drop_sender (ps_inflight slot (tx_id x))
            (c\<lparr>ac_peers := (ac_peers c)(tx_peer x \<mapsto> slot\<lparr>ps_inflight := (ps_inflight slot)(tx_id x := None)\<rparr>)\<rparr>))"

definition deliver :: "nat option \<Rightarrow> bytes \<Rightarrow> 'p acct_client \<Rightarrow> 'p acct_client" where
  "deliver waiter datagram c =
     (case waiter of
        None \<Rightarrow> c
      | Some t \<Rightarrow>
          (case ac_txns c t of
             Some x \<Rightarrow> set_txn t (x\<lparr>tx_chan := ChanSent datagram\<rparr>) c
           | None \<Rightarrow> c))"

text \<open>One iteration of \<open>reader_loop\<close>; the buffer holds the first 4096 bytes of a datagram.\<close>

definition reader_step :: "'p \<Rightarrow> bytes \<Rightarrow> 'p acct_client \<Rightarrow> 'p acct_client" where
  "reader_step peer datagram c0 =
     (let datagram = take 4096 datagram; c = c0\<lparr>ac_log := ac_log c0 @ [AlRecv peer datagram]\<rparr> in
      if 20 \<le> length datagram
      then (let ident = datagram ! 1 in
            case ac_peers c peer of
              None \<Rightarrow> c
            | Some slot \<Rightarrow>
                deliver (ps_inflight slot ident) datagram
                  (c\<lparr>ac_peers := (ac_peers c)(peer \<mapsto> slot\<lparr>ps_inflight := (ps_inflight slot)(ident := None)\<rparr>)\<rparr>))
      else c)"

datatype 'p acct_action =
    ActSend nat 'p bytes access_request_ctx acct_session acct_event acct_counters
  | ActTransmit nat u32 bool
  | ActWaitOver nat
  | ActReclaim nat
  | ActDatagram 'p bytes

definition new_txn :: "'p \<Rightarrow> bytes \<Rightarrow> access_request_ctx \<Rightarrow> acct_session \<Rightarrow> acct_event \<Rightarrow> acct_counters \<Rightarrow> 'p txn" where
  "new_txn peer secret ctx session event counters =
     \<lparr>tx_peer = peer, tx_secret = secret, tx_ctx = ctx, tx_session = session, tx_event = event,
      tx_counters = counters, tx_id = 0, tx_attempt = 0, tx_wait = 0, tx_chan = ChanClosed, tx_phase = TxSend\<rparr>"

text \<open>One action, where it is possible.\<close>

fun acct_step :: "acct_lib \<Rightarrow> acct_retry \<Rightarrow> 'p acct_action \<Rightarrow> 'p acct_client \<Rightarrow> 'p acct_client option" where
  "acct_step L retry (ActSend t peer secret ctx session event counters) c =
     (if ac_txns c t = None then Some (send_begin retry t (new_txn peer secret ctx session event counters) c)
      else None)"
| "acct_step L retry (ActTransmit t delay_secs io_ok) c =
     (case ac_txns c t of
        Some x \<Rightarrow> if tx_phase x = TxSend then Some (transmit L t delay_secs io_ok x c) else None
      | None \<Rightarrow> None)"
| "acct_step L retry (ActWaitOver t) c =
     (case ac_txns c t of
        Some x \<Rightarrow> (case tx_phase x of TxWait req \<Rightarrow> Some (wait_over L retry t req x c) | _ \<Rightarrow> None)
      | None \<Rightarrow> None)"
| "acct_step L retry (ActReclaim t) c =
     (case ac_txns c t of
        Some x \<Rightarrow> (case tx_phase x of TxReclaim r \<Rightarrow> Some (reclaim t r x c) | _ \<Rightarrow> None)
      | None \<Rightarrow> None)"
| "acct_step L retry (ActDatagram peer datagram) c = Some (reader_step peer datagram c)"

fun acct_run :: "acct_lib \<Rightarrow> acct_retry \<Rightarrow> 'p acct_action list \<Rightarrow> 'p acct_client \<Rightarrow> 'p acct_client option" where
  "acct_run L retry [] c = Some c"
| "acct_run L retry (a # as) c = (case acct_step L retry a c of Some c' \<Rightarrow> acct_run L retry as c' | None \<Rightarrow> None)"

inductive acct_reachable :: "acct_lib \<Rightarrow> acct_retry \<Rightarrow> 'p acct_client \<Rightarrow> bool" for L retry where
  init: "acct_reachable L retry acct_client_bind"
| step: "acct_reachable L retry c \<Longrightarrow> acct_step L retry a c = Some c' \<Longrightarrow> acct_reachable L retry c'"

subsection \<open>Identifiers are fresh\<close>

lemma allocate_loop_fresh:
  "allocate_loop n s = (Some i, s') \<Longrightarrow> ps_inflight s i = None \<and> ps_inflight s' = ps_inflight s"
  by (induction n s rule: allocate_loop.induct) (auto simp: Let_def split: if_splits)

lemma allocate_loop_none:
  "allocate_loop n s = (None, s') \<Longrightarrow>
     ps_inflight s' = ps_inflight s \<and> (\<forall>k < n. ps_inflight s (ps_next_id s + word_of_nat k) \<noteq> None)"
proof (induction n arbitrary: s)
  case (Suc n)
  let ?s = "s\<lparr>ps_next_id := ps_next_id s + 1\<rparr>"
  from Suc.prems have n: "ps_inflight s (ps_next_id s) \<noteq> None" and "allocate_loop n ?s = (None, s')"
    by (auto simp: Let_def split: if_splits)
  from Suc.IH [OF this(2)] have e: "ps_inflight s' = ps_inflight s"
    and a: "\<And>k. k < n \<Longrightarrow> ps_inflight s (ps_next_id s + 1 + word_of_nat k) \<noteq> None" by auto
  have "ps_inflight s (ps_next_id s + word_of_nat k) \<noteq> None" if "k < Suc n" for k
  proof (cases k)
    case (Suc m)
    with that a [of m] show ?thesis by (simp add: add.assoc)
  qed (use n in simp)
  with e show ?case by blast
qed simp

lemma allocate_fresh: "allocate s = (Some i, s') \<Longrightarrow> ps_inflight s i = None \<and> ps_inflight s' = ps_inflight s"
  unfolding allocate_def by (rule allocate_loop_fresh)

lemma allocate_exhausted:
  assumes "allocate s = (None, s')"
  shows "ps_inflight s' = ps_inflight s \<and> dom (ps_inflight s) = UNIV"
proof -
  note a = allocate_loop_none [OF assms [unfolded allocate_def]]
  have "ps_inflight s i \<noteq> None" for i
  proof -
    let ?k = "unat (i - ps_next_id s)"
    have "?k < 256" by simp
    with a have "ps_inflight s (ps_next_id s + word_of_nat ?k) \<noteq> None" by blast
    then show ?thesis by simp
  qed
  with a show ?thesis by auto
qed

subsection \<open>Invariant of the client\<close>

definition sends :: "nat \<Rightarrow> 'p acct_log list \<Rightarrow> nat" where
  "sends t lg = length (filter (\<lambda>e. case e of AlSent u _ \<Rightarrow> u = t | AlRecv _ _ \<Rightarrow> False) lg)"

lemma sends_simps [simp]:
  "sends t [] = 0" "sends t (lg @ [AlRecv p b]) = sends t lg"
  "sends t (lg @ [AlSent u b]) = sends t lg + (if u = t then 1 else 0)"
  by (simp_all add: sends_def)

text \<open>The reply that lets a transaction succeed.\<close>

definition acknowledged :: "acct_lib \<Rightarrow> 'p acct_log list \<Rightarrow> nat \<Rightarrow> 'p txn \<Rightarrow> bool" where
  "acknowledged L lg t x \<longleftrightarrow>
     (\<exists>req delay_secs reply ra.
        build L (tx_id x) (tx_secret x) (tx_ctx x) (tx_session x) (tx_event x) (tx_counters x) delay_secs = Inr req
      \<and> AlSent t req \<in> set lg \<and> AlRecv (tx_peer x) reply \<in> set lg
      \<and> 20 \<le> length reply \<and> reply ! 0 = al_accounting_response L \<and> reply ! 1 = tx_id x
      \<and> request_authenticator_from req = Some ra \<and> al_verify_response L reply ra (tx_secret x))"

text \<open>What the codec promises of a sealed packet: it has a header.\<close>

definition sealed :: "acct_lib \<Rightarrow> bool" where
  "sealed L \<longleftrightarrow> (\<forall>identifier buf secret. 20 \<le> length (al_seal L identifier buf secret))"

definition txn_inv :: "acct_lib \<Rightarrow> acct_retry \<Rightarrow> 'p acct_log list \<Rightarrow> nat \<Rightarrow> 'p txn \<Rightarrow> bool" where
  "txn_inv L retry lg t x \<longleftrightarrow>
     (case tx_phase x of
        TxSend \<Rightarrow> sends t lg = tx_attempt x \<and> tx_attempt x < attempts retry
      | TxWait req \<Rightarrow> sends t lg = tx_attempt x + 1 \<and> tx_attempt x < attempts retry \<and> AlSent t req \<in> set lg
          \<and> (\<exists>delay_secs. build L (tx_id x) (tx_secret x) (tx_ctx x) (tx_session x) (tx_event x) (tx_counters x)
               delay_secs = Inr req)
      | TxReclaim r \<Rightarrow> sends t lg \<le> attempts retry \<and> (r = Inr () \<longrightarrow> acknowledged L lg t x)
      | TxDone r \<Rightarrow> sends t lg \<le> attempts retry \<and> (r = Inr () \<longrightarrow> acknowledged L lg t x)
      | TxPanicked \<Rightarrow> sends t lg \<le> attempts retry \<and> \<not> sealed L)
   \<and> (\<forall>d. tx_chan x = ChanSent d \<longrightarrow> AlRecv (tx_peer x) d \<in> set lg \<and> 20 \<le> length d \<and> d ! 1 = tx_id x)"

fun tx_over :: "tx_phase \<Rightarrow> bool" where
  "tx_over (TxDone r) = True"
| "tx_over _ = False"

definition registered_ok :: "'p acct_client \<Rightarrow> bool" where
  "registered_ok c \<longleftrightarrow>
     (\<forall>p slot i t. ac_peers c p = Some slot \<and> ps_inflight slot i = Some t \<longrightarrow>
        (\<exists>x. ac_txns c t = Some x \<and> tx_peer x = p \<and> tx_id x = i \<and> tx_chan x = ChanEmpty \<and> \<not> tx_over (tx_phase x)))"

definition acct_inv :: "acct_lib \<Rightarrow> acct_retry \<Rightarrow> 'p acct_client \<Rightarrow> bool" where
  "acct_inv L retry c \<longleftrightarrow>
     registered_ok c \<and> (\<forall>t. case ac_txns c t of
        Some x \<Rightarrow> txn_inv L retry (ac_log c) t x | None \<Rightarrow> sends t (ac_log c) = 0)"

lemma acct_invI:
  "registered_ok c \<Longrightarrow> (\<And>t x. ac_txns c t = Some x \<Longrightarrow> txn_inv L retry (ac_log c) t x) \<Longrightarrow>
     (\<And>t. ac_txns c t = None \<Longrightarrow> sends t (ac_log c) = 0) \<Longrightarrow> acct_inv L retry c"
  by (simp add: acct_inv_def split: option.split)

lemma acct_inv_registered: "acct_inv L retry c \<Longrightarrow> registered_ok c"
  by (simp add: acct_inv_def)

lemma acct_invD: "acct_inv L retry c \<Longrightarrow> ac_txns c t = Some x \<Longrightarrow> txn_inv L retry (ac_log c) t x"
  by (auto simp: acct_inv_def split: option.splits dest: spec [of _ t])

lemma acct_inv_new: "acct_inv L retry c \<Longrightarrow> ac_txns c t = None \<Longrightarrow> sends t (ac_log c) = 0"
  by (auto simp: acct_inv_def split: option.splits dest: spec [of _ t])

lemma registeredD:
  "registered_ok c \<Longrightarrow> ac_peers c p = Some slot \<Longrightarrow> ps_inflight slot i = Some t \<Longrightarrow>
     \<exists>x. ac_txns c t = Some x \<and> tx_peer x = p \<and> tx_id x = i \<and> tx_chan x = ChanEmpty \<and> \<not> tx_over (tx_phase x)"
  unfolding registered_ok_def by blast

lemma acknowledged_mono: "acknowledged L lg t x \<Longrightarrow> set lg \<subseteq> set lg' \<Longrightarrow> acknowledged L lg' t x"
  unfolding acknowledged_def by blast

lemma acknowledged_cong [simp]:
  "acknowledged L lg t (x\<lparr>tx_phase := ph\<rparr>) = acknowledged L lg t x"
  "acknowledged L lg t (x\<lparr>tx_chan := ch\<rparr>) = acknowledged L lg t x"
  "acknowledged L lg t (x\<lparr>tx_attempt := n\<rparr>) = acknowledged L lg t x"
  "acknowledged L lg t (x\<lparr>tx_wait := n\<rparr>) = acknowledged L lg t x"
  by (simp_all add: acknowledged_def)

lemma txn_inv_log:
  "txn_inv L retry lg t x \<Longrightarrow> sends t (lg @ [e]) = sends t lg \<Longrightarrow> txn_inv L retry (lg @ [e]) t x"
  unfolding txn_inv_def
  by (auto split: tx_phase.splits intro: acknowledged_mono)

lemma txn_inv_closed: "txn_inv L retry lg t x \<Longrightarrow> txn_inv L retry lg t (x\<lparr>tx_chan := ChanClosed\<rparr>)"
  by (auto simp: txn_inv_def split: tx_phase.splits)

lemma txn_inv_sent:
  "txn_inv L retry lg t x \<Longrightarrow> AlRecv (tx_peer x) d \<in> set lg \<Longrightarrow> 20 \<le> length d \<Longrightarrow> d ! 1 = tx_id x \<Longrightarrow>
     txn_inv L retry lg t (x\<lparr>tx_chan := ChanSent d\<rparr>)"
  by (auto simp: txn_inv_def split: tx_phase.splits)

lemma attempts_pos [simp]: "0 < attempts retry"
  by (simp add: attempts_def)

lemma acct_inv_own:
  assumes inv: "acct_inv L retry c" and x: "ac_txns c t = Some x"
    and same: "tx_peer x' = tx_peer x" "tx_id x' = tx_id x" "tx_chan x' = tx_chan x" "\<not> tx_over (tx_phase x')"
    and lg: "lg = ac_log c \<or> (\<exists>b. lg = ac_log c @ [AlSent t b])"
    and own: "txn_inv L retry lg t x'"
  shows "acct_inv L retry (set_txn t x' (c\<lparr>ac_log := lg\<rparr>))"
  unfolding acct_inv_def
proof (intro conjI allI)
  have "registered_ok c" using inv by (simp add: acct_inv_def)
  with x same show "registered_ok (set_txn t x' (c\<lparr>ac_log := lg\<rparr>))"
    by (fastforce simp: registered_ok_def set_txn_def)
next
  fix u
  show "case ac_txns (set_txn t x' (c\<lparr>ac_log := lg\<rparr>)) u of
      None \<Rightarrow> sends u (ac_log (set_txn t x' (c\<lparr>ac_log := lg\<rparr>))) = 0
    | Some y \<Rightarrow> txn_inv L retry (ac_log (set_txn t x' (c\<lparr>ac_log := lg\<rparr>))) u y"
    using own lg acct_invD [OF inv, of u] acct_inv_new [OF inv, of u]
    by (auto simp: set_txn_def intro: txn_inv_log split: option.split)
qed

lemma transmit_inv:
  assumes inv: "acct_inv L retry c" and x: "ac_txns c t = Some x" "tx_phase x = TxSend"
  shows "acct_inv L retry (transmit L t delay_secs io_ok x c)"
proof -
  note i = acct_invD [OF inv x(1)]
  have err: "acct_inv L retry (set_txn t (x\<lparr>tx_phase := TxReclaim (Inl e)\<rparr>) c)" for e
    using acct_inv_own [OF inv x(1), of "x\<lparr>tx_phase := TxReclaim (Inl e)\<rparr>" "ac_log c"] i x(2)
    by (simp add: txn_inv_def)
  show ?thesis
  proof (cases "build L (tx_id x) (tx_secret x) (tx_ctx x) (tx_session x) (tx_event x) (tx_counters x) delay_secs")
    case (Inr req)
    have "acct_inv L retry (set_txn t (x\<lparr>tx_phase := TxWait req\<rparr>) (c\<lparr>ac_log := ac_log c @ [AlSent t req]\<rparr>))"
      by (rule acct_inv_own [OF inv x(1)]) (use i x(2) Inr in \<open>auto simp: txn_inv_def\<close>)
    with Inr err show ?thesis by (simp add: transmit_def)
  qed (simp add: transmit_def err)
qed

lemma verify_Inr: "verify L reply secret ra = Inr () \<longleftrightarrow>
    20 \<le> length reply \<and> reply ! 0 = al_accounting_response L \<and> al_verify_response L reply ra secret"
  by (simp add: verify_def)

lemma build_sealed:
  "build L identifier secret ctx session event counters delay_secs = Inr req \<Longrightarrow> sealed L \<Longrightarrow>
     \<exists>ra. request_authenticator_from req = Some ra"
  by (auto simp: sealed_def build_def request_authenticator_from_def not_less split: sum.splits)

lemma wait_over_inv:
  assumes inv: "acct_inv L retry c" and x: "ac_txns c t = Some x" "tx_phase x = TxWait req"
  shows "acct_inv L retry (wait_over L retry t req x c)"
proof -
  note i = acct_invD [OF inv x(1), unfolded txn_inv_def x(2)]
  have own: "acct_inv L retry (set_txn t x' c)" if "tx_peer x' = tx_peer x" "tx_id x' = tx_id x"
    "tx_chan x' = tx_chan x" "\<not> tx_over (tx_phase x')" "txn_inv L retry (ac_log c) t x'" for x'
    using acct_inv_own [OF inv x(1) that(1-4) _ that(5)] by simp
  show ?thesis
  proof (cases "tx_chan x")
    case (ChanSent d)
    show ?thesis
    proof (cases "request_authenticator_from req")
      case (Some ra)
      have "verify L d (tx_secret x) ra = Inr () \<longrightarrow> acknowledged L (ac_log c) t x"
        unfolding acknowledged_def verify_Inr using i ChanSent Some by auto
      then show ?thesis using ChanSent Some i
        by (simp add: wait_over_def) (rule own, auto simp: txn_inv_def)
    next
      case None
      with i have "\<not> sealed L" by (auto dest: build_sealed)
      with None ChanSent i show ?thesis
        by (simp add: wait_over_def) (rule own, auto simp: txn_inv_def)
    qed
  qed (use i in \<open>auto simp: wait_over_def txn_inv_def intro!: own\<close>)
qed

definition registered :: "'p acct_client \<Rightarrow> nat \<Rightarrow> bool" where
  "registered c t \<longleftrightarrow> (\<exists>p slot i. ac_peers c p = Some slot \<and> ps_inflight slot i = Some t)"

definition unregister :: "'p \<Rightarrow> u8 \<Rightarrow> peer_state \<Rightarrow> 'p acct_client \<Rightarrow> 'p acct_client" where
  "unregister p i slot c = c\<lparr>ac_peers := (ac_peers c)(p \<mapsto> slot\<lparr>ps_inflight := (ps_inflight slot)(i := None)\<rparr>)\<rparr>"

lemma unregister_simps [simp]:
  "ac_txns (unregister p i slot c) = ac_txns c" "ac_log (unregister p i slot c) = ac_log c"
  by (simp_all add: unregister_def)

lemma unregister_inv:
  assumes inv: "acct_inv L retry c" and p: "ac_peers c p = Some slot"
  shows "acct_inv L retry (unregister p i slot c)"
proof (rule acct_invI)
  show "registered_ok (unregister p i slot c)" unfolding registered_ok_def
  proof (intro allI impI, elim conjE)
    fix q s j t assume "ac_peers (unregister p i slot c) q = Some s" "ps_inflight s j = Some t"
    with p have "\<exists>s. ac_peers c q = Some s \<and> ps_inflight s j = Some t" by (auto simp: unregister_def split: if_splits)
    then show "\<exists>x. ac_txns (unregister p i slot c) t = Some x \<and> tx_peer x = q \<and> tx_id x = j \<and> tx_chan x = ChanEmpty
        \<and> \<not> tx_over (tx_phase x)"
      using registeredD [OF acct_inv_registered [OF inv]] by auto
  qed
qed (use acct_invD [OF inv] acct_inv_new [OF inv] in simp_all)

lemma unregister_registered:
  "registered (unregister p i slot c) t \<Longrightarrow> ac_peers c p = Some slot \<Longrightarrow>
     \<exists>q s j. ac_peers c q = Some s \<and> ps_inflight s j = Some t \<and> (q, j) \<noteq> (p, i)"
  by (auto simp: registered_def unregister_def split: if_splits)

lemma unregister_gone:
  assumes reg: "registered_ok c" and p: "ac_peers c p = Some slot" and x: "ac_txns c t = Some x" "tx_peer x = p" "tx_id x = i"
  shows "\<not> registered (unregister p i slot c) t"
proof
  assume "registered (unregister p i slot c) t"
  from unregister_registered [OF this p] obtain q s j where "ac_peers c q = Some s" "ps_inflight s j = Some t" "(q, j) \<noteq> (p, i)"
    by blast
  with registeredD [OF reg, of q s j t] x show False by auto
qed

lemma unregister_entry_gone:
  assumes reg: "registered_ok c" and p: "ac_peers c p = Some slot" and t: "ps_inflight slot i = Some t"
  shows "\<not> registered (unregister p i slot c) t"
  using registeredD [OF reg p t] unregister_gone [OF reg p] by blast

lemma set_unregistered_inv:
  assumes inv: "acct_inv L retry c" and "ac_txns c t = Some x" and t: "\<not> registered c t"
    and x': "txn_inv L retry (ac_log c) t x'"
  shows "acct_inv L retry (set_txn t x' c)"
proof (rule acct_invI)
  show "registered_ok (set_txn t x' c)" unfolding registered_ok_def
  proof (intro allI impI, elim conjE)
    fix p s i u assume "ac_peers (set_txn t x' c) p = Some s" "ps_inflight s i = Some u"
    then have r: "ac_peers c p = Some s" "ps_inflight s i = Some u" by (simp_all add: set_txn_def)
    with t have "u \<noteq> t" by (auto simp: registered_def)
    with registeredD [OF acct_inv_registered [OF inv] r]
    show "\<exists>x. ac_txns (set_txn t x' c) u = Some x \<and> tx_peer x = p \<and> tx_id x = i \<and> tx_chan x = ChanEmpty
        \<and> \<not> tx_over (tx_phase x)" by (simp add: set_txn_def)
  qed
qed (use x' acct_invD [OF inv] acct_inv_new [OF inv] in \<open>auto simp: set_txn_def split: if_splits\<close>)

lemma drop_sender_inv:
  assumes inv: "acct_inv L retry c" and s: "\<And>t. s = Some t \<Longrightarrow> \<not> registered c t"
  shows "acct_inv L retry (drop_sender s c)"
proof (cases s)
  case (Some t)
  show ?thesis
  proof (cases "ac_txns c t")
    case (Some x)
    from acct_invD [OF inv Some] have "txn_inv L retry (ac_log c) t (x\<lparr>tx_chan := ChanClosed\<rparr>)"
      by (rule txn_inv_closed)
    from set_unregistered_inv [OF inv Some s [OF \<open>s = Some t\<close>] this] inv Some \<open>s = Some t\<close>
    show ?thesis by (simp add: drop_sender_def)
  qed (simp add: drop_sender_def Some inv)
qed (simp add: drop_sender_def inv)

lemma reclaim_inv:
  assumes inv: "acct_inv L retry c" and x: "ac_txns c t = Some x" "tx_phase x = TxReclaim r"
  shows "acct_inv L retry (reclaim t r x c)"
proof -
  let ?x = "x\<lparr>tx_phase := TxDone r\<rparr>"
  have reg: "registered_ok c" using inv by (simp add: acct_inv_def)
  have own: "txn_inv L retry (ac_log c) t ?x" using acct_invD [OF inv x(1)] x(2) by (simp add: txn_inv_def)
  show ?thesis
  proof (cases "ac_peers c (tx_peer x)")
    case None
    with reg x(1) have "\<not> registered c t" by (fastforce simp: registered_def registered_ok_def)
    from set_unregistered_inv [OF inv x(1) this own] None show ?thesis
      by (simp add: reclaim_def set_txn_def)
  next
    case (Some slot)
    let ?c = "unregister (tx_peer x) (tx_id x) slot c"
    let ?c' = "set_txn t ?x ?c"
    have gone: "\<not> registered ?c t" using unregister_gone [OF reg Some x(1)] by simp
    have "acct_inv L retry ?c'"
      using set_unregistered_inv [OF unregister_inv [OF inv Some] _ gone] x(1) own by simp
    moreover have "\<not> registered ?c' u" if "ps_inflight slot (tx_id x) = Some u" for u
      using unregister_entry_gone [OF reg Some that] by (simp add: registered_def set_txn_def)
    ultimately have "acct_inv L retry (drop_sender (ps_inflight slot (tx_id x)) ?c')" by (rule drop_sender_inv)
    moreover have "reclaim t r x c = drop_sender (ps_inflight slot (tx_id x)) ?c'"
      using Some by (cases c) (simp add: reclaim_def set_txn_def unregister_def)
    ultimately show ?thesis by simp
  qed
qed

lemma recv_inv: "acct_inv L retry c \<Longrightarrow> acct_inv L retry (c\<lparr>ac_log := ac_log c @ [AlRecv p d]\<rparr>)"
  by (rule acct_invI) (auto simp: registered_ok_def intro: txn_inv_log dest: acct_invD acct_inv_new registeredD [OF acct_inv_registered])

lemma reader_step_inv:
  assumes "acct_inv L retry c0"
  shows "acct_inv L retry (reader_step peer datagram c0)"
proof -
  let ?d = "take 4096 datagram" and ?c = "c0\<lparr>ac_log := ac_log c0 @ [AlRecv peer (take 4096 datagram)]\<rparr>"
  have inv: "acct_inv L retry ?c" using assms by (rule recv_inv)
  then have reg: "registered_ok ?c" by (simp add: acct_inv_def)
  show ?thesis
  proof (cases "20 \<le> length ?d")
    case long: True
    show ?thesis
    proof (cases "ac_peers c0 peer")
      case (Some slot)
      then have slot: "ac_peers ?c peer = Some slot" by simp
      let ?c' = "unregister peer (?d ! 1) slot ?c"
      have r: "reader_step peer datagram c0 = deliver (ps_inflight slot (?d ! 1)) ?d ?c'"
        using Some long by (simp add: reader_step_def unregister_def Let_def)
      show ?thesis
      proof (cases "ps_inflight slot (?d ! 1)")
        case None
        then show ?thesis using unregister_inv [OF inv slot] r by (simp add: deliver_def)
      next
        case t: (Some t)
        from registeredD [OF reg slot t] obtain x where x: "ac_txns ?c' t = Some x" "tx_peer x = peer" "tx_id x = ?d ! 1"
          by auto
        from txn_inv_sent [OF acct_invD [OF unregister_inv [OF inv slot] x(1)], of ?d] x long
        have "txn_inv L retry (ac_log ?c') t (x\<lparr>tx_chan := ChanSent ?d\<rparr>)" by simp
        from set_unregistered_inv [OF unregister_inv [OF inv slot] x(1) unregister_entry_gone [OF reg slot t] this] r t x(1)
        show ?thesis by (simp add: deliver_def)
      qed
    qed (use long inv in \<open>simp add: reader_step_def\<close>)
  qed (use inv in \<open>simp add: reader_step_def\<close>)
qed

lemma send_begin_inv:
  assumes inv: "acct_inv L retry c" and t: "ac_txns c t = None"
  shows "acct_inv L retry (send_begin retry t (new_txn peer secret ctx session event counters) c)"
proof -
  let ?slot = "case ac_peers c peer of Some s \<Rightarrow> s | None \<Rightarrow> peer_state_default"
  have z: "sends t (ac_log c) = 0" using inv t by (rule acct_inv_new)
  have reg: "registered_ok c" using inv by (simp add: acct_inv_def)
  have slot: "ps_inflight ?slot i = Some u \<Longrightarrow> \<exists>s. ac_peers c peer = Some s \<and> ps_inflight s i = Some u" for i u
    by (cases "ac_peers c peer") (simp_all add: peer_state_default_def)
  have other: "(case ac_txns (set_txn t x (c\<lparr>ac_peers := ps\<rparr>)) u of
      Some y \<Rightarrow> txn_inv L retry (ac_log (set_txn t x (c\<lparr>ac_peers := ps\<rparr>))) u y
    | None \<Rightarrow> sends u (ac_log (set_txn t x (c\<lparr>ac_peers := ps\<rparr>))) = 0)"
    if "txn_inv L retry (ac_log c) t x" for x ps u
    using that acct_invD [OF inv, of u] acct_inv_new [OF inv, of u] by (auto simp: set_txn_def split: option.split)
  obtain r slot' where a: "allocate ?slot = (r, slot')" by fastforce
  show ?thesis
  proof (cases r)
    case None
    then have i: "ps_inflight slot' = ps_inflight ?slot" using a allocate_exhausted by auto
    let ?x = "new_txn peer secret ctx session event counters\<lparr>tx_phase := TxDone (Inl IdentifierExhausted)\<rparr>"
    let ?c = "set_txn t ?x (c\<lparr>ac_peers := (ac_peers c)(peer \<mapsto> slot')\<rparr>)"
    have "registered_ok ?c" unfolding registered_ok_def
    proof (intro allI impI, elim conjE)
      fix p s j u assume "ac_peers ?c p = Some s" "ps_inflight s j = Some u"
      then have "\<exists>s. ac_peers c p = Some s \<and> ps_inflight s j = Some u"
        using slot [of j u] i by (auto simp: set_txn_def split: if_splits)
      then show "\<exists>x. ac_txns ?c u = Some x \<and> tx_peer x = p \<and> tx_id x = j \<and> tx_chan x = ChanEmpty \<and> \<not> tx_over (tx_phase x)"
        using registeredD [OF reg] t by (fastforce simp: set_txn_def)
    qed
    moreover have "txn_inv L retry (ac_log c) t ?x" by (simp add: txn_inv_def new_txn_def z)
    ultimately have "acct_inv L retry ?c" unfolding acct_inv_def using other by blast
    then show ?thesis using None a by (simp add: send_begin_def new_txn_def)
  next
    case (Some j)
    with a allocate_fresh have f: "ps_inflight ?slot j = None" and i: "ps_inflight slot' = ps_inflight ?slot" by auto
    let ?x = "new_txn peer secret ctx session event counters\<lparr>tx_id := j, tx_attempt := 0,
      tx_wait := rt_initial_timeout retry, tx_chan := ChanEmpty, tx_phase := TxSend\<rparr>"
    let ?c = "set_txn t ?x (c\<lparr>ac_peers := (ac_peers c)(peer \<mapsto> slot'\<lparr>ps_inflight := (ps_inflight slot')(j \<mapsto> t)\<rparr>)\<rparr>)"
    have "registered_ok ?c" unfolding registered_ok_def
    proof (intro allI impI, elim conjE)
      fix p s k u assume "ac_peers ?c p = Some s" "ps_inflight s k = Some u"
      then have "p = peer \<and> k = j \<and> u = t \<or> (\<exists>s. ac_peers c p = Some s \<and> ps_inflight s k = Some u)"
        using slot [of k u] i by (cases "k = j") (auto simp: set_txn_def split: if_splits)
      then show "\<exists>x. ac_txns ?c u = Some x \<and> tx_peer x = p \<and> tx_id x = k \<and> tx_chan x = ChanEmpty \<and> \<not> tx_over (tx_phase x)"
        using registeredD [OF reg] t by (fastforce simp: set_txn_def new_txn_def)
    qed
    moreover have "txn_inv L retry (ac_log c) t ?x" by (simp add: txn_inv_def new_txn_def z)
    ultimately have "acct_inv L retry ?c" unfolding acct_inv_def using other by blast
    moreover have "ps_inflight slot' j = None" using f i by simp
    ultimately show ?thesis using Some a by (simp add: send_begin_def new_txn_def drop_sender_def)
  qed
qed

lemma acct_step_inv: "acct_inv L retry c \<Longrightarrow> acct_step L retry a c = Some c' \<Longrightarrow> acct_inv L retry c'"
  by (cases a)
    (auto intro: send_begin_inv transmit_inv wait_over_inv reclaim_inv reader_step_inv
      split: option.splits if_splits tx_phase.splits)

lemma acct_bind_inv: "acct_inv L retry acct_client_bind"
  by (simp add: acct_inv_def registered_ok_def acct_client_bind_def)

lemma acct_reachable_inv: "acct_reachable L retry c \<Longrightarrow> acct_inv L retry c"
  by (induction rule: acct_reachable.induct) (auto intro: acct_bind_inv acct_step_inv)

text \<open>
  C11 (safety).  In every interleaving of any number of transactions, of the reader and of the network,
  a record is reported as delivered only if the server it was sent to answered: a datagram came from
  that peer, it is an Accounting-Response with the identifier of this transaction, and its
  authenticator verifies, under the secret of that server, against the authenticator of a request that
  this transaction built and sent.
\<close>

theorem acct_ok_verified:
  assumes "acct_reachable L retry c" and "ac_txns c t = Some x" and "tx_phase x = TxDone (Inr ())"
  shows "acknowledged L (ac_log c) t x"
  using acct_invD [OF acct_reachable_inv [OF assms(1)] assms(2)] assms(3) by (simp add: txn_inv_def)

subsection \<open>Every transaction ends\<close>

fun owns :: "nat \<Rightarrow> 'p acct_action \<Rightarrow> bool" where
  "owns t (ActTransmit u _ _) = (u = t)"
| "owns t (ActWaitOver u) = (u = t)"
| "owns t (ActReclaim u) = (u = t)"
| "owns t _ = False"

definition tx_measure :: "acct_retry \<Rightarrow> 'p txn \<Rightarrow> nat" where
  "tx_measure retry x =
     (case tx_phase x of
        TxSend \<Rightarrow> 2 * (attempts retry - tx_attempt x) + 1
      | TxWait _ \<Rightarrow> 2 * (attempts retry - tx_attempt x)
      | TxReclaim _ \<Rightarrow> 1
      | _ \<Rightarrow> 0)"

definition same_progress :: "'p txn \<Rightarrow> 'p txn \<Rightarrow> bool" where
  "same_progress x y \<longleftrightarrow> tx_phase y = tx_phase x \<and> tx_attempt y = tx_attempt x"

lemma drop_sender_progress:
  "ac_txns c t = Some x \<Longrightarrow> \<exists>y. ac_txns (drop_sender s c) t = Some y \<and> same_progress x y"
  by (auto simp: drop_sender_def set_txn_def same_progress_def split: option.split)

lemma deliver_progress:
  "ac_txns c t = Some x \<Longrightarrow> \<exists>y. ac_txns (deliver s d c) t = Some y \<and> same_progress x y"
  by (auto simp: deliver_def set_txn_def same_progress_def split: option.split)

lemma set_txn_other: "u \<noteq> t \<Longrightarrow> ac_txns (set_txn u y c) t = ac_txns c t"
  by (simp add: set_txn_def)

lemma same_progress_refl [simp]: "same_progress x x"
  by (simp add: same_progress_def)

lemma same_progress_measure: "same_progress x y \<Longrightarrow> tx_measure retry y = tx_measure retry x"
  by (simp add: same_progress_def tx_measure_def split: tx_phase.split)

lemma send_begin_other:
  "u \<noteq> t \<Longrightarrow> ac_txns c t = Some x \<Longrightarrow> \<exists>y. ac_txns (send_begin retry u z c) t = Some y \<and> same_progress x y"
  by (auto simp: send_begin_def Let_def set_txn_other intro!: drop_sender_progress split: prod.split option.split)

lemma reclaim_other:
  "u \<noteq> t \<Longrightarrow> ac_txns c t = Some x \<Longrightarrow> \<exists>y. ac_txns (reclaim u r z c) t = Some y \<and> same_progress x y"
  by (auto simp: reclaim_def Let_def set_txn_other intro!: drop_sender_progress split: option.split)

lemma reader_step_other:
  "ac_txns c t = Some x \<Longrightarrow> \<exists>y. ac_txns (reader_step p d c) t = Some y \<and> same_progress x y"
  by (auto simp: reader_step_def Let_def intro!: deliver_progress split: option.split)

lemma step_other:
  assumes "acct_step L retry a c = Some c'" "ac_txns c t = Some x" "\<not> owns t a"
  shows "\<exists>y. ac_txns c' t = Some y \<and> same_progress x y"
proof (cases a)
  case (ActSend u p s cx se e k)
  with assms have "u \<noteq> t" and c': "c' = send_begin retry u (new_txn p s cx se e k) c" by (auto split: if_splits)
  from send_begin_other [OF this(1) assms(2)] show ?thesis by (simp add: c')
next
  case (ActTransmit u d ok)
  with assms have "u \<noteq> t" and c': "\<exists>z. c' = transmit L u d ok z c" by (auto split: if_splits option.splits)
  with assms(2) show ?thesis by (auto simp: transmit_def set_txn_other split: sum.split)
next
  case (ActWaitOver u)
  with assms have "u \<noteq> t" and c': "\<exists>z req. c' = wait_over L retry u req z c"
    by (auto split: if_splits option.splits tx_phase.splits)
  with assms(2) show ?thesis by (auto simp: wait_over_def set_txn_other split: chan.split option.split)
next
  case (ActReclaim u)
  with assms have "u \<noteq> t" and c': "\<exists>z r. c' = reclaim u r z c"
    by (auto split: if_splits option.splits tx_phase.splits)
  with reclaim_other [OF this(1) assms(2)] show ?thesis by auto
next
  case (ActDatagram p d)
  with assms reader_step_other [OF assms(2)] show ?thesis by auto
qed

lemma reclaim_own: "\<exists>y. ac_txns (reclaim t r x c) t = Some y \<and> tx_phase y = TxDone r"
proof (cases "ac_peers c (tx_peer x)")
  case (Some slot)
  have "\<exists>y. ac_txns (drop_sender s (c\<lparr>ac_txns := (ac_txns c)(t \<mapsto> x\<lparr>tx_phase := TxDone r\<rparr>), ac_peers := ps\<rparr>)) t = Some y
      \<and> same_progress (x\<lparr>tx_phase := TxDone r\<rparr>) y" for s ps
    by (rule drop_sender_progress) simp
  with Some show ?thesis by (auto simp: reclaim_def set_txn_def same_progress_def)
qed (simp add: reclaim_def set_txn_def)

lemma step_own:
  assumes inv: "acct_inv L retry c" and st: "acct_step L retry a c = Some c'" and x: "ac_txns c t = Some x" and own: "owns t a"
  shows "\<exists>y. ac_txns c' t = Some y \<and> tx_measure retry y < tx_measure retry x"
proof -
  note i = acct_invD [OF inv x]
  show ?thesis
  proof (cases a)
    case (ActTransmit u d ok)
    with st x own have "tx_phase x = TxSend" "c' = transmit L t d ok x c" by (auto split: if_splits option.splits)
    with i show ?thesis by (auto simp: transmit_def set_txn_def tx_measure_def txn_inv_def split: sum.split)
  next
    case (ActWaitOver u)
    with st x own obtain req where "tx_phase x = TxWait req" "c' = wait_over L retry t req x c"
      by (auto split: option.splits tx_phase.splits)
    with i show ?thesis
      by (auto simp: wait_over_def set_txn_def tx_measure_def txn_inv_def split: chan.split option.split)
  next
    case (ActReclaim u)
    with st x own obtain r where "tx_phase x = TxReclaim r" "c' = reclaim t r x c"
      by (auto split: option.splits tx_phase.splits)
    with reclaim_own [of t r x c] show ?thesis by (auto simp: tx_measure_def)
  qed (use own in simp_all)
qed

lemma run_measure:
  "acct_inv L retry c \<Longrightarrow> acct_run L retry as c = Some c' \<Longrightarrow> ac_txns c t = Some x \<Longrightarrow>
     acct_inv L retry c' \<and> (\<exists>y. ac_txns c' t = Some y \<and> length (filter (owns t) as) + tx_measure retry y \<le> tx_measure retry x)"
proof (induction "as" arbitrary: c x)
  case (Cons a as)
  from Cons.prems(2) obtain c1 where st: "acct_step L retry a c = Some c1" and run: "acct_run L retry as c1 = Some c'"
    by (auto split: option.splits)
  have inv: "acct_inv L retry c1" using Cons.prems(1) st by (rule acct_step_inv)
  obtain y where y: "ac_txns c1 t = Some y"
    "(if owns t a then 1 else 0) + tx_measure retry y \<le> tx_measure retry x"
  proof (cases "owns t a")
    case True
    then show ?thesis using step_own [OF Cons.prems(1) st Cons.prems(3)] that by fastforce
  next
    case False
    from step_other [OF st Cons.prems(3) this] obtain y where "ac_txns c1 t = Some y" "same_progress x y" by blast
    with False that [of y] same_progress_measure [of x y retry] show ?thesis by simp
  qed
  from Cons.IH [OF inv run y(1)] obtain z where "acct_inv L retry c'" "ac_txns c' t = Some z"
    "length (filter (owns t) as) + tx_measure retry z \<le> tx_measure retry y" by blast
  with y(2) show ?case by (auto split: if_splits)
qed auto

lemma own_enabled:
  assumes "acct_inv L retry c" "ac_txns c t = Some x" "sealed L" "\<not> tx_over (tx_phase x)"
  shows "\<exists>a. owns t a \<and> acct_step L retry a c \<noteq> None"
proof (cases "tx_phase x")
  case TxSend
  with assms show ?thesis by (intro exI [of _ "ActTransmit t 0 True"]) simp
next
  case (TxWait req)
  with assms show ?thesis by (intro exI [of _ "ActWaitOver t"]) simp
next
  case (TxReclaim r)
  with assms show ?thesis by (intro exI [of _ "ActReclaim t"]) simp
qed (use assms acct_invD [OF assms(1,2)] in \<open>simp_all add: txn_inv_def\<close>)

text \<open>
  C36 (termination).  Every accounting transaction ends.  Whatever the other transactions, the reader
  and the network do, it takes at most twice the number of attempts plus one steps of its own, it
  transmits the record at most as often as the retry policy says, it never panics, and as long as it
  has no result one of its own steps is possible.
\<close>

theorem acct_transaction_ends:
  assumes "acct_reachable L retry c" and "sealed L" and "ac_txns c t = Some x" and "acct_run L retry as c = Some c'"
  shows "length (filter (owns t) as) \<le> 2 * attempts retry + 1
    \<and> sends t (ac_log c') \<le> attempts retry
    \<and> (\<exists>y. ac_txns c' t = Some y \<and> tx_phase y \<noteq> TxPanicked
          \<and> (\<not> tx_over (tx_phase y) \<longrightarrow> (\<exists>a. owns t a \<and> acct_step L retry a c' \<noteq> None)))"
proof -
  from run_measure [OF acct_reachable_inv [OF assms(1)] assms(4,3)] obtain y where
    inv: "acct_inv L retry c'" and y: "ac_txns c' t = Some y"
    and m: "length (filter (owns t) as) \<le> tx_measure retry x" by auto
  have "tx_measure retry x \<le> 2 * attempts retry + 1"
    by (auto simp: tx_measure_def split: tx_phase.split)
  moreover have "sends t (ac_log c') \<le> attempts retry" "tx_phase y \<noteq> TxPanicked"
    using acct_invD [OF inv y] assms(2) by (auto simp: txn_inv_def split: tx_phase.splits)
  ultimately show ?thesis using m y own_enabled [OF inv y assms(2)] by auto
qed

subsection \<open>The contents of a record\<close>

definition opt_attr :: "attr_name \<Rightarrow> bytes option \<Rightarrow> packet_buffer" where
  "opt_attr n v = (case v of Some x \<Rightarrow> [(n, VBytes x)] | None \<Rightarrow> [])"

lemma values_of_opt_attr [simp]:
  "values_of m (opt_attr n v) = (if m = n then (case v of Some x \<Rightarrow> [VBytes x] | None \<Rightarrow> []) else [])"
  by (simp add: opt_attr_def split: option.split)

lemma add_opt_eq: "add_opt fits n v buf = Inr buf' \<Longrightarrow> buf' = buf @ opt_attr n v"
  by (auto simp: add_opt_def opt_attr_def split: option.splits)

lemma add_if_eq: "add_if fits c n v buf = Inr buf' \<Longrightarrow> buf' = buf @ (if c then [(n, v)] else [])"
  by (auto simp: add_if_def split: if_splits)

definition counter_attrs :: "acct_counters \<Rightarrow> packet_buffer" where
  "counter_attrs k =
     [(AcctSessionTime, VInt (ct_session_time k)), (AcctInputOctets, VInt (octets_lo (ct_input_octets k))),
      (AcctOutputOctets, VInt (octets_lo (ct_output_octets k)))]
     @ (if octets_hi (ct_input_octets k) \<noteq> 0 then [(AcctInputGigawords, VInt (octets_hi (ct_input_octets k)))] else [])
     @ (if octets_hi (ct_output_octets k) \<noteq> 0 then [(AcctOutputGigawords, VInt (octets_hi (ct_output_octets k)))] else [])
     @ [(AcctInputPackets, VInt (ct_input_packets k)), (AcctOutputPackets, VInt (ct_output_packets k))]"

lemma add_counters_eq: "add_counters fits k buf = Inr buf' \<Longrightarrow> buf' = buf @ counter_attrs k"
  unfolding add_counters_def counter_attrs_def Let_def
  by (auto simp: try_bind_Inr_iff dest!: add_if_eq)

definition cause_attr :: "acct_event \<Rightarrow> packet_buffer" where
  "cause_attr e = (case e of AcctStop cause \<Rightarrow> [(AcctTerminateCause, VInt (terminate_cause_code cause))] | _ \<Rightarrow> [])"

lemma values_of_cause_attr [simp]:
  "values_of n (cause_attr e) = (if n = AcctTerminateCause then
      (case e of AcctStop cause \<Rightarrow> [VInt (terminate_cause_code cause)] | _ \<Rightarrow> []) else [])"
  by (simp add: cause_attr_def split: acct_event.split)

lemma build_attrs_eq:
  assumes "build_attrs fits ctx session event counters delay_secs = Inr buf"
  shows "buf = (UserName, VBytes (rq_username ctx)) # opt_attr NasIpAddress (as_nas_ip session)
    @ opt_attr NasIdentifier (rq_nas_identifier ctx)
    @ [(NasPort, VInt (as_nas_port session)), (NasPortType, VInt NAS_PORT_TYPE_VIRTUAL),
       (ServiceType, VInt SERVICE_TYPE_FRAMED_USER), (FramedProtocol, VInt FRAMED_PROTOCOL_PPP),
       (FramedIpAddress, VBytes (as_framed_ip session))]
    @ opt_attr CallingStationId (rq_calling_station_id ctx)
    @ [(AcctStatusType, VInt (status_type event)), (AcctAuthentic, VInt (word_of_nat (as_authentic session))),
       (AcctSessionId, VBytes (ascii (as_session_id session)))]
    @ opt_attr ClassAttr (as_class session)
    @ (if delay_secs \<noteq> 0 then [(AcctDelayTime, VInt delay_secs)] else [])
    @ (if event = AcctStart then [] else counter_attrs counters) @ cause_attr event"
proof -
  have c: "(if event = AcctStart then Inr b else add_counters fits counters b) = Inr b' \<Longrightarrow>
      b' = b @ (if event = AcctStart then [] else counter_attrs counters)" for b b'
    by (auto split: if_splits dest: add_counters_eq)
  have k: "(case event of AcctStop cause \<Rightarrow> add fits AcctTerminateCause (VInt (terminate_cause_code cause)) b | _ \<Rightarrow> Inr b) = Inr b'
      \<Longrightarrow> b' = b @ cause_attr event" for b b'
    by (auto simp: cause_attr_def split: acct_event.splits)
  from assms show ?thesis unfolding build_attrs_def try_bind_Inr_iff
    by (elim exE conjE) (drule add_opt_eq add_if_eq c k | simp only: add_Inr append.simps append_assoc)+
qed

text \<open>The value a collector reads: the octets and, above 32 bits, the gigawords.\<close>

definition int_attr :: "attr_name \<Rightarrow> packet_buffer \<Rightarrow> nat" where
  "int_attr n buf = (case values_of n buf of [VInt w] \<Rightarrow> unat w | _ \<Rightarrow> 0)"

lemma octets_halves: "unat (octets_hi n) * 2 ^ 32 + unat (octets_lo n) = unat n"
proof -
  have "unat n < 2 ^ 64" using unsigned_less [of n] by simp
  then have "unat n div 2 ^ 32 < 2 ^ 32" by (simp add: less_mult_imp_div_less)
  then have "unat (octets_hi n) = unat n div 2 ^ 32"
    unfolding octets_hi_def unsigned_ucast_eq unsigned_drop_bit_eq
    by (simp add: drop_bit_eq_div take_bit_eq_mod)
  moreover have "unat (octets_lo n) = unat n mod 2 ^ 32"
    by (simp add: octets_lo_def unsigned_ucast_eq take_bit_eq_mod)
  ultimately show ?thesis by (simp add: mult.commute)
qed

text \<open>
  C39 (round trip).  The 64-bit octet counters survive their split over two attributes: a collector
  that adds the gigawords to the octets, taking a missing attribute for zero, reads the counters of the
  session.  A Start record carries no counter at all, the terminate cause is in Stop records and only
  there, and every record carries its status, its session identifier and the class of the login,
  unchanged and once.
\<close>

theorem acct_record_contents:
  assumes "build_attrs fits ctx session event counters delay_secs = Inr buf"
  shows "values_of AcctStatusType buf = [VInt (status_type event)]
    \<and> values_of AcctSessionId buf = [VBytes (ascii (as_session_id session))]
    \<and> values_of ClassAttr buf = (case as_class session of Some k \<Rightarrow> [VBytes k] | None \<Rightarrow> [])
    \<and> values_of AcctTerminateCause buf =
        (case event of AcctStop cause \<Rightarrow> [VInt (terminate_cause_code cause)] | _ \<Rightarrow> [])
    \<and> (if event = AcctStart
        then list_all (\<lambda>n. values_of n buf = []) [AcctSessionTime, AcctInputOctets, AcctOutputOctets,
               AcctInputGigawords, AcctOutputGigawords, AcctInputPackets, AcctOutputPackets]
        else int_attr AcctInputGigawords buf * 2 ^ 32 + int_attr AcctInputOctets buf = unat (ct_input_octets counters)
           \<and> int_attr AcctOutputGigawords buf * 2 ^ 32 + int_attr AcctOutputOctets buf = unat (ct_output_octets counters)
           \<and> values_of AcctSessionTime buf = [VInt (ct_session_time counters)]
           \<and> values_of AcctInputPackets buf = [VInt (ct_input_packets counters)]
           \<and> values_of AcctOutputPackets buf = [VInt (ct_output_packets counters)])"
proof (cases "event = AcctStart")
  case True
  then show ?thesis unfolding build_attrs_eq [OF assms] by (simp add: counter_attrs_def)
next
  case False
  then show ?thesis unfolding build_attrs_eq [OF assms]
    using octets_halves [of "ct_input_octets counters"] octets_halves [of "ct_output_octets counters"]
    by (auto simp: counter_attrs_def int_attr_def)
qed

subsection \<open>Late replies\<close>

lemma allocate_first: "allocate peer_state_default = (Some 0, \<lparr>ps_next_id = 1, ps_inflight = Map.empty\<rparr>)"
proof -
  have "(256 :: nat) = Suc 255" by simp
  then show ?thesis by (simp only: allocate_def allocate_loop.simps) (simp add: peer_state_default_def)
qed

lemmas acct_exec = acct_client_bind_def send_begin_def new_txn_def allocate_first drop_sender_def set_txn_def
  transmit_def wait_over_def reader_step_def deliver_def reclaim_def attempts_def acct_retry_default_def
  saturating_mul_def verify_def Let_def

text \<open>
  A retransmission replaces the request the reply is checked against.  Take a reply that
  verifies against the first transmission and not against the second, which differs in its
  Acct-Delay-Time.  If it arrives before the first timeout the record is delivered; if it arrives
  after the retransmission the same reply ends the transaction with an authenticator mismatch,
  although the server has stored the record and attempts are left.
\<close>

theorem acct_late_reply_refused:
  assumes "build L 0 secret ctx session event counters 0 = Inr req1"
    and "build L 0 secret ctx session event counters 1 = Inr req2"
    and "request_authenticator_from req1 = Some ra1" and "request_authenticator_from req2 = Some ra2"
    and "20 \<le> length reply" and "length reply \<le> 4096"
    and "reply ! 0 = al_accounting_response L" and "reply ! 1 = 0"
    and "al_verify_response L reply ra1 secret" and "\<not> al_verify_response L reply ra2 secret"
  shows "(\<exists>c x. acct_run L acct_retry_default
        [ActSend t p secret ctx session event counters, ActTransmit t 0 True, ActDatagram p reply, ActWaitOver t, ActReclaim t]
        acct_client_bind = Some c \<and> ac_txns c t = Some x \<and> tx_phase x = TxDone (Inr ()))
    \<and> (\<exists>c x. acct_run L acct_retry_default
        [ActSend t p secret ctx session event counters, ActTransmit t 0 True, ActWaitOver t, ActTransmit t 1 True,
         ActDatagram p reply, ActWaitOver t, ActReclaim t]
        acct_client_bind = Some c \<and> ac_txns c t = Some x \<and> tx_phase x = TxDone (Inl AuthenticatorMismatch))"
  using assms by (simp add: acct_exec)

subsection \<open>The dispatcher\<close>

definition QUEUE_DEPTH :: nat where "QUEUE_DEPTH = 1024"

record acct_record =
  rc_username :: bytes
  rc_peer_ip :: bytes
  rc_session :: acct_session
  rc_event :: acct_event
  rc_counters :: acct_counters

text \<open>\<open>try_send\<close> on the bounded queue; a record that finds it full or closed is dropped.\<close>

definition acct_submit :: "bool \<Rightarrow> acct_record \<Rightarrow> acct_record list \<Rightarrow> acct_record list" where
  "acct_submit gone r queue = (if gone \<or> QUEUE_DEPTH \<le> length queue then queue else queue @ [r])"

definition record_ctx :: "bytes option \<Rightarrow> acct_record \<Rightarrow> access_request_ctx" where
  "record_ctx nas_identifier r =
     \<lparr>rq_username = rc_username r, rq_calling_station_id = Some (rc_peer_ip r), rq_nas_identifier = nas_identifier,
      rq_nas_ip_address = None, rq_called_station_id = None, rq_connect_info = None\<rparr>"

text \<open>
  One record over the servers in order.  \<open>send\<close> is the outcome of the transaction with a server;
  the result is the last error, none if a server took the record.
\<close>

fun run_one ::
    "('srv \<Rightarrow> access_request_ctx \<Rightarrow> acct_session \<Rightarrow> acct_event \<Rightarrow> acct_counters \<Rightarrow> acct_error + unit)
      \<Rightarrow> bytes option \<Rightarrow> acct_record \<Rightarrow> 'srv list \<Rightarrow> acct_error option \<Rightarrow> acct_error option" where
  "run_one send nas r [] last_err = last_err"
| "run_one send nas r (srv # servers) last_err =
     (case send srv (record_ctx nas r) (rc_session r) (rc_event r) (rc_counters r) of
        Inr _ \<Rightarrow> None
      | Inl e \<Rightarrow> run_one send nas r servers (Some e))"

definition acct_attempt ::
    "('srv \<Rightarrow> access_request_ctx \<Rightarrow> acct_session \<Rightarrow> acct_event \<Rightarrow> acct_counters \<Rightarrow> acct_error + unit)
      \<Rightarrow> bytes option \<Rightarrow> acct_record \<Rightarrow> 'srv \<Rightarrow> acct_error option + acct_error" where
  "acct_attempt send nas r srv =
     (case send srv (record_ctx nas r) (rc_session r) (rc_event r) (rc_counters r) of
        Inr _ \<Rightarrow> Inl None | Inl e \<Rightarrow> Inr e)"

interpretation acct: failover "acct_attempt send nas r" "run_one send nas r" "\<lambda>e. e"
  by unfold_locales (simp_all add: acct_attempt_def split: sum.split)

lemma run_one_dropped:
  assumes "servers \<noteq> []"
  shows "run_one send nas r servers None \<noteq> None \<longleftrightarrow>
     (\<forall>srv \<in> set servers. \<exists>e. send srv (record_ctx nas r) (rc_session r) (rc_event r) (rc_counters r) = Inl e)"
proof -
  have fails: "(\<exists>e. acct_attempt send nas r srv = Inr e) \<longleftrightarrow>
      (\<exists>e. send srv (record_ctx nas r) (rc_session r) (rc_event r) (rc_counters r) = Inl e)" for srv
    by (simp add: acct_attempt_def split: sum.split)
  have some: "run_one send nas r (srv # ss) e \<noteq> None"
    if "list_all (\<lambda>s. \<exists>e. acct_attempt send nas r s = Inr e) (srv # ss)" for srv ss e
    using that by (induction ss arbitrary: srv e) (auto simp: acct_attempt_def split: sum.splits)
  show ?thesis
  proof (cases "list_all (\<lambda>s. \<exists>e. acct_attempt send nas r s = Inr e) servers")
    case True
    with assms some have "run_one send nas r servers None \<noteq> None" by (metis neq_Nil_conv)
    with True show ?thesis by (simp add: list_all_iff fails)
  next
    case False
    with acct.answer_or_none [where send = send and nas = nas and r = r and ss = servers and e = None]
    obtain s x where "acct_attempt send nas r s = Inl x" "run_one send nas r servers None = x" by blast
    then have "run_one send nas r servers None = None" by (auto simp: acct_attempt_def split: sum.splits)
    with False show ?thesis by (simp add: list_all_iff fails)
  qed
qed

lemma acct_submit_bounded: "length queue \<le> QUEUE_DEPTH \<Longrightarrow> length (acct_submit gone r queue) \<le> QUEUE_DEPTH"
  by (simp add: acct_submit_def)

subsection \<open>A concrete exchange\<close>

text \<open>A codec whose authenticator is a digest of the attribute count, and one record over it.\<close>

definition demo_lib :: acct_lib where
  "demo_lib = \<lparr>al_fits = (\<lambda>_. True),
     al_seal = (\<lambda>identifier buf secret. [4, identifier, 0, 20] @ replicate 16 (word_of_nat (length buf))),
     al_verify_response = (\<lambda>reply ra secret. slice 4 20 reply = ra), al_accounting_response = 5\<rparr>"

definition demo_ctx :: access_request_ctx where
  "demo_ctx = \<lparr>rq_username = [97], rq_calling_station_id = None, rq_nas_identifier = None, rq_nas_ip_address = None,
     rq_called_station_id = None, rq_connect_info = None\<rparr>"

definition demo_session :: acct_session where
  "demo_session = \<lparr>as_session_id = ''a'', as_authentic = 1, as_framed_ip = [10, 0, 0, 2], as_nas_ip = None,
     as_nas_port = 1, as_class = Some [7]\<rparr>"

definition demo_counters :: acct_counters where
  "demo_counters = \<lparr>ct_session_time = 60, ct_input_octets = 0x200000005, ct_output_octets = 9, ct_input_packets = 3,
     ct_output_packets = 4\<rparr>"

definition demo_reply :: bytes where
  "demo_reply = [5, 0, 0, 20] @ replicate 16 10"

lemmas demo_defs = demo_lib_def demo_ctx_def demo_session_def demo_counters_def demo_reply_def

lemma demo_sealed: "sealed demo_lib"
  by (simp add: sealed_def demo_lib_def)

lemma demo_build:
  "build demo_lib 0 [1] demo_ctx demo_session AcctStart demo_counters 0 = Inr ([4, 0, 0, 20] @ replicate 16 10)"
  "build demo_lib 0 [1] demo_ctx demo_session AcctStart demo_counters 1 = Inr ([4, 0, 0, 20] @ replicate 16 11)"
  by (simp_all add: build_def build_attrs_def demo_defs add_def add_opt_def add_if_def try_bind_def)

lemma demo_authenticator: "request_authenticator_from ([a, b, c, d] @ replicate 16 w) = Some (replicate 16 w)"
  by (simp add: request_authenticator_from_def slice_def)

definition demo_actions :: "nat acct_action list" where
  "demo_actions = [ActSend 0 9 [1] demo_ctx demo_session AcctStart demo_counters, ActTransmit 0 0 True,
     ActDatagram 9 demo_reply, ActWaitOver 0, ActReclaim 0]"

lemma acct_run_reachable: "acct_reachable L retry c \<Longrightarrow> acct_run L retry as c = Some c' \<Longrightarrow> acct_reachable L retry c'"
  by (induction "as" arbitrary: c) (auto split: option.splits intro: acct_reachable.step)

lemma demo_verify: "al_verify_response demo_lib demo_reply (replicate 16 10) [1]"
  "\<not> al_verify_response demo_lib demo_reply (replicate 16 11) [1]"
  by (simp_all add: demo_lib_def demo_reply_def slice_def)

lemma demo_reply_shape: "20 \<le> length demo_reply" "length demo_reply \<le> 4096" "demo_reply ! 0 = al_accounting_response demo_lib"
  "demo_reply ! 1 = 0" "take 4096 demo_reply = demo_reply"
  by (simp_all add: demo_reply_def demo_lib_def)

lemma demo_run:
  "\<exists>c x. acct_run demo_lib acct_retry_default demo_actions acct_client_bind = Some c \<and> ac_txns c 0 = Some x
     \<and> tx_phase x = TxDone (Inr ())"
  using demo_build demo_authenticator demo_verify demo_reply_shape
  by (simp add: acct_exec demo_actions_def)

theorem acct_ok_verified_witness:
  "\<exists>c x. acct_reachable demo_lib acct_retry_default c \<and> ac_txns c 0 = Some x \<and> tx_phase x = TxDone (Inr ())
     \<and> acknowledged demo_lib (ac_log c) (0 :: nat) (x :: nat txn)"
proof -
  obtain c x where c: "acct_run demo_lib acct_retry_default demo_actions acct_client_bind = Some c"
    "ac_txns c 0 = Some x" "tx_phase x = TxDone (Inr ())" using demo_run by blast
  have "acct_reachable demo_lib acct_retry_default c"
    by (rule acct_run_reachable [OF acct_reachable.init c(1)])
  with c acct_ok_verified [OF this c(2,3)] show ?thesis by blast
qed

theorem acct_transaction_ends_witness:
  "\<exists>c c' x y. acct_reachable demo_lib acct_retry_default c \<and> ac_txns c 0 = Some (x :: nat txn)
     \<and> acct_run demo_lib acct_retry_default (tl demo_actions) c = Some c'
     \<and> ac_txns c' 0 = Some y \<and> tx_phase y \<noteq> TxPanicked \<and> sends 0 (ac_log c') \<le> attempts acct_retry_default"
proof -
  obtain c' where c': "acct_run demo_lib acct_retry_default demo_actions acct_client_bind = Some c'" using demo_run by blast
  obtain c where c: "acct_step demo_lib acct_retry_default (hd demo_actions) acct_client_bind = Some c"
    by (simp add: demo_actions_def acct_client_bind_def)
  have run: "acct_run demo_lib acct_retry_default (tl demo_actions) c = Some c'"
    using c c' by (simp add: demo_actions_def)
  have r: "acct_reachable demo_lib acct_retry_default c" by (rule acct_reachable.step [OF acct_reachable.init c])
  have "\<exists>x. ac_txns c 0 = Some x" using c by (auto simp: demo_actions_def acct_exec)
  then obtain x where x: "ac_txns c 0 = Some x" by blast
  from acct_transaction_ends [OF r demo_sealed x run] r x run show ?thesis by blast
qed

theorem acct_record_contents_witness:
  "\<exists>buf. build_attrs (al_fits demo_lib) demo_ctx demo_session AcctInterimUpdate demo_counters 0 = Inr buf
     \<and> int_attr AcctInputGigawords buf * 2 ^ 32 + int_attr AcctInputOctets buf = unat (ct_input_octets demo_counters)"
proof -
  have "\<exists>buf. build_attrs (al_fits demo_lib) demo_ctx demo_session AcctInterimUpdate demo_counters 0 = Inr buf"
    by (simp add: build_attrs_def add_counters_def Let_def demo_lib_def add_def add_opt_def add_if_def try_bind_def
        demo_ctx_def demo_session_def split: if_split)
  then obtain buf where "build_attrs (al_fits demo_lib) demo_ctx demo_session AcctInterimUpdate demo_counters 0 = Inr buf"
    by blast
  with acct_record_contents [OF this] show ?thesis by simp
qed

end
