(* ===== verification/Auth_Coa.thy ===== *)
theory Auth_Coa
  imports Auth_Route
begin

text \<open>
  The receiver of CoA- and Disconnect-Requests, \<open>src/src/auth/coa.rs\<close>: which datagrams reach the
  handler, what it is told, and the reply.  The header parser, the two authenticators and the reply
  builder belong to the RADIUS library and are parameters; the numbers of codes and attributes are
  those of RFC 2865 and RFC 5176.
\<close>

subsection \<open>Types\<close>

definition USER_NAME :: nat where "USER_NAME = 1"
definition FRAMED_IP_ADDRESS :: nat where "FRAMED_IP_ADDRESS = 8"
definition CALLING_STATION_ID :: nat where "CALLING_STATION_ID = 31"
definition ACCT_SESSION_ID :: nat where "ACCT_SESSION_ID = 44"
definition ERROR_CAUSE :: nat where "ERROR_CAUSE = 101"

definition DISCONNECT_REQUEST :: u8 where "DISCONNECT_REQUEST = 40"
definition DISCONNECT_ACK :: u8 where "DISCONNECT_ACK = 41"
definition DISCONNECT_NAK :: u8 where "DISCONNECT_NAK = 42"
definition COA_REQUEST :: u8 where "COA_REQUEST = 43"
definition COA_ACK :: u8 where "COA_ACK = 44"
definition COA_NAK :: u8 where "COA_NAK = 45"

lemmas coa_codes = DISCONNECT_REQUEST_def DISCONNECT_ACK_def DISCONNECT_NAK_def COA_REQUEST_def COA_ACK_def COA_NAK_def

lemmas coa_attrs = USER_NAME_def FRAMED_IP_ADDRESS_def CALLING_STATION_ID_def ACCT_SESSION_ID_def

record identity =
  id_username :: "str option"
  id_acct_session_id :: "str option"
  id_calling_station_id :: "str option"
  id_framed_ip :: "bytes option"

definition identity_default :: identity where
  "identity_default = \<lparr>id_username = None, id_acct_session_id = None, id_calling_station_id = None, id_framed_ip = None\<rparr>"

datatype error_cause =
    ResidualSessionContextRemoved | InvalidEapPacket | UnsupportedAttribute | MissingAttr
  | NasIdentificationMismatch | InvalidRequest | UnsupportedService | UnsupportedExtension
  | InvalidAttributeValue | AdministrativelyProhibited | RequestNotRoutable | SessionContextNotFound
  | SessionContextNotRemovable | OtherProxyProcessingError | ResourcesUnavailable | RequestInitiated

fun error_cause_code :: "error_cause \<Rightarrow> u32" where
  "error_cause_code ResidualSessionContextRemoved = 201"
| "error_cause_code InvalidEapPacket = 202"
| "error_cause_code UnsupportedAttribute = 401"
| "error_cause_code MissingAttr = 402"
| "error_cause_code NasIdentificationMismatch = 403"
| "error_cause_code InvalidRequest = 404"
| "error_cause_code UnsupportedService = 405"
| "error_cause_code UnsupportedExtension = 406"
| "error_cause_code InvalidAttributeValue = 407"
| "error_cause_code AdministrativelyProhibited = 501"
| "error_cause_code RequestNotRoutable = 502"
| "error_cause_code SessionContextNotFound = 503"
| "error_cause_code SessionContextNotRemovable = 504"
| "error_cause_code OtherProxyProcessingError = 505"
| "error_cause_code ResourcesUnavailable = 506"
| "error_cause_code RequestInitiated = 507"

datatype coa_outcome = CoaAck | CoaNak error_cause

record radius_header =
  hd_code :: u8
  hd_identifier :: u8
  hd_authenticator :: bytes

datatype verification = MaValid | MaAbsent | MaInvalid

record 'he coa_lib =
  cl_header_parse :: "bytes \<Rightarrow> 'he + (radius_header \<times> bytes)"
  cl_zeroed_request :: "bytes \<Rightarrow> bytes \<Rightarrow> bytes"
  cl_message_authenticator :: "bytes \<Rightarrow> bytes \<Rightarrow> bytes \<Rightarrow> verification"
  cl_iter :: "bytes \<Rightarrow> (unit + (nat \<times> bytes)) list"
  cl_fits :: "(nat \<times> u32) list \<Rightarrow> bool"
  cl_seal_for :: "u8 \<Rightarrow> u8 \<Rightarrow> (nat \<times> u32) list \<Rightarrow> bytes \<Rightarrow> bytes \<Rightarrow> bytes"

datatype 'he coa_drop_reason =
    CdHeader 'he
  | CdUnexpectedCode u8
  | CdUntrustedPeer
  | CdBadAuthenticator
  | CdMissingMessageAuth
  | CdBadMessageAuth

type_synonym 'ip peer_secrets = "'ip \<rightharpoonup> bytes"

definition peer_secrets_insert :: "'ip \<Rightarrow> bytes \<Rightarrow> 'ip peer_secrets \<Rightarrow> 'ip peer_secrets" where
  "peer_secrets_insert peer secret secrets = secrets(peer \<mapsto> secret)"

definition peer_secrets_lookup :: "'ip \<Rightarrow> 'ip peer_secrets \<Rightarrow> bytes option" where
  "peer_secrets_lookup peer secrets = secrets peer"

subsection \<open>Identity\<close>

definition identity_attr :: "nat \<times> bytes \<Rightarrow> identity \<Rightarrow> identity" where
  "identity_attr raw out =
     (let t = fst raw; value = snd raw in
      if t = USER_NAME then out\<lparr>id_username := from_utf8 value\<rparr>
      else if t = ACCT_SESSION_ID then out\<lparr>id_acct_session_id := from_utf8 value\<rparr>
      else if t = CALLING_STATION_ID then out\<lparr>id_calling_station_id := from_utf8 value\<rparr>
      else if t = FRAMED_IP_ADDRESS then (if length value = 4 then out\<lparr>id_framed_ip := Some value\<rparr> else out)
      else out)"

fun identity_loop :: "(unit + (nat \<times> bytes)) list \<Rightarrow> identity \<Rightarrow> identity" where
  "identity_loop [] out = out"
| "identity_loop (Inl _ # raws) out = identity_loop raws out"
| "identity_loop (Inr raw # raws) out = identity_loop raws (identity_attr raw out)"

definition decode_identity :: "'he coa_lib \<Rightarrow> bytes \<Rightarrow> identity" where
  "decode_identity L attrs = identity_loop (cl_iter L attrs) identity_default"

subsection \<open>Reply and request processing\<close>

text \<open>\<open>None\<close> is the panic of \<open>unreachable!\<close> or of \<open>expect\<close>.\<close>

definition reply_code :: "u8 \<Rightarrow> coa_outcome \<Rightarrow> u8 option" where
  "reply_code request_code outcome =
     (if request_code = COA_REQUEST then Some (case outcome of CoaAck \<Rightarrow> COA_ACK | CoaNak _ \<Rightarrow> COA_NAK)
      else if request_code = DISCONNECT_REQUEST
      then Some (case outcome of CoaAck \<Rightarrow> DISCONNECT_ACK | CoaNak _ \<Rightarrow> DISCONNECT_NAK)
      else None)"

definition build_reply :: "'he coa_lib \<Rightarrow> u8 \<Rightarrow> u8 \<Rightarrow> coa_outcome \<Rightarrow> bytes \<Rightarrow> bytes \<Rightarrow> bytes option" where
  "build_reply L request_code identifier outcome request_authenticator secret =
     (case reply_code request_code outcome of
        None \<Rightarrow> None
      | Some code \<Rightarrow>
          (let attrs = (case outcome of CoaNak cause \<Rightarrow> [(ERROR_CAUSE, error_cause_code cause)] | CoaAck \<Rightarrow> []) in
           if attrs \<noteq> [] \<and> \<not> cl_fits L attrs then None
           else Some (cl_seal_for L code identifier attrs request_authenticator secret)))"

text \<open>A reply on the wire, or the reason the datagram was dropped for.\<close>

definition coa_process ::
    "'he coa_lib \<Rightarrow> 'ip peer_secrets \<Rightarrow> (u8 \<Rightarrow> 'ip \<Rightarrow> identity \<Rightarrow> coa_outcome) \<Rightarrow> bytes \<Rightarrow> 'ip
      \<Rightarrow> ('he coa_drop_reason + bytes) option" where
  "coa_process L secrets handler datagram peer =
     (case cl_header_parse L datagram of
        Inl e \<Rightarrow> Some (Inl (CdHeader e))
      | Inr (header, attrs) \<Rightarrow>
          if hd_code header \<noteq> COA_REQUEST \<and> hd_code header \<noteq> DISCONNECT_REQUEST
          then Some (Inl (CdUnexpectedCode (hd_code header)))
          else (case peer_secrets_lookup peer secrets of
             None \<Rightarrow> Some (Inl CdUntrustedPeer)
           | Some secret \<Rightarrow>
               if cl_zeroed_request L datagram secret \<noteq> hd_authenticator header
               then Some (Inl CdBadAuthenticator)
               else (case cl_message_authenticator L datagram (replicate 16 0) secret of
                  MaAbsent \<Rightarrow> Some (Inl CdMissingMessageAuth)
                | MaInvalid \<Rightarrow> Some (Inl CdBadMessageAuth)
                | MaValid \<Rightarrow>
                    (let outcome = handler (hd_code header) peer (decode_identity L attrs) in
                     map_option Inr (build_reply L (hd_code header) (hd_identifier header) outcome
                       (hd_authenticator header) secret)))))"

text \<open>The receive loop over the datagrams of the socket: the replies, each with its destination.\<close>

fun coa_run ::
    "'he coa_lib \<Rightarrow> 'ip peer_secrets \<Rightarrow> (u8 \<Rightarrow> 'ip \<Rightarrow> identity \<Rightarrow> coa_outcome) \<Rightarrow> (bytes \<times> 'ip) list
      \<Rightarrow> (bytes \<times> 'ip) list option" where
  "coa_run L secrets handler [] = Some []"
| "coa_run L secrets handler ((datagram, peer) # ds) =
     (case coa_process L secrets handler (take 4096 datagram) peer of
        None \<Rightarrow> None
      | Some r \<Rightarrow>
          (case coa_run L secrets handler ds of
             None \<Rightarrow> None
           | Some replies \<Rightarrow> Some ((case r of Inr reply \<Rightarrow> [(reply, peer)] | Inl _ \<Rightarrow> []) @ replies)))"

subsection \<open>What the handler is told\<close>

definition values_for :: "nat \<Rightarrow> (unit + (nat \<times> bytes)) list \<Rightarrow> bytes list" where
  "values_for t raws = [v. Inr (u, v) \<leftarrow> raws, u = t]"

definition last_text :: "str option \<Rightarrow> bytes list \<Rightarrow> str option" where
  "last_text d vs = (if vs = [] then d else from_utf8 (last vs))"

definition last_addr :: "bytes option \<Rightarrow> bytes list \<Rightarrow> bytes option" where
  "last_addr d vs = (case filter (\<lambda>v. length v = 4) vs of [] \<Rightarrow> d | ws \<Rightarrow> Some (last ws))"

lemma values_for_simps [simp]:
  "values_for t [] = []" "values_for t (Inl u # raws) = values_for t raws"
  "values_for t (Inr (u', v) # raws) = (if u' = t then v # values_for t raws else values_for t raws)"
  by (simp_all add: values_for_def)

lemma last_text_Cons: "last_text d (v # vs) = last_text (from_utf8 v) vs"
  by (simp add: last_text_def)

lemma last_addr_Cons: "last_addr d (v # vs) = last_addr (if length v = 4 then Some v else d) vs"
  by (simp add: last_addr_def split: list.split)

lemma identity_loop_eq:
  "identity_loop raws out =
     \<lparr>id_username = last_text (id_username out) (values_for USER_NAME raws),
      id_acct_session_id = last_text (id_acct_session_id out) (values_for ACCT_SESSION_ID raws),
      id_calling_station_id = last_text (id_calling_station_id out) (values_for CALLING_STATION_ID raws),
      id_framed_ip = last_addr (id_framed_ip out) (values_for FRAMED_IP_ADDRESS raws)\<rparr>"
proof (induction raws out rule: identity_loop.induct)
  case (3 raw raws out)
  then show ?case
    by (cases raw) (simp add: identity_attr_def Let_def coa_attrs last_text_Cons last_addr_Cons)
qed (simp_all add: last_text_def last_addr_def)

text \<open>A datagram that proves knowledge of the secret of its sender, twice.\<close>

definition coa_authentic ::
    "'he coa_lib \<Rightarrow> 'ip peer_secrets \<Rightarrow> bytes \<Rightarrow> 'ip \<Rightarrow> radius_header \<Rightarrow> bytes \<Rightarrow> bytes \<Rightarrow> bool" where
  "coa_authentic L secrets datagram peer header attrs secret \<longleftrightarrow>
     cl_header_parse L datagram = Inr (header, attrs)
   \<and> hd_code header \<in> {COA_REQUEST, DISCONNECT_REQUEST}
   \<and> secrets peer = Some secret
   \<and> cl_zeroed_request L datagram secret = hd_authenticator header
   \<and> cl_message_authenticator L datagram (replicate 16 0) secret = MaValid"

text \<open>
  C12 (safety).  The receiver of dynamic authorisation requests never panics, and it replies exactly to
  the requests that carry a valid request authenticator and a valid message authenticator under the
  secret configured for the sender's address.  The reply has the code of the request plus one for an
  acknowledgement and plus two for a refusal, the identifier of the request, and is sealed with the
  same secret; it follows the handler's decision, and the handler is told the last user name, session,
  station and address of the request.
\<close>

theorem coa_reply_authentic:
  assumes "\<And>cause. cl_fits L [(ERROR_CAUSE, error_cause_code cause)]"
  shows "\<exists>r. coa_process L secrets handler datagram peer = Some r
    \<and> (case r of
         Inl reason \<Rightarrow> \<nexists>header attrs secret. coa_authentic L secrets datagram peer header attrs secret
       | Inr reply \<Rightarrow> \<exists>header attrs secret. coa_authentic L secrets datagram peer header attrs secret
           \<and> (let raws = cl_iter L attrs;
                  outcome = handler (hd_code header) peer
                    \<lparr>id_username = last_text None (values_for USER_NAME raws),
                     id_acct_session_id = last_text None (values_for ACCT_SESSION_ID raws),
                     id_calling_station_id = last_text None (values_for CALLING_STATION_ID raws),
                     id_framed_ip = last_addr None (values_for FRAMED_IP_ADDRESS raws)\<rparr> in
              reply = cl_seal_for L (hd_code header + (if outcome = CoaAck then 1 else 2)) (hd_identifier header)
                (case outcome of CoaAck \<Rightarrow> [] | CoaNak cause \<Rightarrow> [(ERROR_CAUSE, error_cause_code cause)])
                (hd_authenticator header) secret))"
proof (cases "\<exists>header attrs secret. coa_authentic L secrets datagram peer header attrs secret")
  case True
  then obtain h attrs secret where a: "coa_authentic L secrets datagram peer h attrs secret" by blast
  define out where "out = handler (hd_code h) peer (decode_identity L attrs)"
  have "coa_process L secrets handler datagram peer =
      map_option Inr (build_reply L (hd_code h) (hd_identifier h) out (hd_authenticator h) secret)"
    using a by (auto simp: coa_process_def coa_authentic_def peer_secrets_lookup_def out_def Let_def)
  also have "\<dots> = Some (Inr (cl_seal_for L (hd_code h + (if out = CoaAck then 1 else 2)) (hd_identifier h)
      (case out of CoaAck \<Rightarrow> [] | CoaNak cause \<Rightarrow> [(ERROR_CAUSE, error_cause_code cause)]) (hd_authenticator h) secret))"
    using a assms by (cases out) (auto simp: build_reply_def reply_code_def coa_authentic_def coa_codes Let_def)
  finally show ?thesis
    using a by (auto simp: out_def decode_identity_def identity_loop_eq identity_default_def Let_def intro!: exI)
next
  case False
  then have "\<exists>reason. coa_process L secrets handler datagram peer = Some (Inl reason)"
    by (auto simp: coa_process_def coa_authentic_def peer_secrets_lookup_def
        split: sum.split option.split verification.split)
  with False show ?thesis by auto
qed

definition coa_demo :: "unit coa_lib" where
  "coa_demo = \<lparr>cl_header_parse = (\<lambda>d. if length d < 20 then Inl () else
       Inr (\<lparr>hd_code = d ! 0, hd_identifier = d ! 1, hd_authenticator = slice 4 20 d\<rparr>, drop 20 d)),
     cl_zeroed_request = (\<lambda>d secret. replicate 16 (hd secret)), cl_message_authenticator = (\<lambda>d ra secret. MaValid),
     cl_iter = (\<lambda>attrs. [Inr (1, attrs)]), cl_fits = (\<lambda>_. True),
     cl_seal_for = (\<lambda>code identifier attrs ra secret. [code, identifier])\<rparr>"

theorem coa_reply_authentic_witness:
  "(\<forall>cause. cl_fits coa_demo [(ERROR_CAUSE, error_cause_code cause)])
   \<and> coa_process coa_demo (peer_secrets_insert (7 :: nat) [9] Map.empty) (\<lambda>_ _ _. CoaAck)
       ([40, 5, 0, 20] @ replicate 16 9) 7 = Some (Inr [41, 5])
   \<and> (\<exists>header attrs secret. coa_authentic coa_demo (peer_secrets_insert (7 :: nat) [9] Map.empty)
       ([40, 5, 0, 20] @ replicate 16 9) 7 header attrs secret)"
proof -
  have f: "cl_fits coa_demo [(ERROR_CAUSE, error_cause_code cause)]" for cause by (simp add: coa_demo_def)
  have p: "coa_process coa_demo (peer_secrets_insert (7 :: nat) [9] Map.empty) (\<lambda>_ _ _. CoaAck)
       ([40, 5, 0, 20] @ replicate 16 9) 7 = Some (Inr [41, 5])"
    by (simp add: coa_process_def coa_demo_def coa_codes peer_secrets_lookup_def peer_secrets_insert_def slice_def
        build_reply_def reply_code_def Let_def)
  have "\<exists>header attrs secret. coa_authentic coa_demo (peer_secrets_insert (7 :: nat) [9] Map.empty)
       ([40, 5, 0, 20] @ replicate 16 9) 7 header attrs secret"
    using coa_reply_authentic [OF f, of "peer_secrets_insert (7 :: nat) [9] Map.empty" "\<lambda>_ _ _. CoaAck"
        "[40, 5, 0, 20] @ replicate 16 9" 7] unfolding p by auto
  with f p show ?thesis by blast
qed

end
