(* ===== verification/Kmod_State.thy ===== *)
theory Kmod_State
  imports Sstp_Frame
begin

text \<open>
  The kernel module's session, \<open>src/kmod/sstp_internal.h\<close>: its state, the event ring that
  userspace reads (\<open>src/kmod/sstp_event.c\<close>) and the ring of control packets.  Both rings are
  arrays with a head and a tail index; they are shown to be bounded first-in-first-out queues.

  Memory allocation and the clock are answers of the kernel, indexed by the number of calls made
  so far.  What the module hands to the PPP layer and to the socket is logged in order.  A pending
  work item is a flag.
\<close>

subsection \<open>Constants and state\<close>

definition SSTP_TX_Q_CAP :: nat where "SSTP_TX_Q_CAP = 64"
definition SSTP_CTRL_Q_CAP :: nat where "SSTP_CTRL_Q_CAP = 8"
definition SSTP_RX_BUF_CAP :: nat where "SSTP_RX_BUF_CAP = 8192"
definition SSTP_EVENT_QUEUE_CAP :: nat where "SSTP_EVENT_QUEUE_CAP = 16"
definition SSTP_CONTROL_MAX :: nat where "SSTP_CONTROL_MAX = 4096"

definition SSTP_EVT_PEER_CLOSED :: u32 where "SSTP_EVT_PEER_CLOSED = 1"
definition SSTP_EVT_TLS_FATAL_ALERT :: u32 where "SSTP_EVT_TLS_FATAL_ALERT = 2"
definition SSTP_EVT_TLS_REKEY_NEEDED :: u32 where "SSTP_EVT_TLS_REKEY_NEEDED = 3"
definition SSTP_EVT_PROTOCOL_ERROR :: u32 where "SSTP_EVT_PROTOCOL_ERROR = 4"
definition SSTP_EVT_CONTROL_PACKET :: u32 where "SSTP_EVT_CONTROL_PACKET = 5"

lemmas kmod_caps = SSTP_TX_Q_CAP_def SSTP_CTRL_Q_CAP_def SSTP_RX_BUF_CAP_def SSTP_EVENT_QUEUE_CAP_def
  SSTP_CONTROL_MAX_def

text \<open>Error numbers of the kernel's interface.\<close>

type_synonym errno = nat

definition EPERM :: errno where "EPERM = 1"
definition EIO :: errno where "EIO = 5"
definition ENXIO :: errno where "ENXIO = 6"
definition EBADF :: errno where "EBADF = 9"
definition EAGAIN :: errno where "EAGAIN = 11"
definition ENOMEM :: errno where "ENOMEM = 12"
definition EFAULT :: errno where "EFAULT = 14"
definition EINVAL :: errno where "EINVAL = 22"
definition ENOTTY :: errno where "ENOTTY = 25"
definition EPIPE :: errno where "EPIPE = 32"
definition ENOSYS :: errno where "ENOSYS = 38"
definition ENOTSOCK :: errno where "ENOTSOCK = 88"
definition EMSGSIZE :: errno where "EMSGSIZE = 90"
definition EPROTONOSUPPORT :: errno where "EPROTONOSUPPORT = 93"
definition EOPNOTSUPP :: errno where "EOPNOTSUPP = 95"
definition EAFNOSUPPORT :: errno where "EAFNOSUPPORT = 97"
definition ENOBUFS :: errno where "ENOBUFS = 105"

record kevent =
  ev_type :: u32
  ev_arg :: u32
  ev_timestamp_ns :: u64

record sstp_stats =
  tls_records_rx :: u64
  tls_records_tx :: u64
  tls_decrypt_errors :: u64
  sstp_frames_rx :: u64
  sstp_frames_tx :: u64
  sstp_malformed :: u64
  ppp_frames_rx :: u64
  ppp_frames_tx :: u64
  evt_dropped :: u64
  ctrl_frames_rx :: u64
  ctrl_frames_tx :: u64
  tx_send_errors :: u64

definition sstp_stats_zero :: sstp_stats where
  "sstp_stats_zero = \<lparr>tls_records_rx = 0, tls_records_tx = 0, tls_decrypt_errors = 0, sstp_frames_rx = 0,
     sstp_frames_tx = 0, sstp_malformed = 0, ppp_frames_rx = 0, ppp_frames_tx = 0, evt_dropped = 0,
     ctrl_frames_rx = 0, ctrl_frames_tx = 0, tx_send_errors = 0\<rparr>"

record kenv =
  ke_alloc :: "nat \<Rightarrow> bool"
  ke_now :: "nat \<Rightarrow> u64"

record ksession =
  ks_chan_registered :: bool
  ks_mtu :: u32
  ks_stats :: sstp_stats
  ks_events :: "kevent list"
  ks_evt_head :: nat
  ks_evt_tail :: nat
  ks_tx_q :: "bytes list"
  ks_rx :: bytes
  ks_ctrl_q :: "bytes option list"
  ks_ctrl_head :: nat
  ks_ctrl_tail :: nat
  ks_cb_installed :: bool
  ks_closing :: bool
  ks_rx_work :: bool
  ks_tx_work :: bool
  ks_calls :: nat
  ks_ppp_input :: "bytes list"
  ks_wire :: "bytes list"
  ks_output_wakeups :: nat

definition event_zero :: kevent where
  "event_zero = \<lparr>ev_type = 0, ev_arg = 0, ev_timestamp_ns = 0\<rparr>"

text \<open>The session \<open>sstp_do_attach\<close> builds: zeroed, with the caller's MTU or 1500.\<close>

definition ksession_new :: "u32 \<Rightarrow> ksession" where
  "ksession_new mtu = \<lparr>ks_chan_registered = True, ks_mtu = (if mtu \<noteq> 0 then mtu else 1500), ks_stats = sstp_stats_zero,
     ks_events = replicate SSTP_EVENT_QUEUE_CAP event_zero, ks_evt_head = 0, ks_evt_tail = 0, ks_tx_q = [], ks_rx = [],
     ks_ctrl_q = replicate SSTP_CTRL_Q_CAP None, ks_ctrl_head = 0, ks_ctrl_tail = 0, ks_cb_installed = True,
     ks_closing = False, ks_rx_work = True, ks_tx_work = False, ks_calls = 0, ks_ppp_input = [], ks_wire = [],
     ks_output_wakeups = 0\<rparr>"

definition kcall :: "ksession \<Rightarrow> ksession" where
  "kcall s = s\<lparr>ks_calls := ks_calls s + 1\<rparr>"

definition bump :: "((u64 \<Rightarrow> u64) \<Rightarrow> sstp_stats \<Rightarrow> sstp_stats) \<Rightarrow> ksession \<Rightarrow> ksession" where
  "bump upd s = s\<lparr>ks_stats := upd (\<lambda>n. n + 1) (ks_stats s)\<rparr>"

definition set_closing :: "ksession \<Rightarrow> ksession" where
  "set_closing s = s\<lparr>ks_closing := True\<rparr>"

subsection \<open>Events\<close>

definition ring_next :: "nat \<Rightarrow> nat \<Rightarrow> nat" where
  "ring_next cap i = (i + 1) mod cap"

definition sstp_session_emit :: "kenv \<Rightarrow> u32 \<Rightarrow> u32 \<Rightarrow> ksession \<Rightarrow> ksession" where
  "sstp_session_emit env type arg s0 =
     (let s = kcall s0; now = ke_now env (ks_calls s0); next_head = ring_next SSTP_EVENT_QUEUE_CAP (ks_evt_head s) in
      if next_head = ks_evt_tail s
      then (let prev = (ks_evt_head s + SSTP_EVENT_QUEUE_CAP - 1) mod SSTP_EVENT_QUEUE_CAP;
                s' = (if ks_evt_head s \<noteq> ks_evt_tail s \<and> ev_type (ks_events s ! prev) = type
                      then s\<lparr>ks_events := (ks_events s)[prev := (ks_events s ! prev)\<lparr>ev_arg := arg, ev_timestamp_ns := now\<rparr>]\<rparr>
                      else s) in
            bump evt_dropped_update s')
      else s\<lparr>ks_events := (ks_events s)[ks_evt_head s := \<lparr>ev_type = type, ev_arg = arg, ev_timestamp_ns = now\<rparr>],
             ks_evt_head := next_head\<rparr>)"

datatype kread_result = ReadEvent kevent | ReadWouldBlock | ReadEof

text \<open>
  \<open>sstp_session_read\<close> with a buffer that holds an event and can be written.  A blocking reader of
  an empty ring sleeps until there is an event or the session closes; \<open>ReadWouldBlock\<close> is the
  error of a non-blocking reader and the sleep of a blocking one.
\<close>

definition sstp_session_read :: "bool \<Rightarrow> ksession \<Rightarrow> kread_result \<times> ksession" where
  "sstp_session_read nonblock s =
     (if ks_evt_head s \<noteq> ks_evt_tail s
      then (ReadEvent (ks_events s ! ks_evt_tail s), s\<lparr>ks_evt_tail := ring_next SSTP_EVENT_QUEUE_CAP (ks_evt_tail s)\<rparr>)
      else if nonblock then (ReadWouldBlock, s)
      else if ks_closing s then (ReadEof, s)
      else (ReadWouldBlock, s))"

text \<open>A blocked reader that is woken up looks at the closing flag before the ring.\<close>

definition sstp_session_read_woken :: "ksession \<Rightarrow> kread_result \<times> ksession" where
  "sstp_session_read_woken s = (if ks_closing s then (ReadEof, s) else sstp_session_read False s)"

record poll_mask =
  pm_in :: bool
  pm_hup :: bool
  pm_out :: bool

definition sstp_session_poll :: "bool \<Rightarrow> ksession \<Rightarrow> poll_mask" where
  "sstp_session_poll writeable s =
     \<lparr>pm_in = (ks_evt_head s \<noteq> ks_evt_tail s), pm_hup = ks_closing s, pm_out = (\<not> ks_closing s \<and> writeable)\<rparr>"

subsection \<open>Control packets\<close>

text \<open>The enqueue of \<open>sstp_demux_parse\<close>, under \<open>ctrl_q_lock\<close>, and the dequeue of the ioctl.\<close>

definition ctrl_enqueue :: "bytes \<Rightarrow> ksession \<Rightarrow> bool \<times> ksession" where
  "ctrl_enqueue skb s =
     (let next_head = ring_next SSTP_CTRL_Q_CAP (ks_ctrl_head s) in
      if next_head \<noteq> ks_ctrl_tail s
      then (True, s\<lparr>ks_ctrl_q := (ks_ctrl_q s)[ks_ctrl_head s := Some skb], ks_ctrl_head := next_head\<rparr>)
      else (False, s))"

definition ctrl_dequeue :: "ksession \<Rightarrow> bytes option \<times> ksession" where
  "ctrl_dequeue s =
     (if ks_ctrl_head s \<noteq> ks_ctrl_tail s
      then (ks_ctrl_q s ! ks_ctrl_tail s,
            s\<lparr>ks_ctrl_q := (ks_ctrl_q s)[ks_ctrl_tail s := None],
              ks_ctrl_tail := ring_next SSTP_CTRL_Q_CAP (ks_ctrl_tail s)\<rparr>)
      else (None, s))"

text \<open>
  \<open>SSTP_IOC_RECV_CONTROL\<close> with a buffer of \<open>buf_len\<close> writable bytes: the error, or the packet;
  an empty packet is what the caller gets from an empty queue.
\<close>

definition recv_control :: "nat \<Rightarrow> ksession \<Rightarrow> (errno + bytes) \<times> ksession" where
  "recv_control buf_len s0 =
     (case ctrl_dequeue s0 of
        (None, s) \<Rightarrow> (Inr [], s)
      | (Some skb, s) \<Rightarrow>
          if buf_len < length skb then (Inl EMSGSIZE, bump sstp_malformed_update s)
          else (Inr skb, s))"

subsection \<open>Rings as queues\<close>

definition ring_length :: "nat \<Rightarrow> nat \<Rightarrow> nat \<Rightarrow> nat" where
  "ring_length cap head tail = (head + cap - tail) mod cap"

definition ring_list :: "nat \<Rightarrow> 'a list \<Rightarrow> nat \<Rightarrow> nat \<Rightarrow> 'a list" where
  "ring_list cap arr head tail = map (\<lambda>k. arr ! ((tail + k) mod cap)) [0..<ring_length cap head tail]"

definition ring_wf :: "nat \<Rightarrow> 'a list \<Rightarrow> nat \<Rightarrow> nat \<Rightarrow> bool" where
  "ring_wf cap arr head tail \<longleftrightarrow> 1 < cap \<and> length arr = cap \<and> head < cap \<and> tail < cap"

lemma mod_add_inj_le: "(t + k) mod cap = (t + n) mod cap \<Longrightarrow> k \<le> n \<Longrightarrow> n < cap \<Longrightarrow> k = (n :: nat)"
  using mod_eq_dvd_iff_nat [of "t + k" "t + n" cap] by (auto dest: dvd_imp_le)

lemma mod_add_inj: "(t + k) mod cap = (t + n) mod cap \<Longrightarrow> k < cap \<Longrightarrow> n < cap \<Longrightarrow> k = (n :: nat)"
  using mod_add_inj_le [of t k cap n] mod_add_inj_le [of t n cap k] by (cases "k \<le> n") auto

lemma ring_length_head: "ring_wf cap arr head tail \<Longrightarrow> (tail + ring_length cap head tail) mod cap = head"
  by (simp add: ring_wf_def ring_length_def mod_add_right_eq)

lemma ring_length_less: "ring_wf cap arr head tail \<Longrightarrow> ring_length cap head tail < cap"
  by (simp add: ring_wf_def ring_length_def)

lemma ring_length_eq: "ring_wf cap arr head tail \<Longrightarrow> m < cap \<Longrightarrow> (tail + m) mod cap = head \<Longrightarrow> ring_length cap head tail = m"
  using ring_length_head [of cap arr head tail] ring_length_less [of cap arr head tail] mod_add_inj by metis

lemma length_ring_list [simp]: "length (ring_list cap arr head tail) = ring_length cap head tail"
  by (simp add: ring_list_def)

lemma ring_empty: "ring_wf cap arr head tail \<Longrightarrow> ring_length cap head tail = 0 \<longleftrightarrow> head = tail"
  by (metis ring_length_head ring_length_eq ring_wf_def add_0_right mod_less less_trans zero_less_one)

lemma ring_full: "ring_wf cap arr head tail \<Longrightarrow> ring_next cap head = tail \<longleftrightarrow> ring_length cap head tail = cap - 1"
proof -
  assume wf: "ring_wf cap arr head tail"
  let ?n = "ring_length cap head tail"
  have h: "(tail + (?n + 1)) mod cap = ring_next cap head"
    using ring_length_head [OF wf] by (metis ring_next_def add.assoc mod_add_left_eq)
  have n: "?n + 1 \<le> cap" "tail < cap" "1 < cap" using ring_length_less [OF wf] wf by (auto simp: ring_wf_def)
  show ?thesis
  proof
    assume "ring_next cap head = tail"
    with h n have "?n + 1 = cap" using mod_add_inj [of tail "?n + 1" cap 0] by force
    then show "?n = cap - 1" by simp
  next
    assume "?n = cap - 1"
    with h n show "ring_next cap head = tail" by simp
  qed
qed

lemma ring_slots: "ring_wf cap arr head tail \<Longrightarrow> k < ring_length cap head tail \<Longrightarrow> head \<noteq> (tail + k) mod cap"
  by (metis ring_length_eq ring_length_less less_trans nat_neq_iff)

lemma ring_push:
  assumes wf: "ring_wf cap arr head tail" and "ring_next cap head \<noteq> tail"
  shows "ring_list cap (arr[head := x]) (ring_next cap head) tail = ring_list cap arr head tail @ [x]"
    and "ring_wf cap (arr[head := x]) (ring_next cap head) tail"
proof -
  let ?n = "ring_length cap head tail"
  show wf': "ring_wf cap (arr[head := x]) (ring_next cap head) tail" using wf by (simp add: ring_wf_def ring_next_def)
  have "?n + 1 < cap" using ring_full [OF wf] ring_length_less [OF wf] assms(2) by linarith
  moreover have "(tail + (?n + 1)) mod cap = ring_next cap head"
    using ring_length_head [OF wf] by (metis ring_next_def add.assoc mod_add_left_eq)
  ultimately have n: "ring_length cap (ring_next cap head) tail = ?n + 1" by (rule ring_length_eq [OF wf'])
  have "head < length arr" using wf by (simp add: ring_wf_def)
  then show "ring_list cap (arr[head := x]) (ring_next cap head) tail = ring_list cap arr head tail @ [x]"
    unfolding ring_list_def n using ring_slots [OF wf] ring_length_head [OF wf] by simp
qed

lemma ring_pop:
  assumes wf: "ring_wf cap arr head tail" and ne: "head \<noteq> tail"
  shows "ring_list cap arr head tail = arr ! tail # ring_list cap (arr[tail := x]) head (ring_next cap tail)"
    and "ring_wf cap (arr[tail := x]) head (ring_next cap tail)"
proof -
  let ?n = "ring_length cap head tail"
  show wf': "ring_wf cap (arr[tail := x]) head (ring_next cap tail)" using wf by (simp add: ring_wf_def ring_next_def)
  obtain m where m: "?n = Suc m" using ring_empty [OF wf] ne by (cases ?n) auto
  have slot: "(ring_next cap tail + k) mod cap = (tail + Suc k) mod cap" for k
    by (simp add: ring_next_def mod_add_left_eq)
  have n: "ring_length cap head (ring_next cap tail) = m"
    by (rule ring_length_eq [OF wf']) (use m ring_length_less [OF wf] ring_length_head [OF wf] slot in auto)
  have "tail \<noteq> (tail + Suc k) mod cap" if "k < m" for k
    using mod_add_inj [of tail "Suc k" cap 0] that m ring_length_less [OF wf] wf by (auto simp: ring_wf_def)
  then have "map (\<lambda>k. arr ! ((tail + Suc k) mod cap)) [0..<m] =
      map (\<lambda>k. arr[tail := x] ! ((ring_next cap tail + k) mod cap)) [0..<m]"
    by (auto simp: slot)
  moreover have "tail mod cap = tail" using wf by (simp add: ring_wf_def)
  ultimately show "ring_list cap arr head tail = arr ! tail # ring_list cap (arr[tail := x]) head (ring_next cap tail)"
    unfolding ring_list_def n m by (simp only: upt_conv_Cons [OF zero_less_Suc] list.map map_Suc_upt [symmetric] map_map comp_def) simp
qed

lemma ring_pop_same:
  assumes "ring_wf cap arr head tail" and "head \<noteq> tail"
  shows "ring_list cap arr head tail = arr ! tail # ring_list cap arr head (ring_next cap tail)"
    and "ring_wf cap arr head (ring_next cap tail)"
  using ring_pop [OF assms, of "arr ! tail"] by simp_all

subsection \<open>Bounded queues\<close>

text \<open>
  A queue of bounded capacity that refuses what does not fit.  Over any sequence of insertions and
  removals nothing is lost, duplicated or reordered.
\<close>

datatype 'a queue_op = Put 'a | Get

text \<open>The items accepted and the items returned by a sequence of operations.\<close>

fun queue_run ::
    "('a \<Rightarrow> 's \<Rightarrow> bool \<times> 's) \<Rightarrow> ('s \<Rightarrow> 'a option \<times> 's) \<Rightarrow> 'a queue_op list \<Rightarrow> 's \<Rightarrow> 'a list \<times> 'a list \<times> 's" where
  "queue_run put get [] s = ([], [], s)"
| "queue_run put get (Put x # ops) s =
     (let (ok, s') = put x s; (ins, outs, t) = queue_run put get ops s' in ((if ok then x # ins else ins), outs, t))"
| "queue_run put get (Get # ops) s =
     (let (r, s') = get s; (ins, outs, t) = queue_run put get ops s' in
      (ins, (case r of Some x \<Rightarrow> x # outs | None \<Rightarrow> outs), t))"

locale bounded_fifo =
  fixes wf :: "'s \<Rightarrow> bool"
    and contents :: "'s \<Rightarrow> 'a list"
    and put :: "'a \<Rightarrow> 's \<Rightarrow> bool \<times> 's"
    and get :: "'s \<Rightarrow> 'a option \<times> 's"
    and capacity :: nat
  assumes bound: "wf s \<Longrightarrow> length (contents s) \<le> capacity"
    and put_wf: "wf s \<Longrightarrow> wf (snd (put x s))"
    and get_wf: "wf s \<Longrightarrow> wf (snd (get s))"
    and put_room: "wf s \<Longrightarrow> length (contents s) < capacity \<Longrightarrow> fst (put x s) \<and> contents (snd (put x s)) = contents s @ [x]"
    and put_full: "wf s \<Longrightarrow> length (contents s) = capacity \<Longrightarrow> \<not> fst (put x s) \<and> contents (snd (put x s)) = contents s"
    and get_nil: "wf s \<Longrightarrow> contents s = [] \<Longrightarrow> fst (get s) = None \<and> contents (snd (get s)) = []"
    and get_cons: "wf s \<Longrightarrow> contents s = x # xs \<Longrightarrow> fst (get s) = Some x \<and> contents (snd (get s)) = xs"
begin

lemma put_cases:
  "wf s \<Longrightarrow> put x s = (ok, s') \<Longrightarrow> contents s' = (if ok then contents s @ [x] else contents s)"
  using put_room [of s x] put_full [of s x] bound [of s] by (cases "length (contents s) < capacity") auto

lemma run_fifo:
  "wf s \<Longrightarrow> queue_run put get ops s = (ins, outs, t) \<Longrightarrow> wf t \<and> outs @ contents t = contents s @ ins \<and> length (contents t) \<le> capacity"
proof (induction ops arbitrary: s ins outs)
  case Nil
  then show ?case using bound by auto
next
  case (Cons op ops)
  show ?case
  proof (cases op)
    case (Put x)
    obtain ok s' ins' where r: "put x s = (ok, s')" "queue_run put get ops s' = (ins', outs, t)" "ins = (if ok then x # ins' else ins')"
      using Cons.prems(2) Put by (auto split: prod.splits)
    with Cons.prems(1) put_wf [of s x] have "wf s'" by simp
    from Cons.IH [OF this r(2)] r put_cases [OF Cons.prems(1) r(1)] show ?thesis by auto
  next
    case Get
    obtain r s' outs' where r: "get s = (r, s')" "queue_run put get ops s' = (ins, outs', t)"
      "outs = (case r of Some x \<Rightarrow> x # outs' | None \<Rightarrow> outs')"
      using Cons.prems(2) Get by (auto split: prod.splits)
    with Cons.prems(1) get_wf [of s] have "wf s'" by simp
    from Cons.IH [OF this r(2)] r get_nil [OF Cons.prems(1)] get_cons [OF Cons.prems(1)]
    show ?thesis by (cases "contents s") auto
  qed
qed

end

definition ctrl_wf :: "ksession \<Rightarrow> bool" where
  "ctrl_wf s \<longleftrightarrow> ring_wf SSTP_CTRL_Q_CAP (ks_ctrl_q s) (ks_ctrl_head s) (ks_ctrl_tail s)
     \<and> None \<notin> set (ring_list SSTP_CTRL_Q_CAP (ks_ctrl_q s) (ks_ctrl_head s) (ks_ctrl_tail s))"

definition ctrl_contents :: "ksession \<Rightarrow> bytes list" where
  "ctrl_contents s = map the (ring_list SSTP_CTRL_Q_CAP (ks_ctrl_q s) (ks_ctrl_head s) (ks_ctrl_tail s))"

lemma ctrl_enqueue_room:
  assumes "ctrl_wf s" "ring_next SSTP_CTRL_Q_CAP (ks_ctrl_head s) \<noteq> ks_ctrl_tail s"
  shows "fst (ctrl_enqueue x s)" "ctrl_wf (snd (ctrl_enqueue x s))" "ctrl_contents (snd (ctrl_enqueue x s)) = ctrl_contents s @ [x]"
  using assms ring_push [of SSTP_CTRL_Q_CAP "ks_ctrl_q s" "ks_ctrl_head s" "ks_ctrl_tail s" "Some x"]
  by (auto simp: ctrl_wf_def ctrl_contents_def ctrl_enqueue_def Let_def)

lemma ctrl_enqueue_full:
  "ring_next SSTP_CTRL_Q_CAP (ks_ctrl_head s) = ks_ctrl_tail s \<Longrightarrow> ctrl_enqueue x s = (False, s)"
  by (simp add: ctrl_enqueue_def)

lemma length_ctrl_contents: "length (ctrl_contents s) = ring_length SSTP_CTRL_Q_CAP (ks_ctrl_head s) (ks_ctrl_tail s)"
  by (simp add: ctrl_contents_def)

lemma ctrl_full:
  "ctrl_wf s \<Longrightarrow> ring_next SSTP_CTRL_Q_CAP (ks_ctrl_head s) = ks_ctrl_tail s \<longleftrightarrow> length (ctrl_contents s) = 7"
  using ring_full [of SSTP_CTRL_Q_CAP "ks_ctrl_q s" "ks_ctrl_head s" "ks_ctrl_tail s"]
  by (simp add: ctrl_wf_def length_ctrl_contents) (simp add: SSTP_CTRL_Q_CAP_def)

lemma ctrl_bound: "ctrl_wf s \<Longrightarrow> length (ctrl_contents s) \<le> 7"
  using ring_length_less [of SSTP_CTRL_Q_CAP "ks_ctrl_q s" "ks_ctrl_head s" "ks_ctrl_tail s"]
  by (simp add: ctrl_wf_def length_ctrl_contents) (simp add: SSTP_CTRL_Q_CAP_def)

lemma ctrl_dequeue_some:
  assumes "ctrl_wf s" "ks_ctrl_head s \<noteq> ks_ctrl_tail s"
  shows "ctrl_wf (snd (ctrl_dequeue s))" "\<exists>x. fst (ctrl_dequeue s) = Some x \<and> ctrl_contents s = x # ctrl_contents (snd (ctrl_dequeue s))"
  using assms ring_pop [of SSTP_CTRL_Q_CAP "ks_ctrl_q s" "ks_ctrl_head s" "ks_ctrl_tail s" None]
  by (auto simp: ctrl_wf_def ctrl_contents_def ctrl_dequeue_def)

lemma ctrl_empty: "ctrl_wf s \<Longrightarrow> ctrl_contents s = [] \<longleftrightarrow> ks_ctrl_head s = ks_ctrl_tail s"
  using ring_empty [of SSTP_CTRL_Q_CAP "ks_ctrl_q s" "ks_ctrl_head s" "ks_ctrl_tail s"] length_ctrl_contents [of s]
  by (auto simp: ctrl_wf_def)

interpretation ctrlq: bounded_fifo ctrl_wf ctrl_contents ctrl_enqueue ctrl_dequeue 7
proof unfold_locales
  fix s x xs
  assume wf: "ctrl_wf s"
  show "length (ctrl_contents s) \<le> 7" by (rule ctrl_bound [OF wf])
  show "ctrl_wf (snd (ctrl_enqueue x s))"
    using wf ctrl_enqueue_room(2) [OF wf] ctrl_enqueue_full [of s x]
    by (cases "ring_next SSTP_CTRL_Q_CAP (ks_ctrl_head s) = ks_ctrl_tail s") auto
  show "ctrl_wf (snd (ctrl_dequeue s))"
    using wf ctrl_dequeue_some(1) [OF wf] by (cases "ks_ctrl_head s = ks_ctrl_tail s") (auto simp: ctrl_dequeue_def)
  show "length (ctrl_contents s) < 7 \<Longrightarrow> fst (ctrl_enqueue x s) \<and> ctrl_contents (snd (ctrl_enqueue x s)) = ctrl_contents s @ [x]"
    using ctrl_full [OF wf] ctrl_enqueue_room [OF wf, of x] by auto
  show "length (ctrl_contents s) = 7 \<Longrightarrow> \<not> fst (ctrl_enqueue x s) \<and> ctrl_contents (snd (ctrl_enqueue x s)) = ctrl_contents s"
    using ctrl_full [OF wf] ctrl_enqueue_full [of s x] by auto
  show "ctrl_contents s = [] \<Longrightarrow> fst (ctrl_dequeue s) = None \<and> ctrl_contents (snd (ctrl_dequeue s)) = []"
    using ctrl_empty [OF wf] by (simp add: ctrl_dequeue_def)
  show "ctrl_contents s = x # xs \<Longrightarrow> fst (ctrl_dequeue s) = Some x \<and> ctrl_contents (snd (ctrl_dequeue s)) = xs"
    using ctrl_empty [OF wf] ctrl_dequeue_some [OF wf] by auto
qed

text \<open>The event ring, as a queue of event types: a full ring may refresh its newest event, never its type.\<close>

definition evt_wf :: "ksession \<Rightarrow> bool" where
  "evt_wf s \<longleftrightarrow> ring_wf SSTP_EVENT_QUEUE_CAP (ks_events s) (ks_evt_head s) (ks_evt_tail s)"

definition evt_contents :: "ksession \<Rightarrow> kevent list" where
  "evt_contents s = ring_list SSTP_EVENT_QUEUE_CAP (ks_events s) (ks_evt_head s) (ks_evt_tail s)"

definition evt_types :: "ksession \<Rightarrow> u32 list" where
  "evt_types s = map ev_type (evt_contents s)"

definition evt_put :: "kenv \<Rightarrow> u32 \<Rightarrow> u32 \<Rightarrow> ksession \<Rightarrow> bool \<times> ksession" where
  "evt_put env arg type s =
     (ring_next SSTP_EVENT_QUEUE_CAP (ks_evt_head s) \<noteq> ks_evt_tail s, sstp_session_emit env type arg s)"

definition evt_get :: "ksession \<Rightarrow> u32 option \<times> ksession" where
  "evt_get s =
     (case sstp_session_read True s of
        (ReadEvent e, s') \<Rightarrow> (Some (ev_type e), s')
      | (_, s') \<Rightarrow> (None, s'))"

lemma ev_type_refresh: "ev_type (es[p := (es ! p)\<lparr>ev_arg := a, ev_timestamp_ns := n\<rparr>] ! i) = ev_type (es ! i)"
  by (cases "p < length es"; cases "i = p") (simp_all add: list_update_beyond not_less)

lemma emit_room:
  assumes "evt_wf s" "ring_next SSTP_EVENT_QUEUE_CAP (ks_evt_head s) \<noteq> ks_evt_tail s"
  shows "evt_wf (sstp_session_emit env t a s)"
    and "evt_contents (sstp_session_emit env t a s) =
      evt_contents s @ [\<lparr>ev_type = t, ev_arg = a, ev_timestamp_ns = ke_now env (ks_calls s)\<rparr>]"
  using assms ring_push [of SSTP_EVENT_QUEUE_CAP "ks_events s" "ks_evt_head s" "ks_evt_tail s"]
  by (simp_all add: evt_wf_def evt_contents_def sstp_session_emit_def kcall_def Let_def)

lemma emit_full:
  assumes "evt_wf s" "ring_next SSTP_EVENT_QUEUE_CAP (ks_evt_head s) = ks_evt_tail s"
  shows "evt_wf (sstp_session_emit env t a s)" and "evt_types (sstp_session_emit env t a s) = evt_types s"
proof -
  show "evt_wf (sstp_session_emit env t a s)"
    using assms by (simp add: evt_wf_def sstp_session_emit_def kcall_def bump_def Let_def ring_wf_def)
  show "evt_types (sstp_session_emit env t a s) = evt_types s"
    using assms(2) by (simp add: evt_types_def evt_contents_def sstp_session_emit_def kcall_def bump_def Let_def ring_list_def
        ev_type_refresh comp_def)
qed

lemma emit_evt_wf: "evt_wf s \<Longrightarrow> evt_wf (sstp_session_emit env t a s)"
  using emit_room(1) emit_full(1) by blast

lemma length_evt_types: "length (evt_types s) = ring_length SSTP_EVENT_QUEUE_CAP (ks_evt_head s) (ks_evt_tail s)"
  by (simp add: evt_types_def evt_contents_def)

lemma evt_full:
  "evt_wf s \<Longrightarrow> ring_next SSTP_EVENT_QUEUE_CAP (ks_evt_head s) = ks_evt_tail s \<longleftrightarrow> length (evt_types s) = 15"
  using ring_full [of SSTP_EVENT_QUEUE_CAP "ks_events s" "ks_evt_head s" "ks_evt_tail s"]
  by (simp add: evt_wf_def length_evt_types) (simp add: SSTP_EVENT_QUEUE_CAP_def)

lemma evt_empty: "evt_wf s \<Longrightarrow> evt_types s = [] \<longleftrightarrow> ks_evt_head s = ks_evt_tail s"
  using ring_empty [of SSTP_EVENT_QUEUE_CAP "ks_events s" "ks_evt_head s" "ks_evt_tail s"] length_evt_types [of s]
  by (auto simp: evt_wf_def)

lemma evt_get_some:
  assumes "evt_wf s" "ks_evt_head s \<noteq> ks_evt_tail s"
  shows "evt_wf (snd (evt_get s))" and "\<exists>x. fst (evt_get s) = Some x \<and> evt_types s = x # evt_types (snd (evt_get s))"
  using assms ring_pop_same [of SSTP_EVENT_QUEUE_CAP "ks_events s" "ks_evt_head s" "ks_evt_tail s"]
  by (simp_all add: evt_wf_def evt_types_def evt_contents_def evt_get_def sstp_session_read_def)

interpretation evtq: bounded_fifo evt_wf evt_types "evt_put env arg" evt_get 15
proof unfold_locales
  fix s x xs
  assume wf: "evt_wf s"
  show "length (evt_types s) \<le> 15"
    using ring_length_less [of SSTP_EVENT_QUEUE_CAP "ks_events s" "ks_evt_head s" "ks_evt_tail s"] wf
    by (simp add: evt_wf_def length_evt_types) (simp add: SSTP_EVENT_QUEUE_CAP_def)
  show "evt_wf (snd (evt_put env arg x s))" by (simp add: evt_put_def emit_evt_wf [OF wf])
  show "evt_wf (snd (evt_get s))"
    using wf evt_get_some(1) [OF wf] by (cases "ks_evt_head s = ks_evt_tail s") (auto simp: evt_get_def sstp_session_read_def)
  show "length (evt_types s) < 15 \<Longrightarrow> fst (evt_put env arg x s) \<and> evt_types (snd (evt_put env arg x s)) = evt_types s @ [x]"
    using evt_full [OF wf] emit_room(2) [OF wf, of env x arg] by (auto simp: evt_put_def evt_types_def)
  show "length (evt_types s) = 15 \<Longrightarrow> \<not> fst (evt_put env arg x s) \<and> evt_types (snd (evt_put env arg x s)) = evt_types s"
    using evt_full [OF wf] emit_full(2) [OF wf] by (auto simp: evt_put_def)
  show "evt_types s = [] \<Longrightarrow> fst (evt_get s) = None \<and> evt_types (snd (evt_get s)) = []"
    using evt_empty [OF wf] by (simp add: evt_get_def sstp_session_read_def)
  show "evt_types s = x # xs \<Longrightarrow> fst (evt_get s) = Some x \<and> evt_types (snd (evt_get s)) = xs"
    using evt_empty [OF wf] evt_get_some [OF wf] by auto
qed


lemma ksession_new_wf: "ctrl_wf (ksession_new mtu)" "evt_wf (ksession_new mtu)"
  "ctrl_contents (ksession_new mtu) = []" "evt_types (ksession_new mtu) = []"
  by (simp_all add: ksession_new_def ctrl_wf_def evt_wf_def ctrl_contents_def evt_types_def evt_contents_def ring_wf_def
      ring_list_def ring_length_def kmod_caps)


end
