(* ===== verification/Kmod_Rx.thy ===== *)
theory Kmod_Rx
  imports Kmod_State
begin

text \<open>
  The receive path of the kernel module, \<open>src/kmod/sstp_demux.c\<close>: reassembly of SSTP frames from
  the decrypted byte stream, the inline answer to LCP echo requests, delivery to the PPP layer and
  the receive worker.
\<close>

subsection \<open>Delivery\<close>

definition PPP_ALLSTATIONS :: u8 where "PPP_ALLSTATIONS = 0xff"
definition PPP_UI :: u8 where "PPP_UI = 0x03"
definition LCP_ECHOREQ :: u8 where "LCP_ECHOREQ = 9"
definition LCP_ECHOREP :: u8 where "LCP_ECHOREP = 10"

lemmas ppp_octets = PPP_ALLSTATIONS_def PPP_UI_def LCP_ECHOREQ_def LCP_ECHOREP_def

definition dev_alloc_skb :: "kenv \<Rightarrow> ksession \<Rightarrow> bool \<times> ksession" where
  "dev_alloc_skb env s = (ke_alloc env (ks_calls s), kcall s)"

text \<open>The frame of the reply: protocol, code, identifier and length of the request, a zero magic number, its data.\<close>

definition lcp_echo_reply :: "bytes \<Rightarrow> nat \<Rightarrow> bytes" where
  "lcp_echo_reply payload lcp_len =
     [0xc0, 0x21, LCP_ECHOREP, payload ! 3, payload ! 4, payload ! 5, 0, 0, 0, 0] @ take (lcp_len - 8) (drop 10 payload)"

definition sstp_handle_lcp_echo :: "kenv \<Rightarrow> bytes \<Rightarrow> ksession \<Rightarrow> bool \<times> ksession" where
  "sstp_handle_lcp_echo env payload s =
     (if length payload < 10 then (False, s)
      else if payload ! 0 \<noteq> 0xc0 \<or> payload ! 1 \<noteq> 0x21 then (False, s)
      else if payload ! 2 \<noteq> LCP_ECHOREQ then (False, s)
      else
        let lcp_len = unat (from_be16 (payload ! 4) (payload ! 5)) in
        if lcp_len < 8 \<or> lcp_len + 2 > length payload then (False, s)
        else if ks_closing s then (True, s)
        else if SSTP_TX_Q_CAP \<le> length (ks_tx_q s) then (True, s)
        else
          (case dev_alloc_skb env s of
             (False, s) \<Rightarrow> (True, s)
           | (True, s) \<Rightarrow> (True, s\<lparr>ks_tx_q := ks_tx_q s @ [lcp_echo_reply payload lcp_len], ks_tx_work := True\<rparr>)))"

definition sstp_deliver_ppp :: "kenv \<Rightarrow> bytes \<Rightarrow> ksession \<Rightarrow> ksession" where
  "sstp_deliver_ppp env payload0 s =
     (let payload = (if 2 \<le> length payload0 \<and> payload0 ! 0 = PPP_ALLSTATIONS \<and> payload0 ! 1 = PPP_UI
                     then drop 2 payload0 else payload0) in
      if length payload < 2 then bump sstp_malformed_update s
      else (case sstp_handle_lcp_echo env payload s of
         (True, s) \<Rightarrow> s
       | (False, s) \<Rightarrow>
           (case dev_alloc_skb env s of
              (False, s) \<Rightarrow> bump sstp_malformed_update s
            | (True, s) \<Rightarrow> (bump ppp_frames_rx_update s)\<lparr>ks_ppp_input := ks_ppp_input s @ [payload]\<rparr>)))"

definition sstp_deliver_control :: "kenv \<Rightarrow> bytes \<Rightarrow> ksession \<Rightarrow> ksession" where
  "sstp_deliver_control env payload s =
     (let (allocated, s) = dev_alloc_skb env s;
          (enqueued, s) = (if allocated then ctrl_enqueue payload s else (False, s)) in
      if \<not> enqueued then bump sstp_malformed_update s
      else sstp_session_emit env SSTP_EVT_CONTROL_PACKET (word_of_nat (length payload)) (bump ctrl_frames_rx_update s))"

subsection \<open>Reassembly\<close>

text \<open>
  The loop of \<open>sstp_demux_parse\<close> over the received bytes from \<open>off\<close> on: the new state and the
  number of bytes consumed.
\<close>

function demux_loop :: "kenv \<Rightarrow> bytes \<Rightarrow> nat \<Rightarrow> ksession \<Rightarrow> ksession \<times> nat" where
  "demux_loop env buf off s =
     (if length buf - off < SSTP_HEADER_LEN then (s, off)
      else
        let p = drop off buf; ver = p ! 0; c = p ! 1 AND 1;
            len = unat (from_be16 (p ! 2) (p ! 3)) AND SSTP_MAX_PACKET_LEN in
        if ver \<noteq> SSTP_VERSION_1_0 \<or> len < SSTP_HEADER_LEN
        then (set_closing (sstp_session_emit env SSTP_EVT_PROTOCOL_ERROR (ucast ver) (bump sstp_malformed_update s)), off)
        else if len > length buf - off then (s, off)
        else
          let s1 = bump sstp_frames_rx_update s; payload = slice SSTP_HEADER_LEN len p;
              s2 = (if c = 0 then sstp_deliver_ppp env payload s1 else sstp_deliver_control env payload s1) in
          demux_loop env buf (off + len) s2)"
  by pat_completeness auto
termination
  by (relation "measure (\<lambda>(env, buf, off, s). length buf - off)") (auto simp: SSTP_HEADER_LEN_def)

declare demux_loop.simps [simp del]

definition sstp_demux_parse :: "kenv \<Rightarrow> ksession \<Rightarrow> ksession \<times> nat" where
  "sstp_demux_parse env s = demux_loop env (ks_rx s) 0 s"

subsection \<open>The receive worker\<close>

text \<open>
  What a call of \<open>kernel_recvmsg\<close> returns: bytes, the end of the stream, an error, or a record of
  another type than application data.  It never returns more bytes than there is room for.
\<close>

datatype krecv = RecvBytes bytes | RecvEof | RecvErr errno | RecvRecordType u8

datatype recv_result = RrBytes | RrEof | RrAgain | RrPipe | RrNobufs | RrErr errno

definition sstp_demux_recv_once :: "kenv \<Rightarrow> krecv \<Rightarrow> ksession \<Rightarrow> recv_result \<times> ksession" where
  "sstp_demux_recv_once env r s =
     (case r of
        RecvRecordType rt \<Rightarrow> (RrPipe, set_closing (sstp_session_emit env SSTP_EVT_TLS_REKEY_NEEDED (ucast rt) s))
      | RecvEof \<Rightarrow> (RrEof, s)
      | RecvErr e \<Rightarrow> ((if e = ENOBUFS then RrNobufs else if e = EAGAIN then RrAgain else if e = EPIPE then RrPipe else RrErr e), s)
      | RecvBytes bs \<Rightarrow>
          (let got = take (SSTP_RX_BUF_CAP - length (ks_rx s)) bs in
           if got = [] then (RrEof, s)
           else (RrBytes, (bump tls_records_rx_update s)\<lparr>ks_rx := ks_rx s @ got\<rparr>)))"

text \<open>The tail of an iteration: parse what is there and move the rest to the front of the buffer.\<close>

definition rx_parse :: "kenv \<Rightarrow> ksession \<Rightarrow> ksession" where
  "rx_parse env s =
     (if ks_rx s = [] then s
      else case sstp_demux_parse env s of (s', consumed) \<Rightarrow> s'\<lparr>ks_rx := drop consumed (ks_rx s')\<rparr>)"

text \<open>
  The worker, given what successive receive calls return; \<open>budget\<close> is what is left of the 64
  iterations.  The result includes the answers not asked for.
\<close>

fun rx_loop :: "kenv \<Rightarrow> nat \<Rightarrow> krecv list \<Rightarrow> ksession \<Rightarrow> ksession \<times> krecv list" where
  "rx_loop env 0 rs s = (s\<lparr>ks_rx_work := True\<rparr>, rs)"
| "rx_loop env (Suc budget) rs s =
     (if ks_closing s then (s, rs)
      else if SSTP_RX_BUF_CAP \<le> length (ks_rx s) then rx_loop env budget rs (rx_parse env s)
      else
        (case rs of
           [] \<Rightarrow> (s, [])
         | r # rs' \<Rightarrow>
             (case sstp_demux_recv_once env r s of
                (RrEof, s) \<Rightarrow> (set_closing (sstp_session_emit env SSTP_EVT_PEER_CLOSED 0 s), rs')
              | (RrAgain, s) \<Rightarrow> (s, rs')
              | (RrPipe, s) \<Rightarrow> (s, rs')
              | (RrErr e, s) \<Rightarrow> (set_closing (sstp_session_emit env SSTP_EVT_TLS_FATAL_ALERT (word_of_nat e) s), rs')
              | (RrNobufs, s) \<Rightarrow> rx_loop env budget rs' (rx_parse env s)
              | (RrBytes, s) \<Rightarrow> rx_loop env budget rs' (rx_parse env s))))"

definition sstp_rx_worker :: "kenv \<Rightarrow> krecv list \<Rightarrow> ksession \<Rightarrow> ksession \<times> krecv list" where
  "sstp_rx_worker env rs s = rx_loop env 64 rs (s\<lparr>ks_rx_work := False\<rparr>)"

text \<open>The socket callbacks, and their removal with the pending work when the session is released.\<close>

definition sstp_sk_data_ready :: "ksession \<Rightarrow> ksession" where
  "sstp_sk_data_ready s = (if \<not> ks_closing s then s\<lparr>ks_rx_work := True\<rparr> else s)"

definition sstp_sk_write_space :: "ksession \<Rightarrow> ksession" where
  "sstp_sk_write_space s = (if \<not> ks_closing s then s\<lparr>ks_tx_work := True\<rparr> else s)"

definition sstp_demux_remove_callback :: "ksession \<Rightarrow> ksession" where
  "sstp_demux_remove_callback s = s\<lparr>ks_cb_installed := False\<rparr>"

definition sstp_demux_shutdown :: "ksession \<Rightarrow> ksession" where
  "sstp_demux_shutdown s =
     (sstp_demux_remove_callback s)\<lparr>ks_rx_work := False, ks_tx_work := False, ks_tx_q := []\<rparr>"

subsection \<open>The frames of a byte stream\<close>

text \<open>
  The reference: the complete frames at the front of a stream, each with its control bit, the bytes
  after them, and whether those begin with a header that is no SSTP header.
\<close>

definition frame_len :: "bytes \<Rightarrow> nat" where
  "frame_len p = unat (from_be16 (p ! 2) (p ! 3)) mod 4096"

function sstp_frames :: "bytes \<Rightarrow> (bool \<times> bytes) list \<times> bytes \<times> bool" where
  "sstp_frames buf =
     (if length buf < 4 then ([], buf, False)
      else if buf ! 0 \<noteq> 0x10 \<or> frame_len buf < 4 then ([], buf, True)
      else if frame_len buf > length buf then ([], buf, False)
      else case sstp_frames (drop (frame_len buf) buf) of
        (fs, rest, bad) \<Rightarrow> ((buf ! 1 AND 1 \<noteq> 0, slice 4 (frame_len buf) buf) # fs, rest, bad))"
  by pat_completeness auto
termination
  by (relation "measure length") auto

declare sstp_frames.simps [simp del]

definition bad_header :: "bytes \<Rightarrow> bool" where
  "bad_header buf \<longleftrightarrow> 4 \<le> length buf \<and> (buf ! 0 \<noteq> 0x10 \<or> frame_len buf < 4)"

definition complete :: "bytes \<Rightarrow> bool" where
  "complete buf \<longleftrightarrow> 4 \<le> length buf \<and> buf ! 0 = 0x10 \<and> 4 \<le> frame_len buf \<and> frame_len buf \<le> length buf"

definition first_frame :: "bytes \<Rightarrow> bool \<times> bytes" where
  "first_frame buf = (buf ! 1 AND 1 \<noteq> 0, slice 4 (frame_len buf) buf)"

lemma frames_stop: "\<not> complete buf \<Longrightarrow> sstp_frames buf = ([], buf, bad_header buf)"
  by (subst sstp_frames.simps) (auto simp: complete_def bad_header_def)

lemma frames_step:
  "complete buf \<Longrightarrow> sstp_frames buf =
     (case sstp_frames (drop (frame_len buf) buf) of (fs, rest, bad) \<Rightarrow> (first_frame buf # fs, rest, bad))"
  by (subst sstp_frames.simps) (simp add: complete_def first_frame_def)

lemma frames_induct [case_names stop step]:
  assumes "\<And>buf. \<not> complete buf \<Longrightarrow> P buf"
    and "\<And>buf. complete buf \<Longrightarrow> P (drop (frame_len buf) buf) \<Longrightarrow> P buf"
  shows "P buf"
proof (induction buf rule: length_induct)
  case (1 buf)
  show ?case
  proof (cases "complete buf")
    case True
    then have "length (drop (frame_len buf) buf) < length buf" by (auto simp: complete_def)
    with 1 True assms(2) show ?thesis by blast
  qed (rule assms(1))
qed

definition rx_frame :: "kenv \<Rightarrow> ksession \<Rightarrow> bool \<times> bytes \<Rightarrow> ksession" where
  "rx_frame env s f =
     (let s1 = bump sstp_frames_rx_update s in
      if fst f then sstp_deliver_control env (snd f) s1 else sstp_deliver_ppp env (snd f) s1)"

definition framing_error :: "kenv \<Rightarrow> u8 \<Rightarrow> ksession \<Rightarrow> ksession" where
  "framing_error env ver s =
     set_closing (sstp_session_emit env SSTP_EVT_PROTOCOL_ERROR (ucast ver) (bump sstp_malformed_update s))"

lemma demux_stop:
  assumes "\<not> complete (drop off buf)" and "off \<le> length buf"
  shows "demux_loop env buf off s = (if bad_header (drop off buf) then framing_error env (buf ! off) s else s, off)"
proof -
  let ?p = "drop off buf"
  have len: "unat (from_be16 (?p ! 2) (?p ! 3)) AND SSTP_MAX_PACKET_LEN = frame_len ?p"
    by (simp only: frame_len_def SSTP_MAX_PACKET_LEN_def nat_and_4095)
  have ver: "4 \<le> length buf - off \<Longrightarrow> ?p ! 0 = buf ! off" by simp
  consider "length buf - off < 4" | "4 \<le> length buf - off" "?p ! 0 \<noteq> 0x10 \<or> frame_len ?p < 4"
    | "4 \<le> length buf - off" "?p ! 0 = 0x10" "4 \<le> frame_len ?p" "frame_len ?p > length buf - off"
    using assms(1) unfolding complete_def length_drop by linarith
  then show ?thesis
    by cases (subst demux_loop.simps, simp add: len ver bad_header_def framing_error_def SSTP_HEADER_LEN_def
        SSTP_VERSION_1_0_def Let_def del: nth_drop)+
qed

lemma demux_step:
  assumes "complete (drop off buf)" and "off \<le> length buf"
  shows "demux_loop env buf off s =
    demux_loop env buf (off + frame_len (drop off buf)) (rx_frame env s (first_frame (drop off buf)))"
  using assms
  by (subst demux_loop.simps)
    (simp add: complete_def frame_len_def rx_frame_def first_frame_def wire_defs nat_and_4095 Let_def)

lemma demux_loop_frames:
  assumes "off \<le> length buf" and "sstp_frames (drop off buf) = (fs, rest, bad)"
  shows "length rest \<le> length buf - off \<and> demux_loop env buf off s =
     (if bad then framing_error env (rest ! 0) (foldl (rx_frame env) s fs) else foldl (rx_frame env) s fs,
      length buf - length rest)"
  using assms
proof (induction "drop off buf" arbitrary: off s fs rule: frames_induct)
  case (stop off)
  then have "fs = []" "rest = drop off buf" "bad = bad_header (drop off buf)" by (auto simp: frames_stop)
  moreover have "drop off buf ! 0 = buf ! off" using stop.prems(1) by simp
  ultimately show ?case using demux_stop [OF stop.hyps stop.prems(1)] stop.prems(1) by simp
next
  case (step off)
  let ?n = "frame_len (drop off buf)"
  obtain gs where g: "sstp_frames (drop (off + ?n) buf) = (gs, rest, bad)" and fs: "fs = first_frame (drop off buf) # gs"
    using step.prems(2) frames_step [OF step.hyps(1)] by (auto simp: add.commute split: prod.splits)
  have n: "off + ?n \<le> length buf" using step.hyps(1) step.prems(1) unfolding complete_def length_drop by linarith
  have IH: "length rest \<le> length buf - (off + ?n) \<and> demux_loop env buf (off + ?n) t =
      (if bad then framing_error env (rest ! 0) (foldl (rx_frame env) t gs) else foldl (rx_frame env) t gs,
       length buf - length rest)" for t
    using step.hyps(2) [OF _ n g] by (simp add: add.commute)
  then have "length rest \<le> length buf - off" using le_trans [OF _ diff_le_mono2 [OF le_add1]] by blast
  with IH demux_step [OF step.hyps(1) step.prems(1)] show ?case by (simp add: fs add.commute)
qed

lemma sstp_frames_rest:
  "sstp_frames buf = (fs, rest, bad) \<Longrightarrow>
     (\<not> bad \<longrightarrow> length rest < 4095) \<and> (\<exists>pre. buf = pre @ rest) \<and> sstp_frames rest = ([], rest, bad)"
proof (induction buf arbitrary: fs rule: frames_induct)
  case (stop buf)
  have "frame_len buf < 4096" by (simp add: frame_len_def)
  with stop have "\<not> bad_header buf \<longrightarrow> length buf < 4095" by (auto simp: complete_def bad_header_def)
  with stop show ?case by (auto simp: frames_stop)
next
  case (step buf)
  then obtain gs where "sstp_frames (drop (frame_len buf) buf) = (gs, rest, bad)"
    by (auto simp: frames_step split: prod.splits)
  from step.IH [OF this] show ?case by (metis append_assoc append_take_drop_id)
qed

lemma complete_append:
  "complete buf \<Longrightarrow> complete (buf @ b) \<and> frame_len (buf @ b) = frame_len buf \<and> first_frame (buf @ b) = first_frame buf"
  by (auto simp: complete_def frame_len_def first_frame_def nth_append)

lemma sstp_frames_append:
  "sstp_frames a = (fs, r, False) \<Longrightarrow>
     sstp_frames (a @ b) = (case sstp_frames (r @ b) of (gs, rest, bad) \<Rightarrow> (fs @ gs, rest, bad))"
proof (induction a arbitrary: fs rule: frames_induct)
  case (stop buf)
  then show ?case by (simp add: frames_stop split: prod.split)
next
  case (step buf)
  then obtain gs where g: "sstp_frames (drop (frame_len buf) buf) = (gs, r, False)" and fs: "fs = first_frame buf # gs"
    by (auto simp: frames_step split: prod.splits)
  have "frame_len buf \<le> length buf" using step.hyps by (simp add: complete_def)
  then show ?case using complete_append [OF step.hyps, of b] step.IH [OF g]
    by (simp add: frames_step fs split: prod.split)
qed

subsection \<open>What a frame does\<close>

definition strip_ac :: "bytes \<Rightarrow> bytes" where
  "strip_ac p = (if 2 \<le> length p \<and> p ! 0 = PPP_ALLSTATIONS \<and> p ! 1 = PPP_UI then drop 2 p else p)"

definition echo_request :: "bytes \<Rightarrow> bool" where
  "echo_request p \<longleftrightarrow> 10 \<le> length p \<and> take 3 p = [0xc0, 0x21, LCP_ECHOREQ]
     \<and> 8 \<le> unat (from_be16 (p ! 4) (p ! 5)) \<and> unat (from_be16 (p ! 4) (p ! 5)) + 2 \<le> length p"

text \<open>The PPP frames that go up, the echo replies that go back, and the control packets of a list of frames.\<close>

definition forwarded :: "(bool \<times> bytes) list \<Rightarrow> bytes list" where
  "forwarded fs = filter (\<lambda>p. 2 \<le> length p \<and> \<not> echo_request p) (map (strip_ac \<circ> snd) (filter (\<lambda>f. \<not> fst f) fs))"

definition echo_replies :: "(bool \<times> bytes) list \<Rightarrow> bytes list" where
  "echo_replies fs = map (\<lambda>p. lcp_echo_reply p (unat (from_be16 (p ! 4) (p ! 5))))
     (filter echo_request (map (strip_ac \<circ> snd) (filter (\<lambda>f. \<not> fst f) fs)))"

definition control_payloads :: "(bool \<times> bytes) list \<Rightarrow> bytes list" where
  "control_payloads fs = map snd (filter fst fs)"

lemma take_3: "3 \<le> length p \<Longrightarrow> take 3 p = [p ! 0, p ! 1, p ! 2]"
  by (cases p; cases "tl p"; cases "tl (tl p)") (auto simp: numeral_3_eq_3)

lemma handle_lcp_echo_eq:
  "sstp_handle_lcp_echo env p s =
     (if \<not> echo_request p then (False, s)
      else if ks_closing s \<or> SSTP_TX_Q_CAP \<le> length (ks_tx_q s) then (True, s)
      else if \<not> ke_alloc env (ks_calls s) then (True, kcall s)
      else (True, (kcall s)\<lparr>ks_tx_q := ks_tx_q s @ [lcp_echo_reply p (unat (from_be16 (p ! 4) (p ! 5)))], ks_tx_work := True\<rparr>))"
proof (cases "10 \<le> length p")
  case True
  then show ?thesis
    by (auto simp: sstp_handle_lcp_echo_def echo_request_def take_3 dev_alloc_skb_def kcall_def Let_def)
qed (simp add: sstp_handle_lcp_echo_def echo_request_def)

lemma emit_frame [simp]:
  "ks_rx (sstp_session_emit env t a s) = ks_rx s" "ks_closing (sstp_session_emit env t a s) = ks_closing s"
  "ks_tx_q (sstp_session_emit env t a s) = ks_tx_q s" "ks_ppp_input (sstp_session_emit env t a s) = ks_ppp_input s"
  "ks_ctrl_q (sstp_session_emit env t a s) = ks_ctrl_q s" "ks_ctrl_head (sstp_session_emit env t a s) = ks_ctrl_head s"
  "ks_ctrl_tail (sstp_session_emit env t a s) = ks_ctrl_tail s" "ks_wire (sstp_session_emit env t a s) = ks_wire s"
  "ks_tx_work (sstp_session_emit env t a s) = ks_tx_work s"
  by (simp_all add: sstp_session_emit_def kcall_def bump_def Let_def)

lemma kcall_frame [simp]:
  "ks_rx (kcall s) = ks_rx s" "ks_closing (kcall s) = ks_closing s" "ks_tx_q (kcall s) = ks_tx_q s"
  "ks_ppp_input (kcall s) = ks_ppp_input s" "ks_ctrl_q (kcall s) = ks_ctrl_q s" "ks_ctrl_head (kcall s) = ks_ctrl_head s"
  "ks_ctrl_tail (kcall s) = ks_ctrl_tail s" "ks_wire (kcall s) = ks_wire s" "ks_events (kcall s) = ks_events s"
  "ks_evt_head (kcall s) = ks_evt_head s" "ks_evt_tail (kcall s) = ks_evt_tail s"
  by (simp_all add: kcall_def)

lemma bump_frame [simp]:
  "ks_rx (bump f s) = ks_rx s" "ks_closing (bump f s) = ks_closing s" "ks_tx_q (bump f s) = ks_tx_q s"
  "ks_ppp_input (bump f s) = ks_ppp_input s" "ks_ctrl_q (bump f s) = ks_ctrl_q s" "ks_ctrl_head (bump f s) = ks_ctrl_head s"
  "ks_ctrl_tail (bump f s) = ks_ctrl_tail s" "ks_calls (bump f s) = ks_calls s" "ks_wire (bump f s) = ks_wire s"
  "ks_events (bump f s) = ks_events s" "ks_evt_head (bump f s) = ks_evt_head s" "ks_evt_tail (bump f s) = ks_evt_tail s"
  by (simp_all add: bump_def)

lemma ctrl_frame:
  "ks_ctrl_q t = ks_ctrl_q s \<Longrightarrow> ks_ctrl_head t = ks_ctrl_head s \<Longrightarrow> ks_ctrl_tail t = ks_ctrl_tail s \<Longrightarrow>
     ctrl_wf t = ctrl_wf s \<and> ctrl_contents t = ctrl_contents s"
  by (simp add: ctrl_wf_def ctrl_contents_def)

lemma evt_frame:
  "ks_events t = ks_events s \<Longrightarrow> ks_evt_head t = ks_evt_head s \<Longrightarrow> ks_evt_tail t = ks_evt_tail s \<Longrightarrow>
     evt_wf t = evt_wf s \<and> evt_types t = evt_types s"
  by (simp add: evt_wf_def evt_types_def evt_contents_def)

lemma ctrl_enqueue_frame:
  "ks_rx (snd (ctrl_enqueue x s)) = ks_rx s" "ks_closing (snd (ctrl_enqueue x s)) = ks_closing s"
  "ks_tx_q (snd (ctrl_enqueue x s)) = ks_tx_q s" "ks_ppp_input (snd (ctrl_enqueue x s)) = ks_ppp_input s"
  "ks_wire (snd (ctrl_enqueue x s)) = ks_wire s" "ks_events (snd (ctrl_enqueue x s)) = ks_events s"
  "ks_evt_head (snd (ctrl_enqueue x s)) = ks_evt_head s" "ks_evt_tail (snd (ctrl_enqueue x s)) = ks_evt_tail s"
  by (simp_all add: ctrl_enqueue_def Let_def)

text \<open>A data frame.\<close>

lemma deliver_ppp_eq:
  "sstp_deliver_ppp env p0 s =
     (let p = strip_ac p0 in
      if length p < 2 then bump sstp_malformed_update s
      else if echo_request p then snd (sstp_handle_lcp_echo env p s)
      else if \<not> ke_alloc env (ks_calls s) then bump sstp_malformed_update (kcall s)
      else (bump ppp_frames_rx_update (kcall s))\<lparr>ks_ppp_input := ks_ppp_input s @ [p]\<rparr>)"
  by (auto simp: sstp_deliver_ppp_def strip_ac_def handle_lcp_echo_eq dev_alloc_skb_def Let_def)

text \<open>A control frame.\<close>

lemma deliver_control_eq:
  "sstp_deliver_control env p s =
     (if ke_alloc env (ks_calls s) \<and> fst (ctrl_enqueue p (kcall s))
      then sstp_session_emit env SSTP_EVT_CONTROL_PACKET (word_of_nat (length p)) (bump ctrl_frames_rx_update (snd (ctrl_enqueue p (kcall s))))
      else bump sstp_malformed_update (kcall s))"
  by (cases "ctrl_enqueue p (kcall s)") (auto simp: sstp_deliver_control_def dev_alloc_skb_def ctrl_enqueue_def Let_def split: if_splits)

definition rx_wf :: "ksession \<Rightarrow> bool" where
  "rx_wf s \<longleftrightarrow> ctrl_wf s \<and> evt_wf s \<and> length (ks_tx_q s) \<le> SSTP_TX_Q_CAP"

lemma handle_lcp_echo_wf:
  "rx_wf s \<Longrightarrow> rx_wf (snd (sstp_handle_lcp_echo env p s)) \<and> ks_rx (snd (sstp_handle_lcp_echo env p s)) = ks_rx s
     \<and> ks_closing (snd (sstp_handle_lcp_echo env p s)) = ks_closing s
     \<and> ks_ppp_input (snd (sstp_handle_lcp_echo env p s)) = ks_ppp_input s
     \<and> ctrl_contents (snd (sstp_handle_lcp_echo env p s)) = ctrl_contents s"
  by (auto simp: handle_lcp_echo_eq rx_wf_def ctrl_wf_def evt_wf_def ctrl_contents_def)

lemma deliver_ppp_wf:
  "rx_wf s \<Longrightarrow> rx_wf (sstp_deliver_ppp env p s) \<and> ks_rx (sstp_deliver_ppp env p s) = ks_rx s
     \<and> ks_closing (sstp_deliver_ppp env p s) = ks_closing s \<and> ctrl_contents (sstp_deliver_ppp env p s) = ctrl_contents s"
  using handle_lcp_echo_wf [of s env "strip_ac p"]
  by (auto simp: deliver_ppp_eq Let_def rx_wf_def ctrl_wf_def evt_wf_def ctrl_contents_def)

lemma bump_wf [simp]: "rx_wf (bump f s) = rx_wf s" "rx_wf (kcall s) = rx_wf s"
  by (simp_all add: rx_wf_def ctrl_wf_def evt_wf_def)

lemma bump_ctrl [simp]: "ctrl_contents (bump f s) = ctrl_contents s" "ctrl_contents (kcall s) = ctrl_contents s"
  "ctrl_contents (sstp_session_emit env t a s) = ctrl_contents s"
  by (simp_all add: ctrl_contents_def)

lemma emit_wf: "rx_wf s \<Longrightarrow> rx_wf (sstp_session_emit env t a s)"
  using emit_evt_wf [of s env t a] by (simp add: rx_wf_def ctrl_wf_def)

lemma ctrl_enqueue_wf: "rx_wf s \<Longrightarrow> rx_wf (snd (ctrl_enqueue p s))"
  using ctrlq.put_wf [of s p] by (simp add: rx_wf_def evt_wf_def ctrl_enqueue_frame)

lemma deliver_control_wf:
  "rx_wf s \<Longrightarrow> rx_wf (sstp_deliver_control env p s) \<and> ks_rx (sstp_deliver_control env p s) = ks_rx s
     \<and> ks_closing (sstp_deliver_control env p s) = ks_closing s \<and> ks_tx_q (sstp_deliver_control env p s) = ks_tx_q s
     \<and> ks_ppp_input (sstp_deliver_control env p s) = ks_ppp_input s"
  using ctrl_enqueue_wf [of "kcall s" p] by (auto simp: deliver_control_eq emit_wf ctrl_enqueue_frame)

lemma rx_frame_wf:
  "rx_wf s \<Longrightarrow> rx_wf (rx_frame env s f) \<and> ks_rx (rx_frame env s f) = ks_rx s \<and> ks_closing (rx_frame env s f) = ks_closing s"
  using deliver_ppp_wf [of "bump sstp_frames_rx_update s" env "snd f"] deliver_control_wf [of "bump sstp_frames_rx_update s" env "snd f"]
  by (simp add: rx_frame_def Let_def)

lemma rx_frames_wf:
  "rx_wf s \<Longrightarrow> rx_wf (foldl (rx_frame env) s fs) \<and> ks_rx (foldl (rx_frame env) s fs) = ks_rx s
     \<and> ks_closing (foldl (rx_frame env) s fs) = ks_closing s"
  by (induction fs arbitrary: s) (auto simp: rx_frame_wf)

text \<open>What comes out of the frames, when memory is not exhausted.\<close>

lemma take_take_append: "take n (take n xs @ ys) = take n (xs @ ys)"
  by (cases "length xs \<le> n") simp_all

lemma echo_request_len: "echo_request p \<Longrightarrow> 2 \<le> length p"
  by (simp add: echo_request_def)

lemma deliver_control_ctrl:
  assumes "rx_wf s" "ke_alloc env (ks_calls s)"
  shows "ctrl_contents (sstp_deliver_control env p s) = take 7 (ctrl_contents s @ [p])"
proof -
  have wf: "ctrl_wf (kcall s)" using assms(1) bump_wf(2) [of s] unfolding rx_wf_def by blast
  show ?thesis
  proof (cases "length (ctrl_contents s) < 7")
    case True
    with ctrlq.put_room [OF wf, of p] assms(2) show ?thesis by (simp add: deliver_control_eq)
  next
    case False
    with ctrlq.bound [OF wf] have "length (ctrl_contents s) = 7" by simp
    with ctrlq.put_full [OF wf, of p] show ?thesis by (simp add: deliver_control_eq)
  qed
qed

lemma rx_frame_obs:
  assumes wf: "rx_wf s" and opn: "\<not> ks_closing s" and mem: "\<And>n. ke_alloc env n"
  shows "ks_ppp_input (rx_frame env s f) = ks_ppp_input s @ forwarded [f]
    \<and> ks_tx_q (rx_frame env s f) = take SSTP_TX_Q_CAP (ks_tx_q s @ echo_replies [f])
    \<and> ctrl_contents (rx_frame env s f) = take 7 (ctrl_contents s @ control_payloads [f])"
proof (cases "fst f")
  case True
  let ?s = "bump sstp_frames_rx_update s"
  have "rx_wf ?s" using wf by simp
  with deliver_control_wf [OF this, of env "snd f"] deliver_control_ctrl [OF this, of env "snd f"] True mem
  show ?thesis using wf by (simp add: rx_frame_def Let_def forwarded_def echo_replies_def control_payloads_def rx_wf_def)
next
  case False
  let ?s = "bump sstp_frames_rx_update s"
  have wf': "rx_wf ?s" using wf by simp
  have q: "length (ks_tx_q s) \<le> SSTP_TX_Q_CAP" "length (ctrl_contents s) \<le> 7"
    using wf ctrlq.bound [of s] by (simp_all add: rx_wf_def)
  show ?thesis
    using False deliver_ppp_wf [OF wf', of env "snd f"] q opn mem echo_request_len [of "strip_ac (snd f)"]
    by (auto simp: rx_frame_def Let_def forwarded_def echo_replies_def control_payloads_def deliver_ppp_eq handle_lcp_echo_eq)
qed

lemma forwarded_Cons: "forwarded (f # fs) = forwarded [f] @ forwarded fs"
  by (simp add: forwarded_def)

lemma echo_replies_Cons: "echo_replies (f # fs) = echo_replies [f] @ echo_replies fs"
  by (simp add: echo_replies_def)

lemma control_payloads_Cons: "control_payloads (f # fs) = control_payloads [f] @ control_payloads fs"
  by (simp add: control_payloads_def)

lemma rx_frames_obs:
  assumes "rx_wf s" and "\<not> ks_closing s" and mem: "\<And>n. ke_alloc env n"
  shows "ks_ppp_input (foldl (rx_frame env) s fs) = ks_ppp_input s @ forwarded fs
    \<and> ks_tx_q (foldl (rx_frame env) s fs) = take SSTP_TX_Q_CAP (ks_tx_q s @ echo_replies fs)
    \<and> ctrl_contents (foldl (rx_frame env) s fs) = take 7 (ctrl_contents s @ control_payloads fs)"
  using assms(1,2)
proof (induction fs arbitrary: s)
  case Nil
  then show ?case using ctrlq.bound [of s]
    by (simp add: forwarded_def echo_replies_def control_payloads_def rx_wf_def)
next
  case (Cons f fs)
  have wf: "rx_wf (rx_frame env s f)" "\<not> ks_closing (rx_frame env s f)" using rx_frame_wf [OF Cons.prems(1)] Cons.prems(2) by auto
  from Cons.IH [OF wf] rx_frame_obs [OF Cons.prems mem, of f] show ?case
    by (simp add: forwarded_Cons [of f fs] echo_replies_Cons [of f fs] control_payloads_Cons [of f fs] take_take_append
        del: take_append)
qed

subsection \<open>The worker\<close>

lemma rx_parse_eq:
  assumes "sstp_frames (ks_rx s) = (fs, rest, bad)" and "rx_wf s"
  shows "rx_parse env s =
    (if bad then framing_error env (rest ! 0) (foldl (rx_frame env) s fs) else foldl (rx_frame env) s fs)\<lparr>ks_rx := rest\<rparr>"
proof (cases "ks_rx s = []")
  case True
  with assms have "fs = []" "rest = []" "\<not> bad" by (simp_all add: frames_stop complete_def bad_header_def)
  with True show ?thesis by (simp add: rx_parse_def)
next
  case False
  from sstp_frames_rest [OF assms(1)] obtain pre where pre: "ks_rx s = pre @ rest" by blast
  have "ks_rx (framing_error env v (foldl (rx_frame env) s fs)) = ks_rx s" "ks_rx (foldl (rx_frame env) s fs) = ks_rx s" for v
    using rx_frames_wf [OF assms(2)] by (simp_all add: framing_error_def set_closing_def)
  with False demux_loop_frames [of 0 "ks_rx s" fs rest bad env s] assms(1) show ?thesis
    by (auto simp: rx_parse_def sstp_demux_parse_def pre)
qed

lemma set_closing_wf [simp]: "rx_wf (set_closing s) = rx_wf s" "ks_closing (set_closing s)"
  by (simp_all add: set_closing_def rx_wf_def ctrl_wf_def evt_wf_def)

lemma rx_update_wf [simp]: "rx_wf (s\<lparr>ks_rx := b\<rparr>) = rx_wf s" "rx_wf (s\<lparr>ks_rx_work := w\<rparr>) = rx_wf s"
  by (simp_all add: rx_wf_def ctrl_wf_def evt_wf_def)

text \<open>
  Between runs of the worker the buffer of an open session holds an incomplete frame, so there is
  always room to receive more.
\<close>

definition rx_ok :: "ksession \<Rightarrow> bool" where
  "rx_ok s \<longleftrightarrow> rx_wf s \<and> length (ks_rx s) \<le> SSTP_RX_BUF_CAP
     \<and> (\<not> ks_closing s \<longrightarrow> sstp_frames (ks_rx s) = ([], ks_rx s, False))"

lemma rx_ok_room: "rx_ok s \<Longrightarrow> \<not> ks_closing s \<Longrightarrow> length (ks_rx s) < 4095"
  using sstp_frames_rest [of "ks_rx s"] by (auto simp: rx_ok_def)

lemma rx_parse_ok:
  assumes wf: "rx_wf s" and len: "length (ks_rx s) \<le> SSTP_RX_BUF_CAP"
  shows "rx_ok (rx_parse env s)"
proof -
  obtain fs rest bad where f: "sstp_frames (ks_rx s) = (fs, rest, bad)" by (cases "sstp_frames (ks_rx s)") auto
  note r = sstp_frames_rest [OF f] and w = rx_frames_wf [OF wf, of env fs]
  have "length rest \<le> SSTP_RX_BUF_CAP" using r len by (metis le_add2 le_trans length_append)
  then show ?thesis unfolding rx_parse_eq [OF f wf] rx_ok_def
    using r w by (auto simp: emit_wf framing_error_def)
qed

lemma recv_once_ok:
  "rx_ok s \<Longrightarrow> sstp_demux_recv_once env r s = (res, s') \<Longrightarrow> rx_wf s' \<and> length (ks_rx s') \<le> SSTP_RX_BUF_CAP
     \<and> (res \<noteq> RrBytes \<longrightarrow> rx_ok s')"
  by (auto simp: sstp_demux_recv_once_def rx_ok_def Let_def emit_wf split: krecv.splits if_splits)
    (simp_all add: set_closing_def)

lemma rx_loop_ok: "rx_ok s \<Longrightarrow> rx_ok (fst (rx_loop env budget rs s))"
proof (induction env budget rs s rule: rx_loop.induct)
  case (1 env rs s)
  then show ?case by (simp add: rx_ok_def)
next
  case (2 env budget rs s)
  have p: "rx_ok (rx_parse env t)" if "rx_wf t" "length (ks_rx t) \<le> SSTP_RX_BUF_CAP" for t
    using that by (rule rx_parse_ok)
  have c: "rx_ok (set_closing (sstp_session_emit env t a u))" if "rx_ok u" for t a u
    using that by (simp add: rx_ok_def emit_wf) (simp add: set_closing_def)
  from "2.prems" have s: "rx_wf s" "length (ks_rx s) \<le> SSTP_RX_BUF_CAP" by (simp_all add: rx_ok_def)
  show ?case
  proof (cases "ks_closing s \<or> SSTP_RX_BUF_CAP \<le> length (ks_rx s)")
    case True
    then show ?thesis using "2.prems" "2.IH"(1) p [OF s] by auto
  next
    case False
    show ?thesis
    proof (cases rs)
      case (Cons r rs')
      obtain res t where rt: "sstp_demux_recv_once env r s = (res, t)" by fastforce
      note t = recv_once_ok [OF "2.prems" rt]
      show ?thesis
        using False Cons rt t "2.IH"(2,3) p [of t] c by (cases res) auto
    qed (use False "2.prems" in simp)
  qed
qed

lemma sstp_frames_bad_append: "sstp_frames a = (fs, r, True) \<Longrightarrow> sstp_frames (a @ b) = (fs, r @ b, True)"
proof (induction a arbitrary: fs rule: frames_induct)
  case (stop buf)
  then have b: "fs = []" "r = buf" "bad_header buf" by (auto simp: frames_stop)
  then have "\<not> complete (buf @ b)" "bad_header (buf @ b)"
    by (auto simp: complete_def bad_header_def frame_len_def nth_append)
  with b show ?case by (simp add: frames_stop)
next
  case (step buf)
  then obtain gs where g: "sstp_frames (drop (frame_len buf) buf) = (gs, r, True)" and fs: "fs = first_frame buf # gs"
    by (auto simp: frames_step split: prod.splits)
  have "frame_len buf \<le> length buf" using step.hyps by (simp add: complete_def)
  then show ?case using complete_append [OF step.hyps, of b] step.IH [OF g] by (simp add: frames_step fs)
qed

text \<open>The chunks fit: each leaves the buffer within its capacity, as the receive call guarantees.\<close>

fun room :: "bytes list \<Rightarrow> bytes \<Rightarrow> bool" where
  "room [] r = True"
| "room (c # cs) r \<longleftrightarrow> c \<noteq> [] \<and> length r + length c \<le> SSTP_RX_BUF_CAP \<and> room cs (fst (snd (sstp_frames (r @ c))))"

definition rx_outputs :: "ksession \<Rightarrow> (bool \<times> bytes) list \<Rightarrow> ksession \<Rightarrow> bool" where
  "rx_outputs s fs t \<longleftrightarrow> ks_ppp_input t = ks_ppp_input s @ forwarded fs
     \<and> ks_tx_q t = take SSTP_TX_Q_CAP (ks_tx_q s @ echo_replies fs)
     \<and> ctrl_contents t = take 7 (ctrl_contents s @ control_payloads fs)"

lemma rx_outputs_nil: "rx_wf s \<Longrightarrow> rx_outputs s [] s"
  using ctrlq.bound [of s] by (simp add: rx_outputs_def rx_wf_def forwarded_def echo_replies_def control_payloads_def)

lemma rx_outputs_trans: "rx_outputs s fs t \<Longrightarrow> rx_outputs t gs u \<Longrightarrow> rx_outputs s (fs @ gs) u"
  by (simp add: rx_outputs_def forwarded_def echo_replies_def control_payloads_def take_take_append del: take_append)

lemma rx_parse_outputs:
  assumes f: "sstp_frames (ks_rx s) = (fs, rest, bad)" and wf: "rx_wf s" "\<not> ks_closing s" and mem: "\<And>n. ke_alloc env n"
  shows "rx_outputs s fs (rx_parse env s)" "ks_rx (rx_parse env s) = rest" "ks_closing (rx_parse env s) = bad"
proof -
  note o = rx_frames_obs [OF wf mem, of fs] and w = rx_frames_wf [OF wf(1), of env fs]
  show "rx_outputs s fs (rx_parse env s)" unfolding rx_parse_eq [OF f wf(1)]
    using o by (simp add: rx_outputs_def framing_error_def set_closing_def ctrl_contents_def)
  show "ks_rx (rx_parse env s) = rest" "ks_closing (rx_parse env s) = bad" unfolding rx_parse_eq [OF f wf(1)]
    using w wf(2) by (simp_all add: framing_error_def)
qed

lemma rx_loop_bytes:
  assumes "rx_ok s" "\<not> ks_closing s" "room cs (ks_rx s)" "length cs \<le> budget"
    and "sstp_frames (ks_rx s @ concat cs) = (fs, rest, bad)" and mem: "\<And>n. ke_alloc env n"
  shows "\<exists>t rs. rx_loop env budget (map RecvBytes cs) s = (t, rs) \<and> rx_outputs s fs t \<and> ks_closing t = bad
    \<and> (\<not> bad \<longrightarrow> ks_rx t = rest \<and> rs = [])"
  using assms(1-5)
proof (induction cs arbitrary: s fs budget)
  case Nil
  then have "fs = []" "rest = ks_rx s" "\<not> bad" by (simp_all add: rx_ok_def)
  moreover have "rx_outputs s [] (s\<lparr>ks_rx_work := w\<rparr>)" for w
    using Nil.prems(1) rx_outputs_nil [of s] by (simp add: rx_ok_def rx_outputs_def ctrl_contents_def)
  moreover have "rx_outputs s [] s" using Nil.prems(1) by (simp add: rx_ok_def rx_outputs_nil)
  moreover have "\<not> SSTP_RX_BUF_CAP \<le> length (ks_rx s)"
    using rx_ok_room [OF Nil.prems(1,2)] by (simp add: SSTP_RX_BUF_CAP_def)
  ultimately show ?case using Nil.prems(2) by (cases budget) auto
next
  case (Cons c cs)
  then obtain n where n: "budget = Suc n" "length cs \<le> n" by (cases budget) auto
  have c: "c \<noteq> []" "length (ks_rx s) + length c \<le> SSTP_RX_BUF_CAP" using Cons.prems(3) by simp_all
  define t where "t = (bump tls_records_rx_update s)\<lparr>ks_rx := ks_rx s @ c\<rparr>"
  have t: "rx_wf t" "\<not> ks_closing t" "ks_rx t = ks_rx s @ c" "rx_outputs s [] t"
    using Cons.prems(1,2) rx_outputs_nil [of s] by (simp_all add: t_def rx_ok_def rx_outputs_def ctrl_contents_def)
  have recv: "sstp_demux_recv_once env (RecvBytes c) s = (RrBytes, t)"
    using c by (simp add: sstp_demux_recv_once_def t_def)
  obtain fs1 r1 bad1 where f1: "sstp_frames (ks_rx s @ c) = (fs1, r1, bad1)" by (cases "sstp_frames (ks_rx s @ c)") auto
  let ?p = "rx_parse env t"
  note p = rx_parse_outputs [OF f1 [folded t(3)] t(1,2) mem]
  have ok: "rx_ok ?p" using t(1) c(2) by (intro rx_parse_ok) (simp_all add: t(3))
  have out: "rx_outputs s fs1 ?p" using rx_outputs_trans [OF t(4) p(1)] by simp
  have run: "rx_loop env budget (map RecvBytes (c # cs)) s = rx_loop env n (map RecvBytes cs) ?p"
    using rx_ok_room [OF Cons.prems(1,2)] Cons.prems(2) n(1) recv by (simp add: SSTP_RX_BUF_CAP_def)
  show ?case
  proof (cases bad1)
    case True
    with sstp_frames_bad_append [of "ks_rx s @ c" fs1 r1 "concat cs"] f1 Cons.prems(5) have "fs = fs1" "bad" by auto
    moreover have "\<exists>u rs. rx_loop env n (map RecvBytes cs) ?p = (u, rs) \<and> rx_outputs ?p [] u \<and> ks_closing u"
      using p(3) True ok rx_outputs_nil [of ?p]
      by (cases n) (auto simp: rx_ok_def rx_outputs_def ctrl_contents_def)
    ultimately show ?thesis using run rx_outputs_trans [OF out] by fastforce
  next
    case False
    with f1 have f1': "sstp_frames (ks_rx s @ c) = (fs1, r1, False)" by simp
    obtain gs where g: "sstp_frames (r1 @ concat cs) = (gs, rest, bad)" and fs: "fs = fs1 @ gs"
      using sstp_frames_append [OF f1', of "concat cs"] Cons.prems(5) by (auto split: prod.splits)
    have "room cs (ks_rx ?p)" using Cons.prems(3) f1 by (simp add: p(2))
    from Cons.IH [OF ok _ this n(2)] p(2,3) False g obtain u rs where
      "rx_loop env n (map RecvBytes cs) ?p = (u, rs)" "rx_outputs ?p gs u" "ks_closing u = bad"
      "\<not> bad \<longrightarrow> ks_rx u = rest \<and> rs = []" by auto
    then show ?thesis using run rx_outputs_trans [OF out] fs by auto
  qed
qed


lemma ksession_new_rx_ok: "rx_ok (ksession_new mtu)"
  using ksession_new_wf [of mtu]
  by (simp add: rx_ok_def rx_wf_def) (simp add: ksession_new_def frames_stop complete_def bad_header_def)

definition kenv_demo :: kenv where
  "kenv_demo = \<lparr>ke_alloc = (\<lambda>_. True), ke_now = (\<lambda>_. 0)\<rparr>"

text \<open>Two frames in three pieces: an IP packet and the start of a control packet.\<close>

definition demo_chunks :: "bytes list" where
  "demo_chunks = [[0x10, 0, 0], [9, 0xff, 3, 0, 0x21, 0x45], [0x10, 1, 0]]"

lemma demo_frames: "sstp_frames (concat demo_chunks) = ([(False, [0xff, 3, 0, 0x21, 0x45])], [0x10, 1, 0], False)"
proof -
  have c: "complete (concat demo_chunks)" "frame_len (concat demo_chunks) = 9"
    by (simp_all add: demo_chunks_def complete_def frame_len_def unat_from_be16)
  have "sstp_frames [0x10, 1, 0] = ([], [0x10, 1, 0], False)" by (simp add: frames_stop complete_def bad_header_def)
  moreover have "first_frame (concat demo_chunks) = (False, [0xff, 3, 0, 0x21, 0x45])"
    unfolding first_frame_def c(2) by (simp add: demo_chunks_def slice_def)
  ultimately show ?thesis by (simp add: frames_step [OF c(1)] c(2)) (simp add: demo_chunks_def)
qed



end
