(* ===== verification/Kmod_Tx.thy ===== *)
theory Kmod_Tx
  imports Kmod_Rx
begin

text \<open>
  The transmit path of the kernel module (\<open>src/kmod/sstp_chan.c\<close>), the control ioctls of the
  session descriptor (\<open>src/kmod/sstp_event.c\<close>), attach and release (\<open>src/kmod/sstp_attach.c\<close>,
  \<open>src/kmod/sstp_main.c\<close>), and the session as a transition system.  A run of a worker and an
  entry from the PPP layer or from userspace is one step.
\<close>

subsection \<open>Channel output\<close>

definition SSTP_TX_BATCH_MAX :: nat where "SSTP_TX_BATCH_MAX = 8"
definition SSTP_TX_HDR_STRIDE :: nat where "SSTP_TX_HDR_STRIDE = 6"
definition SSTP_TX_BATCH_BYTES_MAX :: nat where "SSTP_TX_BATCH_BYTES_MAX = 14 * 1024"

definition sstp_chan_start_xmit :: "bytes \<Rightarrow> ksession \<Rightarrow> bool \<times> ksession" where
  "sstp_chan_start_xmit skb s =
     (let tot = SSTP_HEADER_LEN + 2 + length skb in
      if ks_closing s then (True, s)
      else if tot > SSTP_MAX_PACKET_LEN then (True, bump sstp_malformed_update s)
      else if SSTP_TX_Q_CAP \<le> length (ks_tx_q s) then (False, s)
      else (True, s\<lparr>ks_tx_q := ks_tx_q s @ [skb], ks_tx_work := True\<rparr>))"

text \<open>Version, control bit, and the low twelve bits of the length, as both senders write them.\<close>

definition frame_header :: "u8 \<Rightarrow> nat \<Rightarrow> bytes" where
  "frame_header c frame = [SSTP_VERSION_1_0, c, word_of_nat (frame div 256 mod 16), word_of_nat (frame mod 256)]"

definition data_frame :: "bytes \<Rightarrow> bytes" where
  "data_frame skb = frame_header 0 (SSTP_TX_HDR_STRIDE + length skb) @ [PPP_ALLSTATIONS, PPP_UI] @ skb"

text \<open>The inner loop of the worker: the frames of the next batch and what stays in the queue.\<close>

fun build_batch :: "nat \<Rightarrow> nat \<Rightarrow> bytes list \<Rightarrow> bytes list \<times> bytes list" where
  "build_batch n tot [] = ([], [])"
| "build_batch n tot (skb # q) =
     (if SSTP_TX_BATCH_MAX \<le> n then ([], skb # q)
      else
        let frame = SSTP_TX_HDR_STRIDE + length skb in
        if n > 0 \<and> tot + frame > SSTP_TX_BATCH_BYTES_MAX then ([], skb # q)
        else case build_batch (n + 1) (tot + frame) q of (b, r) \<Rightarrow> (skb # b, r))"

definition bump_tx :: "nat \<Rightarrow> ksession \<Rightarrow> ksession" where
  "bump_tx n s = s\<lparr>ks_stats := (ks_stats s)\<lparr>ppp_frames_tx := ppp_frames_tx (ks_stats s) + word_of_nat n,
     sstp_frames_tx := sstp_frames_tx (ks_stats s) + word_of_nat n, tls_records_tx := tls_records_tx (ks_stats s) + 1\<rparr>\<rparr>"

text \<open>A hard error or a short write: the session is lost.\<close>

definition tx_abort :: "kenv \<Rightarrow> (errno + nat) \<Rightarrow> ksession \<Rightarrow> ksession" where
  "tx_abort env ret s =
     set_closing (sstp_session_emit env SSTP_EVT_TLS_FATAL_ALERT (case ret of Inl e \<Rightarrow> word_of_nat e | Inr _ \<Rightarrow> 0)
       (bump tx_send_errors_update s))"

text \<open>
  The worker, given what successive calls of \<open>kernel_sendmsg\<close> return, an error number or a count; a
  socket with no further answer would block.  \<open>budget\<close> is what is left of the eight batches.
  The flag says whether a batch was sent.
\<close>

fun tx_loop :: "kenv \<Rightarrow> nat \<Rightarrow> (errno + nat) list \<Rightarrow> bool \<Rightarrow> ksession \<Rightarrow> bool \<times> ksession" where
  "tx_loop env 0 rets drained s = (drained, s\<lparr>ks_tx_work := True\<rparr>)"
| "tx_loop env (Suc budget) rets drained s =
     (if ks_closing s then (drained, s)
      else case build_batch 0 0 (ks_tx_q s) of (batch, rest) \<Rightarrow>
        if batch = [] then (drained, s)
        else
          let record = concat (map data_frame batch); tot = length record in
          (case rets of
             [] \<Rightarrow> (drained, s)
           | ret # rets' \<Rightarrow>
               if ret = Inr tot
               then tx_loop env budget rets' True
                 ((bump_tx (length batch) s)\<lparr>ks_tx_q := rest, ks_wire := ks_wire s @ [record]\<rparr>)
               else if ret = Inl EAGAIN then (drained, s\<lparr>ks_tx_q := batch @ rest\<rparr>)
               else (drained, tx_abort env ret (s\<lparr>ks_tx_q := rest\<rparr>))))"

definition sstp_tx_worker :: "kenv \<Rightarrow> (errno + nat) list \<Rightarrow> ksession \<Rightarrow> ksession" where
  "sstp_tx_worker env rets s0 =
     (case tx_loop env 8 rets False (s0\<lparr>ks_tx_work := False\<rparr>) of (drained, s) \<Rightarrow>
        if drained \<and> length (ks_tx_q s) < SSTP_TX_Q_CAP div 2
        then s\<lparr>ks_output_wakeups := ks_output_wakeups s + 1\<rparr> else s)"

subsection \<open>The session descriptor\<close>

text \<open>
  \<open>SSTP_IOC_SEND_CONTROL\<close>.  The arguments are the request as the caller fills it in, whether the two
  copies from userspace and the allocation succeed, and what the send returns.
\<close>

definition control_frame :: "bytes \<Rightarrow> bytes" where
  "control_frame body = frame_header 1 (SSTP_HEADER_LEN + length body) @ body"

definition send_control ::
    "kenv \<Rightarrow> bytes \<Rightarrow> u32 \<Rightarrow> bool \<Rightarrow> bool \<Rightarrow> bool \<Rightarrow> (errno + nat) \<Rightarrow> ksession \<Rightarrow> (errno + unit) \<times> ksession" where
  "send_control env body reserved copied allocated body_copied ret s =
     (if ks_closing s then (Inl EPIPE, s)
      else if \<not> copied then (Inl EFAULT, s)
      else if reserved \<noteq> 0 then (Inl EINVAL, s)
      else if body = [] \<or> length body > SSTP_CONTROL_MAX - SSTP_HEADER_LEN then (Inl EMSGSIZE, s)
      else if \<not> allocated then (Inl ENOMEM, s)
      else if \<not> body_copied then (Inl EFAULT, s)
      else if ret = Inr (SSTP_HEADER_LEN + length body)
      then (Inr (), (bump sstp_frames_tx_update (bump ctrl_frames_tx_update (bump tls_records_tx_update s)))
              \<lparr>ks_wire := ks_wire s @ [control_frame body]\<rparr>)
      else if ret = Inl EAGAIN then (Inl EAGAIN, s)
      else (Inl (case ret of Inl e \<Rightarrow> e | Inr _ \<Rightarrow> EIO), tx_abort env ret s))"

datatype kioctl =
    IocDetach
  | IocGetStats bool
  | IocGetChanIndex bool
  | IocRecvControl nat
  | IocSendControl bytes u32 bool bool bool "errno + nat"
  | IocRekeyTx
  | IocRekeyRx
  | IocUnknown

datatype kioctl_result = IrNone | IrStats sstp_stats | IrChanIndex | IrControl bytes

definition sstp_session_ioctl :: "kenv \<Rightarrow> kioctl \<Rightarrow> ksession \<Rightarrow> (errno + kioctl_result) \<times> ksession" where
  "sstp_session_ioctl env cmd s =
     (case cmd of
        IocDetach \<Rightarrow> (Inr IrNone, set_closing s)
      | IocGetStats copied \<Rightarrow> ((if copied then Inr (IrStats (ks_stats s)) else Inl EFAULT), s)
      | IocGetChanIndex copied \<Rightarrow>
          ((if \<not> ks_chan_registered s then Inl ENXIO else if copied then Inr IrChanIndex else Inl EFAULT), s)
      | IocRecvControl buf_len \<Rightarrow>
          (case recv_control buf_len s of (r, s') \<Rightarrow> (map_sum (\<lambda>e. e) IrControl r, s'))
      | IocSendControl body reserved copied allocated body_copied ret \<Rightarrow>
          (case send_control env body reserved copied allocated body_copied ret s of
             (r, s') \<Rightarrow> (map_sum (\<lambda>e. e) (\<lambda>_. IrNone) r, s'))
      | IocRekeyTx \<Rightarrow> (Inl ENOSYS, s)
      | IocRekeyRx \<Rightarrow> (Inl ENOSYS, s)
      | IocUnknown \<Rightarrow> (Inl ENOTTY, s))"

definition sstp_session_release :: "ksession \<Rightarrow> ksession" where
  "sstp_session_release s = sstp_demux_shutdown (set_closing s)"

subsection \<open>Attach\<close>

datatype tls_conf = TLS_BASE | TLS_SW | TLS_HW

record tcp_socket =
  so_has_sk :: bool
  so_inet :: bool
  so_stream :: bool
  so_tcp :: bool
  so_tls :: "(tls_conf \<times> tls_conf) option"

definition sstp_validate_ktls :: "tcp_socket \<Rightarrow> errno option" where
  "sstp_validate_ktls sock =
     (if \<not> so_has_sk sock then Some EINVAL
      else if \<not> so_inet sock then Some EAFNOSUPPORT
      else if \<not> so_stream sock then Some EPROTONOSUPPORT
      else if \<not> so_tcp sock then Some EPROTONOSUPPORT
      else (case so_tls sock of
         None \<Rightarrow> Some EOPNOTSUPP
       | Some (tx_conf, rx_conf) \<Rightarrow> if tx_conf = TLS_BASE \<or> rx_conf = TLS_BASE then Some EOPNOTSUPP else None))"

text \<open>What the attach path holds, and what the kernel answers to its requests.\<close>

datatype kresource = KrSession | KrRxBuf | KrTcpFile | KrChannel | KrWorkqueue | KrFd | KrFile

record attach_request =
  at_abi_major :: u16
  at_tcp_fd :: int
  at_mtu :: u32

record attach_env =
  ae_copy_in :: bool
  ae_session :: bool
  ae_rx_buf :: bool
  ae_fget :: bool
  ae_socket :: "tcp_socket option"
  ae_register :: "errno option"
  ae_workqueue :: bool
  ae_fd :: "errno + nat"
  ae_file :: "errno option"
  ae_copy_out :: bool

text \<open>The last reference is dropped: the session gives back what it holds.\<close>

definition kref_release :: "kresource set \<Rightarrow> kresource set" where
  "kref_release held = held - {KrChannel, KrWorkqueue, KrRxBuf, KrTcpFile, KrSession}"

text \<open>Closing the descriptor drops the file, whose release drops the session.\<close>

definition close_fd :: "kresource set \<Rightarrow> kresource set" where
  "close_fd held = kref_release (held - {KrFd, KrFile})"

definition sstp_do_attach ::
    "attach_env \<Rightarrow> attach_request \<Rightarrow> (errno + nat \<times> ksession) \<times> kresource set" where
  "sstp_do_attach ae a =
     (if \<not> ae_copy_in ae then (Inl EFAULT, {})
      else if at_abi_major a \<noteq> 0 then (Inl EINVAL, {})
      else if at_tcp_fd a < 0 then (Inl EINVAL, {})
      else if \<not> ae_session ae then (Inl ENOMEM, {})
      else
        let held = {KrSession} in
        if \<not> ae_rx_buf ae then (Inl ENOMEM, kref_release held)
        else
          let held = insert KrRxBuf held in
          if \<not> ae_fget ae then (Inl EBADF, kref_release held)
          else
            let held = insert KrTcpFile held in
            (case ae_socket ae of
               None \<Rightarrow> (Inl ENOTSOCK, kref_release held)
             | Some sock \<Rightarrow>
                 (case sstp_validate_ktls sock of
                    Some e \<Rightarrow> (Inl e, kref_release held)
                  | None \<Rightarrow>
                      (case ae_register ae of
                         Some e \<Rightarrow> (Inl e, kref_release held)
                       | None \<Rightarrow>
                           let held = insert KrChannel held in
                           if \<not> ae_workqueue ae then (Inl ENOMEM, kref_release held)
                           else
                             let held = insert KrWorkqueue held in
                             (case ae_fd ae of
                                Inl e \<Rightarrow> (Inl e, kref_release held)
                              | Inr fd \<Rightarrow>
                                  let held = insert KrFd held in
                                  (case ae_file ae of
                                     Some e \<Rightarrow> (Inl e, kref_release (held - {KrFd}))
                                   | None \<Rightarrow>
                                       let held = insert KrFile held in
                                       if \<not> ae_copy_out ae then (Inl EFAULT, close_fd held)
                                       else (Inr (fd, ksession_new (at_mtu a)), held)))))))"

definition sstp_misc_ioctl ::
    "bool \<Rightarrow> bool \<Rightarrow> attach_env \<Rightarrow> attach_request \<Rightarrow> (errno + nat \<times> ksession) \<times> kresource set" where
  "sstp_misc_ioctl is_attach net_admin ae a =
     (if \<not> is_attach then (Inl ENOTTY, {})
      else if \<not> net_admin then (Inl EPERM, {})
      else sstp_do_attach ae a)"

subsection \<open>The session as a transition system\<close>

datatype kstep =
    KRxWorker "krecv list"
  | KTxWorker "(errno + nat) list"
  | KStartXmit bytes
  | KIoctl kioctl
  | KRead bool
  | KDataReady
  | KWriteSpace
  | KRelease

fun kmod_step :: "kenv \<Rightarrow> kstep \<Rightarrow> ksession \<Rightarrow> ksession" where
  "kmod_step env (KRxWorker rs) s = fst (sstp_rx_worker env rs s)"
| "kmod_step env (KTxWorker rets) s = sstp_tx_worker env rets s"
| "kmod_step env (KStartXmit skb) s = snd (sstp_chan_start_xmit skb s)"
| "kmod_step env (KIoctl cmd) s = snd (sstp_session_ioctl env cmd s)"
| "kmod_step env (KRead nonblock) s = snd (sstp_session_read nonblock s)"
| "kmod_step env KDataReady s = sstp_sk_data_ready s"
| "kmod_step env KWriteSpace s = sstp_sk_write_space s"
| "kmod_step env KRelease s = sstp_session_release s"

inductive kmod_reachable :: "kenv \<Rightarrow> ksession \<Rightarrow> bool" for env where
  attached: "sstp_do_attach ae a = (Inr (fd, s), held) \<Longrightarrow> kmod_reachable env s"
| stepped: "kmod_reachable env s \<Longrightarrow> kmod_reachable env (kmod_step env st s)"

subsection \<open>Invariant\<close>

lemma rx_ok_parts: "rx_ok s \<Longrightarrow> ctrl_wf s \<and> evt_wf s \<and> length (ks_tx_q s) \<le> SSTP_TX_Q_CAP"
  by (simp add: rx_ok_def rx_wf_def)

lemma rx_ok_simps [simp]:
  "rx_ok (bump f s) = rx_ok s" "rx_ok (kcall s) = rx_ok s" "rx_ok (s\<lparr>ks_tx_work := w\<rparr>) = rx_ok s"
  "rx_ok (s\<lparr>ks_rx_work := w\<rparr>) = rx_ok s" "rx_ok (s\<lparr>ks_wire := ws\<rparr>) = rx_ok s"
  "rx_ok (s\<lparr>ks_output_wakeups := n\<rparr>) = rx_ok s" "rx_ok (s\<lparr>ks_cb_installed := b\<rparr>) = rx_ok s"
  "rx_ok (bump_tx n s) = rx_ok s"
  by (simp_all add: rx_ok_def rx_wf_def ctrl_wf_def evt_wf_def bump_tx_def)

lemma tx_q_ok: "rx_ok s \<Longrightarrow> length q \<le> SSTP_TX_Q_CAP \<Longrightarrow> rx_ok (s\<lparr>ks_tx_q := q\<rparr>)"
  by (simp add: rx_ok_def rx_wf_def ctrl_wf_def evt_wf_def)

lemma set_closing_ok: "rx_ok s \<Longrightarrow> rx_ok (set_closing s)"
  by (simp add: rx_ok_def) (simp add: set_closing_def)

lemma emit_ok: "rx_ok s \<Longrightarrow> rx_ok (sstp_session_emit env t a s)"
  by (simp add: rx_ok_def emit_wf)

lemma tx_abort_ok: "rx_ok s \<Longrightarrow> rx_ok (tx_abort env ret s)"
  by (simp add: tx_abort_def set_closing_ok emit_ok)

lemma build_batch_split: "build_batch n tot q = (b, r) \<Longrightarrow> q = b @ r"
  by (induction n tot q arbitrary: b r rule: build_batch.induct)
    (auto simp: Let_def split: if_splits prod.splits)

text \<open>One pass of the transmit loop, with the four ways it can go.\<close>

lemma tx_loop_cases:
  assumes "tx_loop env (Suc budget) rets d s = (d', t)"
  obtains (idle) "d' = d" "t = s"
  | (sent) batch rest rets' where "build_batch 0 0 (ks_tx_q s) = (batch, rest)" "batch \<noteq> []" "\<not> ks_closing s"
      "tx_loop env budget rets' True ((bump_tx (length batch) s)\<lparr>ks_tx_q := rest, ks_wire := ks_wire s @ [concat (map data_frame batch)]\<rparr>)
         = (d', t)"
  | (again) batch rest where "build_batch 0 0 (ks_tx_q s) = (batch, rest)" "d' = d" "t = s\<lparr>ks_tx_q := batch @ rest\<rparr>"
  | (failed) batch rest ret where "build_batch 0 0 (ks_tx_q s) = (batch, rest)" "d' = d" "t = tx_abort env ret (s\<lparr>ks_tx_q := rest\<rparr>)"
proof -
  obtain batch rest where b: "build_batch 0 0 (ks_tx_q s) = (batch, rest)" by fastforce
  show thesis
  proof (cases "ks_closing s \<or> batch = []")
    case True
    with assms b show ?thesis by (intro idle) (auto split: if_splits)
  next
    case False
    show ?thesis
    proof (cases rets)
      case Nil
      with False assms b show ?thesis by (intro idle) (auto simp: Let_def)
    next
      case (Cons ret rets')
      let ?rec = "concat (map data_frame batch)"
      consider "ret = Inr (length ?rec)" | "ret \<noteq> Inr (length ?rec)" "ret = Inl EAGAIN"
        | "ret \<noteq> Inr (length ?rec)" "ret \<noteq> Inl EAGAIN" by blast
      then show ?thesis
      proof cases
        case 1
        with False Cons assms b show ?thesis by (intro sent [OF b]) (simp_all add: Let_def)
      next
        case 2
        with False Cons assms b show ?thesis by (intro again [OF b]) (simp_all add: Let_def)
      next
        case 3
        with False Cons assms b show ?thesis by (intro failed [OF b, of ret]) (simp_all add: Let_def)
      qed
    qed
  qed
qed

lemma tx_loop_ok: "rx_ok s \<Longrightarrow> tx_loop env budget rets d s = (d', t) \<Longrightarrow> rx_ok t"
proof (induction budget arbitrary: rets d s)
  case (Suc budget)
  have l: "length rest \<le> SSTP_TX_Q_CAP \<and> length (batch @ rest) \<le> SSTP_TX_Q_CAP" if "build_batch 0 0 (ks_tx_q s) = (batch, rest)" for batch rest
    using rx_ok_parts [OF Suc.prems(1)] build_batch_split [OF that] by simp
  from Suc.prems(2) show ?case
  proof (cases rule: tx_loop_cases)
    case (sent batch rest rets')
    have "rx_ok ((bump_tx (length batch) s)\<lparr>ks_tx_q := rest\<rparr>)"
      using Suc.prems(1) l [OF sent(1)] by (intro tx_q_ok) simp_all
    then show ?thesis by (intro Suc.IH [OF _ sent(4)]) simp
  next
    case (again batch rest)
    then show ?thesis using tx_q_ok [OF Suc.prems(1)] l [OF again(1)] by simp
  next
    case (failed batch rest ret)
    then show ?thesis using tx_q_ok [OF Suc.prems(1)] l [OF failed(1)] tx_abort_ok by simp
  qed (use Suc.prems(1) in simp)
qed auto

lemma tx_worker_ok: "rx_ok s \<Longrightarrow> rx_ok (sstp_tx_worker env rets s)"
  using tx_loop_ok [of "s\<lparr>ks_tx_work := False\<rparr>" env 8 rets False] by (auto simp: sstp_tx_worker_def split: prod.split)

lemma start_xmit_ok: "rx_ok s \<Longrightarrow> rx_ok (snd (sstp_chan_start_xmit skb s))"
  using tx_q_ok [of s "ks_tx_q s @ [skb]"] by (simp add: sstp_chan_start_xmit_def Let_def)

lemma send_control_ok: "rx_ok s \<Longrightarrow> rx_ok (snd (send_control env b v c1 c2 c3 ret s))"
  by (simp add: send_control_def tx_abort_ok)

lemma recv_control_ok: "rx_ok s \<Longrightarrow> rx_ok (snd (recv_control n s))"
proof -
  assume ok: "rx_ok s"
  have "ks_rx (snd (ctrl_dequeue s)) = ks_rx s" "ks_closing (snd (ctrl_dequeue s)) = ks_closing s"
    "ks_tx_q (snd (ctrl_dequeue s)) = ks_tx_q s" "evt_wf (snd (ctrl_dequeue s)) = evt_wf s"
    by (simp_all add: ctrl_dequeue_def evt_wf_def)
  with ok ctrlq.get_wf [of s] have "rx_ok (snd (ctrl_dequeue s))" by (simp add: rx_ok_def rx_wf_def)
  then show ?thesis by (cases "ctrl_dequeue s") (auto simp: recv_control_def split: option.split)
qed

lemma ioctl_ok: "rx_ok s \<Longrightarrow> rx_ok (snd (sstp_session_ioctl env cmd s))"
  using send_control_ok recv_control_ok set_closing_ok
  by (cases cmd) (simp_all add: sstp_session_ioctl_def split: prod.split, (metis snd_conv)+)

lemma read_ok: "rx_ok s \<Longrightarrow> rx_ok (snd (sstp_session_read nb s))"
proof -
  assume ok: "rx_ok s"
  have "evt_wf (s\<lparr>ks_evt_tail := ring_next SSTP_EVENT_QUEUE_CAP (ks_evt_tail s)\<rparr>)" if "ks_evt_head s \<noteq> ks_evt_tail s"
    using rx_ok_parts [OF ok] that by (auto simp: evt_wf_def intro: ring_pop_same(2))
  with ok show ?thesis by (auto simp: sstp_session_read_def rx_ok_def rx_wf_def ctrl_wf_def)
qed

lemma rx_worker_ok: "rx_ok s \<Longrightarrow> rx_ok (fst (sstp_rx_worker env rs s))"
  unfolding sstp_rx_worker_def by (rule rx_loop_ok) simp

lemma release_ok: "rx_ok s \<Longrightarrow> rx_ok (sstp_session_release s)"
  using tx_q_ok [of "set_closing s" "[]"]
  by (simp add: sstp_session_release_def sstp_demux_shutdown_def sstp_demux_remove_callback_def set_closing_ok)
    (simp add: rx_ok_def rx_wf_def ctrl_wf_def evt_wf_def)

lemma kmod_step_ok: "rx_ok s \<Longrightarrow> rx_ok (kmod_step env st s)"
  by (cases st) (simp_all add: rx_worker_ok tx_worker_ok start_xmit_ok ioctl_ok read_ok release_ok
      sstp_sk_data_ready_def sstp_sk_write_space_def)

lemma attach_new: "sstp_do_attach ae a = (Inr (fd, s), held) \<Longrightarrow> s = ksession_new (at_mtu a)"
  by (auto simp: sstp_do_attach_def Let_def split: if_splits option.splits sum.splits)

lemma kmod_reachable_ok: "kmod_reachable env s \<Longrightarrow> rx_ok s"
  by (induction rule: kmod_reachable.induct) (auto dest!: attach_new intro: ksession_new_rx_ok kmod_step_ok)

lemma rx_loop_closed: "ks_closing s \<Longrightarrow> ks_closing (fst (rx_loop env n rs s)) \<and> ks_wire (fst (rx_loop env n rs s)) = ks_wire s
    \<and> ks_ppp_input (fst (rx_loop env n rs s)) = ks_ppp_input s"
  by (cases n) simp_all

lemma tx_worker_closed: "ks_closing s \<Longrightarrow> sstp_tx_worker env rets s = s\<lparr>ks_tx_work := False\<rparr>"
proof -
  assume "ks_closing s"
  then have "tx_loop env (Suc 7) rets False (s\<lparr>ks_tx_work := False\<rparr>) = (False, s\<lparr>ks_tx_work := False\<rparr>)"
    by (simp only: tx_loop.simps) simp
  then show ?thesis by (simp add: sstp_tx_worker_def)
qed

lemma kmod_step_closed:
  "ks_closing s \<Longrightarrow> ks_closing (kmod_step env st s) \<and> ks_wire (kmod_step env st s) = ks_wire s
     \<and> ks_ppp_input (kmod_step env st s) = ks_ppp_input s"
proof (cases st)
  case (KIoctl cmd)
  moreover assume "ks_closing s"
  moreover have "ks_closing (snd (recv_control n s)) = ks_closing s \<and> ks_wire (snd (recv_control n s)) = ks_wire s
      \<and> ks_ppp_input (snd (recv_control n s)) = ks_ppp_input s" for n
    by (auto simp: recv_control_def ctrl_dequeue_def split: option.split)
  ultimately show ?thesis
    by (cases cmd) (auto simp: sstp_session_ioctl_def send_control_def set_closing_def split: prod.split, (metis snd_conv)+)
qed (use rx_loop_closed [of "s\<lparr>ks_rx_work := False\<rparr>"] in
  \<open>auto simp: sstp_rx_worker_def tx_worker_closed sstp_chan_start_xmit_def sstp_session_read_def sstp_sk_data_ready_def
     sstp_sk_write_space_def sstp_session_release_def sstp_demux_shutdown_def sstp_demux_remove_callback_def set_closing_def
     split: prod.split\<close>)


subsection \<open>What is sent\<close>

lemma header_bytes_len:
  "unat (from_be16 (word_of_nat (f div 256 mod 16)) (word_of_nat (f mod 256))) = f mod 4096"
proof -
  have "f mod (256 * 16) = 256 * (f div 256 mod 16) + f mod 256" by (rule mod_mult2_eq)
  then show ?thesis by (simp add: unat_from_be16 unat_of_nat_u8)
qed

lemma frame_len_header: "frame_len (frame_header c f @ b) = f mod 4096"
  using header_bytes_len [of f] by (simp add: frame_len_def frame_header_def)

lemma length_data_frame: "length (data_frame skb) = length skb + 6"
  by (simp add: data_frame_def frame_header_def)

lemma data_frame_complete:
  assumes "length skb \<le> 4089"
  shows "complete (data_frame skb @ b)" "frame_len (data_frame skb @ b) = length skb + 6"
    "first_frame (data_frame skb @ b) = (False, PPP_ALLSTATIONS # PPP_UI # skb)"
proof -
  show f: "frame_len (data_frame skb @ b) = length skb + 6"
    using assms frame_len_header [of 0 "SSTP_TX_HDR_STRIDE + length skb" "[PPP_ALLSTATIONS, PPP_UI] @ skb @ b"]
    by (simp add: data_frame_def SSTP_TX_HDR_STRIDE_def)
  show "complete (data_frame skb @ b)"
    unfolding complete_def f by (simp add: length_data_frame) (simp add: data_frame_def frame_header_def SSTP_VERSION_1_0_def)
  show "first_frame (data_frame skb @ b) = (False, PPP_ALLSTATIONS # PPP_UI # skb)"
    unfolding first_frame_def f by (simp add: data_frame_def frame_header_def slice_def)
qed

lemma frames_of_batch:
  "list_all (\<lambda>skb. length skb \<le> 4089) skbs \<Longrightarrow>
     sstp_frames (concat (map data_frame skbs)) = (map (\<lambda>skb. (False, PPP_ALLSTATIONS # PPP_UI # skb)) skbs, [], False)"
proof (induction skbs)
  case Nil
  show ?case by (simp add: frames_stop complete_def bad_header_def)
next
  case (Cons skb skbs)
  then have "length skb \<le> 4089" by simp
  note d = data_frame_complete [OF this, of "concat (map data_frame skbs)"]
  from Cons show ?case by (simp add: frames_step [OF d(1)] d(2,3) length_data_frame)
qed

lemma build_batch_bounds:
  "build_batch n tot q = (b, r) \<Longrightarrow> n \<le> SSTP_TX_BATCH_MAX \<Longrightarrow> list_all (\<lambda>skb. length skb \<le> 4089) q \<Longrightarrow>
     (n > 0 \<longrightarrow> tot \<le> SSTP_TX_BATCH_BYTES_MAX) \<Longrightarrow> (n = 0 \<longrightarrow> tot = 0) \<Longrightarrow>
     n + length b \<le> SSTP_TX_BATCH_MAX \<and> tot + length (concat (map data_frame b)) \<le> SSTP_TX_BATCH_BYTES_MAX"
proof (induction n tot q arbitrary: b r rule: build_batch.induct)
  case (2 n tot skb q)
  have f: "length (data_frame skb) = SSTP_TX_HDR_STRIDE + length skb"
    by (simp add: length_data_frame SSTP_TX_HDR_STRIDE_def)
  let ?f = "SSTP_TX_HDR_STRIDE + length skb"
  show ?case
  proof (cases "SSTP_TX_BATCH_MAX \<le> n \<or> (n > 0 \<and> tot + ?f > SSTP_TX_BATCH_BYTES_MAX)")
    case True
    then have "b = []" using "2.prems"(1) by (auto simp: Let_def split: if_splits)
    with True "2.prems"(2,4) show ?thesis by (auto simp: SSTP_TX_BATCH_MAX_def)
  next
    case False
    then obtain b' where b': "build_batch (n + 1) (tot + ?f) q = (b', r)" "b = skb # b'"
      using "2.prems"(1) by (auto simp: Let_def split: prod.splits)
    have tot: "tot + ?f \<le> SSTP_TX_BATCH_BYTES_MAX"
      using False "2.prems"(3,5) by (cases "n = 0") (auto simp: SSTP_TX_BATCH_BYTES_MAX_def SSTP_TX_HDR_STRIDE_def)
    have "n + 1 + length b' \<le> SSTP_TX_BATCH_MAX \<and> tot + ?f + length (concat (map data_frame b')) \<le> SSTP_TX_BATCH_BYTES_MAX"
      using "2.IH" [OF _ refl _ b'(1)] False tot "2.prems"(3) by auto
    then show ?thesis using b'(2) f by simp
  qed
qed (auto simp: SSTP_TX_BATCH_BYTES_MAX_def)

lemma tx_loop_stream:
  assumes "tx_loop env budget rets d s = (d', t)" and "list_all (\<lambda>skb. length skb \<le> 4089) (ks_tx_q s)" and "\<not> ks_closing s"
  shows "\<exists>sent lost records. ks_tx_q s = sent @ lost @ ks_tx_q t \<and> (\<not> ks_closing t \<longrightarrow> lost = [])
    \<and> ks_wire t = ks_wire s @ records \<and> concat records = concat (map data_frame sent)
    \<and> list_all (\<lambda>r. length r \<le> SSTP_TX_BATCH_BYTES_MAX) records"
  using assms
proof (induction budget arbitrary: rets d s)
  case 0
  then show ?case by (intro exI [of _ "[]"]) auto
next
  case (Suc budget)
  from Suc.prems(1) show ?case
  proof (cases rule: tx_loop_cases)
    case idle
    then show ?thesis by (intro exI [of _ "[]"]) auto
  next
    case (sent batch rest rets')
    let ?s = "(bump_tx (length batch) s)\<lparr>ks_tx_q := rest, ks_wire := ks_wire s @ [concat (map data_frame batch)]\<rparr>"
    have q: "ks_tx_q s = batch @ rest" using build_batch_split [OF sent(1)] .
    have "list_all (\<lambda>skb. length skb \<le> 4089) (ks_tx_q ?s)" "\<not> ks_closing ?s"
      using Suc.prems(2,3) q by (simp_all add: bump_tx_def)
    from Suc.IH [OF sent(4) this] obtain sn lost records where
      IH: "rest = sn @ lost @ ks_tx_q t" "\<not> ks_closing t \<longrightarrow> lost = []"
      "ks_wire t = (ks_wire s @ [concat (map data_frame batch)]) @ records" "concat records = concat (map data_frame sn)"
      "list_all (\<lambda>r. length r \<le> SSTP_TX_BATCH_BYTES_MAX) records" by auto
    have "length (concat (map data_frame batch)) \<le> SSTP_TX_BATCH_BYTES_MAX"
      using build_batch_bounds [OF sent(1) _ Suc.prems(2)] by (simp add: SSTP_TX_BATCH_MAX_def)
    with IH q show ?thesis
      by (intro exI [of _ "batch @ sn"] exI [of _ lost] exI [of _ "concat (map data_frame batch) # records"]) auto
  next
    case (again batch rest)
    then show ?thesis using build_batch_split [OF again(1)] by (intro exI [of _ "[]"]) auto
  next
    case (failed batch rest ret)
    have "ks_tx_q s = [] @ batch @ ks_tx_q t" "ks_closing t" "ks_wire t = ks_wire s @ []"
      using failed(3) build_batch_split [OF failed(1)] by (simp_all add: tx_abort_def set_closing_def)
    then show ?thesis by (intro exI [of _ "[]"] exI [of _ batch]) auto
  qed
qed


text \<open>The PPP layer's frames satisfy the length condition.\<close>

lemma start_xmit_short:
  "list_all (\<lambda>skb. length skb \<le> 4089) (ks_tx_q s) \<Longrightarrow> list_all (\<lambda>skb. length skb \<le> 4089) (ks_tx_q (snd (sstp_chan_start_xmit skb s)))"
  by (auto simp: sstp_chan_start_xmit_def Let_def wire_defs)

text \<open>
  C40 (error).  Two paths put more than the twelve-bit length field can say on the wire.  An LCP echo
  request of 4090 bytes that comes without address and control octets is queued as a reply of 4090 bytes,
  for which no check is made, and a control message of 4092 bytes passes the check of the send ioctl.
  Both are framed with a total of 4096, whose low twelve bits are zero: the receiver sees a header with a
  length below four, and every byte after it is out of step.
\<close>

theorem kmod_oversize_desync:
  assumes "\<not> ks_closing s" and "length (ks_tx_q s) < SSTP_TX_Q_CAP" and "ke_alloc env (ks_calls s)"
    and "echo_request p" and "length p = 4090" and "unat (from_be16 (p ! 4) (p ! 5)) = 4088"
    and "length body = 4092"
  shows "(\<exists>reply. ks_tx_q (sstp_deliver_ppp env p s) = ks_tx_q s @ [reply] \<and> bad_header (data_frame reply))
    \<and> (\<exists>t. send_control env body 0 True True True (Inr 4096) s = (Inr (), t)
      \<and> ks_wire t = ks_wire s @ [control_frame body] \<and> bad_header (control_frame body))"
proof
  let ?reply = "lcp_echo_reply p 4088"
  have "p ! 0 = 0xc0" using assms(4,5) by (simp add: echo_request_def take_3)
  then have "strip_ac p = p" by (simp add: strip_ac_def PPP_ALLSTATIONS_def)
  with assms have q: "ks_tx_q (sstp_deliver_ppp env p s) = ks_tx_q s @ [?reply]"
    by (simp add: deliver_ppp_eq handle_lcp_echo_eq Let_def)
  have "length ?reply = 4090" using assms(5) by (simp add: lcp_echo_reply_def)
  then have "frame_len (data_frame ?reply) = 0" "4 \<le> length (data_frame ?reply)"
    using frame_len_header [of 0 4096 "[PPP_ALLSTATIONS, PPP_UI] @ ?reply"]
    by (simp_all add: data_frame_def SSTP_TX_HDR_STRIDE_def)
  with q show "\<exists>reply. ks_tx_q (sstp_deliver_ppp env p s) = ks_tx_q s @ [reply] \<and> bad_header (data_frame reply)"
    by (auto simp: bad_header_def)
next
  have "frame_len (control_frame body) = 0" "4 \<le> length (control_frame body)"
    using frame_len_header [of 1 4096 body] assms(7) by (simp_all add: control_frame_def SSTP_HEADER_LEN_def)
  moreover have "body \<noteq> []" using assms(7) by auto
  ultimately show "\<exists>t. send_control env body 0 True True True (Inr 4096) s = (Inr (), t)
      \<and> ks_wire t = ks_wire s @ [control_frame body] \<and> bad_header (control_frame body)"
    using assms(1,7) by (simp add: send_control_def bad_header_def SSTP_CONTROL_MAX_def SSTP_HEADER_LEN_def)
qed

subsection \<open>Attach holds what it says\<close>

text \<open>
  A failed attach gives everything back; a successful one has checked both directions of the socket's
  kernel TLS.
\<close>

lemma sstp_do_attach_no_leak: "sstp_do_attach ae a = (Inl e, held) \<Longrightarrow> held = {}"
  by (auto simp: sstp_do_attach_def kref_release_def close_fd_def Let_def split: if_splits option.splits sum.splits)

lemma sstp_do_attach_valid:
  "sstp_do_attach ae a = (Inr r, held) \<Longrightarrow>
     held = UNIV \<and> (\<exists>sock tx rx. ae_socket ae = Some sock \<and> so_tls sock = Some (tx, rx) \<and> tx \<noteq> TLS_BASE \<and> rx \<noteq> TLS_BASE
       \<and> so_inet sock \<and> so_stream sock \<and> so_tcp sock)"
proof -
  have "{KrFile, KrFd, KrWorkqueue, KrChannel, KrTcpFile, KrRxBuf, KrSession} = UNIV"
    by (auto intro: kresource.exhaust)
  moreover assume "sstp_do_attach ae a = (Inr r, held)"
  ultimately show ?thesis
    by (auto simp: sstp_do_attach_def sstp_validate_ktls_def Let_def split: if_splits option.splits sum.splits prod.splits)
qed

subsection \<open>A session\<close>

definition demo_attach_env :: attach_env where
  "demo_attach_env = \<lparr>ae_copy_in = True, ae_session = True, ae_rx_buf = True, ae_fget = True,
     ae_socket = Some \<lparr>so_has_sk = True, so_inet = True, so_stream = True, so_tcp = True, so_tls = Some (TLS_SW, TLS_SW)\<rparr>,
     ae_register = None, ae_workqueue = True, ae_fd = Inr 7, ae_file = None, ae_copy_out = True\<rparr>"

lemma demo_attach:
  "\<exists>held. sstp_do_attach demo_attach_env \<lparr>at_abi_major = 0, at_tcp_fd = 5, at_mtu = 1400\<rparr> = (Inr (7, ksession_new 1400), held)"
  by (simp add: sstp_do_attach_def demo_attach_env_def sstp_validate_ktls_def Let_def)



theorem kmod_oversize_desync_witness:
  "\<exists>reply. ks_tx_q (sstp_deliver_ppp kenv_demo ([0xc0, 0x21, 9, 1, 0x0f, 0xf8, 0, 0, 0, 0] @ replicate 4080 0) (ksession_new 1400)) =
       ks_tx_q (ksession_new 1400) @ [reply] \<and> bad_header (data_frame reply)"
proof -
  let ?p = "[0xc0, 0x21, 9, 1, 0x0f, 0xf8, 0, 0, 0, 0] @ replicate 4080 0 :: bytes"
  have l: "unat (from_be16 (?p ! 4) (?p ! 5)) = 4088" by (simp add: unat_from_be16)
  have p: "length ?p = 4090" by simp
  have e: "echo_request ?p" unfolding echo_request_def l p by (simp add: LCP_ECHOREQ_def)
  have "\<not> ks_closing (ksession_new 1400)" "length (ks_tx_q (ksession_new 1400)) < SSTP_TX_Q_CAP"
    "ke_alloc kenv_demo (ks_calls (ksession_new 1400))" "length (replicate 4092 (0 :: u8)) = 4092"
    by (simp_all add: ksession_new_def SSTP_TX_Q_CAP_def kenv_demo_def)
  from kmod_oversize_desync [OF this(1-3) e p l this(4)] show ?thesis by blast
qed

end
