(* ===== verification/Option_Wp.thy ===== *)
theory Option_Wp
  imports Main "HOL-Library.Monad_Syntax"
begin

text \<open>
  Total correctness in the option monad: a computation returns, and its result satisfies the
  postcondition.  The rules follow the structure of the model's functions, so that the absence
  of panics and an invariant are proved in one pass.
\<close>

definition returns :: "'a option \<Rightarrow> ('a \<Rightarrow> bool) \<Rightarrow> bool" where
  "returns m Q \<longleftrightarrow> (\<exists>r. m = Some r \<and> Q r)"


lemma returns_Some [simp]: "returns (Some x) Q = Q x"
  by (simp add: returns_def)

lemma returns_None [simp]: "\<not> returns None Q"
  by (simp add: returns_def)

lemma returns_bind: "returns m (\<lambda>r. returns (f r) Q) \<Longrightarrow> returns (Option.bind m f) Q"
  by (auto simp: returns_def)

lemma returns_mono: "returns m P \<Longrightarrow> (\<And>r. P r \<Longrightarrow> Q r) \<Longrightarrow> returns m Q"
  by (auto simp: returns_def)

lemma returns_seq:
  "returns m P \<Longrightarrow> (\<And>r. P r \<Longrightarrow> returns (f r) Q) \<Longrightarrow> returns (Option.bind m f) Q"
  by (auto simp: returns_def)

lemma returnsE:
  assumes "returns m Q"
  obtains r where "m = Some r" "Q r"
  using assms by (auto simp: returns_def)

lemma returns_not_None: "returns m Q \<Longrightarrow> m \<noteq> None"
  by (auto simp: returns_def)

lemma returnsD: "returns m Q \<Longrightarrow> m = Some r \<Longrightarrow> Q r"
  by (simp add: returns_def)

lemma returns_conj: "returns m P \<Longrightarrow> (\<And>r. m = Some r \<Longrightarrow> Q r) \<Longrightarrow> returns m (\<lambda>r. P r \<and> Q r)"
  by (auto simp: returns_def)

end
