(* ===== verification/Netlink.thy ===== *)
theory Netlink
  imports Prelude Option_Wp
begin

text \<open>
  The netlink wire format of \<open>src/src/netlink.rs\<close>: the message builder with its stack of open nested
  attributes, and the reader of acknowledgements.  Integers in headers are in the byte order of the
  host, which is little-endian here.  \<open>None\<close> is a panic: an attribute or message too large for its
  length field, or nested attributes that are not closed.  The lemmas relate the builder, whose calls
  patch lengths in place, to trees of attributes and to a parser of them.
\<close>

abbreviation (input) NLM_F_REQUEST :: u16 where "NLM_F_REQUEST \<equiv> 0x01"
abbreviation (input) NLM_F_ACK :: u16 where "NLM_F_ACK \<equiv> 0x04"
abbreviation (input) NLM_F_EXCL :: u16 where "NLM_F_EXCL \<equiv> 0x200"
abbreviation (input) NLM_F_CREATE :: u16 where "NLM_F_CREATE \<equiv> 0x400"
abbreviation (input) NLM_F_APPEND :: u16 where "NLM_F_APPEND \<equiv> 0x800"
abbreviation (input) NLMSG_ERROR :: u16 where "NLMSG_ERROR \<equiv> 2"
abbreviation (input) NLMSG_HDRLEN :: nat where "NLMSG_HDRLEN \<equiv> 16"
abbreviation (input) NLA_F_NESTED :: u16 where "NLA_F_NESTED \<equiv> 0x8000"

subsection \<open>Host byte order\<close>

definition ne16 :: "u16 \<Rightarrow> bytes" where "ne16 w = rev (be16 w)"
definition ne32 :: "u32 \<Rightarrow> bytes" where "ne32 w = rev (be32 w)"

definition get16 :: "nat \<Rightarrow> bytes \<Rightarrow> u16" where
  "get16 i bs = from_be16 (bs ! (i + 1)) (bs ! i)"

definition get32 :: "nat \<Rightarrow> bytes \<Rightarrow> u32" where
  "get32 i bs = from_be32 (bs ! (i + 3)) (bs ! (i + 2)) (bs ! (i + 1)) (bs ! i)"

lemma length_ne [simp]: "length (ne16 w) = 2" "length (ne32 v) = 4"
  by (simp_all add: ne16_def ne32_def)

lemma get16_ne16 [simp]: "get16 0 (ne16 w @ bs) = w"
  using be16_split [of w] by (auto simp: get16_def ne16_def)

lemma get32_ne32 [simp]: "get32 0 (ne32 w @ bs) = w"
proof -
  obtain a b c d where "be32 w = [a, b, c, d]" by (auto simp: be32_def)
  with from_be32_be32 [OF this] show ?thesis
    by (simp add: get32_def ne32_def numeral_3_eq_3 numeral_2_eq_2)
qed

lemma get_append [simp]:
  "length xs \<le> i \<Longrightarrow> get16 i (xs @ ys) = get16 (i - length xs) ys"
  "length xs \<le> i \<Longrightarrow> get32 i (xs @ ys) = get32 (i - length xs) ys"
  by (simp_all add: get16_def get32_def nth_append Suc_diff_le)

subsection \<open>Building a message\<close>

definition nlmsg_align :: "nat \<Rightarrow> nat" where
  "nlmsg_align len = (len + 3) div 4 * 4"

record message_buf =
  mb_bytes :: bytes
  mb_nest_stack :: "nat list"
  mb_seq :: u32
  mb_flags :: u16

function pad_to_4 :: "bytes \<Rightarrow> bytes" where
  "pad_to_4 bs = (if length bs mod 4 = 0 then bs else pad_to_4 (bs @ [0]))"
  by pat_completeness auto
termination
proof (relation "measure (\<lambda>bs. nlmsg_align (length bs) - length bs)")
  fix bs :: bytes
  assume "length bs mod 4 \<noteq> 0"
  then have "nlmsg_align (Suc (length bs)) - Suc (length bs) < nlmsg_align (length bs) - length bs"
    unfolding nlmsg_align_def by presburger
  then show "(bs @ [0], bs) \<in> measure (\<lambda>bs. nlmsg_align (length bs) - length bs)" by simp
qed simp

declare pad_to_4.simps [simp del]

definition message_new :: "u16 \<Rightarrow> u16 \<Rightarrow> u32 \<Rightarrow> message_buf" where
  "message_new msg_type flags seq =
     \<lparr>mb_bytes = ne32 0 @ ne16 msg_type @ ne16 flags @ ne32 seq @ ne32 0, mb_nest_stack = [],
      mb_seq = seq, mb_flags = flags\<rparr>"

definition push_struct :: "bytes \<Rightarrow> message_buf \<Rightarrow> message_buf" where
  "push_struct value m = m\<lparr>mb_bytes := pad_to_4 (mb_bytes m @ value)\<rparr>"

definition push_attr_bytes :: "u16 \<Rightarrow> bytes \<Rightarrow> message_buf \<Rightarrow> message_buf option" where
  "push_attr_bytes attr_type payload m =
     (if 4 + length payload < 65536
      then Some (m\<lparr>mb_bytes := pad_to_4 (mb_bytes m @ ne16 (word_of_nat (4 + length payload)) @ ne16 attr_type @ payload)\<rparr>)
      else None)"

definition push_attr_u8 :: "u16 \<Rightarrow> u8 \<Rightarrow> message_buf \<Rightarrow> message_buf option" where
  "push_attr_u8 attr_type value = push_attr_bytes attr_type [value]"

definition push_attr_be32 :: "u16 \<Rightarrow> u32 \<Rightarrow> message_buf \<Rightarrow> message_buf option" where
  "push_attr_be32 attr_type value = push_attr_bytes attr_type (be32 value)"

definition push_attr_cstr :: "u16 \<Rightarrow> bytes \<Rightarrow> message_buf \<Rightarrow> message_buf option" where
  "push_attr_cstr attr_type value = push_attr_bytes attr_type (value @ [0])"

definition nest_begin :: "u16 \<Rightarrow> message_buf \<Rightarrow> message_buf" where
  "nest_begin attr_type m =
     m\<lparr>mb_nest_stack := length (mb_bytes m) # mb_nest_stack m,
       mb_bytes := mb_bytes m @ ne16 0 @ ne16 (attr_type OR NLA_F_NESTED)\<rparr>"

definition nest_end :: "message_buf \<Rightarrow> message_buf option" where
  "nest_end m =
     (case mb_nest_stack m of
        [] \<Rightarrow> None
      | off # st \<Rightarrow>
          if length (mb_bytes m) - off < 65536
          then Some (m\<lparr>mb_nest_stack := st,
                 mb_bytes := pad_to_4 (write_at off (ne16 (word_of_nat (length (mb_bytes m) - off))) (mb_bytes m))\<rparr>)
          else None)"

definition finalize :: "message_buf \<Rightarrow> message_buf option" where
  "finalize m =
     (if mb_nest_stack m \<noteq> [] then None
      else if length (mb_bytes m) < 2 ^ 32
      then Some (m\<lparr>mb_bytes := write_at 0 (ne32 (word_of_nat (length (mb_bytes m)))) (mb_bytes m)\<rparr>)
      else None)"

subsection \<open>Acknowledgements\<close>

datatype drain_error = DrainTruncated | DrainKernel u32

function drain_loop :: "bytes \<Rightarrow> nat \<Rightarrow> u32 set \<Rightarrow> drain_error + u32 set" where
  "drain_loop buf offset remaining =
     (if offset + NLMSG_HDRLEN \<le> length buf
      then
        let hdr = drop offset buf; msg_len = unat (get32 0 hdr) in
        if msg_len < NLMSG_HDRLEN \<or> offset + msg_len > length buf then Inl DrainTruncated
        else if get16 4 hdr = NLMSG_ERROR
        then if msg_len < NLMSG_HDRLEN + 4 then Inl DrainTruncated
             else let err = get32 16 hdr in
                  if err \<noteq> 0 then Inl (DrainKernel (- err))
                  else drain_loop buf (offset + nlmsg_align msg_len) (remaining - {get32 8 hdr})
        else drain_loop buf (offset + nlmsg_align msg_len) remaining
      else Inr remaining)"
  by pat_completeness auto
termination
  by (relation "measure (\<lambda>(buf, offset, remaining). length buf - offset)") (auto simp: nlmsg_align_def)

declare drain_loop.simps [simp del]

definition drain_acks :: "bytes \<Rightarrow> u32 set \<Rightarrow> drain_error + u32 set" where
  "drain_acks buf remaining = drain_loop buf 0 remaining"

subsection \<open>Padding\<close>

lemma pad_to_4_eq: "pad_to_4 bs = bs @ replicate (nlmsg_align (length bs) - length bs) 0"
proof (induction bs rule: pad_to_4.induct)
  case (1 bs)
  show ?case
  proof (cases "length bs mod 4 = 0")
    case True
    then have "nlmsg_align (length bs) = length bs" unfolding nlmsg_align_def by presburger
    with True show ?thesis by (simp add: pad_to_4.simps [of bs])
  next
    case False
    then have "nlmsg_align (Suc (length bs)) = nlmsg_align (length bs)"
      "nlmsg_align (length bs) - length bs = Suc (nlmsg_align (length bs) - Suc (length bs))"
      unfolding nlmsg_align_def by presburger+
    with False 1 show ?thesis by (simp add: pad_to_4.simps [of bs])
  qed
qed

lemma nlmsg_align_props: "n \<le> nlmsg_align n" "4 dvd nlmsg_align n" "4 dvd n \<Longrightarrow> nlmsg_align n = n"
  unfolding nlmsg_align_def by presburger+

lemma nlmsg_align_add: "4 dvd k \<Longrightarrow> nlmsg_align (k + n) = k + nlmsg_align n"
  unfolding nlmsg_align_def by presburger

lemma length_pad_to_4 [simp]: "length (pad_to_4 bs) = nlmsg_align (length bs)"
  using nlmsg_align_props(1) [of "length bs"] by (simp add: pad_to_4_eq)

lemma pad_to_4_append: "4 dvd length xs \<Longrightarrow> pad_to_4 (xs @ ys) = xs @ pad_to_4 ys"
  by (simp add: pad_to_4_eq nlmsg_align_add)

lemma pad_to_4_aligned: "4 dvd length xs \<Longrightarrow> pad_to_4 xs = xs"
  by (simp add: pad_to_4_eq nlmsg_align_props)

subsection \<open>Attribute trees\<close>

datatype nla = Flat u16 bytes | Nest u16 "nla list"

primrec nla_enc :: "nla \<Rightarrow> bytes" where
  "nla_enc (Flat t v) = pad_to_4 (ne16 (word_of_nat (4 + length v)) @ ne16 t @ v)"
| "nla_enc (Nest t as) =
     ne16 (word_of_nat (4 + length (concat (map nla_enc as)))) @ ne16 (t OR NLA_F_NESTED) @ concat (map nla_enc as)"

definition nlas_enc :: "nla list \<Rightarrow> bytes" where
  "nlas_enc as = concat (map nla_enc as)"

text \<open>Types are fourteen bits wide and lengths have to fit sixteen.\<close>

primrec nla_ok :: "nla \<Rightarrow> bool" where
  "nla_ok (Flat t v) \<longleftrightarrow> unat t < 2 ^ 14 \<and> 4 + length v < 65536"
| "nla_ok (Nest t as) \<longleftrightarrow> unat t < 2 ^ 14 \<and> list_all id (map nla_ok as) \<and> 4 + length (concat (map nla_enc as)) < 65536"

lemma nla_enc_Nest: "nla_enc (Nest t as) = ne16 (word_of_nat (4 + length (nlas_enc as))) @ ne16 (t OR NLA_F_NESTED) @ nlas_enc as"
  by (simp add: nlas_enc_def)

lemma nla_ok_Nest: "nla_ok (Nest t as) \<longleftrightarrow> unat t < 2 ^ 14 \<and> list_all nla_ok as \<and> 4 + length (nlas_enc as) < 65536"
  by (simp add: nlas_enc_def list_all_iff)

declare nla_enc.simps(2) [simp del] nla_ok.simps(2) [simp del]

lemma nlas_enc_simps [simp]: "nlas_enc [] = []" "nlas_enc (a # as) = nla_enc a @ nlas_enc as"
  "nlas_enc (as @ bs) = nlas_enc as @ nlas_enc bs"
  by (simp_all add: nlas_enc_def)

lemma dvd_Suc4 [simp]: "4 dvd Suc (Suc (Suc (Suc n))) \<longleftrightarrow> 4 dvd n"
  by presburger

lemma nla_enc_aligned: "4 dvd length (nla_enc a)"
proof (induction a)
  case (Nest t as)
  then have "4 dvd length (nlas_enc as)" by (induction as) auto
  then show ?case unfolding nla_enc_Nest by simp
qed (simp add: nlmsg_align_props)

lemma nlas_enc_aligned: "4 dvd length (nlas_enc as)"
  by (induction as) (simp_all add: nla_enc_aligned)

subsection \<open>The builder writes trees\<close>

text \<open>The calls that build a tree, in order, and their effect on a message.\<close>

datatype nl_call = CallAttr u16 bytes | CallBegin u16 | CallEnd

primrec nla_calls :: "nla \<Rightarrow> nl_call list" where
  "nla_calls (Flat t v) = [CallAttr t v]"
| "nla_calls (Nest t as) = CallBegin t # concat (map nla_calls as) @ [CallEnd]"

fun run_call :: "nl_call \<Rightarrow> message_buf \<Rightarrow> message_buf option" where
  "run_call (CallAttr t v) m = push_attr_bytes t v m"
| "run_call (CallBegin t) m = Some (nest_begin t m)"
| "run_call CallEnd m = nest_end m"

fun run_calls :: "nl_call list \<Rightarrow> message_buf \<Rightarrow> message_buf option" where
  "run_calls [] m = Some m"
| "run_calls (c # cs) m = Option.bind (run_call c m) (run_calls cs)"

definition push_tree :: "nla list \<Rightarrow> message_buf \<Rightarrow> message_buf option" where
  "push_tree as = run_calls (concat (map nla_calls as))"

lemma run_calls_append: "run_calls (cs @ ds) m = Option.bind (run_calls cs m) (run_calls ds)"
proof (induction cs arbitrary: m)
  case (Cons c cs)
  then show ?case by (cases "run_call c m") simp_all
qed simp

lemma nest_end_patch:
  assumes "mb_bytes m = pre @ ne16 0 @ body" and "mb_nest_stack m = length pre # st"
    and "2 + length body < 65536" and "4 dvd length (mb_bytes m)"
  shows "nest_end m = Some (m\<lparr>mb_bytes := pre @ ne16 (word_of_nat (2 + length body)) @ body, mb_nest_stack := st\<rparr>)"
proof -
  have "write_at (length pre) (ne16 w) (mb_bytes m) = pre @ ne16 w @ body" for w
    using assms(1) by (simp add: write_at_def)
  moreover have "4 dvd length (pre @ ne16 w @ body)" for w using assms(1,4) by simp
  ultimately show ?thesis using assms(1-3) by (simp add: nest_end_def pad_to_4_aligned)
qed

lemma run_calls_tree:
  assumes "list_all nla_ok as" and "4 dvd length (mb_bytes m)"
    and "\<And>a m. a \<in> set as \<Longrightarrow> nla_ok a \<Longrightarrow> 4 dvd length (mb_bytes m) \<Longrightarrow>
      run_calls (nla_calls a) m = Some (m\<lparr>mb_bytes := mb_bytes m @ nla_enc a\<rparr>)"
  shows "run_calls (concat (map nla_calls as)) m = Some (m\<lparr>mb_bytes := mb_bytes m @ nlas_enc as\<rparr>)"
  using assms by (induction as arbitrary: m) (simp_all add: run_calls_append nla_enc_aligned)

lemma run_calls_nla:
  "nla_ok a \<Longrightarrow> 4 dvd length (mb_bytes m) \<Longrightarrow> run_calls (nla_calls a) m = Some (m\<lparr>mb_bytes := mb_bytes m @ nla_enc a\<rparr>)"
proof (induction a arbitrary: m)
  case (Flat t v)
  then show ?case by (simp add: push_attr_bytes_def pad_to_4_append)
next
  case (Nest t as)
  from Nest.prems have ok: "list_all nla_ok as" "4 + length (nlas_enc as) < 65536"
    by (simp_all add: nla_ok_Nest)
  have al: "4 dvd length (mb_bytes (nest_begin t m))" using Nest.prems by (simp add: nest_begin_def)
  have "run_calls (concat (map nla_calls as)) (nest_begin t m)
      = Some ((nest_begin t m)\<lparr>mb_bytes := mb_bytes (nest_begin t m) @ nlas_enc as\<rparr>)"
    by (rule run_calls_tree [OF ok(1) al]) (rule Nest.IH)
  moreover have "nest_end ((nest_begin t m)\<lparr>mb_bytes := mb_bytes (nest_begin t m) @ nlas_enc as\<rparr>)
      = Some (m\<lparr>mb_bytes := mb_bytes m @ nla_enc (Nest t as)\<rparr>)"
    using ok(2) al nlas_enc_aligned [of as]
    by (subst nest_end_patch [where pre = "mb_bytes m" and body = "ne16 (t OR NLA_F_NESTED) @ nlas_enc as"
          and st = "mb_nest_stack m"]) (simp_all add: nest_begin_def nla_enc_Nest)
  ultimately show ?case by (simp add: run_calls_append)
qed

lemma push_tree_eq:
  "list_all nla_ok as \<Longrightarrow> 4 dvd length (mb_bytes m) \<Longrightarrow> push_tree as m = Some (m\<lparr>mb_bytes := mb_bytes m @ nlas_enc as\<rparr>)"
  unfolding push_tree_def by (rule run_calls_tree) (simp_all add: run_calls_nla)

subsection \<open>Reading trees back\<close>

text \<open>
  The receiver's view of a list of attributes: a length that covers header and payload, a type with
  the flag for nested attributes on top, and the next attribute at the next multiple of four.
\<close>

definition nla_type :: "u16 \<Rightarrow> u16" where
  "nla_type w = word_of_nat (unat w mod 2 ^ 14)"

definition nla_nested :: "u16 \<Rightarrow> bool" where
  "nla_nested w \<longleftrightarrow> 2 ^ 15 \<le> unat w"

function nla_parse :: "bytes \<Rightarrow> nla list option" where
  "nla_parse bs =
     (if bs = [] then Some []
      else if length bs < 4 then None
      else
        let len = unat (get16 0 bs); ty = get16 2 bs; payload = slice 4 len bs in
        if len < 4 \<or> length bs < len then None
        else do {
          a \<leftarrow> (if nla_nested ty then map_option (Nest (nla_type ty)) (nla_parse payload)
               else Some (Flat (nla_type ty) payload));
          as \<leftarrow> nla_parse (drop (nlmsg_align len) bs);
          Some (a # as)
        })"
  by pat_completeness auto
termination
  by (relation "measure length") (auto simp: slice_def nlmsg_align_def)

declare nla_parse.simps [simp del]

text \<open>The messages of a datagram: type, flags, sequence number and what follows the header.\<close>

record nl_message =
  nm_type :: u16
  nm_flags :: u16
  nm_seq :: u32
  nm_body :: bytes

function nlmsgs :: "bytes \<Rightarrow> nl_message list option" where
  "nlmsgs bs =
     (if bs = [] then Some []
      else if length bs < NLMSG_HDRLEN then None
      else
        let len = unat (get32 0 bs) in
        if len < NLMSG_HDRLEN \<or> length bs < len then None
        else map_option
          (Cons \<lparr>nm_type = get16 4 bs, nm_flags = get16 6 bs, nm_seq = get32 8 bs, nm_body = slice 16 len bs\<rparr>)
          (nlmsgs (drop (nlmsg_align len) bs)))"
  by pat_completeness auto
termination
  by (relation "measure length") (auto simp: nlmsg_align_def)

declare nlmsgs.simps [simp del]

lemma nla_type_or:
  assumes "unat t < 2 ^ 14"
  shows "nla_type (t OR NLA_F_NESTED) = t" "nla_nested (t OR NLA_F_NESTED)" "nla_type t = t" "\<not> nla_nested t"
proof -
  have "bit t n \<Longrightarrow> n < 14" for n
    using assms bit_take_bit_iff [of 14 "unat t" n] by (auto simp: take_bit_nat_eq_self bit_unsigned_iff)
  moreover have "bit (NLA_F_NESTED) n \<Longrightarrow> n = 15" for n
    using bit_push_bit_iff [of 15 "1 :: u16" n] by (simp add: bit_1_iff)
  ultimately have "t AND NLA_F_NESTED = 0" by (intro bit_eqI) (fastforce simp: bit_and_iff)
  then have "t OR NLA_F_NESTED = t + NLA_F_NESTED" by (simp add: disjunctive_add_eq_or)
  then have "unat (t OR NLA_F_NESTED) = unat t + 32768"
    using assms by (simp add: unat_word_ariths)
  with assms show "nla_type (t OR NLA_F_NESTED) = t" "nla_nested (t OR NLA_F_NESTED)" "nla_type t = t" "\<not> nla_nested t"
    by (simp_all add: nla_type_def nla_nested_def mod_add_self2 flip: mod_add_right_eq)
qed

lemma nla_header:
  assumes "n < 65536" and "bs = ne16 (word_of_nat n) @ ne16 ty @ rest"
  shows "unat (get16 0 bs) = n" "get16 2 bs = ty" "4 \<le> length bs"
  using assms get_append(1) [of "ne16 (word_of_nat n)" 2 "ne16 ty @ rest"] by (simp_all add: unat_of_nat_u16)

lemma nla_parse_step:
  assumes "n < 65536" and "n = 4 + length payload" and "length pad = nlmsg_align n - n"
  shows "nla_parse (ne16 (word_of_nat n) @ ne16 ty @ payload @ pad @ bs) = do {
      a \<leftarrow> (if nla_nested ty then map_option (Nest (nla_type ty)) (nla_parse payload) else Some (Flat (nla_type ty) payload));
      as \<leftarrow> nla_parse bs;
      Some (a # as)
    }"
proof -
  let ?w = "ne16 (word_of_nat n) @ ne16 ty @ payload @ pad @ bs"
  have h: "unat (get16 0 ?w) = n" "get16 2 ?w = ty" "4 \<le> length ?w" "?w \<noteq> []"
    using nla_header [OF assms(1) refl, of ty "payload @ pad @ bs"] by (simp_all add: ne16_def be16_def)
  have "slice 4 n ?w = payload" using assms(2) by (simp add: slice_def)
  moreover have "drop (nlmsg_align n) ?w = bs"
    using assms nlmsg_align_props(1) [of n] by simp
  moreover have "\<not> length ?w < n" using assms(2) by simp
  ultimately show ?thesis
    using h assms(2) by (subst nla_parse.simps) (simp only: Let_def if_False HOL.simp_thms not_less, simp)
qed

lemma nla_parse_enc_Cons: "nla_ok a \<Longrightarrow> nla_parse (nla_enc a @ bs) = map_option (Cons a) (nla_parse bs)"
proof (induction a arbitrary: bs)
  case (Flat t v)
  let ?n = "4 + length v"
  have "nla_enc (Flat t v) = ne16 (word_of_nat ?n) @ ne16 t @ v @ replicate (nlmsg_align ?n - ?n) 0"
    by (simp add: pad_to_4_eq numeral_eq_Suc)
  with Flat show ?case
    using nla_parse_step [of ?n v "replicate (nlmsg_align ?n - ?n) 0" t bs] nla_type_or(3,4) [of t]
    by (cases "nla_parse bs") simp_all
next
  case (Nest t as)
  let ?n = "4 + length (nlas_enc as)"
  have ok: "unat t < 2 ^ 14" "list_all nla_ok as" "?n < 65536" using Nest.prems by (simp_all add: nla_ok_Nest)
  have "nla_parse (nlas_enc as) = Some as"
    using ok(2) Nest.IH by (induction as) (simp_all add: nla_parse.simps [of "[]"])
  moreover have "nlmsg_align ?n = ?n" by (rule nlmsg_align_props(3)) (simp add: nlas_enc_aligned)
  ultimately show ?case
    using nla_parse_step [of ?n "nlas_enc as" "[]" "t OR NLA_F_NESTED" bs] nla_type_or(1,2) [OF ok(1)] ok(3)
    by (cases "nla_parse bs") (simp_all add: nla_enc_Nest)
qed

lemma nla_parse_enc: "list_all nla_ok as \<Longrightarrow> nla_parse (nlas_enc as) = Some as"
  by (induction as) (simp_all add: nla_parse_enc_Cons nla_parse.simps [of "[]"])

subsection \<open>Whole messages\<close>

definition nlmsg_enc :: "nl_message \<Rightarrow> bytes" where
  "nlmsg_enc g = ne32 (word_of_nat (16 + length (nm_body g))) @ ne16 (nm_type g) @ ne16 (nm_flags g) @ ne32 (nm_seq g) @ ne32 0
     @ nm_body g"

lemma nl_message_eta: "\<lparr>nm_type = nm_type g, nm_flags = nm_flags g, nm_seq = nm_seq g, nm_body = nm_body g\<rparr> = g"
  by simp

lemma nlmsgs_enc:
  assumes "16 + length (nm_body g) < 2 ^ 32" and "4 dvd length (nm_body g)"
  shows "nlmsgs (nlmsg_enc g @ bs) = map_option (Cons g) (nlmsgs bs)"
proof -
  let ?n = "16 + length (nm_body g)" and ?w = "nlmsg_enc g @ bs"
  have "unat (word_of_nat ?n :: u32) = ?n" using assms(1) by (intro unat_of_nat_u32) simp
  then have h: "unat (get32 0 ?w) = ?n" "get16 4 ?w = nm_type g" "get16 6 ?w = nm_flags g" "get32 8 ?w = nm_seq g"
    "slice 16 ?n ?w = nm_body g"
    by (simp_all add: nlmsg_enc_def slice_def)
  have "nlmsg_align ?n = ?n" using assms(2) by (intro nlmsg_align_props(3)) presburger
  then have "drop (nlmsg_align ?n) ?w = bs" "\<not> length ?w < ?n" "\<not> length ?w < 16"
    by (auto simp: nlmsg_enc_def)
  moreover from this(3) have "?w \<noteq> []" by auto
  ultimately show ?thesis using h by (subst nlmsgs.simps) (simp add: nl_message_eta del: append_is_Nil_conv)
qed

lemma finalize_enc:
  assumes "mb_bytes m = mb_bytes (message_new ty fl sq) @ body" and "mb_nest_stack m = []"
    and "16 + length body < 2 ^ 32"
  shows "finalize m = Some (m\<lparr>mb_bytes := nlmsg_enc \<lparr>nm_type = ty, nm_flags = fl, nm_seq = sq, nm_body = body\<rparr>\<rparr>)"
  using assms by (simp add: finalize_def message_new_def nlmsg_enc_def write_at_def)

text \<open>A family header and a tree, pushed into a new message: nothing panics and the tree is what is written.\<close>

lemma message_tree:
  assumes "4 dvd length hdr" and "list_all nla_ok as" and "16 + length hdr + length (nlas_enc as) < 2 ^ 32"
  shows "Option.bind (push_tree as (push_struct hdr (message_new ty fl sq))) finalize =
    Some ((message_new ty fl sq)\<lparr>mb_bytes := nlmsg_enc \<lparr>nm_type = ty, nm_flags = fl, nm_seq = sq, nm_body = hdr @ nlas_enc as\<rparr>\<rparr>)"
proof -
  let ?m = "message_new ty fl sq"
  have "4 dvd length (mb_bytes ?m)" by (simp add: message_new_def)
  then have "push_struct hdr ?m = ?m\<lparr>mb_bytes := mb_bytes ?m @ hdr\<rparr>"
    using assms(1) by (simp add: push_struct_def pad_to_4_append pad_to_4_aligned)
  moreover have "4 dvd length (mb_bytes ?m @ hdr)" using assms(1) by (simp add: message_new_def)
  ultimately have "push_tree as (push_struct hdr ?m) = Some (?m\<lparr>mb_bytes := mb_bytes ?m @ hdr @ nlas_enc as\<rparr>)"
    using push_tree_eq [OF assms(2), of "?m\<lparr>mb_bytes := mb_bytes ?m @ hdr\<rparr>"] by simp
  then show ?thesis
    using assms(3) finalize_enc [of "?m\<lparr>mb_bytes := mb_bytes ?m @ hdr @ nlas_enc as\<rparr>" ty fl sq "hdr @ nlas_enc as"]
    by (simp add: message_new_def)
qed

subsection \<open>Sizes of trees, and trees in parts\<close>

primrec nla_bound :: "nla \<Rightarrow> nat" where
  "nla_bound (Flat t v) = 8 + length v"
| "nla_bound (Nest t as) = 4 + sum_list (map nla_bound as)"

primrec nla_types :: "nla \<Rightarrow> bool" where
  "nla_types (Flat t v) \<longleftrightarrow> unat t < 2 ^ 14"
| "nla_types (Nest t as) \<longleftrightarrow> unat t < 2 ^ 14 \<and> list_all id (map nla_types as)"

lemma nlmsg_align_le: "nlmsg_align n \<le> n + 3"
  unfolding nlmsg_align_def by presburger

lemma length_nla_enc: "length (nla_enc a) \<le> nla_bound a"
proof (induction a)
  case (Flat t v)
  show ?case using nlmsg_align_le [of "4 + length v"] by (simp add: numeral_eq_Suc)
next
  case (Nest t as)
  then have "length (nlas_enc as) \<le> sum_list (map nla_bound as)" by (induction as) (auto intro: add_mono)
  then show ?case by (simp add: nla_enc_Nest)
qed

lemma length_nlas_enc: "length (nlas_enc as) \<le> sum_list (map nla_bound as)"
  by (induction as) (auto intro: add_mono length_nla_enc)

lemma nla_ok_bound: "nla_types a \<Longrightarrow> nla_bound a < 65536 \<Longrightarrow> nla_ok a"
proof (induction a)
  case (Nest t as)
  have "nla_bound a \<le> sum_list (map nla_bound as)" if "a \<in> set as" for a
    using that by (simp add: member_le_sum_list)
  with Nest have "list_all nla_ok as" by (fastforce simp: list_all_iff)
  with Nest.prems length_nlas_enc [of as] show ?case by (simp add: nla_ok_Nest)
qed simp

lemma nlas_ok_bound:
  assumes "list_all nla_types as" and "sum_list (map nla_bound as) < 65536"
  shows "list_all nla_ok as"
proof -
  have "nla_bound a \<le> sum_list (map nla_bound as)" if "a \<in> set as" for a
    using that by (simp add: member_le_sum_list)
  with assms show ?thesis by (fastforce simp: list_all_iff intro: nla_ok_bound)
qed

lemma run_calls_fun:
  "run_calls [] = Some" "run_calls (c # cs) = (\<lambda>m. Option.bind (run_call c m) (run_calls cs))"
  by (simp_all add: fun_eq_iff)

lemma push_tree_Nil: "push_tree [] = Some"
  by (simp add: push_tree_def run_calls_fun)

lemma push_tree_append: "push_tree (as @ bs) m = Option.bind (push_tree as m) (push_tree bs)"
  by (simp add: push_tree_def run_calls_append)

lemma push_tree_Cons: "push_tree (a # b # as) = (\<lambda>m. Option.bind (push_tree [a] m) (push_tree (b # as)))"
  using push_tree_append [of "[a]" "b # as"] by (simp add: fun_eq_iff)

lemma push_tree_Flat: "push_tree [Flat t v] = push_attr_bytes t v"
  by (simp add: push_tree_def run_calls_fun)

lemma push_tree_Nest: "push_tree [Nest t as] = (\<lambda>m. Option.bind (push_tree as (nest_begin t m)) nest_end)"
  by (simp add: push_tree_def run_calls_fun run_calls_append)

subsection \<open>One acknowledgement\<close>

text \<open>A datagram with one acknowledgement: what the kernel sends for a request, with zero or a negative error number.\<close>

definition ack_datagram :: "u32 \<Rightarrow> u32 \<Rightarrow> bytes \<Rightarrow> bool" where
  "ack_datagram seq err d \<longleftrightarrow>
     (\<exists>flags rest. d = nlmsg_enc \<lparr>nm_type = NLMSG_ERROR, nm_flags = flags, nm_seq = seq, nm_body = ne32 err @ rest\<rparr>
        \<and> length d \<le> 8192)"

lemma drain_acks_one:
  assumes "ack_datagram seq err d"
  shows "drain_acks d remaining = (if err = 0 then Inr (remaining - {seq}) else Inl (DrainKernel (- err)))"
proof -
  from assms obtain flags rest where
    d: "d = nlmsg_enc \<lparr>nm_type = NLMSG_ERROR, nm_flags = flags, nm_seq = seq, nm_body = ne32 err @ rest\<rparr>" "length d \<le> 8192"
    by (auto simp: ack_datagram_def)
  let ?n = "20 + length rest"
  have n: "length d = ?n" "?n < 2 ^ 32" using d by (simp_all add: nlmsg_enc_def)
  have "unat (word_of_nat ?n :: u32) = ?n" using n by (intro unat_of_nat_u32) simp
  then have "unat (get32 0 d) = ?n" "get16 4 d = NLMSG_ERROR" "get32 8 d = seq" "get32 16 d = err"
    unfolding d(1) by (simp_all add: nlmsg_enc_def)
  moreover have "length d \<le> nlmsg_align (length d)" by (rule nlmsg_align_props)
  ultimately show ?thesis
    using n(1) by (simp add: drain_acks_def drain_loop.simps [of d 0] drain_loop.simps [of d "nlmsg_align ?n"])
qed

definition ack_bytes :: "u32 \<Rightarrow> u32 \<Rightarrow> bytes" where
  "ack_bytes seq err = nlmsg_enc \<lparr>nm_type = NLMSG_ERROR, nm_flags = 0, nm_seq = seq, nm_body = ne32 err\<rparr>"

lemma ack_bytes: "ack_datagram seq err (ack_bytes seq err)"
  unfolding ack_datagram_def ack_bytes_def by (rule exI [of _ 0], rule exI [of _ "[]"]) (simp add: nlmsg_enc_def)

lemma length_ack_bytes: "length (ack_bytes seq err) = 20"
  by (simp add: ack_bytes_def nlmsg_enc_def)

end
