(* ===== verification/Mss_Table.thy ===== *)
theory Mss_Table
  imports Netlink Text_Parse
begin

text \<open>
  The shared nf_tables table that clamps the TCP segment size on the forwarding path,
  \<open>src/src/shape/mss_shared.rs\<close>: the batches of netlink messages and the manager that keeps one
  chain and one set of interface names for each segment size.

  The kernel is a parameter: opening a socket and sending a batch give an error or the datagrams
  that the kernel queues on the socket.  Results are \<open>None\<close> for a panic and for a receive that waits
  forever.  Every call holds the mutex from start to end, so an operation is one step; the two atomic
  counters are part of the state.
\<close>

abbreviation (input) NFNL_SUBSYS_NFTABLES :: u16 where "NFNL_SUBSYS_NFTABLES \<equiv> 10"
abbreviation (input) NFNL_MSG_BATCH_BEGIN :: u16 where "NFNL_MSG_BATCH_BEGIN \<equiv> 0x10"
abbreviation (input) NFNL_MSG_BATCH_END :: u16 where "NFNL_MSG_BATCH_END \<equiv> 0x11"
abbreviation (input) NFT_MSG_NEWTABLE :: u16 where "NFT_MSG_NEWTABLE \<equiv> 0"
abbreviation (input) NFT_MSG_DELTABLE :: u16 where "NFT_MSG_DELTABLE \<equiv> 2"
abbreviation (input) NFT_MSG_NEWCHAIN :: u16 where "NFT_MSG_NEWCHAIN \<equiv> 3"
abbreviation (input) NFT_MSG_NEWRULE :: u16 where "NFT_MSG_NEWRULE \<equiv> 6"
abbreviation (input) NFT_MSG_NEWSET :: u16 where "NFT_MSG_NEWSET \<equiv> 9"
abbreviation (input) NFT_MSG_NEWSETELEM :: u16 where "NFT_MSG_NEWSETELEM \<equiv> 12"
abbreviation (input) NFT_MSG_DELSETELEM :: u16 where "NFT_MSG_DELSETELEM \<equiv> 14"
abbreviation (input) NFPROTO_UNSPEC :: u8 where "NFPROTO_UNSPEC \<equiv> 0"
abbreviation (input) NFPROTO_IPV4 :: u8 where "NFPROTO_IPV4 \<equiv> 2"
abbreviation (input) NFNETLINK_V0 :: u8 where "NFNETLINK_V0 \<equiv> 0"
abbreviation (input) NF_INET_FORWARD :: u32 where "NF_INET_FORWARD \<equiv> 2"
abbreviation (input) NF_ACCEPT :: u32 where "NF_ACCEPT \<equiv> 1"
abbreviation (input) NFTA_TABLE_NAME :: u16 where "NFTA_TABLE_NAME \<equiv> 1"
abbreviation (input) NFTA_CHAIN_TABLE :: u16 where "NFTA_CHAIN_TABLE \<equiv> 1"
abbreviation (input) NFTA_CHAIN_NAME :: u16 where "NFTA_CHAIN_NAME \<equiv> 3"
abbreviation (input) NFTA_CHAIN_HOOK :: u16 where "NFTA_CHAIN_HOOK \<equiv> 4"
abbreviation (input) NFTA_CHAIN_POLICY :: u16 where "NFTA_CHAIN_POLICY \<equiv> 5"
abbreviation (input) NFTA_CHAIN_TYPE :: u16 where "NFTA_CHAIN_TYPE \<equiv> 7"
abbreviation (input) NFTA_RULE_TABLE :: u16 where "NFTA_RULE_TABLE \<equiv> 1"
abbreviation (input) NFTA_RULE_CHAIN :: u16 where "NFTA_RULE_CHAIN \<equiv> 2"
abbreviation (input) NFTA_RULE_EXPRESSIONS :: u16 where "NFTA_RULE_EXPRESSIONS \<equiv> 4"
abbreviation (input) NFTA_HOOK_HOOKNUM :: u16 where "NFTA_HOOK_HOOKNUM \<equiv> 1"
abbreviation (input) NFTA_HOOK_PRIORITY :: u16 where "NFTA_HOOK_PRIORITY \<equiv> 2"
abbreviation (input) NFTA_SET_TABLE :: u16 where "NFTA_SET_TABLE \<equiv> 1"
abbreviation (input) NFTA_SET_NAME :: u16 where "NFTA_SET_NAME \<equiv> 2"
abbreviation (input) NFTA_SET_FLAGS :: u16 where "NFTA_SET_FLAGS \<equiv> 3"
abbreviation (input) NFTA_SET_KEY_TYPE :: u16 where "NFTA_SET_KEY_TYPE \<equiv> 4"
abbreviation (input) NFTA_SET_KEY_LEN :: u16 where "NFTA_SET_KEY_LEN \<equiv> 5"
abbreviation (input) NFTA_SET_USERDATA :: u16 where "NFTA_SET_USERDATA \<equiv> 13"
abbreviation (input) NFTA_SET_ID :: u16 where "NFTA_SET_ID \<equiv> 10"
abbreviation (input) NFTA_SET_ELEM_LIST_TABLE :: u16 where "NFTA_SET_ELEM_LIST_TABLE \<equiv> 1"
abbreviation (input) NFTA_SET_ELEM_LIST_SET :: u16 where "NFTA_SET_ELEM_LIST_SET \<equiv> 2"
abbreviation (input) NFTA_SET_ELEM_LIST_ELEMENTS :: u16 where "NFTA_SET_ELEM_LIST_ELEMENTS \<equiv> 3"
abbreviation (input) NFTA_SET_ELEM_KEY :: u16 where "NFTA_SET_ELEM_KEY \<equiv> 1"
abbreviation (input) NFTA_LIST_ELEM :: u16 where "NFTA_LIST_ELEM \<equiv> 1"
abbreviation (input) NFTA_EXPR_NAME :: u16 where "NFTA_EXPR_NAME \<equiv> 1"
abbreviation (input) NFTA_EXPR_DATA :: u16 where "NFTA_EXPR_DATA \<equiv> 2"
abbreviation (input) NFTA_META_DREG :: u16 where "NFTA_META_DREG \<equiv> 1"
abbreviation (input) NFTA_META_KEY :: u16 where "NFTA_META_KEY \<equiv> 2"
abbreviation (input) NFTA_LOOKUP_SET :: u16 where "NFTA_LOOKUP_SET \<equiv> 1"
abbreviation (input) NFTA_LOOKUP_SREG :: u16 where "NFTA_LOOKUP_SREG \<equiv> 2"
abbreviation (input) NFTA_PAYLOAD_DREG :: u16 where "NFTA_PAYLOAD_DREG \<equiv> 1"
abbreviation (input) NFTA_PAYLOAD_BASE :: u16 where "NFTA_PAYLOAD_BASE \<equiv> 2"
abbreviation (input) NFTA_PAYLOAD_OFFSET :: u16 where "NFTA_PAYLOAD_OFFSET \<equiv> 3"
abbreviation (input) NFTA_PAYLOAD_LEN :: u16 where "NFTA_PAYLOAD_LEN \<equiv> 4"
abbreviation (input) NFTA_BITWISE_SREG :: u16 where "NFTA_BITWISE_SREG \<equiv> 1"
abbreviation (input) NFTA_BITWISE_DREG :: u16 where "NFTA_BITWISE_DREG \<equiv> 2"
abbreviation (input) NFTA_BITWISE_LEN :: u16 where "NFTA_BITWISE_LEN \<equiv> 3"
abbreviation (input) NFTA_BITWISE_MASK :: u16 where "NFTA_BITWISE_MASK \<equiv> 4"
abbreviation (input) NFTA_BITWISE_XOR :: u16 where "NFTA_BITWISE_XOR \<equiv> 5"
abbreviation (input) NFTA_BITWISE_OP :: u16 where "NFTA_BITWISE_OP \<equiv> 6"
abbreviation (input) NFTA_CMP_SREG :: u16 where "NFTA_CMP_SREG \<equiv> 1"
abbreviation (input) NFTA_CMP_OP :: u16 where "NFTA_CMP_OP \<equiv> 2"
abbreviation (input) NFTA_CMP_DATA :: u16 where "NFTA_CMP_DATA \<equiv> 3"
abbreviation (input) NFTA_DATA_VALUE :: u16 where "NFTA_DATA_VALUE \<equiv> 1"
abbreviation (input) NFTA_IMMEDIATE_DREG :: u16 where "NFTA_IMMEDIATE_DREG \<equiv> 1"
abbreviation (input) NFTA_IMMEDIATE_DATA :: u16 where "NFTA_IMMEDIATE_DATA \<equiv> 2"
abbreviation (input) NFTA_EXTHDR_TYPE :: u16 where "NFTA_EXTHDR_TYPE \<equiv> 2"
abbreviation (input) NFTA_EXTHDR_OFFSET :: u16 where "NFTA_EXTHDR_OFFSET \<equiv> 3"
abbreviation (input) NFTA_EXTHDR_LEN :: u16 where "NFTA_EXTHDR_LEN \<equiv> 4"
abbreviation (input) NFTA_EXTHDR_OP :: u16 where "NFTA_EXTHDR_OP \<equiv> 6"
abbreviation (input) NFTA_EXTHDR_SREG :: u16 where "NFTA_EXTHDR_SREG \<equiv> 7"
abbreviation (input) NFT_REG_1 :: u32 where "NFT_REG_1 \<equiv> 1"
abbreviation (input) NFT_META_IIFNAME :: u32 where "NFT_META_IIFNAME \<equiv> 6"
abbreviation (input) NFT_META_OIFNAME :: u32 where "NFT_META_OIFNAME \<equiv> 7"
abbreviation (input) NFT_META_L4PROTO :: u32 where "NFT_META_L4PROTO \<equiv> 16"
abbreviation (input) NFT_CMP_EQ :: u32 where "NFT_CMP_EQ \<equiv> 0"
abbreviation (input) NFT_PAYLOAD_TRANSPORT_HEADER :: u32 where "NFT_PAYLOAD_TRANSPORT_HEADER \<equiv> 2"
abbreviation (input) NFT_BITWISE_BOOL :: u32 where "NFT_BITWISE_BOOL \<equiv> 0"
abbreviation (input) NFT_EXTHDR_OP_TCPOPT :: u32 where "NFT_EXTHDR_OP_TCPOPT \<equiv> 1"
abbreviation (input) NFT_SET_FLAGS :: u32 where "NFT_SET_FLAGS \<equiv> 0"
abbreviation (input) NFT_KEY_TYPE_IFNAME :: u32 where "NFT_KEY_TYPE_IFNAME \<equiv> 0x29"
abbreviation (input) IFNAMSIZ :: nat where "IFNAMSIZ \<equiv> 16"
abbreviation (input) IPPROTO_TCP :: u8 where "IPPROTO_TCP \<equiv> 6"

subsection \<open>Batches\<close>

record batch =
  bt_bytes :: bytes
  bt_expected_acks :: "u32 list"

definition push_envelope :: "u16 \<Rightarrow> u32 \<Rightarrow> batch \<Rightarrow> batch option" where
  "push_envelope msg_type seq b = do {
     env \<leftarrow> finalize (push_struct [NFPROTO_UNSPEC, NFNETLINK_V0, 0, 10] (message_new msg_type NLM_F_REQUEST seq));
     Some (b\<lparr>bt_bytes := bt_bytes b @ mb_bytes env\<rparr>)
   }"

definition batch_new :: "u32 \<Rightarrow> batch option" where
  "batch_new seq = push_envelope NFNL_MSG_BATCH_BEGIN seq \<lparr>bt_bytes = [], bt_expected_acks = []\<rparr>"

definition batch_finalize :: "u32 \<Rightarrow> batch \<Rightarrow> batch option" where
  "batch_finalize seq b = push_envelope NFNL_MSG_BATCH_END seq b"

definition batch_push :: "message_buf \<Rightarrow> batch \<Rightarrow> batch option" where
  "batch_push msg b = do {
     msg \<leftarrow> finalize msg;
     Some \<lparr>bt_bytes = bt_bytes b @ mb_bytes msg,
           bt_expected_acks = bt_expected_acks b @ (if mb_flags msg AND NLM_F_ACK \<noteq> 0 then [mb_seq msg] else [])\<rparr>
   }"

definition nft_msg_type :: "u16 \<Rightarrow> u16" where
  "nft_msg_type op = push_bit 8 NFNL_SUBSYS_NFTABLES OR op"

definition nf_msg :: "u16 \<Rightarrow> u16 \<Rightarrow> u32 \<Rightarrow> message_buf" where
  "nf_msg op flags seq = push_struct [NFPROTO_IPV4, NFNETLINK_V0, 0, 0] (message_new (nft_msg_type op) flags seq)"

subsection \<open>Expressions\<close>

definition expr_begin :: "bytes \<Rightarrow> message_buf \<Rightarrow> message_buf option" where
  "expr_begin name msg = do {
     msg \<leftarrow> push_attr_cstr NFTA_EXPR_NAME name (nest_begin NFTA_LIST_ELEM msg);
     Some (nest_begin NFTA_EXPR_DATA msg)
   }"

definition expr_end :: "message_buf \<Rightarrow> message_buf option" where
  "expr_end msg = do { msg \<leftarrow> nest_end msg; nest_end msg }"

definition encode_meta_load :: "u32 \<Rightarrow> u32 \<Rightarrow> message_buf \<Rightarrow> message_buf option" where
  "encode_meta_load key dreg msg = do {
     msg \<leftarrow> expr_begin (ascii ''meta'') msg;
     msg \<leftarrow> push_attr_be32 NFTA_META_KEY key msg;
     msg \<leftarrow> push_attr_be32 NFTA_META_DREG dreg msg;
     expr_end msg
   }"

definition encode_lookup :: "u32 \<Rightarrow> bytes \<Rightarrow> message_buf \<Rightarrow> message_buf option" where
  "encode_lookup sreg set_name msg = do {
     msg \<leftarrow> expr_begin (ascii ''lookup'') msg;
     msg \<leftarrow> push_attr_cstr NFTA_LOOKUP_SET set_name msg;
     msg \<leftarrow> push_attr_be32 NFTA_LOOKUP_SREG sreg msg;
     expr_end msg
   }"

definition encode_cmp :: "u32 \<Rightarrow> bytes \<Rightarrow> u32 \<Rightarrow> message_buf \<Rightarrow> message_buf option" where
  "encode_cmp sreg data op msg = do {
     msg \<leftarrow> expr_begin (ascii ''cmp'') msg;
     msg \<leftarrow> push_attr_be32 NFTA_CMP_SREG sreg msg;
     msg \<leftarrow> push_attr_be32 NFTA_CMP_OP op msg;
     msg \<leftarrow> push_attr_bytes NFTA_DATA_VALUE data (nest_begin NFTA_CMP_DATA msg);
     msg \<leftarrow> nest_end msg;
     expr_end msg
   }"

definition encode_payload_load :: "u32 \<Rightarrow> u32 \<Rightarrow> u32 \<Rightarrow> u32 \<Rightarrow> message_buf \<Rightarrow> message_buf option" where
  "encode_payload_load dreg base offset len msg = do {
     msg \<leftarrow> expr_begin (ascii ''payload'') msg;
     msg \<leftarrow> push_attr_be32 NFTA_PAYLOAD_DREG dreg msg;
     msg \<leftarrow> push_attr_be32 NFTA_PAYLOAD_BASE base msg;
     msg \<leftarrow> push_attr_be32 NFTA_PAYLOAD_OFFSET offset msg;
     msg \<leftarrow> push_attr_be32 NFTA_PAYLOAD_LEN len msg;
     expr_end msg
   }"

definition encode_bitwise :: "u32 \<Rightarrow> u32 \<Rightarrow> bytes \<Rightarrow> bytes \<Rightarrow> message_buf \<Rightarrow> message_buf option" where
  "encode_bitwise sreg dreg mask_bytes xor_bytes msg = do {
     msg \<leftarrow> expr_begin (ascii ''bitwise'') msg;
     msg \<leftarrow> push_attr_be32 NFTA_BITWISE_SREG sreg msg;
     msg \<leftarrow> push_attr_be32 NFTA_BITWISE_DREG dreg msg;
     msg \<leftarrow> (if length mask_bytes < 2 ^ 32 then push_attr_be32 NFTA_BITWISE_LEN (word_of_nat (length mask_bytes)) msg else None);
     msg \<leftarrow> push_attr_bytes NFTA_DATA_VALUE mask_bytes (nest_begin NFTA_BITWISE_MASK msg);
     msg \<leftarrow> nest_end msg;
     msg \<leftarrow> push_attr_bytes NFTA_DATA_VALUE xor_bytes (nest_begin NFTA_BITWISE_XOR msg);
     msg \<leftarrow> nest_end msg;
     msg \<leftarrow> push_attr_be32 NFTA_BITWISE_OP NFT_BITWISE_BOOL msg;
     expr_end msg
   }"

definition encode_immediate :: "u32 \<Rightarrow> bytes \<Rightarrow> message_buf \<Rightarrow> message_buf option" where
  "encode_immediate dreg data msg = do {
     msg \<leftarrow> expr_begin (ascii ''immediate'') msg;
     msg \<leftarrow> push_attr_be32 NFTA_IMMEDIATE_DREG dreg msg;
     msg \<leftarrow> push_attr_bytes NFTA_DATA_VALUE data (nest_begin NFTA_IMMEDIATE_DATA msg);
     msg \<leftarrow> nest_end msg;
     expr_end msg
   }"

definition encode_exthdr_set :: "u32 \<Rightarrow> u8 \<Rightarrow> u32 \<Rightarrow> u32 \<Rightarrow> message_buf \<Rightarrow> message_buf option" where
  "encode_exthdr_set sreg opt offset len msg = do {
     msg \<leftarrow> expr_begin (ascii ''exthdr'') msg;
     msg \<leftarrow> push_attr_be32 NFTA_EXTHDR_OP NFT_EXTHDR_OP_TCPOPT msg;
     msg \<leftarrow> push_attr_u8 NFTA_EXTHDR_TYPE opt msg;
     msg \<leftarrow> push_attr_be32 NFTA_EXTHDR_OFFSET offset msg;
     msg \<leftarrow> push_attr_be32 NFTA_EXTHDR_LEN len msg;
     msg \<leftarrow> push_attr_be32 NFTA_EXTHDR_SREG sreg msg;
     expr_end msg
   }"

subsection \<open>The transactions\<close>

text \<open>
  A builder gets the value of the sequence counter and returns the batch with the value after its
  three increments.  \<open>tbl\<close> is the name of the table, \<open>sstp_mss_\<close> and the process identifier.
\<close>

type_synonym builder = "u32 \<Rightarrow> (batch \<times> u32) option"

definition table_name :: "nat \<Rightarrow> bytes" where
  "table_name pid = ascii ''sstp_mss_'' @ map word_of_nat (show_nat pid)"

definition build_create_table_batch :: "bytes \<Rightarrow> builder" where
  "build_create_table_batch tbl seq = do {
     b \<leftarrow> batch_new seq;
     msg \<leftarrow> push_attr_cstr NFTA_TABLE_NAME tbl
              (nf_msg NFT_MSG_NEWTABLE (NLM_F_REQUEST OR NLM_F_ACK OR NLM_F_CREATE OR NLM_F_EXCL) (seq + 1));
     b \<leftarrow> batch_push msg b;
     b \<leftarrow> batch_finalize (seq + 2) b;
     Some (b, seq + 3)
   }"

definition build_delete_table_batch :: "bytes \<Rightarrow> builder" where
  "build_delete_table_batch tbl seq = do {
     b \<leftarrow> batch_new seq;
     msg \<leftarrow> push_attr_cstr NFTA_TABLE_NAME tbl (nf_msg NFT_MSG_DELTABLE (NLM_F_REQUEST OR NLM_F_ACK) (seq + 1));
     b \<leftarrow> batch_push msg b;
     b \<leftarrow> batch_finalize (seq + 2) b;
     Some (b, seq + 3)
   }"

definition build_create_set_batch :: "bytes \<Rightarrow> bytes \<Rightarrow> u32 \<Rightarrow> builder" where
  "build_create_set_batch tbl set_name set_id seq = do {
     b \<leftarrow> batch_new seq;
     msg \<leftarrow> push_attr_cstr NFTA_SET_TABLE tbl
              (nf_msg NFT_MSG_NEWSET (NLM_F_REQUEST OR NLM_F_ACK OR NLM_F_CREATE OR NLM_F_EXCL) (seq + 1));
     msg \<leftarrow> push_attr_cstr NFTA_SET_NAME set_name msg;
     msg \<leftarrow> push_attr_be32 NFTA_SET_FLAGS NFT_SET_FLAGS msg;
     msg \<leftarrow> push_attr_be32 NFTA_SET_KEY_TYPE NFT_KEY_TYPE_IFNAME msg;
     msg \<leftarrow> push_attr_be32 NFTA_SET_KEY_LEN (word_of_nat IFNAMSIZ) msg;
     msg \<leftarrow> push_attr_be32 NFTA_SET_ID set_id msg;
     msg \<leftarrow> push_attr_bytes NFTA_SET_USERDATA [0x00, 0x04, 0x01, 0x00, 0x00, 0x00] msg;
     b \<leftarrow> batch_push msg b;
     b \<leftarrow> batch_finalize (seq + 2) b;
     Some (b, seq + 3)
   }"

definition build_create_chain_batch :: "bytes \<Rightarrow> bytes \<Rightarrow> builder" where
  "build_create_chain_batch tbl chain_name seq = do {
     b \<leftarrow> batch_new seq;
     msg \<leftarrow> push_attr_cstr NFTA_CHAIN_TABLE tbl
              (nf_msg NFT_MSG_NEWCHAIN (NLM_F_REQUEST OR NLM_F_ACK OR NLM_F_CREATE OR NLM_F_EXCL) (seq + 1));
     msg \<leftarrow> push_attr_cstr NFTA_CHAIN_NAME chain_name msg;
     msg \<leftarrow> push_attr_cstr NFTA_CHAIN_TYPE (ascii ''filter'') msg;
     msg \<leftarrow> push_attr_be32 NFTA_CHAIN_POLICY NF_ACCEPT msg;
     msg \<leftarrow> push_attr_be32 NFTA_HOOK_HOOKNUM NF_INET_FORWARD (nest_begin NFTA_CHAIN_HOOK msg);
     msg \<leftarrow> push_attr_be32 NFTA_HOOK_PRIORITY (- 150) msg;
     msg \<leftarrow> nest_end msg;
     b \<leftarrow> batch_push msg b;
     b \<leftarrow> batch_finalize (seq + 2) b;
     Some (b, seq + 3)
   }"

definition build_rule_batch :: "bytes \<Rightarrow> bytes \<Rightarrow> bytes \<Rightarrow> bool \<Rightarrow> u16 \<Rightarrow> builder" where
  "build_rule_batch tbl chain_name set_name ingress mss seq = do {
     b \<leftarrow> batch_new seq;
     msg \<leftarrow> push_attr_cstr NFTA_RULE_TABLE tbl
              (nf_msg NFT_MSG_NEWRULE (NLM_F_REQUEST OR NLM_F_ACK OR NLM_F_CREATE OR NLM_F_APPEND) (seq + 1));
     msg \<leftarrow> push_attr_cstr NFTA_RULE_CHAIN chain_name msg;
     msg \<leftarrow> encode_meta_load (if ingress then NFT_META_IIFNAME else NFT_META_OIFNAME) NFT_REG_1 (nest_begin NFTA_RULE_EXPRESSIONS msg);
     msg \<leftarrow> encode_lookup NFT_REG_1 set_name msg;
     msg \<leftarrow> encode_meta_load NFT_META_L4PROTO NFT_REG_1 msg;
     msg \<leftarrow> encode_cmp NFT_REG_1 [IPPROTO_TCP] NFT_CMP_EQ msg;
     msg \<leftarrow> encode_payload_load NFT_REG_1 NFT_PAYLOAD_TRANSPORT_HEADER 13 1 msg;
     msg \<leftarrow> encode_bitwise NFT_REG_1 NFT_REG_1 [0x06] [0x00] msg;
     msg \<leftarrow> encode_cmp NFT_REG_1 [0x02] NFT_CMP_EQ msg;
     msg \<leftarrow> encode_immediate NFT_REG_1 (be16 mss) msg;
     msg \<leftarrow> encode_exthdr_set NFT_REG_1 2 2 2 msg;
     msg \<leftarrow> nest_end msg;
     b \<leftarrow> batch_push msg b;
     b \<leftarrow> batch_finalize (seq + 2) b;
     Some (b, seq + 3)
   }"

text \<open>The key of a set element: the name with its terminator, cut and padded to the size of a name.\<close>

definition elem_key :: "bytes \<Rightarrow> bytes" where
  "elem_key ifname = write_at 0 (take IFNAMSIZ (ifname @ [0])) (replicate IFNAMSIZ 0)"

definition encode_set_elem_msg :: "bytes \<Rightarrow> bytes \<Rightarrow> bytes \<Rightarrow> message_buf \<Rightarrow> message_buf option" where
  "encode_set_elem_msg tbl set_name ifname msg = do {
     msg \<leftarrow> push_attr_cstr NFTA_SET_ELEM_LIST_TABLE tbl msg;
     msg \<leftarrow> push_attr_cstr NFTA_SET_ELEM_LIST_SET set_name msg;
     msg \<leftarrow> push_attr_bytes NFTA_DATA_VALUE (elem_key ifname) 
              (nest_begin NFTA_SET_ELEM_KEY (nest_begin NFTA_LIST_ELEM (nest_begin NFTA_SET_ELEM_LIST_ELEMENTS msg)));
     msg \<leftarrow> nest_end msg;
     msg \<leftarrow> nest_end msg;
     nest_end msg
   }"

definition build_add_elem_batch :: "bytes \<Rightarrow> bytes \<Rightarrow> bytes \<Rightarrow> builder" where
  "build_add_elem_batch tbl set_name ifname seq = do {
     b \<leftarrow> batch_new seq;
     msg \<leftarrow> encode_set_elem_msg tbl set_name ifname
              (nf_msg NFT_MSG_NEWSETELEM (NLM_F_REQUEST OR NLM_F_ACK OR NLM_F_CREATE) (seq + 1));
     b \<leftarrow> batch_push msg b;
     b \<leftarrow> batch_finalize (seq + 2) b;
     Some (b, seq + 3)
   }"

definition build_del_elem_batch :: "bytes \<Rightarrow> bytes \<Rightarrow> bytes \<Rightarrow> builder" where
  "build_del_elem_batch tbl set_name ifname seq = do {
     b \<leftarrow> batch_new seq;
     msg \<leftarrow> encode_set_elem_msg tbl set_name ifname
              (nf_msg NFT_MSG_DELSETELEM (NLM_F_REQUEST OR NLM_F_ACK) (seq + 1));
     b \<leftarrow> batch_push msg b;
     b \<leftarrow> batch_finalize (seq + 2) b;
     Some (b, seq + 3)
   }"

subsection \<open>Exchanges with the kernel\<close>

type_synonym io_error = nat

datatype shared_mss_error = InvalidName | MssNetlink string io_error | MssKernel string u32

text \<open>
  What a system call gives: an error number or its result.  Sending a batch makes the kernel queue
  datagrams, or receive errors, on the socket.
\<close>

type_synonym datagram = "io_error + bytes"

record 'k nf_kernel =
  nk_open :: "'k \<Rightarrow> (io_error + unit) \<times> 'k"
  nk_send :: "bytes \<Rightarrow> 'k \<Rightarrow> (io_error + datagram list) \<times> 'k"

abbreviation (input) EOTHER :: io_error where "EOTHER \<equiv> 0"

fun ack_loop :: "string \<Rightarrow> datagram list \<Rightarrow> u32 set \<Rightarrow> ((shared_mss_error + unit) \<times> datagram list) option" where
  "ack_loop op queue remaining =
     (if remaining = {} then Some (Inr (), queue)
      else case queue of
          [] \<Rightarrow> None
        | Inl e # rest \<Rightarrow> Some (Inl (MssNetlink op e), rest)
        | Inr d # rest \<Rightarrow>
            (case drain_acks (take 8192 d) remaining of
               Inl DrainTruncated \<Rightarrow> Some (Inl (MssNetlink op EOTHER), rest)
             | Inl (DrainKernel errno) \<Rightarrow> Some (Inl (MssKernel op errno), rest)
             | Inr remaining' \<Rightarrow> ack_loop op rest remaining'))"

declare ack_loop.simps [simp del]

record mss_group =
  mg_chain_name :: bytes
  mg_set_name :: bytes
  mg_refcount :: u32
  mg_kernel_created :: bool

text \<open>The manager, the two counters, the kernel, and the queue of the socket that is open.\<close>

record 'k mss_world =
  mw_table_exists :: bool
  mw_groups :: "u16 \<rightharpoonup> mss_group"
  mw_next_seq :: u32
  mw_next_set_id :: u32
  mw_kernel :: 'k
  mw_queue :: "datagram list"

type_synonym ('k, 'a) mss_result = "((shared_mss_error + 'a) \<times> 'k mss_world) option"

definition mss_new :: "'k \<Rightarrow> 'k mss_world" where
  "mss_new k = \<lparr>mw_table_exists = False, mw_groups = Map.empty, mw_next_seq = 1, mw_next_set_id = 1, mw_kernel = k,
     mw_queue = []\<rparr>"

definition nf_open :: "'k nf_kernel \<Rightarrow> 'k mss_world \<Rightarrow> ('k, unit) mss_result" where
  "nf_open K w =
     (case nk_open K (mw_kernel w) of
        (Inl e, k) \<Rightarrow> Some (Inl (MssNetlink ''socket'' e), w\<lparr>mw_kernel := k\<rparr>)
      | (Inr _, k) \<Rightarrow> Some (Inr (), w\<lparr>mw_kernel := k, mw_queue := []\<rparr>))"

definition exchange_batch :: "'k nf_kernel \<Rightarrow> string \<Rightarrow> builder \<Rightarrow> 'k mss_world \<Rightarrow> ('k, unit) mss_result" where
  "exchange_batch K op builder w = do {
     (b, seq) \<leftarrow> builder (mw_next_seq w);
     let w = w\<lparr>mw_next_seq := seq\<rparr>;
     (case nk_send K (bt_bytes b) (mw_kernel w) of
        (Inl e, k) \<Rightarrow> Some (Inl (MssNetlink op e), w\<lparr>mw_kernel := k\<rparr>)
      | (Inr replies, k) \<Rightarrow> do {
          (r, queue) \<leftarrow> ack_loop op (mw_queue w @ replies) (set (bt_expected_acks b));
          Some (r, w\<lparr>mw_kernel := k, mw_queue := queue\<rparr>)
        })
   }"

text \<open>The \<open>?\<close> operator on a step that changes the state.\<close>

definition try_step :: "('k, 'a) mss_result \<Rightarrow> ('a \<Rightarrow> 'k mss_world \<Rightarrow> ('k, 'b) mss_result) \<Rightarrow> ('k, 'b) mss_result" where
  "try_step r f =
     (case r of
        None \<Rightarrow> None
      | Some (Inl e, w) \<Rightarrow> Some (Inl e, w)
      | Some (Inr x, w) \<Rightarrow> f x w)"

subsection \<open>The manager\<close>

definition chain_name_of :: "u16 \<Rightarrow> bytes" where
  "chain_name_of mss = ascii ''fwd_'' @ map word_of_nat (show_nat (unat mss))"

definition set_name_of :: "u16 \<Rightarrow> bytes" where
  "set_name_of mss = ascii ''ifaces_'' @ map word_of_nat (show_nat (unat mss))"

text \<open>A failed flush of a stale table is ignored, whatever the reason.\<close>

definition ensure_table :: "'k nf_kernel \<Rightarrow> bytes \<Rightarrow> 'k mss_world \<Rightarrow> ('k, unit) mss_result" where
  "ensure_table K tbl w =
     (if mw_table_exists w then Some (Inr (), w)
      else
        case exchange_batch K ''flush-stale-table'' (build_delete_table_batch tbl) w of
          None \<Rightarrow> None
        | Some (_, w) \<Rightarrow>
            try_step (exchange_batch K ''create-table'' (build_create_table_batch tbl) w) (\<lambda>_ w.
              Some (Inr (), w\<lparr>mw_table_exists := True\<rparr>)))"

definition group_entry :: "u16 \<Rightarrow> 'k mss_world \<Rightarrow> mss_group" where
  "group_entry mss w =
     (case mw_groups w mss of
        Some g \<Rightarrow> g
      | None \<Rightarrow> \<lparr>mg_chain_name = chain_name_of mss, mg_set_name = set_name_of mss, mg_refcount = 0, mg_kernel_created = False\<rparr>)"

definition put_group :: "u16 \<Rightarrow> mss_group \<Rightarrow> 'k mss_world \<Rightarrow> 'k mss_world" where
  "put_group mss g w = w\<lparr>mw_groups := (mw_groups w)(mss \<mapsto> g)\<rparr>"

definition ensure_group :: "'k nf_kernel \<Rightarrow> bytes \<Rightarrow> u16 \<Rightarrow> 'k mss_world \<Rightarrow> ('k, unit) mss_result" where
  "ensure_group K tbl mss w =
     (let g = group_entry mss w; chain = mg_chain_name g; st = mg_set_name g; w = put_group mss g w in
      if mg_kernel_created g then Some (Inr (), w)
      else
        try_step (exchange_batch K ''create-set'' (build_create_set_batch tbl st (mw_next_set_id w))
                    (w\<lparr>mw_next_set_id := mw_next_set_id w + 1\<rparr>)) (\<lambda>_ w.
        try_step (exchange_batch K ''create-chain'' (build_create_chain_batch tbl chain) w) (\<lambda>_ w.
        try_step (exchange_batch K ''create-rule-iif'' (build_rule_batch tbl chain st True mss) w) (\<lambda>_ w.
        try_step (exchange_batch K ''create-rule-oif'' (build_rule_batch tbl chain st False mss) w) (\<lambda>_ w.
          Some (Inr (), put_group mss (g\<lparr>mg_kernel_created := True\<rparr>) w))))))"

text \<open>\<open>SharedMssTable::add\<close>; the guard it returns is the name and the segment size.\<close>

definition mss_add :: "'k nf_kernel \<Rightarrow> bytes \<Rightarrow> bytes \<Rightarrow> u16 \<Rightarrow> 'k mss_world \<Rightarrow> ('k, bytes \<times> u16) mss_result" where
  "mss_add K tbl ifname mss w =
     (if 0 \<in> set ifname then Some (Inl InvalidName, w)
      else
        try_step (nf_open K w) (\<lambda>_ w.
        try_step (ensure_table K tbl w) (\<lambda>_ w.
        try_step (ensure_group K tbl mss w) (\<lambda>_ w.
        let g = group_entry mss w in
        try_step (exchange_batch K ''add-set-elem'' (build_add_elem_batch tbl (mg_set_name g) ifname) w) (\<lambda>_ w.
          Some (Inr (ifname, mss), put_group mss (g\<lparr>mg_refcount := mg_refcount g + 1\<rparr>) w))))))"

text \<open>\<open>SharedMssTable::remove\<close>, called when a handle is dropped; errors are only logged.\<close>

definition mss_remove :: "'k nf_kernel \<Rightarrow> bytes \<Rightarrow> bytes \<Rightarrow> u16 \<Rightarrow> 'k mss_world \<Rightarrow> 'k mss_world option" where
  "mss_remove K tbl ifname mss w =
     (if 0 \<in> set ifname then Some w
      else do {
        (r, w) \<leftarrow> nf_open K w;
        (case r of
           Inl _ \<Rightarrow> Some w
         | Inr _ \<Rightarrow>
             (case mw_groups w mss of
                None \<Rightarrow> Some w
              | Some g \<Rightarrow> do {
                  (_, w) \<leftarrow> exchange_batch K ''del-set-elem'' (build_del_elem_batch tbl (mg_set_name g) ifname) w;
                  Some (put_group mss (g\<lparr>mg_refcount := (if mg_refcount g = 0 then 0 else mg_refcount g - 1)\<rparr>) w)
                }))
      })"

definition mss_destroy :: "'k nf_kernel \<Rightarrow> bytes \<Rightarrow> 'k mss_world \<Rightarrow> 'k mss_world option" where
  "mss_destroy K tbl w =
     (if \<not> mw_table_exists w then Some w
      else do {
        (r, w) \<leftarrow> nf_open K w;
        (case r of
           Inl _ \<Rightarrow> Some w
         | Inr _ \<Rightarrow> do {
             (_, w) \<leftarrow> exchange_batch K ''destroy-table'' (build_delete_table_batch tbl) w;
             Some (w\<lparr>mw_table_exists := False, mw_groups := Map.empty\<rparr>)
           })
      })"

end
