(* ===== verification/Mss_Clamp.thy ===== *)
theory Mss_Clamp
  imports Mss_Table
begin

text \<open>
  What the shared table promises: while a session holds a handle, the kernel has the clamp rules for
  its segment size and the name of its interface in the set they look up.  The batches are read back
  as nf_tables commands, and the documented behaviour of the kernel on a command is a hypothesis: it
  executes the transaction as a whole or not at all, and acknowledges it with one datagram.
\<close>

subsection \<open>Commands\<close>

datatype nft_cmd =
    NewTable bytes
  | DelTable bytes
  | NewSet bytes bytes u32 u32 u32
  | NewChain bytes bytes bytes u32 u32 u32
  | NewRule bytes bytes "nla list"
  | NewElem bytes bytes bytes
  | DelElem bytes bytes bytes

primrec nla_id :: "nla \<Rightarrow> u16" where
  "nla_id (Flat t v) = t"
| "nla_id (Nest t as) = t"

definition attr_val :: "u16 \<Rightarrow> nla list \<Rightarrow> bytes option" where
  "attr_val t as = (case filter (\<lambda>a. nla_id a = t) as of [Flat _ v] \<Rightarrow> Some v | _ \<Rightarrow> None)"

definition nest_val :: "u16 \<Rightarrow> nla list \<Rightarrow> nla list option" where
  "nest_val t as = (case filter (\<lambda>a. nla_id a = t) as of [Nest _ bs] \<Rightarrow> Some bs | _ \<Rightarrow> None)"

definition name_val :: "u16 \<Rightarrow> nla list \<Rightarrow> bytes option" where
  "name_val t as = Option.bind (attr_val t as) (\<lambda>v. if v \<noteq> [] \<and> last v = 0 then Some (butlast v) else None)"

definition be32_val :: "u16 \<Rightarrow> nla list \<Rightarrow> u32 option" where
  "be32_val t as = Option.bind (attr_val t as)
     (\<lambda>v. if length v = 4 then Some (from_be32 (v ! 0) (v ! 1) (v ! 2) (v ! 3)) else None)"

text \<open>The key in the list of elements, for a list of one.\<close>

definition elem_val :: "nla list \<Rightarrow> bytes option" where
  "elem_val as = do {
     elems \<leftarrow> nest_val NFTA_SET_ELEM_LIST_ELEMENTS as;
     elem \<leftarrow> nest_val NFTA_LIST_ELEM elems;
     key \<leftarrow> nest_val NFTA_SET_ELEM_KEY elem;
     attr_val NFTA_DATA_VALUE key
   }"

text \<open>
  A command for each message type.  The flags decide whether an existing object is an error: a
  request to create is read only with the flag for exclusive creation, a rule only with the one for
  appending.
\<close>

definition nft_cmd_of :: "nat \<Rightarrow> nat \<Rightarrow> nla list \<Rightarrow> nft_cmd option" where
  "nft_cmd_of op flags as =
     (if op = 0 \<and> flags = 0x605 then map_option NewTable (name_val NFTA_TABLE_NAME as)
      else if op = 2 \<and> flags = 5 then map_option DelTable (name_val NFTA_TABLE_NAME as)
      else if op = 9 \<and> flags = 0x605 then do {
        tbl \<leftarrow> name_val NFTA_SET_TABLE as; st \<leftarrow> name_val NFTA_SET_NAME as; fl \<leftarrow> be32_val NFTA_SET_FLAGS as;
        ty \<leftarrow> be32_val NFTA_SET_KEY_TYPE as; len \<leftarrow> be32_val NFTA_SET_KEY_LEN as;
        Some (NewSet tbl st fl ty len)
      }
      else if op = 3 \<and> flags = 0x605 then do {
        tbl \<leftarrow> name_val NFTA_CHAIN_TABLE as; chain \<leftarrow> name_val NFTA_CHAIN_NAME as; ty \<leftarrow> name_val NFTA_CHAIN_TYPE as;
        policy \<leftarrow> be32_val NFTA_CHAIN_POLICY as; hook \<leftarrow> nest_val NFTA_CHAIN_HOOK as;
        num \<leftarrow> be32_val NFTA_HOOK_HOOKNUM hook; prio \<leftarrow> be32_val NFTA_HOOK_PRIORITY hook;
        Some (NewChain tbl chain ty policy num prio)
      }
      else if op = 6 \<and> flags = 0xC05 then do {
        tbl \<leftarrow> name_val NFTA_RULE_TABLE as; chain \<leftarrow> name_val NFTA_RULE_CHAIN as;
        exprs \<leftarrow> nest_val NFTA_RULE_EXPRESSIONS as;
        Some (NewRule tbl chain exprs)
      }
      else if op = 12 \<and> flags = 0x405 then do {
        tbl \<leftarrow> name_val NFTA_SET_ELEM_LIST_TABLE as; st \<leftarrow> name_val NFTA_SET_ELEM_LIST_SET as; key \<leftarrow> elem_val as;
        Some (NewElem tbl st key)
      }
      else if op = 14 \<and> flags = 5 then do {
        tbl \<leftarrow> name_val NFTA_SET_ELEM_LIST_TABLE as; st \<leftarrow> name_val NFTA_SET_ELEM_LIST_SET as; key \<leftarrow> elem_val as;
        Some (DelElem tbl st key)
      }
      else None)"

text \<open>A transaction of one command, with the sequence number to acknowledge.\<close>

definition nft_batch :: "bytes \<Rightarrow> (nft_cmd \<times> u32) option" where
  "nft_batch bs = do {
     ms \<leftarrow> nlmsgs bs;
     (case ms of
        [b, m, e] \<Rightarrow>
          if nm_type b = NFNL_MSG_BATCH_BEGIN \<and> nm_type e = NFNL_MSG_BATCH_END
             \<and> take 4 (nm_body b) = [0, 0, 0, 10] \<and> take 4 (nm_body e) = [0, 0, 0, 10] \<and> take 4 (nm_body m) = [2, 0, 0, 0]
             \<and> unat (nm_type m) div 256 = 10
          then do {
            as \<leftarrow> nla_parse (drop 4 (nm_body m));
            cmd \<leftarrow> nft_cmd_of (unat (nm_type m) mod 256) (unat (nm_flags m)) as;
            Some (cmd, nm_seq m)
          }
          else None
      | _ \<Rightarrow> None)
   }"

subsection \<open>The trees of the transactions\<close>

definition cstr :: "bytes \<Rightarrow> bytes" where "cstr s = s @ [0]"

definition expr_tree :: "string \<Rightarrow> nla list \<Rightarrow> nla" where
  "expr_tree name as = Nest NFTA_LIST_ELEM [Flat NFTA_EXPR_NAME (cstr (ascii name)), Nest NFTA_EXPR_DATA as]"

text \<open>
  The rule for one direction, as the list of its expressions: the name of the interface is in the set,
  the protocol is TCP, of SYN and RST exactly SYN is set; then the maximum segment size is written.
\<close>

definition clamp_rule :: "bool \<Rightarrow> bytes \<Rightarrow> u16 \<Rightarrow> nla list" where
  "clamp_rule ingress st mss =
    [expr_tree ''meta'' [Flat NFTA_META_KEY (be32 (if ingress then NFT_META_IIFNAME else NFT_META_OIFNAME)),
       Flat NFTA_META_DREG (be32 NFT_REG_1)],
     expr_tree ''lookup'' [Flat NFTA_LOOKUP_SET (cstr st), Flat NFTA_LOOKUP_SREG (be32 NFT_REG_1)],
     expr_tree ''meta'' [Flat NFTA_META_KEY (be32 NFT_META_L4PROTO), Flat NFTA_META_DREG (be32 NFT_REG_1)],
     expr_tree ''cmp'' [Flat NFTA_CMP_SREG (be32 NFT_REG_1), Flat NFTA_CMP_OP (be32 NFT_CMP_EQ),
       Nest NFTA_CMP_DATA [Flat NFTA_DATA_VALUE [IPPROTO_TCP]]],
     expr_tree ''payload'' [Flat NFTA_PAYLOAD_DREG (be32 NFT_REG_1),
       Flat NFTA_PAYLOAD_BASE (be32 NFT_PAYLOAD_TRANSPORT_HEADER), Flat NFTA_PAYLOAD_OFFSET (be32 13),
       Flat NFTA_PAYLOAD_LEN (be32 1)],
     expr_tree ''bitwise'' [Flat NFTA_BITWISE_SREG (be32 NFT_REG_1), Flat NFTA_BITWISE_DREG (be32 NFT_REG_1),
       Flat NFTA_BITWISE_LEN (be32 1), Nest NFTA_BITWISE_MASK [Flat NFTA_DATA_VALUE [0x06]],
       Nest NFTA_BITWISE_XOR [Flat NFTA_DATA_VALUE [0x00]], Flat NFTA_BITWISE_OP (be32 NFT_BITWISE_BOOL)],
     expr_tree ''cmp'' [Flat NFTA_CMP_SREG (be32 NFT_REG_1), Flat NFTA_CMP_OP (be32 NFT_CMP_EQ),
       Nest NFTA_CMP_DATA [Flat NFTA_DATA_VALUE [0x02]]],
     expr_tree ''immediate'' [Flat NFTA_IMMEDIATE_DREG (be32 NFT_REG_1),
       Nest NFTA_IMMEDIATE_DATA [Flat NFTA_DATA_VALUE (be16 mss)]],
     expr_tree ''exthdr'' [Flat NFTA_EXTHDR_OP (be32 NFT_EXTHDR_OP_TCPOPT), Flat NFTA_EXTHDR_TYPE [2],
       Flat NFTA_EXTHDR_OFFSET (be32 2), Flat NFTA_EXTHDR_LEN (be32 2), Flat NFTA_EXTHDR_SREG (be32 NFT_REG_1)]]"

definition set_tree :: "bytes \<Rightarrow> bytes \<Rightarrow> u32 \<Rightarrow> nla list" where
  "set_tree tbl st set_id =
    [Flat NFTA_SET_TABLE (cstr tbl), Flat NFTA_SET_NAME (cstr st), Flat NFTA_SET_FLAGS (be32 0),
     Flat NFTA_SET_KEY_TYPE (be32 NFT_KEY_TYPE_IFNAME), Flat NFTA_SET_KEY_LEN (be32 16), Flat NFTA_SET_ID (be32 set_id),
     Flat NFTA_SET_USERDATA [0, 4, 1, 0, 0, 0]]"

definition chain_tree :: "bytes \<Rightarrow> bytes \<Rightarrow> nla list" where
  "chain_tree tbl chain =
    [Flat NFTA_CHAIN_TABLE (cstr tbl), Flat NFTA_CHAIN_NAME (cstr chain), Flat NFTA_CHAIN_TYPE (cstr (ascii ''filter'')),
     Flat NFTA_CHAIN_POLICY (be32 NF_ACCEPT),
     Nest NFTA_CHAIN_HOOK [Flat NFTA_HOOK_HOOKNUM (be32 NF_INET_FORWARD), Flat NFTA_HOOK_PRIORITY (be32 (- 150))]]"

definition elem_tree :: "bytes \<Rightarrow> bytes \<Rightarrow> bytes \<Rightarrow> nla list" where
  "elem_tree tbl st ifname =
    [Flat NFTA_SET_ELEM_LIST_TABLE (cstr tbl), Flat NFTA_SET_ELEM_LIST_SET (cstr st),
     Nest NFTA_SET_ELEM_LIST_ELEMENTS [Nest NFTA_LIST_ELEM [Nest NFTA_SET_ELEM_KEY [Flat NFTA_DATA_VALUE (elem_key ifname)]]]]"

lemmas tree_defs = set_tree_def chain_tree_def elem_tree_def clamp_rule_def expr_tree_def

subsection \<open>The builders write the trees\<close>

definition nf_batch :: "u16 \<Rightarrow> u16 \<Rightarrow> nla list \<Rightarrow> u32 \<Rightarrow> batch" where
  "nf_batch op flags as seq =
     \<lparr>bt_bytes =
        nlmsg_enc \<lparr>nm_type = NFNL_MSG_BATCH_BEGIN, nm_flags = NLM_F_REQUEST, nm_seq = seq, nm_body = [0, 0, 0, 10]\<rparr>
        @ nlmsg_enc \<lparr>nm_type = nft_msg_type op, nm_flags = flags, nm_seq = seq + 1, nm_body = [2, 0, 0, 0] @ nlas_enc as\<rparr>
        @ nlmsg_enc \<lparr>nm_type = NFNL_MSG_BATCH_END, nm_flags = NLM_F_REQUEST, nm_seq = seq + 2, nm_body = [0, 0, 0, 10]\<rparr>,
      bt_expected_acks = [seq + 1]\<rparr>"

lemma envelope:
  "push_envelope ty seq b =
     Some (b\<lparr>bt_bytes := bt_bytes b @ nlmsg_enc \<lparr>nm_type = ty, nm_flags = NLM_F_REQUEST, nm_seq = seq, nm_body = [0, 0, 0, 10]\<rparr>\<rparr>)"
  using message_tree [of "[0, 0, 0, 10]" "[]" ty NLM_F_REQUEST seq] by (simp add: push_envelope_def push_tree_def)

lemma build_tree:
  assumes "list_all nla_types as" and "sum_list (map nla_bound as) < 65536" and "flags AND NLM_F_ACK \<noteq> 0"
  shows "do {
      b \<leftarrow> batch_new seq;
      msg \<leftarrow> push_tree as (nf_msg op flags (seq + 1));
      b \<leftarrow> batch_push msg b;
      b \<leftarrow> batch_finalize (seq + 2) b;
      Some (b, seq + 3)
    } = Some (nf_batch op flags as seq, seq + 3)"
proof -
  let ?m = "message_new (nft_msg_type op) flags (seq + 1)"
  have "16 + length [2 :: u8, 0, 0, 0] + length (nlas_enc as) < 2 ^ 32"
    using assms(2) length_nlas_enc [of as] by simp
  from message_tree [OF _ nlas_ok_bound [OF assms(1,2)] this, of "nft_msg_type op" flags "seq + 1"]
  obtain m where "push_tree as (nf_msg op flags (seq + 1)) = Some m" and "finalize m = Some (?m\<lparr>mb_bytes := nlmsg_enc
      \<lparr>nm_type = nft_msg_type op, nm_flags = flags, nm_seq = seq + 1, nm_body = [2, 0, 0, 0] @ nlas_enc as\<rparr>\<rparr>)"
    by (auto simp: nf_msg_def bind_eq_Some_conv)
  with assms(3) show ?thesis
    by (simp add: batch_new_def batch_finalize_def envelope batch_push_def nf_batch_def message_new_def)
qed

lemmas push_defs = run_calls_fun push_tree_def push_attr_cstr_def push_attr_be32_def push_attr_u8_def expr_begin_def expr_end_def cstr_def

lemma encode_trees:
  "encode_meta_load key dreg m = push_tree [expr_tree ''meta'' [Flat NFTA_META_KEY (be32 key), Flat NFTA_META_DREG (be32 dreg)]] m"
  "encode_lookup sreg st m = push_tree [expr_tree ''lookup'' [Flat NFTA_LOOKUP_SET (cstr st), Flat NFTA_LOOKUP_SREG (be32 sreg)]] m"
  "encode_cmp sreg data op m = push_tree [expr_tree ''cmp'' [Flat NFTA_CMP_SREG (be32 sreg), Flat NFTA_CMP_OP (be32 op),
     Nest NFTA_CMP_DATA [Flat NFTA_DATA_VALUE data]]] m"
  "encode_payload_load dreg base offset len m = push_tree [expr_tree ''payload'' [Flat NFTA_PAYLOAD_DREG (be32 dreg),
     Flat NFTA_PAYLOAD_BASE (be32 base), Flat NFTA_PAYLOAD_OFFSET (be32 offset), Flat NFTA_PAYLOAD_LEN (be32 len)]] m"
  "encode_bitwise sreg dreg [x] [y] m = push_tree [expr_tree ''bitwise'' [Flat NFTA_BITWISE_SREG (be32 sreg),
     Flat NFTA_BITWISE_DREG (be32 dreg), Flat NFTA_BITWISE_LEN (be32 1), Nest NFTA_BITWISE_MASK [Flat NFTA_DATA_VALUE [x]],
     Nest NFTA_BITWISE_XOR [Flat NFTA_DATA_VALUE [y]], Flat NFTA_BITWISE_OP (be32 NFT_BITWISE_BOOL)]] m"
  "encode_immediate dreg data m = push_tree [expr_tree ''immediate'' [Flat NFTA_IMMEDIATE_DREG (be32 dreg),
     Nest NFTA_IMMEDIATE_DATA [Flat NFTA_DATA_VALUE data]]] m"
  "encode_exthdr_set sreg opt offset len m = push_tree [expr_tree ''exthdr'' [Flat NFTA_EXTHDR_OP (be32 NFT_EXTHDR_OP_TCPOPT),
     Flat NFTA_EXTHDR_TYPE [opt], Flat NFTA_EXTHDR_OFFSET (be32 offset), Flat NFTA_EXTHDR_LEN (be32 len),
     Flat NFTA_EXTHDR_SREG (be32 sreg)]] m"
  by (simp_all add: encode_meta_load_def encode_lookup_def encode_cmp_def encode_payload_load_def encode_bitwise_def
      encode_immediate_def encode_exthdr_set_def expr_tree_def push_defs)

text \<open>The names are short, so no length field overflows.\<close>

lemmas build_trees = push_tree_Cons push_tree_Flat push_tree_Nest push_tree_Nil push_attr_cstr_def push_attr_be32_def cstr_def

lemma build_create_table:
  assumes "length tbl \<le> 64"
  shows "build_create_table_batch tbl seq = Some (nf_batch NFT_MSG_NEWTABLE 0x605 [Flat NFTA_TABLE_NAME (cstr tbl)] seq, seq + 3)"
  using build_tree [of "[Flat NFTA_TABLE_NAME (cstr tbl)]" "0x605" seq NFT_MSG_NEWTABLE] assms
  by (simp add: build_create_table_batch_def build_trees)

lemma build_delete_table:
  assumes "length tbl \<le> 64"
  shows "build_delete_table_batch tbl seq = Some (nf_batch NFT_MSG_DELTABLE 5 [Flat NFTA_TABLE_NAME (cstr tbl)] seq, seq + 3)"
  using build_tree [of "[Flat NFTA_TABLE_NAME (cstr tbl)]" "5" seq NFT_MSG_DELTABLE] assms
  by (simp add: build_delete_table_batch_def build_trees)

lemma build_create_set:
  assumes "length tbl \<le> 64" and "length st \<le> 64"
  shows "build_create_set_batch tbl st set_id seq = Some (nf_batch NFT_MSG_NEWSET 0x605 (set_tree tbl st set_id) seq, seq + 3)"
  using build_tree [of "set_tree tbl st set_id" "0x605" seq NFT_MSG_NEWSET] assms
  by (simp add: build_create_set_batch_def set_tree_def build_trees)

lemma build_create_chain:
  assumes "length tbl \<le> 64" and "length chain \<le> 64"
  shows "build_create_chain_batch tbl chain seq = Some (nf_batch NFT_MSG_NEWCHAIN 0x605 (chain_tree tbl chain) seq, seq + 3)"
  using build_tree [of "chain_tree tbl chain" "0x605" seq NFT_MSG_NEWCHAIN] assms
  by (simp add: build_create_chain_batch_def chain_tree_def build_trees ascii_def)

lemma length_elem_key [simp]: "length (elem_key ifname) = 16"
  by (cases "length ifname < 16") (auto simp: elem_key_def write_at_def min_def)

lemma build_elem:
  assumes "length tbl \<le> 64" and "length st \<le> 64"
  shows "build_add_elem_batch tbl st ifname seq = Some (nf_batch NFT_MSG_NEWSETELEM 0x405 (elem_tree tbl st ifname) seq, seq + 3)"
    "build_del_elem_batch tbl st ifname seq = Some (nf_batch NFT_MSG_DELSETELEM 5 (elem_tree tbl st ifname) seq, seq + 3)"
  using build_tree [of "elem_tree tbl st ifname" "0x405" seq NFT_MSG_NEWSETELEM]
    build_tree [of "elem_tree tbl st ifname" "5" seq NFT_MSG_DELSETELEM] assms
  by (simp_all add: build_add_elem_batch_def build_del_elem_batch_def encode_set_elem_msg_def elem_tree_def build_trees)

lemma build_rule:
  assumes "length tbl \<le> 64" and "length chain \<le> 64" and "length st \<le> 64"
  shows "build_rule_batch tbl chain st ingress mss seq =
    Some (nf_batch NFT_MSG_NEWRULE 0xC05 [Flat NFTA_RULE_TABLE (cstr tbl), Flat NFTA_RULE_CHAIN (cstr chain),
      Nest NFTA_RULE_EXPRESSIONS (clamp_rule ingress st mss)] seq, seq + 3)"
proof -
  let ?t = "[Flat NFTA_RULE_TABLE (cstr tbl), Flat NFTA_RULE_CHAIN (cstr chain), Nest NFTA_RULE_EXPRESSIONS (clamp_rule ingress st mss)]"
  have "list_all nla_types ?t" "sum_list (map nla_bound ?t) < 65536"
    using assms by (simp_all add: clamp_rule_def expr_tree_def cstr_def ascii_def)
  from build_tree [OF this, of "0xC05" seq NFT_MSG_NEWRULE] show ?thesis
    by (simp add: build_rule_batch_def clamp_rule_def build_trees encode_trees)
qed

subsection \<open>Reading the transactions\<close>

lemma nft_msg_type_ops:
  "op \<in> {0, 2, 3, 6, 9, 12, 14} \<Longrightarrow> unat (nft_msg_type op) = 2560 + unat op"
  by (auto simp: nft_msg_type_def)

lemma nft_batch_nf_batch:
  assumes "op \<in> {0, 2, 3, 6, 9, 12, 14}" and "list_all nla_types as" and "sum_list (map nla_bound as) < 65536"
  shows "nft_batch (bt_bytes (nf_batch op flags as seq)) =
    map_option (\<lambda>cmd. (cmd, seq + 1)) (nft_cmd_of (unat op) (unat flags) as)"
proof -
  have "4 dvd length ([2 :: u8, 0, 0, 0] @ nlas_enc as)" "16 + length ([2 :: u8, 0, 0, 0] @ nlas_enc as) < 2 ^ 32"
    using assms(3) length_nlas_enc [of as] nlas_enc_aligned [of as] by simp_all
  then have ms: "nlmsgs (bt_bytes (nf_batch op flags as seq)) = Some
      [\<lparr>nm_type = NFNL_MSG_BATCH_BEGIN, nm_flags = NLM_F_REQUEST, nm_seq = seq, nm_body = [0, 0, 0, 10]\<rparr>,
       \<lparr>nm_type = nft_msg_type op, nm_flags = flags, nm_seq = seq + 1, nm_body = [2, 0, 0, 0] @ nlas_enc as\<rparr>,
       \<lparr>nm_type = NFNL_MSG_BATCH_END, nm_flags = NLM_F_REQUEST, nm_seq = seq + 2, nm_body = [0, 0, 0, 10]\<rparr>]"
    using nlmsgs_enc [of "\<lparr>nm_type = NFNL_MSG_BATCH_END, nm_flags = NLM_F_REQUEST, nm_seq = seq + 2, nm_body = [0, 0, 0, 10]\<rparr>" "[]"]
    by (simp add: nf_batch_def nlmsgs_enc nlmsgs.simps [of "[]"])
  have "unat op < 256" using assms(1) by auto
  then have "(2560 + unat op) div 256 = 10" "(2560 + unat op) mod 256 = unat op"
    using div_mult_self3 [of 256 10 "unat op"] mod_mult_self3 [of 10 256 "unat op"] by simp_all
  then show ?thesis
    using nla_parse_enc [OF nlas_ok_bound [OF assms(2,3)]] nft_msg_type_ops [OF assms(1)]
    by (cases "nft_cmd_of (unat op) (unat flags) as") (simp_all add: nft_batch_def ms)
qed

lemma last_cstr: "cstr s \<noteq> []" "last (cstr s) = 0" "butlast (cstr s) = s" "length (cstr s) = Suc (length s)"
  by (simp_all add: cstr_def)

lemma from_be32_value: "from_be32 (be32 w ! 0) (be32 w ! Suc 0) (be32 w ! 2) (be32 w ! 3) = w"
proof -
  obtain a b c d where "be32 w = [a, b, c, d]" by (auto simp: be32_def)
  with from_be32_be32 [OF this] show ?thesis by (simp add: numeral_3_eq_3 numeral_2_eq_2)
qed

lemmas val_defs = attr_val_def nest_val_def name_val_def be32_val_def elem_val_def last_cstr from_be32_value

text \<open>What each builder asks the kernel for.\<close>

definition requests :: "builder \<Rightarrow> nft_cmd \<Rightarrow> bool" where
  "requests bld cmd \<longleftrightarrow>
     (\<forall>seq. \<exists>b. bld seq = Some (b, seq + 3) \<and> nft_batch (bt_bytes b) = Some (cmd, seq + 1) \<and> bt_expected_acks b = [seq + 1])"

lemma requestsI:
  assumes "\<And>seq. bld seq = Some (nf_batch op flags as seq, seq + 3)" and "op \<in> {0, 2, 3, 6, 9, 12, 14}"
    and "list_all nla_types as" and "sum_list (map nla_bound as) < 65536"
    and "nft_cmd_of (unat op) (unat flags) as = Some cmd"
  shows "requests bld cmd"
  using assms(1,5) nft_batch_nf_batch [OF assms(2-4)] by (simp add: requests_def nf_batch_def)

lemma requests_builders:
  assumes "length tbl \<le> 64" and "length chain \<le> 64" and "length st \<le> 64"
  shows "requests (build_create_table_batch tbl) (NewTable tbl)"
    "requests (build_delete_table_batch tbl) (DelTable tbl)"
    "requests (build_create_set_batch tbl st set_id) (NewSet tbl st 0 NFT_KEY_TYPE_IFNAME 16)"
    "requests (build_create_chain_batch tbl chain) (NewChain tbl chain (ascii ''filter'') NF_ACCEPT NF_INET_FORWARD (- 150))"
    "requests (build_rule_batch tbl chain st ingress mss) (NewRule tbl chain (clamp_rule ingress st mss))"
    "requests (build_add_elem_batch tbl st ifname) (NewElem tbl st (elem_key ifname))"
    "requests (build_del_elem_batch tbl st ifname) (DelElem tbl st (elem_key ifname))"
  using assms
  apply -
  subgoal by (rule requestsI [OF build_create_table]) (simp_all add: nft_cmd_of_def val_defs)
  subgoal by (rule requestsI [OF build_delete_table]) (simp_all add: nft_cmd_of_def val_defs)
  subgoal by (rule requestsI [OF build_create_set]) (simp_all add: nft_cmd_of_def set_tree_def val_defs)
  subgoal by (rule requestsI [OF build_create_chain]) (simp_all add: nft_cmd_of_def chain_tree_def val_defs ascii_def)
  subgoal by (rule requestsI [OF build_rule]) (simp_all add: nft_cmd_of_def clamp_rule_def expr_tree_def val_defs ascii_def)
  subgoal by (rule requestsI [OF build_elem(1)]) (simp_all add: nft_cmd_of_def elem_tree_def val_defs)
  subgoal by (rule requestsI [OF build_elem(2)]) (simp_all add: nft_cmd_of_def elem_tree_def val_defs)
  done

subsection \<open>The kernel\<close>

record nft_chain =
  nc_type :: bytes
  nc_policy :: u32
  nc_hook :: u32
  nc_priority :: u32
  nc_rules :: "nla list list"

record nft_table =
  nt_sets :: "bytes \<rightharpoonup> bytes set"
  nt_chains :: "bytes \<rightharpoonup> nft_chain"

type_synonym ruleset = "bytes \<rightharpoonup> nft_table"

definition with_table :: "bytes \<Rightarrow> ruleset \<Rightarrow> (nft_table \<Rightarrow> nft_table option) \<Rightarrow> ruleset option" where
  "with_table tbl v f = Option.bind (v tbl) (\<lambda>t. map_option (\<lambda>t. v(tbl \<mapsto> t)) (f t))"

text \<open>The effect of a command, or \<open>None\<close> if it has to be refused.\<close>

fun nft_apply :: "nft_cmd \<Rightarrow> ruleset \<Rightarrow> ruleset option" where
  "nft_apply (NewTable tbl) v =
     (if v tbl = None then Some (v(tbl \<mapsto> \<lparr>nt_sets = Map.empty, nt_chains = Map.empty\<rparr>)) else None)"
| "nft_apply (DelTable tbl) v = (if v tbl = None then None else Some (v(tbl := None)))"
| "nft_apply (NewSet tbl st fl ty len) v = with_table tbl v (\<lambda>t.
     if nt_sets t st = None then Some (t\<lparr>nt_sets := (nt_sets t)(st \<mapsto> {})\<rparr>) else None)"
| "nft_apply (NewChain tbl chain ty policy hook prio) v = with_table tbl v (\<lambda>t.
     if nt_chains t chain = None
     then Some (t\<lparr>nt_chains := (nt_chains t)(chain \<mapsto>
       \<lparr>nc_type = ty, nc_policy = policy, nc_hook = hook, nc_priority = prio, nc_rules = []\<rparr>)\<rparr>) else None)"
| "nft_apply (NewRule tbl chain rule) v = with_table tbl v (\<lambda>t.
     map_option (\<lambda>c. t\<lparr>nt_chains := (nt_chains t)(chain \<mapsto> c\<lparr>nc_rules := nc_rules c @ [rule]\<rparr>)\<rparr>) (nt_chains t chain))"
| "nft_apply (NewElem tbl st key) v = with_table tbl v (\<lambda>t.
     map_option (\<lambda>s. t\<lparr>nt_sets := (nt_sets t)(st \<mapsto> insert key s)\<rparr>) (nt_sets t st))"
| "nft_apply (DelElem tbl st key) v = with_table tbl v (\<lambda>t.
     Option.bind (nt_sets t st) (\<lambda>s. if key \<in> s then Some (t\<lparr>nt_sets := (nt_sets t)(st \<mapsto> s - {key})\<rparr>) else None))"

text \<open>
  What is assumed of the kernel, with \<open>view\<close> the ruleset in its state.  A transaction it acknowledges
  with zero took effect; one it refuses, for whatever reason, left the rules as they were.  If the
  acknowledgement is lost the server cannot tell which of the two happened.
\<close>

definition transacted :: "nft_cmd \<Rightarrow> u32 \<Rightarrow> ruleset \<Rightarrow> io_error + datagram list \<Rightarrow> ruleset \<Rightarrow> bool" where
  "transacted cmd seq v res v' \<longleftrightarrow>
     (case res of
        Inl e \<Rightarrow> v' = v
      | Inr replies \<Rightarrow>
          (\<exists>err d. replies = [Inr d] \<and> ack_datagram seq err d \<and> (if err = 0 then nft_apply cmd v = Some v' else v' = v))
          \<or> (\<exists>e. replies = [Inl e] \<and> (v' = v \<or> nft_apply cmd v = Some v')))"

definition nft_contract :: "'k nf_kernel \<Rightarrow> ('k \<Rightarrow> ruleset) \<Rightarrow> bool" where
  "nft_contract K view \<longleftrightarrow>
     (\<forall>k. view (snd (nk_open K k)) = view k)
     \<and> (\<forall>bs cmd seq k. nft_batch bs = Some (cmd, seq) \<longrightarrow>
          transacted cmd seq (view k) (fst (nk_send K bs k)) (view (snd (nk_send K bs k))))"

text \<open>What an exchange does to the ruleset, by its result.\<close>

definition exchanged :: "nft_cmd \<Rightarrow> shared_mss_error + unit \<Rightarrow> ruleset \<Rightarrow> ruleset \<Rightarrow> bool" where
  "exchanged cmd r v v' \<longleftrightarrow>
     nft_apply cmd v = Some v' \<or> (\<not> is_ok r \<and> v' = v)"

lemma ack_loop_lost: "ack_loop op [Inl e] {seq} = Some (Inl (MssNetlink op e), [])"
  by (subst ack_loop.simps) simp

lemma ack_loop_done: "ack_loop op queue {} = Some (Inr (), queue)"
  by (subst ack_loop.simps) simp

lemma ack_loop_one:
  assumes "ack_datagram seq err d"
  shows "ack_loop op [Inr d] {seq} = Some (if err = 0 then Inr () else Inl (MssKernel op (- err)), [])"
proof -
  have "take 8192 d = d" using assms by (auto simp: ack_datagram_def)
  then show ?thesis
    using drain_acks_one [OF assms, of "{seq}"] by (subst ack_loop.simps) (simp add: ack_loop_done)
qed

lemma exchange:
  assumes "nft_contract K view" and "requests bld cmd" and "mw_queue w = []"
  shows "\<exists>r k. exchange_batch K op bld w = Some (r, w\<lparr>mw_next_seq := mw_next_seq w + 3, mw_kernel := k\<rparr>)
    \<and> exchanged cmd r (view (mw_kernel w)) (view k)"
proof -
  let ?seq = "mw_next_seq w"
  from assms(2) obtain b where b: "bld ?seq = Some (b, ?seq + 3)" "nft_batch (bt_bytes b) = Some (cmd, ?seq + 1)"
    "bt_expected_acks b = [?seq + 1]" unfolding requests_def by blast
  obtain res k where s: "nk_send K (bt_bytes b) (mw_kernel w) = (res, k)" by fastforce
  have c: "transacted cmd (?seq + 1) (view (mw_kernel w)) res (view k)"
    using assms(1) b(2) s unfolding nft_contract_def by (metis fst_conv snd_conv)
  have w: "w\<lparr>mw_next_seq := s, mw_kernel := k, mw_queue := []\<rparr> = w\<lparr>mw_next_seq := s, mw_kernel := k\<rparr>" for s
    using assms(3) by (cases w) simp
  show ?thesis
  proof (cases res)
    case (Inl e)
    with c s b show ?thesis by (auto simp: exchange_batch_def exchanged_def transacted_def)
  next
    case (Inr replies)
    with c consider (ack) err d where "replies = [Inr d]" "ack_datagram (?seq + 1) err d"
        "if err = 0 then nft_apply cmd (view (mw_kernel w)) = Some (view k) else view k = view (mw_kernel w)"
      | (lost) e where "replies = [Inl e]" "view k = view (mw_kernel w) \<or> nft_apply cmd (view (mw_kernel w)) = Some (view k)"
      by (auto simp: transacted_def)
    then show ?thesis
    proof cases
      case ack
      with s b Inr assms(3) have "exchange_batch K op bld w =
          Some (if err = 0 then Inr () else Inl (MssKernel op (- err)), w\<lparr>mw_next_seq := ?seq + 3, mw_kernel := k, mw_queue := []\<rparr>)"
        by (simp add: exchange_batch_def ack_loop_one)
      with ack(3) show ?thesis unfolding w by (auto simp: exchanged_def split: if_splits)
    next
      case lost
      with s b Inr assms(3) have "exchange_batch K op bld w =
          Some (Inl (MssNetlink op e), w\<lparr>mw_next_seq := ?seq + 3, mw_kernel := k, mw_queue := []\<rparr>)"
        by (simp add: exchange_batch_def ack_loop_lost)
      with lost(2) show ?thesis unfolding w by (auto simp: exchanged_def)
    qed
  qed
qed

subsection \<open>The invariant\<close>

definition created :: "(u16 \<rightharpoonup> mss_group) \<Rightarrow> u16 \<Rightarrow> bool" where
  "created gs m \<longleftrightarrow> (\<exists>g. gs m = Some g \<and> mg_kernel_created g)"

definition base_chain :: "nla list list \<Rightarrow> nft_chain" where
  "base_chain rules = \<lparr>nc_type = ascii ''filter'', nc_policy = NF_ACCEPT, nc_hook = NF_INET_FORWARD, nc_priority = - 150,
     nc_rules = rules\<rparr>"

text \<open>The group of a segment size in the kernel, with the elements of its set.\<close>

definition group_ready :: "nft_table \<Rightarrow> u16 \<Rightarrow> bytes set \<Rightarrow> bool" where
  "group_ready t m elems \<longleftrightarrow>
     nt_chains t (chain_name_of m) = Some (base_chain [clamp_rule True (set_name_of m) m, clamp_rule False (set_name_of m) m])
     \<and> nt_sets t (set_name_of m) = Some elems"

definition table_inv :: "nft_table \<Rightarrow> (u16 \<rightharpoonup> mss_group) \<Rightarrow> (bytes \<times> u16) list \<Rightarrow> bool" where
  "table_inv t gs hs \<longleftrightarrow>
     (\<forall>m. created gs m \<longrightarrow> (\<exists>elems. group_ready t m elems \<and> (\<forall>i. (i, m) \<in> set hs \<longrightarrow> elem_key i \<in> elems)))
     \<and> (\<forall>(i, m) \<in> set hs. created gs m)"

definition groups_named :: "(u16 \<rightharpoonup> mss_group) \<Rightarrow> bool" where
  "groups_named gs \<longleftrightarrow> (\<forall>m g. gs m = Some g \<longrightarrow> mg_chain_name g = chain_name_of m \<and> mg_set_name g = set_name_of m)"

definition world_inv :: "('k \<Rightarrow> ruleset) \<Rightarrow> bytes \<Rightarrow> (bytes \<times> u16) list \<Rightarrow> 'k mss_world \<Rightarrow> bool" where
  "world_inv view tbl hs w \<longleftrightarrow>
     mw_queue w = [] \<and> groups_named (mw_groups w)
     \<and> (if mw_table_exists w then \<exists>t. view (mw_kernel w) tbl = Some t \<and> table_inv t (mw_groups w) hs
        else mw_groups w = Map.empty \<and> hs = [])"

text \<open>A step returns, keeps \<open>P\<close> in any case, and establishes \<open>Q\<close> if it succeeds.\<close>

definition yields :: "('k, 'a) mss_result \<Rightarrow> ('k mss_world \<Rightarrow> bool) \<Rightarrow> ('a \<Rightarrow> 'k mss_world \<Rightarrow> bool) \<Rightarrow> bool" where
  "yields r P Q \<longleftrightarrow> (\<exists>x w. r = Some (x, w) \<and> P w \<and> (\<forall>y. x = Inr y \<longrightarrow> Q y w))"

lemma yields_try:
  assumes "yields r P Q" and "\<And>x w. P w \<Longrightarrow> Q x w \<Longrightarrow> yields (f x w) P R"
  shows "yields (try_step r f) P R"
  using assms by (fastforce simp: yields_def try_step_def split: sum.split)

lemma yields_Some: "P w \<Longrightarrow> (\<And>y. x = Inr y \<Longrightarrow> Q y w) \<Longrightarrow> yields (Some (x, w)) P Q"
  by (simp add: yields_def)

lemma yields_mono: "yields r P Q \<Longrightarrow> (\<And>x w. P w \<Longrightarrow> Q x w \<Longrightarrow> R x w) \<Longrightarrow> yields r P R"
  by (auto simp: yields_def)

subsection \<open>Names\<close>

lemma show_nat_inj: "show_nat m = show_nat n \<Longrightarrow> m = n"
  by (metis digits_value_show_nat)

lemma word_digits_inj:
  assumes "list_all is_digit s" and "list_all is_digit t" and "map (word_of_nat :: nat \<Rightarrow> u8) s = map word_of_nat t"
  shows "s = t"
  using assms
proof (induction s arbitrary: t)
  case (Cons c s)
  then obtain d t' where t: "t = d # t'" by (cases t) auto
  have "c < 256" "d < 256" using Cons.prems t by (auto simp: is_digit_def)
  moreover have "(word_of_nat c :: u8) = word_of_nat d" using Cons.prems(3) t by simp
  ultimately have "c = d" using unat_of_nat_u8 by metis
  with Cons t show ?case by simp
qed simp

lemma names_inj:
  "chain_name_of m = chain_name_of n \<longleftrightarrow> m = n" "set_name_of m = set_name_of n \<longleftrightarrow> m = n"
  using word_digits_inj [OF show_nat_digits [of "unat m"] show_nat_digits [of "unat n"]] show_nat_inj [of "unat m" "unat n"]
  by (auto simp: chain_name_of_def set_name_of_def word_unat_eq_iff)

lemma length_names: "length (chain_name_of m) \<le> 64" "length (set_name_of m) \<le> 64"
  using show_nat_width [of "unat m" 4] unat_u16_less [of m]
  by (simp_all add: chain_name_of_def set_name_of_def ascii_def)

lemma length_table_name: "pid < 2 ^ 32 \<Longrightarrow> length (table_name pid) \<le> 64"
  using show_nat_width [of pid 9] by (simp add: table_name_def ascii_def)

subsection \<open>The stages of the operations\<close>

lemma exchange_table:
  assumes "nft_contract K view" and "requests bld cmd" and "\<And>v. nft_apply cmd v = with_table tbl v f"
    and "world_inv view tbl hs w" and "mw_table_exists w" and "view (mw_kernel w) tbl = Some t"
    and "\<And>t'. f t = Some t' \<Longrightarrow> table_inv t' (mw_groups w) hs"
  shows "yields (exchange_batch K op bld w) (world_inv view tbl hs)
    (\<lambda>_ w'. mw_table_exists w' \<and> mw_groups w' = mw_groups w \<and> (\<exists>t'. view (mw_kernel w') tbl = Some t' \<and> f t = Some t'))"
proof -
  from assms(4) have "mw_queue w = []" by (simp add: world_inv_def)
  from exchange [OF assms(1,2) this, of op] obtain r k where
    e: "exchange_batch K op bld w = Some (r, w\<lparr>mw_next_seq := mw_next_seq w + 3, mw_kernel := k\<rparr>)"
    "exchanged cmd r (view (mw_kernel w)) (view k)" by blast
  then consider (eff) t' where "f t = Some t'" "view k tbl = Some t'" | (same) "\<not> is_ok r" "view k = view (mw_kernel w)"
    using assms(6) by (auto simp: exchanged_def assms(3) with_table_def bind_eq_Some_conv) (metis fun_upd_same)
  then show ?thesis
  proof cases
    case eff
    with e(1) assms(4,5,7) show ?thesis by (auto simp: yields_def world_inv_def)
  next
    case same
    with e(1) assms(4,5,6) show ?thesis by (auto simp: yields_def world_inv_def)
  qed
qed

lemma try_step_simps [simp]:
  "try_step (Some (Inl e, w)) f = Some (Inl e, w)" "try_step (Some (Inr x, w)) f = f x w"
  by (simp_all add: try_step_def)

lemma ensure_table_yields:
  assumes "nft_contract K view" and "length tbl \<le> 64" and "world_inv view tbl hs w"
  shows "yields (ensure_table K tbl w) (world_inv view tbl hs) (\<lambda>_ w'. mw_table_exists w' \<and> (mw_table_exists w \<longrightarrow> w' = w))"
proof (cases "mw_table_exists w")
  case True
  with assms(3) show ?thesis by (simp add: ensure_table_def yields_def)
next
  case False
  note req = requests_builders(1,2) [OF assms(2), of "[]" "[]", simplified]
  have i: "mw_queue w = []" "mw_groups w = Map.empty" "hs = []" using False assms(3) by (simp_all add: world_inv_def)
  from exchange [OF assms(1) req(2) i(1), of "''flush-stale-table''"] obtain r k where
    e: "exchange_batch K ''flush-stale-table'' (build_delete_table_batch tbl) w = Some (r, w\<lparr>mw_next_seq := mw_next_seq w + 3, mw_kernel := k\<rparr>)"
    by blast
  let ?w = "w\<lparr>mw_next_seq := mw_next_seq w + 3, mw_kernel := k\<rparr>"
  have "mw_queue ?w = []" using i by simp
  from exchange [OF assms(1) req(1) this, of "''create-table''"] obtain r' k' where
    e': "exchange_batch K ''create-table'' (build_create_table_batch tbl) ?w = Some (r', ?w\<lparr>mw_next_seq := mw_next_seq ?w + 3, mw_kernel := k'\<rparr>)"
    "exchanged (NewTable tbl) r' (view k) (view k')" by auto
  show ?thesis
  proof (cases r')
    case (Inl e)
    with False e e'(1) assms(3) show ?thesis by (simp add: ensure_table_def yields_def world_inv_def groups_named_def)
  next
    case (Inr u)
    with e'(2) have "view k' tbl = Some \<lparr>nt_sets = Map.empty, nt_chains = Map.empty\<rparr>"
      by (auto simp: exchanged_def split: if_splits) (metis fun_upd_same)
    with Inr False e e'(1) i show ?thesis
      by (simp add: ensure_table_def yields_def world_inv_def groups_named_def table_inv_def created_def)
  qed
qed

lemma table_inv_group:
  assumes "table_inv t gs hs" and "\<not> created gs m"
    and "\<And>n. n \<noteq> m \<Longrightarrow> nt_chains t' (chain_name_of n) = nt_chains t (chain_name_of n)"
    and "\<And>n. n \<noteq> m \<Longrightarrow> nt_sets t' (set_name_of n) = nt_sets t (set_name_of n)"
  shows "table_inv t' gs hs"
proof -
  have "n \<noteq> m" if "created gs n" for n using that assms(2) by auto
  with assms(1,3,4) show ?thesis by (simp add: table_inv_def group_ready_def)
qed

lemma put_group_sel [simp]:
  "mw_groups (put_group m g w) = (mw_groups w)(m \<mapsto> g)" "mw_table_exists (put_group m g w) = mw_table_exists w"
  "mw_kernel (put_group m g w) = mw_kernel w" "mw_queue (put_group m g w) = mw_queue w"
  by (simp_all add: put_group_def)

lemma group_entry_named: "groups_named (mw_groups w) \<Longrightarrow> mg_chain_name (group_entry m w) = chain_name_of m \<and> mg_set_name (group_entry m w) = set_name_of m"
  by (simp add: group_entry_def groups_named_def split: option.split)

lemma created_entry: "mg_kernel_created (group_entry m w) \<longleftrightarrow> created (mw_groups w) m"
  by (simp add: group_entry_def created_def split: option.split)

lemma created_upd: "created (gs(m \<mapsto> g)) n \<longleftrightarrow> (if n = m then mg_kernel_created g else created gs n)"
  by (simp add: created_def)

lemma table_inv_cong: "(\<And>n. created gs n = created gs' n) \<Longrightarrow> table_inv t gs hs = table_inv t gs' hs"
  by (simp add: table_inv_def)

text \<open>Rewriting an entry without changing whether it exists in the kernel.\<close>

lemma world_inv_put:
  assumes "world_inv view tbl hs w" and "mw_table_exists w" and "mg_kernel_created g \<longleftrightarrow> created (mw_groups w) m"
    and "mg_chain_name g = chain_name_of m" and "mg_set_name g = set_name_of m"
  shows "world_inv view tbl hs (put_group m g w)"
proof -
  have "table_inv t ((mw_groups w)(m \<mapsto> g)) hs = table_inv t (mw_groups w) hs" for t
    by (rule table_inv_cong) (simp add: created_upd assms(3))
  with assms(1,2,4,5) show ?thesis by (auto simp: world_inv_def groups_named_def)
qed

text \<open>The group of \<open>m\<close> comes into being: the set, the chain, and its two rules.\<close>

definition building :: "('k \<Rightarrow> ruleset) \<Rightarrow> bytes \<Rightarrow> u16 \<Rightarrow> nla list list option \<Rightarrow> 'k mss_world \<Rightarrow> bool" where
  "building view tbl m rules w \<longleftrightarrow>
     mw_table_exists w \<and> \<not> created (mw_groups w) m
     \<and> (\<exists>t elems. view (mw_kernel w) tbl = Some t \<and> nt_sets t (set_name_of m) = Some elems
          \<and> (case rules of None \<Rightarrow> True | Some rs \<Rightarrow> nt_chains t (chain_name_of m) = Some (base_chain rs)))"

lemma create_set_yields:
  assumes "nft_contract K view" and "length tbl \<le> 64" and "world_inv view tbl hs w" and "mw_table_exists w"
    and "\<not> created (mw_groups w) m"
  shows "yields (exchange_batch K op (build_create_set_batch tbl (set_name_of m) set_id) w) (world_inv view tbl hs)
    (\<lambda>_ w'. building view tbl m None w' \<and> mw_groups w' = mw_groups w)"
proof -
  from assms(3,4) obtain t where t: "view (mw_kernel w) tbl = Some t" "table_inv t (mw_groups w) hs"
    by (auto simp: world_inv_def)
  let ?f = "\<lambda>t. if nt_sets t (set_name_of m) = None then Some (t\<lparr>nt_sets := (nt_sets t)(set_name_of m \<mapsto> {})\<rparr>) else None"
  have "table_inv t' (mw_groups w) hs" if "?f t = Some t'" for t'
    using that by (intro table_inv_group [OF t(2) assms(5)]) (auto simp: names_inj split: if_splits)
  from exchange_table [OF assms(1) requests_builders(3) [OF assms(2) length_names] nft_apply.simps(3) assms(3,4) t(1) this]
  show ?thesis by (rule yields_mono) (use assms(5) in \<open>auto simp: building_def split: if_splits\<close>)
qed

lemma create_chain_yields:
  assumes "nft_contract K view" and "length tbl \<le> 64" and "world_inv view tbl hs w" and "building view tbl m None w"
  shows "yields (exchange_batch K op (build_create_chain_batch tbl (chain_name_of m)) w) (world_inv view tbl hs)
    (\<lambda>_ w'. building view tbl m (Some []) w' \<and> mw_groups w' = mw_groups w)"
proof -
  from assms(3,4) obtain t elems where t: "view (mw_kernel w) tbl = Some t" "table_inv t (mw_groups w) hs"
      "nt_sets t (set_name_of m) = Some elems" and nc: "\<not> created (mw_groups w) m" "mw_table_exists w"
    by (auto simp: world_inv_def building_def)
  let ?f = "\<lambda>t. if nt_chains t (chain_name_of m) = None
    then Some (t\<lparr>nt_chains := (nt_chains t)(chain_name_of m \<mapsto> base_chain [])\<rparr>) else None"
  have "table_inv t' (mw_groups w) hs" if "?f t = Some t'" for t'
    using that by (intro table_inv_group [OF t(2) nc(1)]) (auto simp: names_inj split: if_splits)
  from exchange_table [OF assms(1) requests_builders(4) [OF assms(2) length_names] nft_apply.simps(4)
      assms(3) nc(2) t(1) this]
  show ?thesis by (rule yields_mono) (use t(3) nc in \<open>auto simp: building_def base_chain_def split: if_splits\<close>)
qed

lemma create_rule_yields:
  assumes "nft_contract K view" and "length tbl \<le> 64" and "world_inv view tbl hs w" and "building view tbl m (Some rs) w"
  shows "yields (exchange_batch K op (build_rule_batch tbl (chain_name_of m) (set_name_of m) dir m) w) (world_inv view tbl hs)
    (\<lambda>_ w'. building view tbl m (Some (rs @ [clamp_rule dir (set_name_of m) m])) w' \<and> mw_groups w' = mw_groups w)"
proof -
  from assms(3,4) obtain t elems where t: "view (mw_kernel w) tbl = Some t" "table_inv t (mw_groups w) hs"
      "nt_sets t (set_name_of m) = Some elems" "nt_chains t (chain_name_of m) = Some (base_chain rs)"
      and nc: "\<not> created (mw_groups w) m" "mw_table_exists w"
    by (auto simp: world_inv_def building_def)
  let ?f = "\<lambda>t. map_option (\<lambda>c. t\<lparr>nt_chains := (nt_chains t)(chain_name_of m \<mapsto>
    c\<lparr>nc_rules := nc_rules c @ [clamp_rule dir (set_name_of m) m]\<rparr>)\<rparr>) (nt_chains t (chain_name_of m))"
  have "table_inv t' (mw_groups w) hs" if "?f t = Some t'" for t'
    using that by (intro table_inv_group [OF t(2) nc(1)]) (auto simp: names_inj)
  from exchange_table [OF assms(1) requests_builders(5) [OF assms(2) length_names] nft_apply.simps(5) assms(3) nc(2) t(1) this]
  show ?thesis by (rule yields_mono) (use t(3,4) nc in \<open>auto simp: building_def base_chain_def\<close>)
qed

lemma building_created:
  assumes "world_inv view tbl hs w" and "building view tbl m (Some [clamp_rule True (set_name_of m) m, clamp_rule False (set_name_of m) m]) w"
    and "mg_kernel_created g" and "mg_chain_name g = chain_name_of m" and "mg_set_name g = set_name_of m"
  shows "world_inv view tbl hs (put_group m g w)"
proof -
  from assms(1,2) obtain t elems where t: "view (mw_kernel w) tbl = Some t" "table_inv t (mw_groups w) hs"
      "group_ready t m elems" and nc: "\<not> created (mw_groups w) m" "mw_table_exists w"
    by (auto simp: world_inv_def building_def group_ready_def)
  have "(i, m) \<notin> set hs" for i using t(2) nc(1) by (auto simp: table_inv_def)
  with t nc assms(3) have "table_inv t ((mw_groups w)(m \<mapsto> g)) hs"
    by (auto simp: table_inv_def created_upd)
  with assms(1,4,5) t(1) nc(2) show ?thesis by (auto simp: world_inv_def groups_named_def)
qed

lemma world_inv_named: "world_inv view tbl hs w \<Longrightarrow> groups_named (mw_groups w)"
  by (simp add: world_inv_def)

lemma building_groups:
  "building view tbl m rules w \<Longrightarrow> mw_groups w' = mw_groups w \<Longrightarrow> mw_table_exists w' = mw_table_exists w
    \<Longrightarrow> mw_kernel w' = mw_kernel w \<Longrightarrow> building view tbl m rules w'"
  by (simp add: building_def)

lemma ensure_group_yields:
  assumes "nft_contract K view" and "length tbl \<le> 64" and "world_inv view tbl hs w" and "mw_table_exists w"
  shows "yields (ensure_group K tbl m w) (world_inv view tbl hs) (\<lambda>_ w'. mw_table_exists w' \<and> created (mw_groups w') m)"
proof -
  let ?g = "group_entry m w" and ?w = "put_group m (group_entry m w) w"
  have n: "mg_chain_name ?g = chain_name_of m" "mg_set_name ?g = set_name_of m"
    using group_entry_named [OF world_inv_named [OF assms(3)]] by auto
  have inv: "world_inv view tbl hs ?w" by (rule world_inv_put [OF assms(3,4) created_entry n])
  show ?thesis
  proof (cases "mg_kernel_created ?g")
    case True
    with inv assms(4) show ?thesis by (simp add: ensure_group_def yields_def created_upd)
  next
    case False
    let ?w1 = "?w\<lparr>mw_next_set_id := mw_next_set_id ?w + 1\<rparr>"
    have w1: "world_inv view tbl hs ?w1" "mw_table_exists ?w1" "\<not> created (mw_groups ?w1) m"
      using inv assms(4) False by (simp_all add: world_inv_def created_upd)
    show ?thesis unfolding ensure_group_def Let_def n if_not_P [OF False]
      apply (rule yields_try [OF create_set_yields [OF assms(1,2) w1]])
      apply (erule conjE)
      apply (rule yields_try [OF create_chain_yields [OF assms(1,2)]], assumption, assumption)
      apply (erule conjE)
      apply (rule yields_try [OF create_rule_yields [OF assms(1,2)]], assumption, assumption)
      apply (erule conjE)
      apply (rule yields_try [OF create_rule_yields [OF assms(1,2)]], assumption, assumption)
      apply (rule yields_Some)
       apply (rule building_created)
           apply (simp_all add: n created_upd building_def)
      done
  qed
qed

lemma table_inv_keeps: "table_inv t gs hs \<Longrightarrow> set hs' \<subseteq> set hs \<Longrightarrow> table_inv t gs hs'"
  unfolding table_inv_def by blast

text \<open>The name of an interface goes into the set of its group, or comes out of it.\<close>

lemma add_elem_yields:
  assumes "nft_contract K view" and "length tbl \<le> 64" and "world_inv view tbl hs w" and "mw_table_exists w"
    and "created (mw_groups w) m"
  shows "yields (exchange_batch K op (build_add_elem_batch tbl (set_name_of m) i) w) (world_inv view tbl hs)
    (\<lambda>_ w'. world_inv view tbl ((i, m) # hs) w' \<and> mw_table_exists w' \<and> mw_groups w' = mw_groups w)"
proof -
  from assms(3,4) obtain t where t: "view (mw_kernel w) tbl = Some t" "table_inv t (mw_groups w) hs"
    by (auto simp: world_inv_def)
  from t(2) assms(5) obtain elems where e: "group_ready t m elems" "\<forall>j. (j, m) \<in> set hs \<longrightarrow> elem_key j \<in> elems"
    unfolding table_inv_def by blast
  let ?f = "\<lambda>t. map_option (\<lambda>s. t\<lparr>nt_sets := (nt_sets t)(set_name_of m \<mapsto> insert (elem_key i) s)\<rparr>) (nt_sets t (set_name_of m))"
  let ?t = "t\<lparr>nt_sets := (nt_sets t)(set_name_of m \<mapsto> insert (elem_key i) elems)\<rparr>"
  have f: "?f t = Some ?t" using e(1) by (simp add: group_ready_def)
  have "\<exists>es. group_ready ?t n es \<and> (\<forall>j. (j, n) \<in> set ((i, m) # hs) \<longrightarrow> elem_key j \<in> es)" if "created (mw_groups w) n" for n
    using that t(2) e by (cases "n = m") (auto simp: table_inv_def group_ready_def names_inj)
  then have inv: "table_inv ?t (mw_groups w) ((i, m) # hs)" using t(2) assms(5) by (auto simp: table_inv_def)
  have "table_inv t' (mw_groups w) hs" if "?f t = Some t'" for t'
    using that f table_inv_keeps [OF inv, of hs] by auto
  from exchange_table [OF assms(1) requests_builders(6) [OF assms(2) length_names] nft_apply.simps(6) assms(3,4) t(1) this]
  show ?thesis by (rule yields_mono) (use f inv in \<open>auto simp: world_inv_def\<close>)
qed

lemma del_elem_yields:
  assumes "nft_contract K view" and "length tbl \<le> 64" and "world_inv view tbl hs w" and "mw_table_exists w"
    and "\<And>j. (j, m) \<in> set hs' \<Longrightarrow> elem_key j \<noteq> elem_key i" and "set hs' \<subseteq> set hs"
  shows "yields (exchange_batch K op (build_del_elem_batch tbl (set_name_of m) i) w) (world_inv view tbl hs') (\<lambda>_ _. True)"
proof -
  from assms(3,4) obtain t where t: "view (mw_kernel w) tbl = Some t" "table_inv t (mw_groups w) hs"
    by (auto simp: world_inv_def)
  then have t': "table_inv t (mw_groups w) hs'" using assms(6) by (blast intro: table_inv_keeps)
  then have w: "world_inv view tbl hs' w" using assms(3,4) t(1) by (auto simp: world_inv_def)
  let ?f = "\<lambda>t. Option.bind (nt_sets t (set_name_of m)) (\<lambda>s. if elem_key i \<in> s
    then Some (t\<lparr>nt_sets := (nt_sets t)(set_name_of m \<mapsto> s - {elem_key i})\<rparr>) else None)"
  have "table_inv u (mw_groups w) hs'" if "?f t = Some u" for u
  proof -
    from that obtain s where u: "nt_sets t (set_name_of m) = Some s" "u = t\<lparr>nt_sets := (nt_sets t)(set_name_of m \<mapsto> s - {elem_key i})\<rparr>"
      by (auto simp: bind_eq_Some_conv split: if_splits)
    have "\<exists>es. group_ready u n es \<and> (\<forall>j. (j, n) \<in> set hs' \<longrightarrow> elem_key j \<in> es)" if "created (mw_groups w) n" for n
      using that t' assms(5) u by (cases "n = m") (auto simp: table_inv_def group_ready_def names_inj)
    then show ?thesis using t' by (auto simp: table_inv_def)
  qed
  from exchange_table [OF assms(1) requests_builders(7) [OF assms(2) length_names] nft_apply.simps(7) w assms(4) t(1) this]
  show ?thesis by (rule yields_mono) (assumption | rule TrueI)+
qed

subsection \<open>The operations\<close>

lemma nf_open_yields:
  assumes "nft_contract K view" and "world_inv view tbl hs w"
  shows "\<exists>r w'. nf_open K w = Some (r, w') \<and> world_inv view tbl hs w' \<and> mw_table_exists w' = mw_table_exists w
    \<and> mw_groups w' = mw_groups w"
proof -
  obtain r k where o: "nk_open K (mw_kernel w) = (r, k)" by fastforce
  with assms(1) have v: "view k = view (mw_kernel w)" unfolding nft_contract_def by (metis snd_conv)
  then have inv: "world_inv view tbl hs (w\<lparr>mw_kernel := k\<rparr>)" "world_inv view tbl hs (w\<lparr>mw_kernel := k, mw_queue := []\<rparr>)"
    using assms(2) by (simp_all add: world_inv_def)
  show ?thesis
  proof (cases r)
    case (Inl e)
    with o have "nf_open K w = Some (Inl (MssNetlink ''socket'' e), w\<lparr>mw_kernel := k\<rparr>)" by (simp add: nf_open_def)
    with inv show ?thesis by auto
  next
    case (Inr u)
    with o have "nf_open K w = Some (Inr (), w\<lparr>mw_kernel := k, mw_queue := []\<rparr>)" by (simp add: nf_open_def)
    with inv show ?thesis by auto
  qed
qed

lemma world_inv_keeps: "world_inv view tbl hs w \<Longrightarrow> set hs' \<subseteq> set hs \<Longrightarrow> world_inv view tbl hs' w"
  using table_inv_keeps by (fastforce simp: world_inv_def)

lemma mss_add_yields:
  assumes "nft_contract K view" and "length tbl \<le> 64" and "world_inv view tbl hs w"
  shows "yields (mss_add K tbl i m w) (world_inv view tbl hs) (\<lambda>h w'. h = (i, m) \<and> world_inv view tbl ((i, m) # hs) w')"
proof (cases "0 \<in> set i")
  case True
  with assms(3) show ?thesis by (simp add: mss_add_def yields_def)
next
  case False
  from nf_open_yields [OF assms(1,3)] have op: "yields (nf_open K w) (world_inv view tbl hs) (\<lambda>_ _. True)"
    by (auto simp: yields_def)
  have fin: "yields (let g = group_entry m w in
      try_step (exchange_batch K ''add-set-elem'' (build_add_elem_batch tbl (mg_set_name g) i) w)
        (\<lambda>_ w. Some (Inr (i, m), put_group m (g\<lparr>mg_refcount := mg_refcount g + 1\<rparr>) w)))
      (world_inv view tbl hs) (\<lambda>h w'. h = (i, m) \<and> world_inv view tbl ((i, m) # hs) w')"
    if w: "world_inv view tbl hs w" "mw_table_exists w" "created (mw_groups w) m" for w :: "'a mss_world"
  proof -
    let ?g = "group_entry m w"
    let ?h = "?g\<lparr>mg_refcount := mg_refcount ?g + 1\<rparr>"
    have n: "mg_chain_name ?g = chain_name_of m" "mg_set_name ?g = set_name_of m"
      using group_entry_named [OF world_inv_named [OF w(1)]] by auto
    have "world_inv view tbl hs' (put_group m ?h w')" if "world_inv view tbl hs' w'" "mw_table_exists w'" "mw_groups w' = mw_groups w"
      for hs' and w' :: "'a mss_world"
      using that n w(3) by (intro world_inv_put) (simp_all add: created_entry)
    then show ?thesis unfolding Let_def n
      by (intro yields_try [OF add_elem_yields [OF assms(1,2) w]]) (auto simp: yields_def)
  qed
  show ?thesis unfolding mss_add_def if_not_P [OF False]
    apply (rule yields_try [OF op])
    apply (rule yields_try [OF ensure_table_yields [OF assms(1,2)]], assumption)
    apply (erule conjE)
    apply (rule yields_try [OF ensure_group_yields [OF assms(1,2)]], assumption, assumption)
    apply (erule conjE)
    apply (rule fin, assumption+)
    done
qed

lemma mss_remove_inv:
  assumes "nft_contract K view" and "length tbl \<le> 64" and "world_inv view tbl hs w"
    and "\<And>j. (j, m) \<in> set hs' \<Longrightarrow> elem_key j \<noteq> elem_key i" and "set hs' \<subseteq> set hs"
  shows "returns (mss_remove K tbl i m w) (world_inv view tbl hs')"
proof (cases "0 \<in> set i")
  case True
  with world_inv_keeps [OF assms(3,5)] show ?thesis by (simp add: mss_remove_def)
next
  case False
  from nf_open_yields [OF assms(1,3)] obtain r w1 where o: "nf_open K w = Some (r, w1)" "world_inv view tbl hs w1"
    by blast
  note keep = world_inv_keeps [OF o(2) assms(5)]
  show ?thesis
  proof (cases "is_ok r \<and> mw_groups w1 m \<noteq> None")
    case True
    then obtain g where g: "mw_groups w1 m = Some g" by auto
    then have ex: "mw_table_exists w1" and n: "mg_chain_name g = chain_name_of m" "mg_set_name g = set_name_of m"
      using o(2) by (auto simp: world_inv_def groups_named_def split: if_splits)
    from del_elem_yields [where op = "''del-set-elem''" and m = m, OF assms(1,2) o(2) ex assms(4,5)] obtain x w2 where
      e: "exchange_batch K ''del-set-elem'' (build_del_elem_batch tbl (set_name_of m) i) w1 = Some (x, w2)" "world_inv view tbl hs' w2"
      by (auto simp: yields_def)
    have s: "mw_groups w2 = mw_groups w1" "mw_table_exists w2 = mw_table_exists w1"
      using exchange [where w = w1 and op = "''del-set-elem''", OF assms(1) requests_builders(7) [OF assms(2) length_names(1) length_names(2) [of m], where ifname = i]]
        e(1) o(2) by (auto simp: world_inv_def)
    let ?g = "g\<lparr>mg_refcount := (if mg_refcount g = 0 then 0 else mg_refcount g - 1)\<rparr>"
    have "world_inv view tbl hs' (put_group m ?g w2)"
      using e(2) s ex g n by (intro world_inv_put) (simp_all add: created_def)
    with True False o(1) g e(1) n show ?thesis by (auto simp: mss_remove_def split: sum.splits)
  next
    case no: False
    with False o(1) keep show ?thesis by (auto simp: mss_remove_def split: sum.splits option.splits)
  qed
qed

lemma mss_destroy_inv:
  assumes "nft_contract K view" and "length tbl \<le> 64" and "world_inv view tbl hs w"
  shows "returns (mss_destroy K tbl w) (\<lambda>w'. world_inv view tbl (if mw_table_exists w' then hs else []) w')"
proof (cases "mw_table_exists w")
  case True
  from nf_open_yields [OF assms(1,3)] obtain r w1 where
    o: "nf_open K w = Some (r, w1)" "world_inv view tbl hs w1" "mw_table_exists w1" using True by auto
  then have q: "mw_queue w1 = []" by (simp add: world_inv_def)
  from exchange [OF assms(1) requests_builders(2) [OF assms(2) length_names] q, where op = "''destroy-table''"] obtain x k where
    "exchange_batch K ''destroy-table'' (build_delete_table_batch tbl) w1 = Some (x, w1\<lparr>mw_next_seq := mw_next_seq w1 + 3, mw_kernel := k\<rparr>)"
    by blast
  with True o q show ?thesis by (cases r) (auto simp: mss_destroy_def world_inv_def groups_named_def)
next
  case False
  with assms(3) show ?thesis by (auto simp: mss_destroy_def world_inv_def)
qed

subsection \<open>Reachable states\<close>

text \<open>
  The handles that sessions hold, with the state of the manager.  Names of network interfaces are
  unique, so a name that is added is not in use for the same size.  A handle that outlived the table
  may still be dropped.
\<close>

inductive mss_reach :: "'k nf_kernel \<Rightarrow> bytes \<Rightarrow> 'k mss_world \<Rightarrow> (bytes \<times> u16) list \<Rightarrow> bool" for K tbl where
  start: "mss_reach K tbl (mss_new k) []"
| add: "mss_reach K tbl w hs \<Longrightarrow> (\<And>j. (j, m) \<in> set hs \<Longrightarrow> elem_key j \<noteq> elem_key i) \<Longrightarrow>
    mss_add K tbl i m w = Some (Inr h, w') \<Longrightarrow> mss_reach K tbl w' (h # hs)"
| fail: "mss_reach K tbl w hs \<Longrightarrow> mss_add K tbl i m w = Some (Inl e, w') \<Longrightarrow> mss_reach K tbl w' hs"
| drop: "mss_reach K tbl w hs \<Longrightarrow> (i, m) \<in> set hs \<Longrightarrow> mss_remove K tbl i m w = Some w' \<Longrightarrow>
    mss_reach K tbl w' (removeAll (i, m) hs)"
| stale: "mss_reach K tbl w hs \<Longrightarrow> (\<And>j. (j, m) \<in> set hs \<Longrightarrow> elem_key j \<noteq> elem_key i) \<Longrightarrow>
    mss_remove K tbl i m w = Some w' \<Longrightarrow> mss_reach K tbl w' hs"
| destroy: "mss_reach K tbl w hs \<Longrightarrow> mss_destroy K tbl w = Some w' \<Longrightarrow>
    mss_reach K tbl w' (if mw_table_exists w' then hs else [])"

definition keys_unique :: "(bytes \<times> u16) list \<Rightarrow> bool" where
  "keys_unique hs \<longleftrightarrow> (\<forall>i j m. (i, m) \<in> set hs \<longrightarrow> (j, m) \<in> set hs \<longrightarrow> elem_key i = elem_key j \<longrightarrow> i = j)"

lemma mss_reach_inv:
  assumes "mss_reach K tbl w hs" and "nft_contract K view" and "length tbl \<le> 64"
  shows "world_inv view tbl hs w \<and> keys_unique hs"
  using assms(1)
proof (induction rule: mss_reach.induct)
  case (start k)
  show ?case by (simp add: mss_new_def world_inv_def groups_named_def keys_unique_def)
next
  case (add w hs m i h w')
  have "world_inv view tbl hs w" using add.IH by blast
  from mss_add_yields [OF assms(2,3) this, of i m] add.hyps(3) have "h = (i, m)" "world_inv view tbl (h # hs) w'"
    by (cases h; simp add: yields_def)+
  with add.IH add.hyps(2) show ?case by (fastforce simp: keys_unique_def)
next
  case (fail w hs i m e w')
  have "world_inv view tbl hs w" using fail.IH by blast
  from mss_add_yields [OF assms(2,3) this, of i m] fail show ?case by (auto simp: yields_def)
next
  case (drop w hs i m w')
  have inv: "world_inv view tbl hs w" and ku: "keys_unique hs" using drop.IH by auto
  let ?hs = "removeAll (i, m) hs"
  have "elem_key j \<noteq> elem_key i" if "(j, m) \<in> set ?hs" for j
    using that ku drop.hyps(2) by (auto simp: keys_unique_def)
  from mss_remove_inv [where m = m and hs' = ?hs, OF assms(2,3) inv this] drop.hyps(3) ku show ?case
    by (auto simp: returns_def keys_unique_def)
next
  case (stale w hs m i w')
  have inv: "world_inv view tbl hs w" using stale.IH by blast
  from mss_remove_inv [where m = m, OF assms(2,3) inv stale.hyps(2) subset_refl] stale show ?case by (auto simp: returns_def)
next
  case (destroy w hs w')
  have inv: "world_inv view tbl hs w" using destroy.IH by blast
  from mss_destroy_inv [OF assms(2,3) inv] destroy show ?case by (auto simp: returns_def keys_unique_def)
qed

subsection \<open>A group that cannot be completed\<close>

fun op_of :: "shared_mss_error \<Rightarrow> string" where
  "op_of InvalidName = []"
| "op_of (MssNetlink op e) = op"
| "op_of (MssKernel op e) = op"

text \<open>If the step returns, an error satisfies \<open>E\<close> and a success \<open>Q\<close>.\<close>

definition outcome :: "('k, 'a) mss_result \<Rightarrow> (shared_mss_error \<Rightarrow> 'k mss_world \<Rightarrow> bool) \<Rightarrow> ('a \<Rightarrow> 'k mss_world \<Rightarrow> bool) \<Rightarrow> bool" where
  "outcome r E Q \<longleftrightarrow> (\<forall>e w. r = Some (Inl e, w) \<longrightarrow> E e w) \<and> (\<forall>x w. r = Some (Inr x, w) \<longrightarrow> Q x w)"

lemma outcome_try:
  assumes "outcome r E Q" and "\<And>x w. Q x w \<Longrightarrow> outcome (f x w) E R"
  shows "outcome (try_step r f) E R"
  using assms by (auto simp: outcome_def try_step_def split: option.splits sum.splits)

lemma outcome_mono:
  "outcome r E Q \<Longrightarrow> (\<And>e w. E e w \<Longrightarrow> E' e w) \<Longrightarrow> (\<And>x w. Q x w \<Longrightarrow> Q' x w) \<Longrightarrow> outcome r E' Q'"
  by (simp add: outcome_def)

lemma yields_outcome:
  "yields r P Q \<Longrightarrow> (\<And>e w. r = Some (Inl e, w) \<Longrightarrow> E e w) \<Longrightarrow> (\<And>x w. P w \<Longrightarrow> Q x w \<Longrightarrow> R x w) \<Longrightarrow> outcome r E R"
  by (auto simp: outcome_def yields_def)

lemma ack_loop_op: "ack_loop op queue rem = Some (Inl e, q) \<Longrightarrow> op_of e = op"
proof (induction op queue rem rule: ack_loop.induct)
  case (1 op queue rem)
  from 1(2) show ?case
    by (subst (asm) ack_loop.simps) (auto split: if_splits list.splits sum.splits drain_error.splits intro: 1(1))
qed

lemma exchange_op: "exchange_batch K op bld w = Some (Inl e, w') \<Longrightarrow> op_of e = op"
proof -
  assume a: "exchange_batch K op bld w = Some (Inl e, w')"
  then obtain b seq where b: "bld (mw_next_seq w) = Some (b, seq)" by (auto simp: exchange_batch_def bind_eq_Some_conv)
  obtain x k where "nk_send K (bt_bytes b) (mw_kernel w) = (x, k)" by fastforce
  with a b show "op_of e = op"
    by (cases x) (auto simp: exchange_batch_def bind_eq_Some_conv dest: ack_loop_op)
qed

lemma exchange_building:
  assumes "nft_contract K view" and "requests bld cmd" and "\<And>v. nft_apply cmd v = with_table tbl v f"
    and "\<And>t t'. f t = Some t' \<Longrightarrow> nt_sets t' = nt_sets t" and "building view tbl m None w" and "mw_queue w = []"
  shows "outcome (exchange_batch K op bld w) (\<lambda>e w'. op_of e = op \<and> building view tbl m None w')
    (\<lambda>_ w'. mw_queue w' = [] \<and> building view tbl m None w')"
proof -
  from exchange [OF assms(1,2,6), of op] obtain r k where
    e: "exchange_batch K op bld w = Some (r, w\<lparr>mw_next_seq := mw_next_seq w + 3, mw_kernel := k\<rparr>)"
    "exchanged cmd r (view (mw_kernel w)) (view k)" by blast
  from assms(5) obtain t elems where t: "view (mw_kernel w) tbl = Some t" "nt_sets t (set_name_of m) = Some elems"
    and nc: "mw_table_exists w" "\<not> created (mw_groups w) m" by (auto simp: building_def)
  have "\<exists>t'. view k tbl = Some t' \<and> nt_sets t' = nt_sets t"
    using e(2) t(1) assms(4)
    by (auto simp: exchanged_def assms(3) with_table_def bind_eq_Some_conv) (metis fun_upd_same)+
  with t(2) nc have "building view tbl m None (w\<lparr>mw_next_seq := mw_next_seq w + 3, mw_kernel := k\<rparr>)"
    by (auto simp: building_def)
  with e(1) exchange_op [of K op bld w] assms(6) show ?thesis by (auto simp: outcome_def)
qed

text \<open>The steps after the creation of the set; an error in one of them leaves the set behind.\<close>

definition late_ops :: "string set" where
  "late_ops = {''create-chain'', ''create-rule-iif'', ''create-rule-oif''}"

lemma building_steps:
  assumes "nft_contract K view" and "length tbl \<le> 64" and "building view tbl m None w" and "mw_queue w = []"
  shows "outcome (exchange_batch K op (build_create_chain_batch tbl (chain_name_of m)) w)
      (\<lambda>e w'. op_of e = op \<and> building view tbl m None w') (\<lambda>_ w'. mw_queue w' = [] \<and> building view tbl m None w')"
    "outcome (exchange_batch K op (build_rule_batch tbl (chain_name_of m) (set_name_of m) dir m) w)
      (\<lambda>e w'. op_of e = op \<and> building view tbl m None w') (\<lambda>_ w'. mw_queue w' = [] \<and> building view tbl m None w')"
   apply (rule exchange_building [OF assms(1) requests_builders(4) [OF assms(2) length_names] nft_apply.simps(4) _ assms(3,4)])
   apply (auto split: if_splits)[1]
  apply (rule exchange_building [OF assms(1) requests_builders(5) [OF assms(2) length_names] nft_apply.simps(5) _ assms(3,4)])
  apply auto
  done

abbreviation (input) late_error :: "('k \<Rightarrow> ruleset) \<Rightarrow> bytes \<Rightarrow> u16 \<Rightarrow> shared_mss_error \<Rightarrow> 'k mss_world \<Rightarrow> bool" where
  "late_error view tbl m e w \<equiv> (op_of e \<in> late_ops \<longrightarrow> building view tbl m None w)"

lemma ensure_table_op: "ensure_table K tbl w = Some (Inl e, w') \<Longrightarrow> op_of e = ''create-table''"
  by (auto simp: ensure_table_def try_step_def split: if_splits option.splits sum.splits) (rule exchange_op)

lemma ensure_group_late:
  assumes "nft_contract K view" and "length tbl \<le> 64" and "world_inv view tbl hs w" and "mw_table_exists w"
  shows "outcome (ensure_group K tbl m w) (late_error view tbl m) (\<lambda>_ _. True)"
proof -
  let ?g = "group_entry m w" and ?w = "put_group m (group_entry m w) w"
  have n: "mg_chain_name ?g = chain_name_of m" "mg_set_name ?g = set_name_of m"
    using group_entry_named [OF world_inv_named [OF assms(3)]] by auto
  have inv: "world_inv view tbl hs ?w" by (rule world_inv_put [OF assms(3,4) created_entry n])
  show ?thesis
  proof (cases "mg_kernel_created ?g")
    case True
    then show ?thesis by (simp add: ensure_group_def outcome_def)
  next
    case False
    let ?w1 = "?w\<lparr>mw_next_set_id := mw_next_set_id ?w + 1\<rparr>"
    have w1: "world_inv view tbl hs ?w1" "mw_table_exists ?w1" "\<not> created (mw_groups ?w1) m"
      using inv assms(4) False by (simp_all add: world_inv_def created_upd)
    have set: "outcome (exchange_batch K ''create-set'' (build_create_set_batch tbl (set_name_of m) (mw_next_set_id ?w)) ?w1)
        (late_error view tbl m) (\<lambda>_ w'. mw_queue w' = [] \<and> building view tbl m None w')"
      by (rule yields_outcome [OF create_set_yields [OF assms(1,2) w1]]) (auto simp: late_ops_def world_inv_def dest: exchange_op)
    have chain: "outcome (exchange_batch K op (build_create_chain_batch tbl (chain_name_of m)) w)
        (late_error view tbl m) (\<lambda>_ w'. mw_queue w' = [] \<and> building view tbl m None w')"
      if "mw_queue w = [] \<and> building view tbl m None w" for op and w :: "'a mss_world"
      by (rule outcome_mono [OF building_steps(1) [OF assms(1,2)]]) (use that in auto)
    have rule: "outcome (exchange_batch K op (build_rule_batch tbl (chain_name_of m) (set_name_of m) dir m) w)
        (late_error view tbl m) (\<lambda>_ w'. mw_queue w' = [] \<and> building view tbl m None w')"
      if "mw_queue w = [] \<and> building view tbl m None w" for op dir and w :: "'a mss_world"
      by (rule outcome_mono [OF building_steps(2) [OF assms(1,2)]]) (use that in auto)
    show ?thesis unfolding ensure_group_def Let_def n if_not_P [OF False]
      by (rule outcome_try [OF set] outcome_try [OF chain] outcome_try [OF rule] | assumption | simp add: outcome_def)+
  qed
qed

lemma mss_add_late:
  assumes "nft_contract K view" and "length tbl \<le> 64" and "world_inv view tbl hs w"
    and "mss_add K tbl i m w = Some (Inl e, w')" and "op_of e \<in> late_ops"
  shows "building view tbl m None w'"
proof -
  have i: "0 \<notin> set i" using assms(4,5) by (auto simp: mss_add_def late_ops_def split: if_splits)
  have op: "outcome (nf_open K w) (late_error view tbl m) (\<lambda>_ w'. world_inv view tbl hs w')"
    using nf_open_yields [OF assms(1,3)]
    by (auto simp: outcome_def late_ops_def nf_open_def split: prod.splits sum.splits)
  have table: "outcome (ensure_table K tbl w) (late_error view tbl m) (\<lambda>_ w'. world_inv view tbl hs w' \<and> mw_table_exists w')"
    if "world_inv view tbl hs w" for w :: "'a mss_world"
    by (rule yields_outcome [OF ensure_table_yields [OF assms(1,2) that]]) (auto simp: late_ops_def dest: ensure_table_op)
  have group: "outcome (ensure_group K tbl m w) (late_error view tbl m) (\<lambda>_ _. True)"
    if "world_inv view tbl hs w \<and> mw_table_exists w" for w :: "'a mss_world"
    using ensure_group_late [OF assms(1,2)] that by blast
  have elem: "outcome (exchange_batch K ''add-set-elem'' bld w) (late_error view tbl m) (\<lambda>_ _. True)"
    for bld and w :: "'a mss_world"
    by (auto simp: outcome_def late_ops_def dest: exchange_op)
  have "outcome (mss_add K tbl i m w) (late_error view tbl m) (\<lambda>_ _. True)"
    unfolding mss_add_def if_not_P [OF i] Let_def
    by (rule outcome_try [OF op] outcome_try [OF table] outcome_try [OF group] outcome_try [OF elem]
        | assumption | simp add: outcome_def)+
  with assms(4,5) show ?thesis by (auto simp: outcome_def)
qed

lemma stuck_add:
  assumes "nft_contract K view" and "length tbl \<le> 64" and "world_inv view tbl hs w" and "building view tbl m None w"
  shows "\<exists>e w'. mss_add K tbl i m w = Some (Inl e, w') \<and> world_inv view tbl hs w' \<and> building view tbl m None w'"
proof (cases "0 \<in> set i")
  case True
  with assms show ?thesis by (simp add: mss_add_def)
next
  case False
  obtain r k where o: "nk_open K (mw_kernel w) = (r, k)" by fastforce
  with assms(1) have v: "view k = view (mw_kernel w)" unfolding nft_contract_def by (metis snd_conv)
  from nf_open_yields [OF assms(1,3)] obtain r w1 where
    o: "nf_open K w = Some (r, w1)" "world_inv view tbl hs w1" "mw_table_exists w1 = mw_table_exists w" "mw_groups w1 = mw_groups w"
    by blast
  have "view (mw_kernel w1) = view (mw_kernel w)"
    using assms(1) o(1) unfolding nft_contract_def nf_open_def by (auto split: prod.splits sum.splits dest: spec [of _ "mw_kernel w"])
  with assms(4) o(3,4) have b1: "building view tbl m None w1" by (simp add: building_def)
  show ?thesis
  proof (cases r)
    case (Inl e)
    with False o(1,2) b1 show ?thesis by (simp add: mss_add_def)
  next
    case (Inr u)
    let ?g = "group_entry m w1" and ?w2 = "put_group m (group_entry m w1) w1"
    let ?w3 = "?w2\<lparr>mw_next_set_id := mw_next_set_id ?w2 + 1\<rparr>"
    have ex: "mw_table_exists w1" "\<not> mg_kernel_created ?g" using b1 by (simp_all add: building_def created_entry)
    have n: "mg_chain_name ?g = chain_name_of m" "mg_set_name ?g = set_name_of m"
      using group_entry_named [OF world_inv_named [OF o(2)]] by auto
    have b3: "building view tbl m None ?w3" using b1 ex(2) by (simp add: building_def created_upd)
    have q: "mw_queue ?w3 = []" using o(2) by (simp add: world_inv_def)
    from exchange [OF assms(1) requests_builders(3) [OF assms(2) length_names(1) length_names(2) [of m], where set_id = "mw_next_set_id ?w2"] q,
        where op = "''create-set''"]
    obtain r' k where e: "exchange_batch K ''create-set'' (build_create_set_batch tbl (set_name_of m) (mw_next_set_id ?w2)) ?w3
          = Some (r', ?w3\<lparr>mw_next_seq := mw_next_seq ?w3 + 3, mw_kernel := k\<rparr>)"
        "exchanged (NewSet tbl (set_name_of m) 0 NFT_KEY_TYPE_IFNAME 16) r' (view (mw_kernel ?w3)) (view k)" by blast
    have "nft_apply (NewSet tbl (set_name_of m) 0 NFT_KEY_TYPE_IFNAME 16) (view (mw_kernel ?w3)) = None"
      using b3 by (auto simp: building_def with_table_def)
    with e(2) obtain e' where r': "r' = Inl e'" "view k = view (mw_kernel ?w3)"
      by (auto simp: exchanged_def split: sum.splits)
    have "mss_add K tbl i m w = Some (Inl e', ?w3\<lparr>mw_next_seq := mw_next_seq ?w3 + 3, mw_kernel := k\<rparr>)"
      using False o(1) Inr ex e(1) r'(1) n by (simp add: mss_add_def ensure_table_def ensure_group_def Let_def)
    moreover have "building view tbl m None (?w3\<lparr>mw_next_seq := mw_next_seq ?w3 + 3, mw_kernel := k\<rparr>)"
      using b3 r'(2) by (simp add: building_def)
    ultimately show ?thesis using mss_add_yields [OF assms(1-3), of i m] by (auto simp: yields_def)
  qed
qed

text \<open>A sequence of calls for the same size, with their results.\<close>

fun mss_add_all :: "'k nf_kernel \<Rightarrow> bytes \<Rightarrow> u16 \<Rightarrow> bytes list \<Rightarrow> 'k mss_world \<Rightarrow> ((shared_mss_error + bytes \<times> u16) list \<times> 'k mss_world) option" where
  "mss_add_all K tbl m [] w = Some ([], w)"
| "mss_add_all K tbl m (i # is) w = do {
     (r, w) \<leftarrow> mss_add K tbl i m w;
     (rs, w) \<leftarrow> mss_add_all K tbl m is w;
     Some (r # rs, w)
   }"

lemma stuck_add_all:
  assumes "nft_contract K view" and "length tbl \<le> 64"
  shows "world_inv view tbl hs w \<Longrightarrow> building view tbl m None w \<Longrightarrow>
    \<exists>rs w'. mss_add_all K tbl m is w = Some (rs, w') \<and> length rs = length is \<and> list_all (\<lambda>r. \<not> is_ok r) rs"
proof (induction "is" arbitrary: w)
  case (Cons i "is")
  from stuck_add [OF assms Cons.prems] obtain e w' where
    "mss_add K tbl i m w = Some (Inl e, w')" "world_inv view tbl hs w'" "building view tbl m None w'" by blast
  with Cons.IH [of w'] show ?case by auto
qed simp

subsection \<open>A kernel for the witnesses\<close>

text \<open>It executes what it can read, except for the commands in \<open>refuse\<close>.\<close>

definition table_kernel :: "(nft_cmd \<Rightarrow> bool) \<Rightarrow> ruleset nf_kernel" where
  "table_kernel refuse =
     \<lparr>nk_open = (\<lambda>k. (Inr (), k)),
      nk_send = (\<lambda>bs k. case nft_batch bs of
          None \<Rightarrow> (Inl 22, k)
        | Some (cmd, seq) \<Rightarrow>
            (case if refuse cmd then None else nft_apply cmd k of
               None \<Rightarrow> (Inr [Inr (ack_bytes seq (- 17))], k)
             | Some k' \<Rightarrow> (Inr [Inr (ack_bytes seq 0)], k')))\<rparr>"

lemma table_kernel_contract: "nft_contract (table_kernel refuse) (\<lambda>k. k)"
  unfolding nft_contract_def table_kernel_def
  by (auto simp: transacted_def intro!: ack_bytes exI split: option.splits if_splits)

lemma table_kernel_exchange:
  assumes "requests bld cmd" and "mw_queue w = []"
  shows "exchange_batch (table_kernel refuse) op bld w =
    (case if refuse cmd then None else nft_apply cmd (mw_kernel w) of
       None \<Rightarrow> Some (Inl (MssKernel op 17), w\<lparr>mw_next_seq := mw_next_seq w + 3\<rparr>)
     | Some k \<Rightarrow> Some (Inr (), w\<lparr>mw_next_seq := mw_next_seq w + 3, mw_kernel := k\<rparr>))"
proof -
  let ?seq = "mw_next_seq w"
  from assms(1) obtain b where b: "bld ?seq = Some (b, ?seq + 3)" "nft_batch (bt_bytes b) = Some (cmd, ?seq + 1)"
    "bt_expected_acks b = [?seq + 1]" unfolding requests_def by blast
  have w: "w\<lparr>mw_next_seq := s, mw_kernel := k, mw_queue := []\<rparr> = w\<lparr>mw_next_seq := s, mw_kernel := k\<rparr>"
    "w\<lparr>mw_next_seq := s, mw_kernel := mw_kernel w, mw_queue := []\<rparr> = w\<lparr>mw_next_seq := s\<rparr>" for s k
    using assms(2) by (cases w, simp)+
  show ?thesis
    using assms(2) b by (simp add: exchange_batch_def table_kernel_def ack_loop_one [OF ack_bytes] w split: option.split)
qed

lemma table_kernel_open: "mw_queue w = [] \<Longrightarrow> nf_open (table_kernel refuse) w = Some (Inr (), w)"
  by (cases w) (simp add: nf_open_def table_kernel_def)

lemmas table_name_7 = length_table_name [of 7, simplified]

lemmas table_kernel_run = mss_add_def ensure_table_def ensure_group_def mss_new_def group_entry_def put_group_def Let_def
  table_kernel_open with_table_def
  table_kernel_exchange [OF requests_builders(1) [OF table_name_7 length_names]]
  table_kernel_exchange [OF requests_builders(2) [OF table_name_7 length_names]]
  table_kernel_exchange [OF requests_builders(3) [OF table_name_7 length_names]]
  table_kernel_exchange [OF requests_builders(4) [OF table_name_7 length_names]]
  table_kernel_exchange [OF requests_builders(5) [OF table_name_7 length_names]]
  table_kernel_exchange [OF requests_builders(6) [OF table_name_7 length_names]]

subsection \<open>The properties\<close>

text \<open>
  C32 (round trip).  Each transaction of the manager says what it means.  Whatever the sequence counter,
  the builder does not panic, the kernel's reading of the bytes (two envelopes around one message, its
  attributes by length and type, nested ones inside) gives back the command, and the acknowledgement
  that is awaited is that of this message.
\<close>

theorem mss_transactions:
  assumes "length tbl \<le> 64" and "length chain \<le> 64" and "length st \<le> 64"
  shows "requests (build_create_table_batch tbl) (NewTable tbl)
    \<and> requests (build_delete_table_batch tbl) (DelTable tbl)
    \<and> requests (build_create_set_batch tbl st set_id) (NewSet tbl st 0 NFT_KEY_TYPE_IFNAME 16)
    \<and> requests (build_create_chain_batch tbl chain) (NewChain tbl chain (ascii ''filter'') NF_ACCEPT NF_INET_FORWARD (- 150))
    \<and> requests (build_rule_batch tbl chain st ingress mss) (NewRule tbl chain (clamp_rule ingress st mss))
    \<and> requests (build_add_elem_batch tbl st ifname) (NewElem tbl st (elem_key ifname))
    \<and> requests (build_del_elem_batch tbl st ifname) (DelElem tbl st (elem_key ifname))"
  using requests_builders [OF assms] by blast

theorem mss_transactions_witness:
  "\<exists>b. build_add_elem_batch (table_name 7) (set_name_of 1380) (ascii ''tun0'') 41 = Some (b, 44)
     \<and> nft_batch (bt_bytes b) = Some (NewElem (table_name 7) (set_name_of 1380) (elem_key (ascii ''tun0'')), 42)"
proof -
  have "length (table_name 7) \<le> 64" by (rule length_table_name) simp
  from mss_transactions [OF this length_names(1) [of 1380] length_names(2) [of 1380]]
  have "requests (build_add_elem_batch (table_name 7) (set_name_of 1380) (ascii ''tun0''))
    (NewElem (table_name 7) (set_name_of 1380) (elem_key (ascii ''tun0'')))" by blast
  then show ?thesis unfolding requests_def by (auto dest!: spec [of _ 41])
qed

text \<open>
  C15 (invariant).  While a session holds a handle, its interface is clamped.  In every state that the
  sessions and the kernel can reach, with any pattern of failed calls, refused transactions and lost
  acknowledgements, the name of the interface is in the kernel's set for its segment size, and the
  chain for that size hooks into forwarding with exactly the two rules, for packets from and to the
  interfaces in that set.  No operation panics or waits forever.
\<close>

theorem mss_clamp_held:
  assumes "nft_contract K view" and "pid < 2 ^ 32" and "mss_reach K (table_name pid) w hs"
  shows "(\<forall>(i, m) \<in> set hs. \<exists>t elems. view (mw_kernel w) (table_name pid) = Some t
      \<and> nt_sets t (set_name_of m) = Some elems \<and> elem_key i \<in> elems
      \<and> nt_chains t (chain_name_of m) = Some \<lparr>nc_type = ascii ''filter'', nc_policy = NF_ACCEPT, nc_hook = NF_INET_FORWARD,
          nc_priority = - 150, nc_rules = [clamp_rule True (set_name_of m) m, clamp_rule False (set_name_of m) m]\<rparr>)
    \<and> (\<forall>i m. mss_add K (table_name pid) i m w \<noteq> None \<and> mss_remove K (table_name pid) i m w \<noteq> None)
    \<and> mss_destroy K (table_name pid) w \<noteq> None"
proof -
  note len = length_table_name [OF assms(2)]
  from mss_reach_inv [OF assms(3,1) len] have inv: "world_inv view (table_name pid) hs w" by blast
  have "mss_add K (table_name pid) i m w \<noteq> None" "mss_remove K (table_name pid) i m w \<noteq> None" for i m
    using mss_add_yields [OF assms(1) len inv, of i m] mss_remove_inv [where m = m and hs' = "[]" and i = i, OF assms(1) len inv]
    by (auto simp: yields_def returns_def)
  moreover have "mss_destroy K (table_name pid) w \<noteq> None"
    using mss_destroy_inv [OF assms(1) len inv] by (auto simp: returns_def)
  moreover have "\<exists>t elems. view (mw_kernel w) (table_name pid) = Some t \<and> group_ready t m elems \<and> elem_key i \<in> elems"
    if "(i, m) \<in> set hs" for i m
  proof -
    from that inv have "mw_table_exists w" by (auto simp: world_inv_def split: if_splits)
    with inv obtain t where t: "view (mw_kernel w) (table_name pid) = Some t" "table_inv t (mw_groups w) hs"
      by (auto simp: world_inv_def)
    with that show ?thesis unfolding table_inv_def by blast
  qed
  ultimately show ?thesis by (fastforce simp: group_ready_def base_chain_def)
qed

theorem mss_clamp_held_witness:
  "\<exists>w. mss_reach (table_kernel (\<lambda>_. False)) (table_name 7) w [(ascii ''tun0'', 1380)]
     \<and> (\<exists>t elems. mw_kernel w (table_name 7) = Some t \<and> nt_sets t (set_name_of 1380) = Some elems \<and> elem_key (ascii ''tun0'') \<in> elems)"
proof -
  let ?K = "table_kernel (\<lambda>_. False)" and ?w0 = "mss_new Map.empty :: ruleset mss_world"
  have "0 \<notin> set (ascii ''tun0'')" by (simp add: ascii_def)
  then obtain w where "mss_add ?K (table_name 7) (ascii ''tun0'') 1380 ?w0 = Some (Inr (ascii ''tun0'', 1380), w)"
    by (simp add: table_kernel_run)
  then have "mss_reach ?K (table_name 7) w [(ascii ''tun0'', 1380)]"
    using mss_reach.add [OF mss_reach.start [of ?K "table_name 7" Map.empty]] by auto
  with mss_clamp_held [OF table_kernel_contract [of "\<lambda>_. False"] _ this] show ?thesis by auto
qed



end
