(* ===== verification/Route_Socket.thy ===== *)
theory Route_Socket
  imports Netlink
begin

text \<open>
  A client of the kernel's routing socket, as \<open>TcNetlink\<close> of \<open>src/src/shape/netlink.rs\<close> is one: it takes a
  sequence number, builds a request, sends it and waits for the acknowledgement.  Here are the socket as a
  parameter, requests as the kernel reads them, the contract of the kernel, and the locale \<open>acked_exchange\<close> with
  what an exchange promises, in which it is shown what a sequence of requests achieves.  \<open>Shape_Tc\<close> interprets it.
\<close>

subsection \<open>Sockets and clients\<close>

text \<open>Sending and receiving one datagram; \<open>None\<close> as the answer of a receive is one that never comes.\<close>

record 'k route_kernel =
  rk_send :: "bytes \<Rightarrow> 'k \<Rightarrow> (nat + unit) \<times> 'k"
  rk_recv :: "'k \<Rightarrow> (nat + bytes) option \<times> 'k"

record 'k route_client =
  rc_seq :: u32
  rc_kernel :: 'k

type_synonym ('e, 'k) route_result = "(('e + unit) \<times> 'k route_client) option"
type_synonym ('e, 'k) exchange_fn = "'k route_kernel \<Rightarrow> string \<Rightarrow> message_buf \<Rightarrow> 'k route_client \<Rightarrow> ('e, 'k) route_result"
type_synonym route_step = "string \<times> (u32 \<Rightarrow> message_buf option)"

definition route_open :: "'k \<Rightarrow> 'k route_client" where
  "route_open k = \<lparr>rc_seq = 1, rc_kernel = k\<rparr>"

text \<open>The number is taken and advanced, wrapping (\<open>next_seq\<close>), the request built under it and exchanged.\<close>

definition route_install :: "('e, 'k) exchange_fn \<Rightarrow> 'k route_kernel \<Rightarrow> string \<Rightarrow> (u32 \<Rightarrow> message_buf option) \<Rightarrow> 'k route_client
    \<Rightarrow> ('e, 'k) route_result" where
  "route_install exchange K op encode s = do {
     buf \<leftarrow> encode (rc_seq s);
     exchange K op buf (s\<lparr>rc_seq := rc_seq s + 1\<rparr>)
   }"

definition route_then :: "('e, 'k) route_result \<Rightarrow> ('k route_client \<Rightarrow> ('e, 'k) route_result) \<Rightarrow> ('e, 'k) route_result" where
  "route_then r f = (case r of None \<Rightarrow> None | Some (Inl e, s) \<Rightarrow> Some (Inl e, s) | Some (Inr _, s) \<Rightarrow> f s)"

fun run_steps :: "('e, 'k) exchange_fn \<Rightarrow> 'k route_kernel \<Rightarrow> route_step list \<Rightarrow> 'k route_client \<Rightarrow> ('e, 'k) route_result" where
  "run_steps exchange K [] s = Some (Inr (), s)"
| "run_steps exchange K ((op, encode) # sts) s = route_then (route_install exchange K op encode s) (run_steps exchange K sts)"

lemma route_then_simps [simp]:
  "route_then (Some (Inr u, s)) f = f s" "route_then (Some (Inl e, s)) f = Some (Inl e, s)"
  "route_then None f = None" "route_then r (\<lambda>s. Some (Inr (), s)) = r"
  by (auto simp: route_then_def split: option.splits sum.splits prod.splits)

lemma route_then_assoc: "route_then (route_then r f) g = route_then r (\<lambda>s. route_then (f s) g)"
  by (auto simp: route_then_def split: option.splits sum.splits)

lemma run_steps_fun: "run_steps exchange K [] = (\<lambda>s. Some (Inr (), s))"
  "run_steps exchange K ((op, encode) # sts) = (\<lambda>s. route_then (route_install exchange K op encode s) (run_steps exchange K sts))"
  by (simp_all add: fun_eq_iff)

subsection \<open>Requests as the kernel reads them\<close>

text \<open>Type, flags, the header of the family and the attributes; the size of the header depends on the type.\<close>

record route_request =
  rq_type :: u16
  rq_flags :: u16
  rq_hdr :: bytes
  rq_attrs :: "nla list"

definition hdr_len :: "u16 \<Rightarrow> nat" where
  "hdr_len ty = (if ty \<in> {16, 18} then 16 else if ty = 20 then 8 else if ty = 24 then 12 else 20)"

definition route_read :: "bytes \<Rightarrow> (u32 \<times> route_request) option" where
  "route_read bs =
     (case nlmsgs bs of
        Some [g] \<Rightarrow>
          let n = hdr_len (nm_type g) in
          if length (nm_body g) < n then None
          else map_option (\<lambda>as. (nm_seq g, \<lparr>rq_type = nm_type g, rq_flags = nm_flags g, rq_hdr = take n (nm_body g), rq_attrs = as\<rparr>))
                 (nla_parse (drop n (nm_body g)))
      | _ \<Rightarrow> None)"

text \<open>An encoder says a request: it does not panic, and its bytes read back as the request under its number.\<close>

definition says :: "(u32 \<Rightarrow> message_buf option) \<Rightarrow> route_request \<Rightarrow> bool" where
  "says encode q \<longleftrightarrow> (\<forall>seq. \<exists>m. encode seq = Some m \<and> mb_seq m = seq \<and> route_read (mb_bytes m) = Some (seq, q))"

lemma says_tree:
  assumes "list_all nla_types (rq_attrs q)" and "sum_list (map nla_bound (rq_attrs q)) < 65536"
    and "length (rq_hdr q) = hdr_len (rq_type q)"
    and "\<And>seq. encode seq = Option.bind (push_tree (rq_attrs q)
      (push_struct (rq_hdr q) (message_new (rq_type q) (rq_flags q) seq))) finalize"
  shows "says encode q"
proof -
  let ?as = "rq_attrs q" and ?h = "rq_hdr q"
  note ok = nlas_ok_bound [OF assms(1,2)]
  have al: "4 dvd length ?h" "length ?h \<le> 20" using assms(3) by (simp_all add: hdr_len_def)
  have len: "16 + length ?h + length (nlas_enc ?as) < 2 ^ 32" using assms(2) al(2) length_nlas_enc [of ?as] by simp
  have "route_read (nlmsg_enc \<lparr>nm_type = rq_type q, nm_flags = rq_flags q, nm_seq = seq, nm_body = ?h @ nlas_enc ?as\<rparr>) = Some (seq, q)" for seq
    using nlmsgs_enc [of "\<lparr>nm_type = rq_type q, nm_flags = rq_flags q, nm_seq = seq, nm_body = ?h @ nlas_enc ?as\<rparr>" "[]"]
      len al(1) nlas_enc_aligned [of ?as] nla_parse_enc [OF ok] assms(3)
    by (simp add: route_read_def nlmsgs.simps [of "[]"])
  moreover have "mb_seq (message_new ty fl seq) = seq" for ty fl seq by (simp add: message_new_def)
  ultimately show ?thesis
    using assms(4) message_tree [OF al(1) ok len] by (simp add: says_def)
qed

subsection \<open>The kernel\<close>

text \<open>
  The contract of the kernel's side, over the list of the requests that took effect: a request that
  cannot be sent has no effect; one that is sent is answered by one acknowledgement, whose error number is
  zero exactly if it took effect; when reading the answer fails this is unknown.  \<open>ready\<close> is that no old
  answer is waiting.
\<close>

definition route_contract :: "'k route_kernel \<Rightarrow> ('k \<Rightarrow> bool) \<Rightarrow> ('k \<Rightarrow> route_request list) \<Rightarrow> bool" where
  "route_contract K ready view \<longleftrightarrow>
     (\<forall>bs seq q k. route_read bs = Some (seq, q) \<longrightarrow> ready k \<longrightarrow>
        (case rk_send K bs k of
           (Inl e, k') \<Rightarrow> view k' = view k
         | (Inr _, k') \<Rightarrow>
             (case rk_recv K k' of
                (None, _) \<Rightarrow> False
              | (Some (Inl e), k'') \<Rightarrow> view k'' = view k \<or> view k'' = view k @ [q]
              | (Some (Inr d), k'') \<Rightarrow> ready k'' \<and> length d \<le> 4096 \<and>
                  (\<exists>err. ack_datagram seq err d \<and> view k'' = (if err = 0 then view k @ [q] else view k)))))"

text \<open>
  The outcome of running a plan: all of it, or the part before the step that the kernel refused, or a
  prefix.  \<open>refusal\<close> gives the name of the step if an error is a refusal.
\<close>

definition installed :: "('e \<Rightarrow> string option) \<Rightarrow> ('k \<Rightarrow> bool) \<Rightarrow> ('k \<Rightarrow> route_request list) \<Rightarrow> (string \<times> route_request) list
    \<Rightarrow> 'k \<Rightarrow> 'e + unit \<Rightarrow> 'k \<Rightarrow> bool" where
  "installed refusal ready view plan k r k' \<longleftrightarrow>
     (case r of
        Inr _ \<Rightarrow> ready k' \<and> view k' = view k @ map snd plan
      | Inl e \<Rightarrow>
          (case refusal e of
             Some op \<Rightarrow> \<exists>n < length plan. fst (plan ! n) = op \<and> view k' = view k @ map snd (take n plan)
           | None \<Rightarrow> \<exists>n \<le> length plan. view k' = view k @ map snd (take n plan)))"

definition plan_of :: "route_step list \<Rightarrow> (string \<times> route_request) list \<Rightarrow> bool" where
  "plan_of sts plan \<longleftrightarrow> list_all2 (\<lambda>(op, encode) (op', q). op = op' \<and> says encode q) sts plan"

subsection \<open>What an exchange has to do\<close>

locale acked_exchange =
  fixes exchange :: "('e, 'k) exchange_fn" and refusal :: "'e \<Rightarrow> string option"
  assumes unsent: "rk_send K (mb_bytes m) (rc_kernel s) = (Inl e, k) \<Longrightarrow>
      \<exists>e'. refusal e' = None \<and> exchange K op m s = Some (Inl e', s\<lparr>rc_kernel := k\<rparr>)"
    and unread: "rk_send K (mb_bytes m) (rc_kernel s) = (Inr u, k) \<Longrightarrow> rk_recv K k = (Some (Inl e), k') \<Longrightarrow>
      \<exists>e'. refusal e' = None \<and> exchange K op m s = Some (Inl e', s\<lparr>rc_kernel := k'\<rparr>)"
    and acked: "rk_send K (mb_bytes m) (rc_kernel s) = (Inr u, k) \<Longrightarrow> rk_recv K k = (Some (Inr d), k') \<Longrightarrow> length d \<le> 4096 \<Longrightarrow>
      ack_datagram (mb_seq m) 0 d \<Longrightarrow> exchange K op m s = Some (Inr (), s\<lparr>rc_kernel := k'\<rparr>)"
    and refused: "rk_send K (mb_bytes m) (rc_kernel s) = (Inr u, k) \<Longrightarrow> rk_recv K k = (Some (Inr d), k') \<Longrightarrow> length d \<le> 4096 \<Longrightarrow>
      ack_datagram (mb_seq m) err d \<Longrightarrow> err \<noteq> 0 \<Longrightarrow>
      \<exists>e'. refusal e' = Some op \<and> exchange K op m s = Some (Inl e', s\<lparr>rc_kernel := k'\<rparr>)"
begin

lemma install_installed:
  assumes "route_contract K ready view" and "ready (rc_kernel s)" and "says encode q"
  shows "\<exists>r s'. route_install exchange K op encode s = Some (r, s') \<and> installed refusal ready view [(op, q)] (rc_kernel s) r (rc_kernel s')"
proof -
  let ?k = "rc_kernel s" and ?s = "s\<lparr>rc_seq := rc_seq s + 1\<rparr>"
  from assms(3) obtain m where m: "encode (rc_seq s) = Some m" "mb_seq m = rc_seq s" "route_read (mb_bytes m) = Some (rc_seq s, q)"
    unfolding says_def by blast
  obtain r1 k1 where snd: "rk_send K (mb_bytes m) ?k = (r1, k1)" by fastforce
  obtain r2 k2 where rcv: "rk_recv K k1 = (r2, k2)" by fastforce
  from assms(1,2) m(3) have C: "case r1 of Inl e \<Rightarrow> view k1 = view ?k | Inr _ \<Rightarrow>
      (case r2 of None \<Rightarrow> False | Some (Inl e) \<Rightarrow> view k2 = view ?k \<or> view k2 = view ?k @ [q]
       | Some (Inr d) \<Rightarrow> ready k2 \<and> length d \<le> 4096 \<and>
           (\<exists>err. ack_datagram (mb_seq m) err d \<and> view k2 = (if err = 0 then view ?k @ [q] else view ?k)))"
    unfolding route_contract_def by (fastforce simp: m(2) snd rcv split: sum.split option.split)
  have run: "route_install exchange K op encode s = exchange K op m ?s" by (simp add: route_install_def m)
  have prefix: "\<exists>n \<le> length [(op, q)]. v = view ?k @ map snd (take n [(op, q)])" if "v = view ?k \<or> v = view ?k @ [q]" for v
    using that by (auto intro: exI [of _ 0] exI [of _ 1])
  have "\<exists>x. r2 = Some x" if "r1 = Inr u" for u using C that by (cases r2) auto
  then consider e where "r1 = Inl e" | u e where "r1 = Inr u" "r2 = Some (Inl e)" | u d where "r1 = Inr u" "r2 = Some (Inr d)"
    by (metis sum.exhaust)
  then show ?thesis
  proof cases
    case (1 e)
    with unsent [of K m ?s e k1 op] snd C prefix [of "view k1"] show ?thesis by (auto simp: run installed_def)
  next
    case (2 u e)
    with unread [of K m ?s u k1 e k2 op] snd rcv C prefix [of "view k2"] show ?thesis by (auto simp: run installed_def)
  next
    case (3 u d)
    with C obtain err where d: "ready k2" "length d \<le> 4096" "ack_datagram (mb_seq m) err d"
      "view k2 = (if err = 0 then view ?k @ [q] else view ?k)" by auto
    show ?thesis
    proof (cases "err = 0")
      case True
      with acked [of K m ?s u k1 d k2 op] snd rcv 3 d show ?thesis by (simp add: run installed_def)
    next
      case False
      with refused [of K m ?s u k1 d k2 err op] snd rcv 3 d show ?thesis by (auto simp: run installed_def)
    qed
  qed
qed

lemma run_steps_installed:
  assumes "route_contract K ready view" and "plan_of sts plan" and "ready (rc_kernel s)"
  shows "\<exists>r s'. run_steps exchange K sts s = Some (r, s') \<and> installed refusal ready view plan (rc_kernel s) r (rc_kernel s')"
  using assms(2,3) unfolding plan_of_def
proof (induction arbitrary: s rule: list_all2_induct)
  case Nil
  then show ?case by (simp add: installed_def)
next
  case (Cons st sts oq plan)
  obtain op encode q where eq: "st = (op, encode)" "oq = (op, q)" "says encode q" using Cons.hyps(1) by (cases st, cases oq) auto
  from install_installed [OF assms(1) Cons.prems eq(3), of op] obtain r s1 where
    i: "route_install exchange K op encode s = Some (r, s1)" "installed refusal ready view [(op, q)] (rc_kernel s) r (rc_kernel s1)" by blast
  show ?case
  proof (cases r)
    case (Inl e)
    have grow: "\<exists>n \<le> Suc (length plan). v = w @ map snd (take n ((op, q) # plan))"
      if "n \<le> 1" "v = w @ map snd (take n [(op, q)])" for n and v w :: "route_request list"
      using that by (intro exI [of _ n]) (cases n, auto)
    from Inl i grow show ?thesis
      by (auto simp: eq installed_def split: option.splits intro: exI [of _ 0])
  next
    case (Inr u)
    with i have s1: "ready (rc_kernel s1)" "view (rc_kernel s1) = view (rc_kernel s) @ [q]" by (auto simp: installed_def)
    from Cons.IH [OF s1(1)] obtain r' s2 where
      s2: "run_steps exchange K sts s1 = Some (r', s2)" "installed refusal ready view plan (rc_kernel s1) r' (rc_kernel s2)" by blast
    from s2(2) s1(2) have "installed refusal ready view ((op, q) # plan) (rc_kernel s) r' (rc_kernel s2)"
      by (auto simp: installed_def split: sum.splits option.splits intro: exI [of _ "Suc _"])
    with s2(1) show ?thesis using i(1) Inr by (simp add: eq)
  qed
qed

end

subsection \<open>A kernel that fulfils the contract\<close>

text \<open>It keeps the requests that took effect and the waiting answer, and refuses those in \<open>refuse\<close>.\<close>

definition log_kernel :: "(route_request \<Rightarrow> bool) \<Rightarrow> (route_request list \<times> bytes option) route_kernel" where
  "log_kernel refuse =
     \<lparr>rk_send = (\<lambda>bs (qs, _). case route_read bs of
          None \<Rightarrow> (Inl 22, (qs, None))
        | Some (seq, q) \<Rightarrow> (Inr (), if refuse q then (qs, Some (ack_bytes seq (- 17))) else (qs @ [q], Some (ack_bytes seq 0)))),
      rk_recv = (\<lambda>(qs, a). (map_option Inr a, (qs, None)))\<rparr>"

lemma log_kernel_contract: "route_contract (log_kernel refuse) (\<lambda>k. snd k = None) fst"
  unfolding route_contract_def log_kernel_def
  by (auto simp: length_ack_bytes intro!: ack_bytes exI split: option.splits if_splits)

end
