(* ===== verification/Shape_Tc.thy ===== *)
theory Shape_Tc
  imports Auth_Types Route_Socket Text_Parse
begin

text \<open>
  Installing a shaping policy on an interface: the wire structures of \<open>src/src/shape/tc.rs\<close>, the
  request encoders, the arithmetic of bursts and rate tables and the \<open>Shaper\<close> of
  \<open>src/src/shape/mod.rs\<close>, and the socket of \<open>src/src/shape/netlink.rs\<close>.  The kernel is a parameter.
  \<open>None\<close> is a panic or a receive that waits forever.
\<close>

abbreviation (input) RTM_NEWQDISC :: u16 where "RTM_NEWQDISC \<equiv> 36"
abbreviation (input) RTM_NEWTCLASS :: u16 where "RTM_NEWTCLASS \<equiv> 40"
abbreviation (input) RTM_NEWTFILTER :: u16 where "RTM_NEWTFILTER \<equiv> 44"
abbreviation (input) NLM_F_REPLACE :: u16 where "NLM_F_REPLACE \<equiv> 0x100"
abbreviation (input) TC_H_ROOT :: u32 where "TC_H_ROOT \<equiv> 0xFFFFFFFF"
abbreviation (input) TC_H_INGRESS :: u32 where "TC_H_INGRESS \<equiv> 0xFFFFFFF1"
abbreviation (input) TCA_KIND :: u16 where "TCA_KIND \<equiv> 1"
abbreviation (input) TCA_OPTIONS :: u16 where "TCA_OPTIONS \<equiv> 2"
abbreviation (input) TCA_HTB_PARMS :: u16 where "TCA_HTB_PARMS \<equiv> 1"
abbreviation (input) TCA_HTB_INIT :: u16 where "TCA_HTB_INIT \<equiv> 2"
abbreviation (input) TCA_HTB_RATE64 :: u16 where "TCA_HTB_RATE64 \<equiv> 6"
abbreviation (input) TCA_HTB_CEIL64 :: u16 where "TCA_HTB_CEIL64 \<equiv> 7"
abbreviation (input) HTB_VER :: u32 where "HTB_VER \<equiv> 3"
abbreviation (input) TCA_U32_SEL :: u16 where "TCA_U32_SEL \<equiv> 5"
abbreviation (input) TCA_U32_POLICE :: u16 where "TCA_U32_POLICE \<equiv> 6"
abbreviation (input) TC_U32_TERMINAL :: u8 where "TC_U32_TERMINAL \<equiv> 1"
abbreviation (input) TCA_POLICE_TBF :: u16 where "TCA_POLICE_TBF \<equiv> 1"
abbreviation (input) TCA_POLICE_RATE :: u16 where "TCA_POLICE_RATE \<equiv> 2"
abbreviation (input) TCA_POLICE_RATE64 :: u16 where "TCA_POLICE_RATE64 \<equiv> 8"
abbreviation (input) TC_ACT_SHOT :: u32 where "TC_ACT_SHOT \<equiv> 2"
abbreviation (input) ETH_P_ALL :: u16 where "ETH_P_ALL \<equiv> 3"
abbreviation (input) KIND_HTB :: bytes where "KIND_HTB \<equiv> ascii ''htb'' @ [0]"
abbreviation (input) KIND_INGRESS :: bytes where "KIND_INGRESS \<equiv> ascii ''ingress'' @ [0]"
abbreviation (input) KIND_U32 :: bytes where "KIND_U32 \<equiv> ascii ''u32'' @ [0]"

subsection \<open>Wire structures\<close>

text \<open>A structure is the list of its fields in order, in host byte order; none of them has padding.\<close>

definition ne64 :: "u64 \<Rightarrow> bytes" where
  "ne64 w = ne32 (ucast w) @ ne32 (ucast (drop_bit 32 w))"

definition tc_handle :: "u16 \<Rightarrow> u16 \<Rightarrow> u32" where
  "tc_handle major minor = push_bit 16 (ucast major) OR ucast minor"

record tcmsg =
  tcm_ifindex :: u32
  tcm_handle :: u32
  tcm_parent :: u32
  tcm_info :: u32

definition tcmsg_bytes :: "tcmsg \<Rightarrow> bytes" where
  "tcmsg_bytes m = [0, 0] @ ne16 0 @ ne32 (tcm_ifindex m) @ ne32 (tcm_handle m) @ ne32 (tcm_parent m) @ ne32 (tcm_info m)"

record tc_ratespec =
  tr_cell_log :: u8
  tr_linklayer :: u8
  tr_overhead :: u16
  tr_cell_align :: u16
  tr_mpu :: u16
  tr_rate :: u32

definition tc_ratespec_bytes :: "tc_ratespec \<Rightarrow> bytes" where
  "tc_ratespec_bytes r = [tr_cell_log r, tr_linklayer r] @ ne16 (tr_overhead r) @ ne16 (tr_cell_align r) @ ne16 (tr_mpu r) @ ne32 (tr_rate r)"

record tc_htb_opt =
  ho_rate :: tc_ratespec
  ho_ceil :: tc_ratespec
  ho_buffer :: u32
  ho_cbuffer :: u32
  ho_quantum :: u32
  ho_level :: u32
  ho_prio :: u32

definition tc_htb_opt_bytes :: "tc_htb_opt \<Rightarrow> bytes" where
  "tc_htb_opt_bytes h = tc_ratespec_bytes (ho_rate h) @ tc_ratespec_bytes (ho_ceil h) @ ne32 (ho_buffer h) @ ne32 (ho_cbuffer h)
     @ ne32 (ho_quantum h) @ ne32 (ho_level h) @ ne32 (ho_prio h)"

record tc_police =
  po_index :: u32
  po_action :: u32
  po_limit :: u32
  po_burst :: u32
  po_mtu :: u32
  po_rate :: tc_ratespec
  po_peakrate :: tc_ratespec
  po_refcnt :: u32
  po_bindcnt :: u32
  po_capab :: u32

definition tc_police_bytes :: "tc_police \<Rightarrow> bytes" where
  "tc_police_bytes p = ne32 (po_index p) @ ne32 (po_action p) @ ne32 (po_limit p) @ ne32 (po_burst p) @ ne32 (po_mtu p)
     @ tc_ratespec_bytes (po_rate p) @ tc_ratespec_bytes (po_peakrate p) @ ne32 (po_refcnt p) @ ne32 (po_bindcnt p) @ ne32 (po_capab p)"

subsection \<open>Bursts and rate tables\<close>

definition to_u32 :: "u64 \<Rightarrow> u32" where
  "to_u32 v = ucast (min v 0xFFFFFFFF)"

definition saturating_burst_bytes :: "u64 \<Rightarrow> u32 \<Rightarrow> u32" where
  "saturating_burst_bytes rate_bytes_per_sec mtu =
     (let one_ms = rate_bytes_per_sec div 1000;
          target = (if unat one_ms + unat mtu < 2 ^ 64 then one_ms + ucast mtu else - 1) in
      to_u32 target)"

definition saturating_ingress_burst_bytes :: "u64 \<Rightarrow> u32 \<Rightarrow> u32" where
  "saturating_ingress_burst_bytes rate_bytes_per_sec mtu =
     (let ten_ms = rate_bytes_per_sec div 100;
          floor_bytes = (if unat mtu * 10 < 2 ^ 64 then ucast mtu * 10 else - 1);
          target = max ten_ms floor_bytes in
      to_u32 target)"

definition burst_bytes_to_psched_ticks :: "u32 \<Rightarrow> u64 \<Rightarrow> u32" where
  "burst_bytes_to_psched_ticks burst_bytes rate_bytes_per_sec =
     (if rate_bytes_per_sec = 0 then 0xFFFFFFFF
      else to_u32 ((ucast burst_bytes * 1000000000) div rate_bytes_per_sec))"

function cell_log_loop :: "nat \<Rightarrow> nat \<Rightarrow> nat" where
  "cell_log_loop mtu n = (if mtu div 2 ^ n > 255 then cell_log_loop mtu (n + 1) else n)"
  by pat_completeness auto
termination
proof (relation "measure (\<lambda>(mtu, n). mtu div 2 ^ n)")
  fix mtu n :: nat
  assume "255 < mtu div 2 ^ n"
  moreover have "mtu div 2 ^ (n + 1) = mtu div 2 ^ n div 2" by (metis div_mult2_eq power_add power_one_right)
  ultimately have "mtu div 2 ^ (n + 1) < mtu div 2 ^ n" by simp
  then show "((mtu, n + 1), mtu, n) \<in> measure (\<lambda>(mtu, n). mtu div 2 ^ n)" by simp
qed simp

declare cell_log_loop.simps [simp del]

definition compute_cell_log :: "u32 \<Rightarrow> u8" where
  "compute_cell_log mtu = word_of_nat (max 1 (cell_log_loop (if mtu = 0 then 2047 else unat mtu) 0))"

definition saturating_mul64 :: "u64 \<Rightarrow> u64 \<Rightarrow> u64" where
  "saturating_mul64 a b = (if unat a * unat b < 2 ^ 64 then a * b else - 1)"

definition compute_rate_table :: "u64 \<Rightarrow> u8 \<Rightarrow> u32 list" where
  "compute_rate_table rate_bytes_per_sec cell_log =
     map (\<lambda>i. let sz = ucast (push_bit (unat cell_log) (word_of_nat i + 1 :: u32));
                  ticks = saturating_mul64 sz 1000000000 div rate_bytes_per_sec in
              to_u32 ticks) [0..<256]"

definition rate_table_bytes :: "u32 list \<Rightarrow> bytes" where
  "rate_table_bytes tab = concat (map ne32 tab)"

subsection \<open>Encoders\<close>

abbreviation (input) TC_FLAGS :: u16 where
  "TC_FLAGS \<equiv> NLM_F_REQUEST OR NLM_F_ACK OR NLM_F_CREATE OR NLM_F_REPLACE"

text \<open>\<open>i32::try_from(ifindex).expect(..)\<close> in front of every header.\<close>

definition push_tcmsg :: "u32 \<Rightarrow> u32 \<Rightarrow> u32 \<Rightarrow> u32 \<Rightarrow> message_buf \<Rightarrow> message_buf option" where
  "push_tcmsg ifindex hdl parent info buf =
     (if unat ifindex < 2 ^ 31
      then Some (push_struct (tcmsg_bytes \<lparr>tcm_ifindex = ifindex, tcm_handle = hdl, tcm_parent = parent, tcm_info = info\<rparr>) buf)
      else None)"

definition encode_htb_root :: "u32 \<Rightarrow> u32 \<Rightarrow> message_buf option" where
  "encode_htb_root seq ifindex = do {
     buf \<leftarrow> push_tcmsg ifindex (tc_handle 1 0) TC_H_ROOT 0 (message_new RTM_NEWQDISC TC_FLAGS seq);
     buf \<leftarrow> push_attr_bytes TCA_KIND KIND_HTB buf;
     buf \<leftarrow> push_attr_bytes TCA_HTB_INIT (ne32 HTB_VER @ ne32 10 @ ne32 1 @ ne32 0 @ ne32 0) (nest_begin TCA_OPTIONS buf);
     buf \<leftarrow> nest_end buf;
     finalize buf
   }"

definition htb_opt_of :: "rate_spec \<Rightarrow> u8 option \<Rightarrow> tc_htb_opt" where
  "htb_opt_of spec priority =
     (let rate = rate_bps spec div 8;
          ceil = (case burst_rate_bps spec of Some b \<Rightarrow> b | None \<Rightarrow> rate_bps spec) div 8;
          mtu = 1500;
          rate32 = (if to_u32 rate = 0 then 1 else to_u32 rate);
          ceil32 = (if to_u32 ceil = 0 then rate32 else to_u32 ceil) in
      \<lparr>ho_rate = \<lparr>tr_cell_log = 0, tr_linklayer = 1, tr_overhead = 0, tr_cell_align = 0, tr_mpu = 0, tr_rate = rate32\<rparr>,
       ho_ceil = \<lparr>tr_cell_log = 0, tr_linklayer = 1, tr_overhead = 0, tr_cell_align = 0, tr_mpu = 0, tr_rate = ceil32\<rparr>,
       ho_buffer = saturating_burst_bytes rate mtu, ho_cbuffer = saturating_burst_bytes ceil mtu,
       ho_quantum = 0, ho_level = 0, ho_prio = (case priority of Some p \<Rightarrow> ucast p | None \<Rightarrow> 0)\<rparr>)"

definition encode_htb_leaf :: "u32 \<Rightarrow> u32 \<Rightarrow> rate_spec \<Rightarrow> u8 option \<Rightarrow> message_buf option" where
  "encode_htb_leaf seq ifindex spec priority = do {
     buf \<leftarrow> push_tcmsg ifindex (tc_handle 1 1) (tc_handle 1 0) 0 (message_new RTM_NEWTCLASS TC_FLAGS seq);
     buf \<leftarrow> push_attr_bytes TCA_KIND KIND_HTB buf;
     buf \<leftarrow> push_attr_bytes TCA_HTB_PARMS (tc_htb_opt_bytes (htb_opt_of spec priority)) (nest_begin TCA_OPTIONS buf);
     buf \<leftarrow> push_attr_bytes TCA_HTB_RATE64 (ne64 (rate_bps spec div 8)) buf;
     buf \<leftarrow> push_attr_bytes TCA_HTB_CEIL64
              (ne64 ((case burst_rate_bps spec of Some b \<Rightarrow> b | None \<Rightarrow> rate_bps spec) div 8)) buf;
     buf \<leftarrow> nest_end buf;
     finalize buf
   }"

definition encode_ingress_qdisc :: "u32 \<Rightarrow> u32 \<Rightarrow> message_buf option" where
  "encode_ingress_qdisc seq ifindex = do {
     buf \<leftarrow> push_tcmsg ifindex (tc_handle 0xFFFF 0) TC_H_INGRESS 0 (message_new RTM_NEWQDISC TC_FLAGS seq);
     buf \<leftarrow> push_attr_bytes TCA_KIND KIND_INGRESS buf;
     finalize buf
   }"

definition police_of :: "rate_spec \<Rightarrow> tc_police" where
  "police_of spec =
     (let rate = rate_bps spec div 8;
          mtu = 1500;
          burst_ticks = burst_bytes_to_psched_ticks (saturating_ingress_burst_bytes rate mtu) rate;
          rate32 = (if to_u32 rate = 0 then 1 else to_u32 rate) in
      \<lparr>po_index = 0, po_action = TC_ACT_SHOT, po_limit = 0, po_burst = burst_ticks, po_mtu = mtu,
       po_rate = \<lparr>tr_cell_log = compute_cell_log mtu, tr_linklayer = 0, tr_overhead = 0, tr_cell_align = - 1, tr_mpu = 0,
         tr_rate = rate32\<rparr>,
       po_peakrate = \<lparr>tr_cell_log = 0, tr_linklayer = 0, tr_overhead = 0, tr_cell_align = 0, tr_mpu = 0, tr_rate = 0\<rparr>,
       po_refcnt = 0, po_bindcnt = 0, po_capab = 0\<rparr>)"

definition police_rate_table :: "rate_spec \<Rightarrow> u32 list" where
  "police_rate_table spec = compute_rate_table (max (rate_bps spec div 8) 1) (compute_cell_log 1500)"

definition to_be16 :: "u16 \<Rightarrow> u16" where
  "to_be16 w = push_bit 8 w OR drop_bit 8 w"

text \<open>The priority in the upper half of the information word, the ethertype in network order in the lower.\<close>

definition encode_ingress_police_filter :: "u32 \<Rightarrow> u32 \<Rightarrow> rate_spec \<Rightarrow> message_buf option" where
  "encode_ingress_police_filter seq ifindex spec = do {
     buf \<leftarrow> push_tcmsg ifindex 0 (tc_handle 0xFFFF 0) (push_bit 16 1 OR ucast (to_be16 ETH_P_ALL))
              (message_new RTM_NEWTFILTER TC_FLAGS seq);
     buf \<leftarrow> push_attr_bytes TCA_KIND KIND_U32 buf;
     buf \<leftarrow> push_attr_bytes TCA_U32_SEL ([TC_U32_TERMINAL, 0, 0, 0] @ ne16 0 @ ne16 0 @ ne16 0 @ ne16 0 @ ne32 0)
              (nest_begin TCA_OPTIONS buf);
     buf \<leftarrow> push_attr_bytes TCA_POLICE_TBF (tc_police_bytes (police_of spec)) (nest_begin TCA_U32_POLICE buf);
     buf \<leftarrow> push_attr_bytes TCA_POLICE_RATE (rate_table_bytes (police_rate_table spec)) buf;
     buf \<leftarrow> push_attr_bytes TCA_POLICE_RATE64 (ne64 (rate_bps spec div 8)) buf;
     buf \<leftarrow> nest_end buf;
     buf \<leftarrow> nest_end buf;
     finalize buf
   }"

subsection \<open>The shaper\<close>

datatype shape_error = ShapeNetlink nat | ShapeKernel string u32

type_synonym 'k shape_result = "(shape_error, 'k) route_result"

definition tc_open :: "nat + 'k \<Rightarrow> shape_error + 'k route_client" where
  "tc_open sock = (case sock of Inl e \<Rightarrow> Inl (ShapeNetlink e) | Inr k \<Rightarrow> Inr (route_open k))"

definition tc_exchange :: "'k route_kernel \<Rightarrow> string \<Rightarrow> message_buf \<Rightarrow> 'k route_client \<Rightarrow> 'k shape_result" where
  "tc_exchange K op buf s =
     (case rk_send K (mb_bytes buf) (rc_kernel s) of
        (Inl e, k) \<Rightarrow> Some (Inl (ShapeNetlink e), s\<lparr>rc_kernel := k\<rparr>)
      | (Inr _, k) \<Rightarrow>
          (case rk_recv K k of
             (None, _) \<Rightarrow> None
           | (Some (Inl e), k) \<Rightarrow> Some (Inl (ShapeNetlink e), s\<lparr>rc_kernel := k\<rparr>)
           | (Some (Inr received), k) \<Rightarrow>
               Some (case drain_acks (take 4096 received) {mb_seq buf} of
                       Inr remaining \<Rightarrow> if remaining = {} then Inr () else Inl (ShapeNetlink 0)
                     | Inl DrainTruncated \<Rightarrow> Inl (ShapeNetlink 0)
                     | Inl (DrainKernel errno) \<Rightarrow> Inl (ShapeKernel op errno), s\<lparr>rc_kernel := k\<rparr>)))"

text \<open>One \<open>install_\<close> method: the sequence number is taken, the request built and exchanged.\<close>

definition tc_install :: "'k route_kernel \<Rightarrow> string \<Rightarrow> (u32 \<Rightarrow> message_buf option) \<Rightarrow> 'k route_client \<Rightarrow> 'k shape_result" where
  "tc_install = route_install tc_exchange"

definition shaper_clear :: "'k route_client \<Rightarrow> 'k shape_result" where
  "shaper_clear s = Some (Inr (), s)"

definition shaper_apply :: "'k route_kernel \<Rightarrow> u32 \<Rightarrow> shaping_policy \<Rightarrow> 'k route_client \<Rightarrow> 'k shape_result" where
  "shaper_apply K ifindex policy s =
     (if shaping_is_empty policy then shaper_clear s
      else
        route_then
          (case sh_egress policy of
             None \<Rightarrow> Some (Inr (), s)
           | Some eg \<Rightarrow>
               route_then (tc_install K ''RTM_NEWQDISC(htb root)'' (\<lambda>seq. encode_htb_root seq ifindex) s) (\<lambda>s.
               tc_install K ''RTM_NEWTCLASS(htb leaf)'' (\<lambda>seq. encode_htb_leaf seq ifindex eg (sh_priority policy)) s)) (\<lambda>s.
        case sh_ingress policy of
          None \<Rightarrow> Some (Inr (), s)
        | Some ing \<Rightarrow>
            route_then (tc_install K ''RTM_NEWQDISC(ingress)'' (\<lambda>seq. encode_ingress_qdisc seq ifindex) s) (\<lambda>s.
            tc_install K ''RTM_NEWTFILTER(u32+police)'' (\<lambda>seq. encode_ingress_police_filter seq ifindex ing) s)))"

subsection \<open>Arithmetic\<close>

lemma unat_to_u32: "unat (to_u32 v) = min (unat v) (2 ^ 32 - 1)"
proof -
  have "unat (min v 0xFFFFFFFF) = min (unat v) 0xFFFFFFFF" by (simp add: min_def word_le_nat_alt)
  then show ?thesis by (simp add: to_u32_def unsigned_ucast_eq take_bit_nat_def)
qed

lemma to_u32_0: "to_u32 v = 0 \<longleftrightarrow> unat v = 0"
  using unat_to_u32 [of v] unat_eq_zero [of "to_u32 v"] by (cases "unat v \<le> 4294967295") auto

lemma unat_saturating_burst_bytes: "unat (saturating_burst_bytes r mtu) = min (unat r div 1000 + unat mtu) (2 ^ 32 - 1)"
proof -
  have "unat r div 1000 + unat mtu < 2 ^ 64"
  proof -
    have "unat r < 2 ^ 64" using unsigned_less [of r] by simp
    then have "unat r div 1000 < 9223372036854775808" by (intro less_mult_imp_div_less) simp
    then have "unat r div 1000 + unat mtu < 18446744073709551616" using unat_u32_less [of mtu] by linarith
    then show ?thesis by simp
  qed
  then show ?thesis
    by (simp add: saturating_burst_bytes_def Let_def unat_to_u32 unat_div_distrib unat_word_ariths unsigned_ucast_eq take_bit_nat_def)
qed

lemma unat_saturating_ingress_burst_bytes:
  "unat (saturating_ingress_burst_bytes r mtu) = min (max (unat r div 100) (unat mtu * 10)) (2 ^ 32 - 1)"
proof -
  have "unat mtu * 10 < 18446744073709551616" using unat_u32_less [of mtu] by linarith
  then have lt: "unat mtu * 10 < 2 ^ 64" by simp
  then have "unat (ucast mtu * 10 :: u64) = unat mtu * 10"
    by (simp add: unat_word_ariths unsigned_ucast_eq take_bit_nat_def)
  moreover have "unat (max a b) = max (unat a) (unat b)" for a b :: u64 by (simp add: max_def word_le_nat_alt)
  ultimately show ?thesis
    using lt
    by (simp add: saturating_ingress_burst_bytes_def Let_def unat_to_u32 unat_div_distrib)
qed

lemma unat_mul_giga:
  assumes "unat (w :: u64) < 2 ^ 32"
  shows "unat (w * 1000000000) = unat w * 1000000000"
  using assms by (simp add: unat_word_ariths)

lemma unat_ucast_u32_u64: "unat (ucast (w :: u32) :: u64) = unat w"
proof -
  have "unat w < 18446744073709551616" using unat_u32_less [of w] by linarith
  then show ?thesis by (simp add: unsigned_ucast_eq take_bit_nat_def)
qed

lemma unat_psched_ticks:
  assumes "r \<noteq> 0"
  shows "unat (burst_bytes_to_psched_ticks b r) = min (unat b * 1000000000 div unat r) (2 ^ 32 - 1)"
  using assms unat_u32_less [of b] unat_mul_giga [of "ucast b"]
  by (simp add: burst_bytes_to_psched_ticks_def unat_to_u32 unat_div_distrib unat_ucast_u32_u64)

text \<open>The cell len: the loop stops at the first exponent that brings the largest packet below 256 cells.\<close>

lemma cell_log_loop_spec:
  "mtu div 2 ^ cell_log_loop mtu n \<le> 255 \<and> n \<le> cell_log_loop mtu n \<and> (\<forall>k. n \<le> k \<and> k < cell_log_loop mtu n \<longrightarrow> 255 < mtu div 2 ^ k)"
proof (induction mtu n rule: cell_log_loop.induct)
  case (1 mtu n)
  show ?case
  proof (cases "255 < mtu div 2 ^ n")
    case True
    with 1 have "mtu div 2 ^ cell_log_loop mtu (n + 1) \<le> 255" "n + 1 \<le> cell_log_loop mtu (n + 1)"
      "\<forall>k. n + 1 \<le> k \<and> k < cell_log_loop mtu (n + 1) \<longrightarrow> 255 < mtu div 2 ^ k" by blast+
    moreover have "cell_log_loop mtu n = cell_log_loop mtu (n + 1)" using True by (subst cell_log_loop.simps) simp
    ultimately show ?thesis using True by (metis Suc_eq_plus1 Suc_leD Suc_leI le_neq_implies_less)
  qed (subst cell_log_loop.simps, simp)+
qed

lemma cell_log_bound:
  assumes "mtu < 2 ^ 31"
  shows "cell_log_loop mtu 0 \<le> 23"
proof (rule ccontr)
  assume "\<not> ?thesis"
  then have "23 < cell_log_loop mtu 0" by simp
  with cell_log_loop_spec [of mtu 0] have "255 < mtu div 2 ^ 23" by blast
  moreover have "mtu div 2 ^ 23 < 256" using assms by (simp add: less_mult_imp_div_less)
  ultimately show False by simp
qed

lemma unat_compute_cell_log:
  assumes "0 < unat mtu" and "unat mtu < 2 ^ 31"
  shows "unat (compute_cell_log mtu) = max 1 (cell_log_loop (unat mtu) 0)"
proof -
  from assms(1) have "mtu \<noteq> 0" by auto
  with cell_log_bound [OF assms(2)] show ?thesis by (simp add: compute_cell_log_def unat_of_nat_u8)
qed

text \<open>The cell of a packet, and what the table says about it.\<close>

definition cell_of :: "u8 \<Rightarrow> nat \<Rightarrow> nat" where
  "cell_of cell_log len = (len - 1) div 2 ^ unat cell_log"

lemma cell_of_bounds:
  assumes "0 < len" and "len \<le> unat mtu" and "unat mtu < 2 ^ 31"
  shows "cell_of (compute_cell_log mtu) len < 256"
    "len \<le> (cell_of (compute_cell_log mtu) len + 1) * 2 ^ unat (compute_cell_log mtu)"
    "(cell_of (compute_cell_log mtu) len + 1) * 2 ^ unat (compute_cell_log mtu) < len + 2 ^ unat (compute_cell_log mtu)"
proof -
  let ?n = "cell_log_loop (unat mtu) 0" and ?c = "2 ^ unat (compute_cell_log mtu) :: nat"
  have cl: "unat (compute_cell_log mtu) = max 1 ?n" using assms by (intro unat_compute_cell_log) auto
  have "(len - 1) div ?c \<le> unat mtu div ?c" using assms by (intro div_le_mono) simp
  also have "\<dots> \<le> unat mtu div 2 ^ ?n" unfolding cl by (intro div_le_mono2 power_increasing) auto
  also have "\<dots> \<le> 255" using cell_log_loop_spec [of "unat mtu" 0] by blast
  finally show "cell_of (compute_cell_log mtu) len < 256" by (simp add: cell_of_def)
  have "len - 1 = (len - 1) div ?c * ?c + (len - 1) mod ?c" "(len - 1) mod ?c < ?c"
    by (rule div_mult_mod_eq [symmetric], simp)
  with assms(1) show "len \<le> (cell_of (compute_cell_log mtu) len + 1) * ?c"
      "(cell_of (compute_cell_log mtu) len + 1) * ?c < len + ?c"
    unfolding cell_of_def distrib_right mult_1 by linarith+
qed

lemma rate_table_entry:
  assumes "i < 256" and "unat cell_log \<le> 23" and "r \<noteq> 0"
  shows "unat (compute_rate_table r cell_log ! i) = min ((i + 1) * 2 ^ unat cell_log * 1000000000 div unat r) (2 ^ 32 - 1)"
proof -
  let ?sz = "push_bit (unat cell_log) (word_of_nat i + 1 :: u32)"
  have "(i + 1) * 2 ^ unat cell_log \<le> 256 * 2 ^ 23" using assms by (intro mult_mono power_increasing) simp_all
  then have lt: "(i + 1) * 2 ^ unat cell_log < 2 ^ 32" by simp
  have "?sz = word_of_nat ((i + 1) * 2 ^ unat cell_log)" by (simp add: push_bit_eq_mult algebra_simps)
  with lt have sz: "unat ?sz = (i + 1) * 2 ^ unat cell_log" using unat_of_nat_u32 [of "(i + 1) * 2 ^ unat cell_log"] by simp
  then have "unat (ucast ?sz :: u64) = (i + 1) * 2 ^ unat cell_log" by (simp only: unat_ucast_u32_u64)
  moreover from this lt have "unat (saturating_mul64 (ucast ?sz) 1000000000) = (i + 1) * 2 ^ unat cell_log * 1000000000"
    using unat_mul_giga [of "ucast ?sz"] by (simp add: saturating_mul64_def)
  ultimately show ?thesis
    using assms(1) by (simp add: compute_rate_table_def Let_def unat_to_u32 unat_div_distrib)
qed

subsection \<open>What the requests say\<close>

definition req_root :: "u32 \<Rightarrow> route_request" where
  "req_root ifindex =
     \<lparr>rq_type = RTM_NEWQDISC,
      rq_flags = TC_FLAGS,
      rq_hdr = tcmsg_bytes \<lparr>tcm_ifindex = ifindex, tcm_handle = tc_handle 1 0, tcm_parent = TC_H_ROOT, tcm_info = 0\<rparr>,
      rq_attrs = [Flat TCA_KIND KIND_HTB,
        Nest TCA_OPTIONS [Flat TCA_HTB_INIT (ne32 HTB_VER @ ne32 10 @ ne32 1 @ ne32 0 @ ne32 0)]]\<rparr>"

definition req_leaf :: "u32 \<Rightarrow> rate_spec \<Rightarrow> u8 option \<Rightarrow> route_request" where
  "req_leaf ifindex spec priority =
     \<lparr>rq_type = RTM_NEWTCLASS,
      rq_flags = TC_FLAGS,
      rq_hdr = tcmsg_bytes \<lparr>tcm_ifindex = ifindex, tcm_handle = tc_handle 1 1, tcm_parent = tc_handle 1 0, tcm_info = 0\<rparr>,
      rq_attrs = [Flat TCA_KIND KIND_HTB,
        Nest TCA_OPTIONS [Flat TCA_HTB_PARMS (tc_htb_opt_bytes (htb_opt_of spec priority)),
          Flat TCA_HTB_RATE64 (ne64 (rate_bps spec div 8)),
          Flat TCA_HTB_CEIL64 (ne64 ((case burst_rate_bps spec of Some b \<Rightarrow> b | None \<Rightarrow> rate_bps spec) div 8))]]\<rparr>"

definition req_ingress :: "u32 \<Rightarrow> route_request" where
  "req_ingress ifindex =
     \<lparr>rq_type = RTM_NEWQDISC,
      rq_flags = TC_FLAGS,
      rq_hdr = tcmsg_bytes \<lparr>tcm_ifindex = ifindex, tcm_handle = tc_handle 0xFFFF 0, tcm_parent = TC_H_INGRESS, tcm_info = 0\<rparr>,
      rq_attrs = [Flat TCA_KIND KIND_INGRESS]\<rparr>"

definition req_police :: "u32 \<Rightarrow> rate_spec \<Rightarrow> route_request" where
  "req_police ifindex spec =
     \<lparr>rq_type = RTM_NEWTFILTER,
      rq_flags = TC_FLAGS,
      rq_hdr = tcmsg_bytes \<lparr>tcm_ifindex = ifindex, tcm_handle = 0, tcm_parent = tc_handle 0xFFFF 0, tcm_info = 0x10300\<rparr>,
      rq_attrs = [Flat TCA_KIND KIND_U32,
        Nest TCA_OPTIONS [Flat TCA_U32_SEL ([TC_U32_TERMINAL, 0, 0, 0] @ ne16 0 @ ne16 0 @ ne16 0 @ ne16 0 @ ne32 0),
          Nest TCA_U32_POLICE [Flat TCA_POLICE_TBF (tc_police_bytes (police_of spec)),
            Flat TCA_POLICE_RATE (rate_table_bytes (police_rate_table spec)),
            Flat TCA_POLICE_RATE64 (ne64 (rate_bps spec div 8))]]]\<rparr>"

text \<open>What a policy asks for, with the name of each step in error reports.\<close>

definition tc_plan :: "u32 \<Rightarrow> shaping_policy \<Rightarrow> (string \<times> route_request) list" where
  "tc_plan ifindex policy =
     (case sh_egress policy of None \<Rightarrow> []
      | Some eg \<Rightarrow> [(''RTM_NEWQDISC(htb root)'', req_root ifindex),
                    (''RTM_NEWTCLASS(htb leaf)'', req_leaf ifindex eg (sh_priority policy))])
     @ (case sh_ingress policy of None \<Rightarrow> []
        | Some ing \<Rightarrow> [(''RTM_NEWQDISC(ingress)'', req_ingress ifindex),
                       (''RTM_NEWTFILTER(u32+police)'', req_police ifindex ing)])"

lemma length_tcmsg_bytes [simp]: "length (tcmsg_bytes h) = 20"
  by (simp add: tcmsg_bytes_def)

lemma length_structs [simp]: "length (ne64 w) = 8" "length (tc_ratespec_bytes r) = 12" "length (tc_htb_opt_bytes h) = 44"
  "length (tc_police_bytes p) = 56" "length (rate_table_bytes (police_rate_table spec)) = 1024"
proof -
  have "length (rate_table_bytes tab) = 4 * length tab" for tab by (induction tab) (simp_all add: rate_table_bytes_def)
  then show "length (rate_table_bytes (police_rate_table spec)) = 1024"
    by (simp add: police_rate_table_def compute_rate_table_def)
qed (simp_all add: ne64_def tc_ratespec_bytes_def tc_htb_opt_bytes_def tc_police_bytes_def)

lemmas tc_trees = push_tree_Cons push_tree_Flat push_tree_Nest push_tcmsg_def ascii_def hdr_len_def

lemma encoders_say:
  assumes "unat ifindex < 2 ^ 31"
  shows "says (\<lambda>seq. encode_htb_root seq ifindex) (req_root ifindex)"
    "says (\<lambda>seq. encode_htb_leaf seq ifindex spec priority) (req_leaf ifindex spec priority)"
    "says (\<lambda>seq. encode_ingress_qdisc seq ifindex) (req_ingress ifindex)"
    "says (\<lambda>seq. encode_ingress_police_filter seq ifindex spec) (req_police ifindex spec)"
  using assms
  apply -
  subgoal by (rule says_tree) (simp_all add: encode_htb_root_def req_root_def tc_trees)
  subgoal by (rule says_tree) (simp_all add: encode_htb_leaf_def req_leaf_def tc_trees)
  subgoal by (rule says_tree) (simp_all add: encode_ingress_qdisc_def req_ingress_def tc_trees)
  subgoal by (rule says_tree) (simp_all add: encode_ingress_police_filter_def req_police_def tc_trees to_be16_def)
  done

subsection \<open>The exchange\<close>

fun shape_refusal :: "shape_error \<Rightarrow> string option" where
  "shape_refusal (ShapeKernel op errno) = Some op"
| "shape_refusal (ShapeNetlink e) = None"

interpretation tc: acked_exchange tc_exchange shape_refusal
  by unfold_locales (auto simp: tc_exchange_def drain_acks_one)

subsection \<open>Applying a policy\<close>

definition tc_steps :: "u32 \<Rightarrow> shaping_policy \<Rightarrow> (string \<times> (u32 \<Rightarrow> message_buf option)) list" where
  "tc_steps ifindex policy =
     (case sh_egress policy of None \<Rightarrow> []
      | Some eg \<Rightarrow> [(''RTM_NEWQDISC(htb root)'', \<lambda>seq. encode_htb_root seq ifindex),
                    (''RTM_NEWTCLASS(htb leaf)'', \<lambda>seq. encode_htb_leaf seq ifindex eg (sh_priority policy))])
     @ (case sh_ingress policy of None \<Rightarrow> []
        | Some ing \<Rightarrow> [(''RTM_NEWQDISC(ingress)'', \<lambda>seq. encode_ingress_qdisc seq ifindex),
                       (''RTM_NEWTFILTER(u32+police)'', \<lambda>seq. encode_ingress_police_filter seq ifindex ing)])"

lemma shaper_apply_steps: "shaper_apply K ifindex policy s = run_steps tc_exchange K (tc_steps ifindex policy) s"
  by (auto simp: shaper_apply_def tc_steps_def shaper_clear_def shaping_is_empty_def route_then_assoc run_steps_fun tc_install_def
      simp del: run_steps.simps split: option.split)

lemma steps_say:
  assumes "unat ifindex < 2 ^ 31"
  shows "plan_of (tc_steps ifindex policy) (tc_plan ifindex policy)"
  using encoders_say [OF assms] by (simp add: plan_of_def tc_steps_def tc_plan_def split: option.split)

subsection \<open>The properties\<close>

lemma mtu_1500: "unat (1500 :: u32) = 1500" "compute_cell_log 1500 = 3"
  by (simp, simp add: compute_cell_log_def cell_log_loop.simps)

lemma unat_div_8: "unat (w div 8 :: u64) = unat w div 8"
  by (simp add: unat_div_distrib)

text \<open>Bytes per second, and the largest value of 32 bits.\<close>

definition byte_rate :: "rate_spec \<Rightarrow> nat" where
  "byte_rate spec = unat (rate_bps spec) div 8"

definition byte_ceil :: "rate_spec \<Rightarrow> nat" where
  "byte_ceil spec = unat (case burst_rate_bps spec of Some b \<Rightarrow> b | None \<Rightarrow> rate_bps spec) div 8"

definition u32_max :: nat where
  "u32_max = 2 ^ 32 - 1"

lemma rate_words:
  "unat (rate_bps spec div 8) = byte_rate spec"
  "unat ((case burst_rate_bps spec of Some b \<Rightarrow> b | None \<Rightarrow> rate_bps spec) div 8) = byte_ceil spec"
  by (simp_all add: byte_rate_def byte_ceil_def unat_div_8)

lemmas unat_max_rules = unat_to_u32 [folded u32_max_def] unat_saturating_burst_bytes [folded u32_max_def]
  unat_saturating_ingress_burst_bytes [folded u32_max_def] unat_psched_ticks [folded u32_max_def] rate_words

lemma rate32_of: "unat (if to_u32 v = 0 then 1 else to_u32 v) = max 1 (min (unat v) u32_max)"
  by (cases "unat v = 0") (auto simp: to_u32_0 unat_to_u32 u32_max_def)

lemma htb_numbers:
  "unat (tr_rate (ho_rate (htb_opt_of spec priority))) = max 1 (min (byte_rate spec) u32_max)"
  "unat (tr_rate (ho_ceil (htb_opt_of spec priority))) =
     (if byte_ceil spec = 0 then max 1 (min (byte_rate spec) u32_max) else min (byte_ceil spec) u32_max)"
  "unat (ho_buffer (htb_opt_of spec priority)) = min (byte_rate spec div 1000 + 1500) u32_max"
  "unat (ho_cbuffer (htb_opt_of spec priority)) = min (byte_ceil spec div 1000 + 1500) u32_max"
  using rate32_of [of "rate_bps spec div 8"]
  by (simp_all add: htb_opt_of_def Let_def unat_max_rules to_u32_0 del: unat_eq_zero)

lemma police_cell_log: "tr_cell_log (po_rate (police_of spec)) = compute_cell_log 1500"
  by (simp add: police_of_def Let_def)

lemma police_rate: "unat (tr_rate (po_rate (police_of spec))) = max 1 (min (byte_rate spec) u32_max)"
  using rate32_of [of "rate_bps spec div 8"] by (simp add: police_of_def Let_def rate_words)

lemma police_burst:
  "unat (po_burst (police_of spec)) =
     (if byte_rate spec = 0 then u32_max
      else min (min (max (byte_rate spec div 100) 15000) u32_max * 1000000000 div byte_rate spec) u32_max)"
proof (cases "rate_bps spec div 8 = 0")
  case True
  then have "byte_rate spec = 0" using rate_words(1) [of spec] by simp
  with True show ?thesis by (simp add: police_of_def Let_def burst_bytes_to_psched_ticks_def u32_max_def)
next
  case False
  then have "byte_rate spec \<noteq> 0" using rate_words(1) [of spec] by (metis unat_eq_zero)
  with False show ?thesis by (simp add: police_of_def Let_def unat_max_rules)
qed

lemma police_table:
  assumes "i < 256"
  shows "unat (police_rate_table spec ! i) =
    min ((i + 1) * 2 ^ unat (compute_cell_log 1500) * 1000000000 div max (byte_rate spec) 1) u32_max"
proof -
  have r: "unat (max (rate_bps spec div 8) 1) = max (byte_rate spec) 1"
    using rate_words(1) [of spec] by (simp add: max_def word_le_nat_alt)
  then have "max (rate_bps spec div 8) 1 \<noteq> 0" by (metis max.cobounded2 not_one_le_zero unat_0)
  from rate_table_entry [OF assms _ this, of "compute_cell_log 1500"] show ?thesis
    unfolding police_rate_table_def r u32_max_def by (simp add: mtu_1500(2))
qed

text \<open>
  C29 (functional).  Applying a policy to an interface installs what the policy says.  Whatever the
  kernel refuses and whichever call fails, \<open>apply\<close> neither panics nor waits forever.  If it reports
  success, the requests that took effect are, in this order, for traffic to the client the root
  discipline and its class with the rates of the policy, for traffic from the client the ingress
  discipline and the policer, each as the kernel reads it from the bytes sent, and nothing for a
  direction without a rate.  If it reports a refusal, it names the request refused and exactly those
  before it took effect; after a failed socket call a prefix of the requests took effect.
\<close>

theorem shape_apply_installs:
  assumes "route_contract K ready view" and "ready (rc_kernel s)" and "unat ifindex < 2 ^ 31"
  shows "\<exists>r s'. shaper_apply K ifindex policy s = Some (r, s')
    \<and> installed shape_refusal ready view (tc_plan ifindex policy) (rc_kernel s) r (rc_kernel s')"
  unfolding shaper_apply_steps by (rule tc.run_steps_installed [OF assms(1) steps_say [OF assms(3)] assms(2)])

theorem shape_apply_installs_witness:
  "let spec = \<lparr>rate_bps = 8000000, burst_rate_bps = None, burst_threshold_bps = None, burst_time_secs = None, min_rate_bps = None\<rparr>;
       policy = \<lparr>sh_egress = Some spec, sh_ingress = Some spec, sh_priority = Some 3\<rparr> in
   length (tc_plan 5 policy) = 4 \<and> tc_open (Inr ([], None)) = Inr (route_open ([] :: route_request list, None :: bytes option)) \<and>
   (\<exists>r s'. shaper_apply (log_kernel (\<lambda>q. rq_type q = RTM_NEWTFILTER)) 5 policy (route_open ([], None)) = Some (r, s')
      \<and> installed shape_refusal (\<lambda>k. snd k = None) fst (tc_plan 5 policy) ([], None) r (rc_kernel s'))"
  using shape_apply_installs [OF log_kernel_contract, of "route_open ([], None)" 5]
  by (simp add: Let_def tc_plan_def route_open_def tc_open_def)

text \<open>
  C31 (bounds).  The numbers in the requests.  With \<open>r\<close> and \<open>c\<close> the rate and the burst rate in bytes per
  second, the class and the policer get \<open>r\<close> cut to 32 bits and never zero, the class gets \<open>c\<close> as its
  ceiling, or its rate if \<open>c\<close> is zero; the bursts are a millisecond and a packet, and ten milliseconds
  but at least ten packets, the latter as the time it takes at rate \<open>r\<close>; no multiplication wraps.  Each
  packet of up to 1500 bytes has a cell in the rate table, the cell is less than one cell size larger
  than the packet, and the entry is the time for that size.
\<close>

theorem shape_rates:
  assumes "0 < len" and "len \<le> 1500"
  shows "let r = byte_rate spec; c = byte_ceil spec; h = htb_opt_of spec priority; p = police_of spec;
             cell = 2 ^ unat (tr_cell_log (po_rate p)); i = cell_of (tr_cell_log (po_rate p)) len in
    unat (tr_rate (ho_rate h)) = max 1 (min r u32_max)
    \<and> unat (tr_rate (ho_ceil h)) = (if c = 0 then max 1 (min r u32_max) else min c u32_max)
    \<and> unat (ho_buffer h) = min (r div 1000 + 1500) u32_max \<and> unat (ho_cbuffer h) = min (c div 1000 + 1500) u32_max
    \<and> unat (tr_rate (po_rate p)) = max 1 (min r u32_max)
    \<and> unat (po_burst p) = (if r = 0 then u32_max else min (min (max (r div 100) 15000) u32_max * 1000000000 div r) u32_max)
    \<and> i < 256 \<and> len \<le> (i + 1) * cell \<and> (i + 1) * cell < len + cell
    \<and> unat (police_rate_table spec ! i) = min ((i + 1) * cell * 1000000000 div max r 1) u32_max"
proof -
  have m: "len \<le> unat (1500 :: u32)" "unat (1500 :: u32) < 2 ^ 31" using assms(2) by simp_all
  note cells = cell_of_bounds [OF assms(1) m]
  show ?thesis
    unfolding Let_def police_cell_log by (intro conjI htb_numbers police_rate police_burst cells police_table)
qed

theorem shape_rates_witness:
  "let spec = \<lparr>rate_bps = 8000000, burst_rate_bps = None, burst_threshold_bps = None, burst_time_secs = None, min_rate_bps = None\<rparr> in
   unat (po_burst (police_of spec)) = 15000000 \<and> unat (police_rate_table spec ! 187) = 1504000"
proof -
  let ?spec = "\<lparr>rate_bps = 8000000, burst_rate_bps = None, burst_threshold_bps = None, burst_time_secs = None, min_rate_bps = None\<rparr>"
  have "tr_cell_log (po_rate (police_of ?spec)) = 3" by (simp add: police_of_def Let_def mtu_1500)
  with shape_rates [of 1500 ?spec None] show ?thesis by (simp add: Let_def cell_of_def byte_rate_def u32_max_def)
qed

end
