(* ===== verification/Sstp_Preamble.thy ===== *)
theory Sstp_Preamble
  imports Interfaces
begin

text \<open>
  The HTTP preamble of \<open>src/src/sstp/preamble.rs\<close>: reading the header block and validating the
  \<open>SSTP_DUPLEX_POST\<close> request.  A socket read is a value of \<open>read_result\<close>, so that
  \<open>read_header_block\<close> consumes a list of them; \<open>None\<close> says that it still waits when the list
  ends.  Header text is a list of characters, one per ASCII byte.
\<close>

subsection \<open>Constants, results and text operations\<close>

definition SSTP_URI :: string where
  "SSTP_URI = ''/sra_{BA195980-CD49-458b-9E23-C84EE0ADCD75}/''"

definition SSTP_METHOD :: string where
  "SSTP_METHOD = ''SSTP_DUPLEX_POST''"

definition ULONGLONG_MAX_STR :: string where
  "ULONGLONG_MAX_STR = ''18446744073709551615''"

definition MAX_HEADER_BYTES :: nat where
  "MAX_HEADER_BYTES = 4096"

record preamble =
  correlation_id :: "string option"

datatype preamble_error = PreIo | PreEof nat | PreTooLarge | PreBad string

abbreviation CR :: char where "CR \<equiv> CHR 0x0D"
abbreviation LF :: char where "LF \<equiv> CHR 0x0A"

text \<open>\<open>str::split\<close> by the two-character pattern and by one character.\<close>

fun cons_first :: "'a \<Rightarrow> 'a list list \<Rightarrow> 'a list list" where
  "cons_first c [] = [[c]]"
| "cons_first c (l # ls) = (c # l) # ls"

fun split_crlf :: "string \<Rightarrow> string list" where
  "split_crlf [] = [[]]"
| "split_crlf [c] = [[c]]"
| "split_crlf (c1 # c2 # cs) =
     (if c1 = CR \<and> c2 = LF then [] # split_crlf cs else cons_first c1 (split_crlf (c2 # cs)))"

fun split_char :: "char \<Rightarrow> string \<Rightarrow> string list" where
  "split_char x [] = [[]]"
| "split_char x (c # cs) =
     (if c = x then [] # split_char x cs else cons_first c (split_char x cs))"

fun split_once :: "char \<Rightarrow> string \<Rightarrow> (string \<times> string) option" where
  "split_once x [] = None"
| "split_once x (c # cs) =
     (if c = x then Some ([], cs)
      else map_option (\<lambda>(a, b). (c # a, b)) (split_once x cs))"

definition is_ws :: "char \<Rightarrow> bool" where
  "is_ws c \<longleftrightarrow> c = CHR '' '' \<or> (9 \<le> (of_char c :: nat) \<and> (of_char c :: nat) \<le> 13)"

definition trim :: "string \<Rightarrow> string" where
  "trim s = rev (dropWhile is_ws (rev (dropWhile is_ws s)))"

definition to_lower :: "char \<Rightarrow> char" where
  "to_lower c =
     (if 65 \<le> (of_char c :: nat) \<and> (of_char c :: nat) \<le> 90 then char_of (of_char c + 32 :: nat) else c)"

definition eq_ignore_ascii_case :: "string \<Rightarrow> string \<Rightarrow> bool" where
  "eq_ignore_ascii_case a b \<longleftrightarrow> map to_lower a = map to_lower b"

subsection \<open>Reading the header block\<close>

function find_header_terminator :: "bytes \<Rightarrow> nat option" where
  "find_header_terminator buf =
     (if length buf < 4 then None
      else if take 4 buf = [0x0D, 0x0A, 0x0D, 0x0A] then Some 4
      else map_option Suc (find_header_terminator (tl buf)))"
  by pat_completeness auto
termination
  by (relation "measure length") auto

declare find_header_terminator.simps [simp del]

datatype read_result = ReadErr | ReadBytes bytes

fun read_header_block ::
    "bytes \<Rightarrow> read_result list \<Rightarrow> ((preamble_error + bytes) \<times> read_result list) option" where
  "read_header_block buf [] = None"
| "read_header_block buf (ReadErr # rs) = Some (Inl PreIo, rs)"
| "read_header_block buf (ReadBytes chunk # rs) =
     (if chunk = [] then Some (Inl (PreEof (length buf)), rs)
      else if length buf + length chunk > MAX_HEADER_BYTES then Some (Inl PreTooLarge, rs)
      else if find_header_terminator (buf @ chunk) \<noteq> None then Some (Inr (buf @ chunk), rs)
      else read_header_block (buf @ chunk) rs)"

subsection \<open>Parsing the request\<close>

fun parse_headers ::
    "string list \<Rightarrow> bool \<Rightarrow> string option \<Rightarrow> preamble_error + (bool \<times> string option)" where
  "parse_headers [] cl cid = Inr (cl, cid)"
| "parse_headers (line # rest) cl cid =
     (if line = [] then Inr (cl, cid)
      else case split_once CHR '':'' line of
          None \<Rightarrow> Inl (PreBad ''header missing colon'')
        | Some (name, value0) \<Rightarrow>
            let value = trim value0 in
            if eq_ignore_ascii_case name ''content-length'' then
              if value \<noteq> ULONGLONG_MAX_STR
              then Inl (PreBad ''Content-Length must be ULONGLONG_MAX'')
              else parse_headers rest True cid
            else if eq_ignore_ascii_case name ''sstpcorrelationid'' then
              parse_headers rest cl (if length value \<le> 64 then Some value else cid)
            else parse_headers rest cl cid)"

definition parse_request_line :: "string \<Rightarrow> preamble_error + unit" where
  "parse_request_line request_line =
     (case split_char CHR '' '' request_line of
        [] \<Rightarrow> Inl (PreBad ''missing method'')
      | [_] \<Rightarrow> Inl (PreBad ''missing URI'')
      | [_, _] \<Rightarrow> Inl (PreBad ''missing version'')
      | method # uri # version # parts \<Rightarrow>
          if parts \<noteq> [] then Inl (PreBad ''trailing tokens on request line'')
          else if method \<noteq> SSTP_METHOD then Inl (PreBad ''method must be SSTP_DUPLEX_POST'')
          else if uri \<noteq> SSTP_URI then Inl (PreBad ''URI must be the SSTP well-known path'')
          else if version \<noteq> ''HTTP/1.1'' then Inl (PreBad ''HTTP version must be 1.1'')
          else Inr ())"

definition text_of :: "bytes \<Rightarrow> string" where
  "text_of raw = map (\<lambda>b. char_of (unat b)) raw"

definition parse_request :: "bytes \<Rightarrow> preamble_error + preamble" where
  "parse_request raw =
     (if list_ex (\<lambda>b. b \<ge> 0x80) raw then Inl (PreBad ''non-ASCII byte in header block'')
      else case split_crlf (text_of raw) of
          [] \<Rightarrow> Inl (PreBad ''empty request'')
        | request_line # lines \<Rightarrow>
            try_bind (parse_request_line request_line) (\<lambda>_.
            try_bind (parse_headers lines False None) (\<lambda>(content_length_ok, cid).
              if \<not> content_length_ok then Inl (PreBad ''missing Content-Length header'')
              else Inr \<lparr>correlation_id = cid\<rparr>)))"

definition bytes_of :: "string \<Rightarrow> bytes" where
  "bytes_of s = map (\<lambda>c. of_char c) s"

definition error_response :: bytes where
  "error_response = bytes_of
     (''HTTP/1.1 400 Bad Request'' @ [CR, LF] @ ''Content-Length: 0'' @ [CR, LF] @
      ''Connection: close'' @ [CR, LF] @ [CR, LF])"

definition ok_response :: "string \<Rightarrow> bytes" where
  "ok_response date = bytes_of
     (''HTTP/1.1 200 OK'' @ [CR, LF] @ ''Content-Length: '' @ ULONGLONG_MAX_STR @ [CR, LF] @
      ''Server: Microsoft-HTTPAPI/2.0'' @ [CR, LF] @ ''Date: '' @ date @ [CR, LF] @ [CR, LF])"

text \<open>
  \<open>handshake\<close>: the result, the unread part of the stream, and the bytes written to it.  The
  date is the text the clock gives.
\<close>

definition handshake ::
    "string \<Rightarrow> read_result list \<Rightarrow> ((preamble_error + preamble) \<times> bytes \<times> read_result list) option" where
  "handshake date reads =
     (case read_header_block [] reads of
        None \<Rightarrow> None
      | Some (Inl e, rs) \<Rightarrow> Some (Inl e, [], rs)
      | Some (Inr raw, rs) \<Rightarrow>
          (case parse_request raw of
             Inl e \<Rightarrow> Some (Inl e, [], rs)
           | Inr p \<Rightarrow> Some (Inr p, ok_response date, rs)))"

subsection \<open>The reader\<close>

lemma find_header_terminator_bounds:
  "find_header_terminator buf = Some n \<Longrightarrow>
     4 \<le> n \<and> n \<le> length buf \<and> slice (n - 4) n buf = [0x0D, 0x0A, 0x0D, 0x0A]"
proof (induction buf arbitrary: n rule: find_header_terminator.induct)
  case (1 buf)
  show ?case
  proof (cases "length buf < 4 \<or> take 4 buf = [0x0D, 0x0A, 0x0D, 0x0A]")
    case True
    with "1.prems" show ?thesis
      by (subst (asm) find_header_terminator.simps) (auto simp: slice_def split: if_splits)
  next
    case False
    then obtain m where m: "find_header_terminator (tl buf) = Some m" "n = Suc m"
      using "1.prems" by (subst (asm) find_header_terminator.simps) auto
    from False obtain b bs where buf: "buf = b # bs" by (cases buf) auto
    from "1.IH" [OF _ _ m(1)] False m buf show ?thesis
      by (auto simp: slice_def drop_Cons')
  qed
qed

lemma find_header_terminator_first:
  "find_header_terminator buf = Some n \<Longrightarrow> i + 4 \<le> length buf \<Longrightarrow>
   slice i (i + 4) buf = [0x0D, 0x0A, 0x0D, 0x0A] \<Longrightarrow> n \<le> i + 4"
proof (induction buf arbitrary: n i rule: find_header_terminator.induct)
  case (1 buf)
  show ?case
  proof (cases "length buf < 4 \<or> take 4 buf = [0x0D, 0x0A, 0x0D, 0x0A]")
    case True
    with "1.prems" show ?thesis by (subst (asm) find_header_terminator.simps) (auto split: if_splits)
  next
    case False
    then obtain m where m: "find_header_terminator (tl buf) = Some m" "n = Suc m"
      using "1.prems" by (subst (asm) find_header_terminator.simps) auto
    from False "1.prems"(3) obtain j where i: "i = Suc j" by (cases i) (auto simp: slice_def)
    from False obtain b bs where buf: "buf = b # bs" by (cases buf) auto
    from "1.prems" i buf have "j + 4 \<le> length (tl buf)"
      "slice j (j + 4) (tl buf) = [0x0D, 0x0A, 0x0D, 0x0A]" by (auto simp: slice_def)
    from "1.IH" [OF _ _ m(1) this] False m i show ?thesis by simp
  qed
qed

lemma find_header_terminator_complete:
  "i + 4 \<le> length buf \<Longrightarrow> slice i (i + 4) buf = [0x0D, 0x0A, 0x0D, 0x0A] \<Longrightarrow>
   find_header_terminator buf \<noteq> None"
proof (induction i arbitrary: buf)
  case 0
  then show ?case by (subst find_header_terminator.simps) (simp add: slice_def)
next
  case (Suc i)
  then obtain b bs where buf: "buf = b # bs" by (cases buf) auto
  with Suc have "find_header_terminator bs \<noteq> None" by (auto simp: slice_def)
  with Suc.prems buf show ?case by (subst find_header_terminator.simps) auto
qed

lemma read_header_block_result:
  "read_header_block buf rs = Some (Inr raw, rest) \<Longrightarrow>
     length raw \<le> MAX_HEADER_BYTES \<and> find_header_terminator raw \<noteq> None
     \<and> (\<exists>cs. raw = buf @ concat cs \<and> rs = map ReadBytes cs @ rest \<and> [] \<notin> set cs)"
proof (induction buf rs rule: read_header_block.induct)
  case (3 buf chunk rs)
  show ?case
  proof (cases "find_header_terminator (buf @ chunk) \<noteq> None")
    case True
    with "3.prems" show ?thesis by (auto split: if_splits intro!: exI [of _ "[chunk]"])
  next
    case False
    with "3.prems" have c: "chunk \<noteq> []" "length buf + length chunk \<le> MAX_HEADER_BYTES"
      and r: "read_header_block (buf @ chunk) rs = Some (Inr raw, rest)"
      by (auto split: if_splits)
    from "3.IH" [OF c(1) _ _ r] c(2) False obtain cs where
      "length raw \<le> MAX_HEADER_BYTES" "find_header_terminator raw \<noteq> None"
      "raw = (buf @ chunk) @ concat cs" "rs = map ReadBytes cs @ rest" "[] \<notin> set cs" by auto
    with c(1) show ?thesis by (auto intro!: exI [of _ "chunk # cs"])
  qed
qed auto

lemma read_header_block_returns:
  "length buf \<le> MAX_HEADER_BYTES \<Longrightarrow> MAX_HEADER_BYTES < length buf + length rs \<Longrightarrow>
   \<exists>r. read_header_block buf rs = Some r"
proof (induction buf rs rule: read_header_block.induct)
  case (3 buf chunk rs)
  then show ?case by (cases chunk) auto
qed auto

text \<open>
  The header reader never buffers more than 4096 bytes and
  returns after at most 4097 reads whatever the peer sends.  What it returns is exactly the
  bytes received so far, and they contain the terminator, whose position
  \<open>find_header_terminator\<close> reports as the end of its first occurrence.
\<close>

theorem read_header_block_bounded:
  "(MAX_HEADER_BYTES < length rs \<longrightarrow> (\<exists>r. read_header_block [] rs = Some r))
   \<and> (read_header_block [] rs = Some (Inr raw, rest) \<longrightarrow>
      length raw \<le> MAX_HEADER_BYTES
      \<and> (\<exists>cs. raw = concat cs \<and> rs = map ReadBytes cs @ rest)
      \<and> (\<exists>n. find_header_terminator raw = Some n \<and> n \<le> length raw
          \<and> slice (n - 4) n raw = [0x0D, 0x0A, 0x0D, 0x0A]
          \<and> (\<forall>i. i + 4 < n \<longrightarrow> slice i (i + 4) raw \<noteq> [0x0D, 0x0A, 0x0D, 0x0A])))"
proof (intro conjI impI)
  show "MAX_HEADER_BYTES < length rs \<Longrightarrow> \<exists>r. read_header_block [] rs = Some r"
    by (rule read_header_block_returns) simp_all
next
  assume "read_header_block [] rs = Some (Inr raw, rest)"
  from read_header_block_result [OF this] obtain n where
    r: "length raw \<le> MAX_HEADER_BYTES" "\<exists>cs. raw = concat cs \<and> rs = map ReadBytes cs @ rest"
    and n: "find_header_terminator raw = Some n" by auto
  have "slice i (i + 4) raw \<noteq> [0x0D, 0x0A, 0x0D, 0x0A]" if "i + 4 < n" for i
    using find_header_terminator_first [OF n, of i] find_header_terminator_bounds [OF n] that by force
  with r n find_header_terminator_bounds [OF n]
  show "length raw \<le> MAX_HEADER_BYTES"
    and "\<exists>cs. raw = concat cs \<and> rs = map ReadBytes cs @ rest"
    and "\<exists>n. find_header_terminator raw = Some n \<and> n \<le> length raw
          \<and> slice (n - 4) n raw = [0x0D, 0x0A, 0x0D, 0x0A]
          \<and> (\<forall>i. i + 4 < n \<longrightarrow> slice i (i + 4) raw \<noteq> [0x0D, 0x0A, 0x0D, 0x0A])"
    by auto
qed

subsection \<open>The parser\<close>

lemma split_crlf_append:
  "CR \<notin> set l \<Longrightarrow> split_crlf (l @ CR # LF # rest) = l # split_crlf rest"
proof (induction l)
  case (Cons c l)
  then show ?case by (cases "l @ CR # LF # rest") auto
qed simp

lemma split_char_append: "x \<notin> set l \<Longrightarrow> split_char x (l @ x # rest) = l # split_char x rest"
  by (induction l) auto

lemma split_char_none: "x \<notin> set l \<Longrightarrow> split_char x l = [l]"
  by (induction l) auto

lemma split_once_append: "x \<notin> set l \<Longrightarrow> split_once x (l @ x # rest) = Some (l, rest)"
  by (induction l) auto

lemma cons_first_ne [simp]: "cons_first c ls \<noteq> []"
  by (cases ls) simp_all

lemma split_char_ne [simp]: "split_char x s \<noteq> []"
  by (cases s) simp_all

lemma split_crlf_ne [simp]: "split_crlf s \<noteq> []"
  by (cases s rule: split_crlf.cases) simp_all

lemma split_char_join:
  "split_char x s = l # ls \<Longrightarrow> s = l @ concat (map (\<lambda>p. x # p) ls)"
proof (induction s arbitrary: l ls)
  case (Cons c s)
  obtain l' ls' where s: "split_char x s = l' # ls'" by (cases "split_char x s") simp_all
  have "c = x \<and> l = [] \<and> ls = l' # ls' \<or> c \<noteq> x \<and> l = c # l' \<and> ls = ls'"
    using Cons.prems s by (auto split: if_splits)
  with Cons.IH [OF s] show ?case by auto
qed simp

lemma split_crlf_head:
  "split_crlf s = l # ls \<Longrightarrow> (ls = [] \<and> s = l) \<or> (\<exists>rest. s = l @ CR # LF # rest \<and> split_crlf rest = ls)"
proof (induction s arbitrary: l ls rule: split_crlf.induct)
  case (3 c1 c2 cs)
  show ?case
  proof (cases "c1 = CR \<and> c2 = LF")
    case True
    with "3.prems" show ?thesis by auto
  next
    case False
    obtain l' ls' where s: "split_crlf (c2 # cs) = l' # ls'" by (cases "split_crlf (c2 # cs)") simp_all
    with "3.prems" False have "l = c1 # l'" "ls = ls'" by auto
    with "3.IH"(2) [OF False s] show ?thesis by auto
  qed
qed auto

text \<open>A request in the form the protocol prescribes, with arbitrary headers.\<close>

definition render_header :: "string \<times> string \<Rightarrow> string" where
  "render_header h = fst h @ '': '' @ snd h"

definition request_line_text :: string where
  "request_line_text = SSTP_METHOD @ '' '' @ SSTP_URI @ '' HTTP/1.1''"

definition render_request :: "(string \<times> string) list \<Rightarrow> string" where
  "render_request hs =
     request_line_text @ [CR, LF] @ concat (map (\<lambda>h. render_header h @ [CR, LF]) hs) @ [CR, LF]"

definition header_wf :: "string \<times> string \<Rightarrow> bool" where
  "header_wf h \<longleftrightarrow>
     CHR '':'' \<notin> set (fst h) \<and> CR \<notin> set (fst h) \<and> CR \<notin> set (snd h)
     \<and> (\<forall>c \<in> set (fst h) \<union> set (snd h). (of_char c :: nat) < 128)"

abbreviation named :: "string \<Rightarrow> string \<times> string \<Rightarrow> bool" where
  "named nm h \<equiv> eq_ignore_ascii_case (fst h) nm"

definition spec_correlation :: "(string \<times> string) list \<Rightarrow> string option" where
  "spec_correlation hs =
     (case rev (filter (\<lambda>v. length v \<le> 64)
                 (map (trim \<circ> snd) (filter (\<lambda>h. named ''sstpcorrelationid'' h) hs))) of
        [] \<Rightarrow> None
      | v # _ \<Rightarrow> Some v)"

lemma trim_space: "trim (CHR '' '' # v) = trim v"
  by (simp add: trim_def is_ws_def)

lemma header_names_distinct:
  "named ''content-length'' h \<Longrightarrow> \<not> named ''sstpcorrelationid'' h"
  unfolding eq_ignore_ascii_case_def by (auto dest: map_eq_imp_length_eq)

lemma parse_headers_step:
  assumes "header_wf h"
  shows "parse_headers (render_header h # rest) cl cid =
    (if named ''content-length'' h then
       if trim (snd h) \<noteq> ULONGLONG_MAX_STR
       then Inl (PreBad ''Content-Length must be ULONGLONG_MAX'')
       else parse_headers rest True cid
     else if named ''sstpcorrelationid'' h then
       parse_headers rest cl (if length (trim (snd h)) \<le> 64 then Some (trim (snd h)) else cid)
     else parse_headers rest cl cid)"
proof -
  have "split_once CHR '':'' (render_header h) = Some (fst h, CHR '' '' # snd h)"
    using assms split_once_append [of "CHR '':''" "fst h" "CHR '' '' # snd h"]
    by (simp add: header_wf_def render_header_def)
  moreover have "render_header h \<noteq> []" by (simp add: render_header_def)
  ultimately show ?thesis by (simp add: trim_space Let_def)
qed

lemma parse_headers_rendered:
  "list_all header_wf hs \<Longrightarrow>
   parse_headers (map render_header hs @ [] # rest) cl cid =
     (if \<exists>h \<in> set hs. named ''content-length'' h \<and> trim (snd h) \<noteq> ULONGLONG_MAX_STR
      then Inl (PreBad ''Content-Length must be ULONGLONG_MAX'')
      else Inr (cl \<or> (\<exists>h \<in> set hs. named ''content-length'' h),
                case spec_correlation hs of None \<Rightarrow> cid | Some v \<Rightarrow> Some v))"
proof (induction hs arbitrary: cl cid)
  case Nil
  then show ?case by (simp add: spec_correlation_def)
next
  case (Cons h hs)
  have sc: "(case spec_correlation (h # hs) of None \<Rightarrow> cid | Some v \<Rightarrow> Some v) =
      (case spec_correlation hs of
         None \<Rightarrow> if named ''sstpcorrelationid'' h \<and> length (trim (snd h)) \<le> 64
                 then Some (trim (snd h)) else cid
       | Some v \<Rightarrow> Some v)"
    by (auto simp: spec_correlation_def split: list.splits)
  note IH = Cons.IH [of _ _] and wf = Cons.prems
  consider (cl) "named ''content-length'' h" "\<not> named ''sstpcorrelationid'' h"
    | (cid) "\<not> named ''content-length'' h" "named ''sstpcorrelationid'' h"
    | (other) "\<not> named ''content-length'' h" "\<not> named ''sstpcorrelationid'' h"
    using header_names_distinct [of h] by blast
  then show ?case
  proof cases
    case cl
    then show ?thesis using wf unfolding sc by (simp add: parse_headers_step IH del: parse_headers.simps(2))
  next
    case cid
    then show ?thesis using wf unfolding sc by (simp add: parse_headers_step IH del: parse_headers.simps(2))
  next
    case other
    then show ?thesis using wf unfolding sc by (simp add: parse_headers_step IH del: parse_headers.simps(2))
  qed
qed

lemma split_crlf_render:
  "list_all header_wf hs \<Longrightarrow>
   split_crlf (concat (map (\<lambda>h. render_header h @ [CR, LF]) hs) @ [CR, LF]) =
     map render_header hs @ [[], []]"
proof (induction hs)
  case (Cons h hs)
  then have "CR \<notin> set (render_header h)" by (auto simp: header_wf_def render_header_def)
  with Cons show ?case by (simp add: split_crlf_append)
qed simp

lemma request_line_ok: "parse_request_line request_line_text = Inr ()"
  by (simp add: parse_request_line_def request_line_text_def SSTP_METHOD_def SSTP_URI_def)

lemma text_of_bytes_of: "\<forall>c \<in> set s. (of_char c :: nat) < 128 \<Longrightarrow> text_of (bytes_of s) = s"
proof (induction s)
  case (Cons c s)
  then have "(of_char c :: nat) < 256" by auto
  moreover have "(of_char c :: u8) = word_of_nat (of_char c)" by (simp add: of_nat_of_char)
  ultimately have "unat (of_char c :: u8) = of_char c" by (simp add: unat_of_nat_u8)
  with Cons show ?case by (simp add: text_of_def bytes_of_def)
qed (simp add: text_of_def bytes_of_def)

lemma ascii_bytes_of:
  "\<forall>c \<in> set s. (of_char c :: nat) < 128 \<Longrightarrow> \<not> list_ex (\<lambda>b. b \<ge> 0x80) (bytes_of s)"
proof (induction s)
  case (Cons c s)
  then have c: "(of_char c :: nat) < 128" by auto
  moreover have "(of_char c :: u8) = word_of_nat (of_char c)" by (simp add: of_nat_of_char)
  ultimately have "unat (of_char c :: u8) < 128" by (simp add: unat_of_nat_u8)
  then have "\<not> (of_char c :: u8) \<ge> 0x80" by (simp add: word_le_nat_alt)
  with Cons show ?case by (simp add: bytes_of_def)
qed (simp add: bytes_of_def)

lemma ascii_request:
  assumes "list_all header_wf hs" and "c \<in> set (render_request hs)"
  shows "(of_char c :: nat) < 128"
proof -
  have "\<forall>c \<in> set request_line_text. (of_char c :: nat) < 128"
    by (simp add: request_line_text_def SSTP_METHOD_def SSTP_URI_def)
  moreover have "\<forall>h \<in> set hs. \<forall>c \<in> set (render_header h). (of_char c :: nat) < 128"
    using assms(1) by (auto simp: render_header_def header_wf_def list_all_iff)
  ultimately show ?thesis using assms(2) by (auto simp: render_request_def split: if_splits)
qed

text \<open>
  On a well-formed request with arbitrary headers the parser decides exactly
  as the protocol says: a Content-Length other than \<open>ULONGLONG_MAX\<close> is an error, a missing one
  is an error, and otherwise the request is accepted and the correlation id is the last one of
  at most 64 characters.  Header names are compared without regard to case, values trimmed,
  and bytes after the empty line do not matter.
\<close>

theorem parse_request_wellformed:
  assumes "list_all header_wf hs"
  shows "parse_request (bytes_of (render_request hs)) =
    (if \<exists>h \<in> set hs. named ''content-length'' h \<and> trim (snd h) \<noteq> ULONGLONG_MAX_STR
     then Inl (PreBad ''Content-Length must be ULONGLONG_MAX'')
     else if \<not> (\<exists>h \<in> set hs. named ''content-length'' h)
     then Inl (PreBad ''missing Content-Length header'')
     else Inr \<lparr>correlation_id = spec_correlation hs\<rparr>)"
proof -
  have ascii: "\<forall>c \<in> set (render_request hs). (of_char c :: nat) < 128"
    using ascii_request [OF assms] by blast
  have "CR \<notin> set request_line_text"
    by (simp add: request_line_text_def SSTP_METHOD_def SSTP_URI_def)
  then have lines: "split_crlf (render_request hs) =
      request_line_text # map render_header hs @ [] # [[]]"
    using split_crlf_render [OF assms] by (simp add: render_request_def split_crlf_append)
  show ?thesis
    using ascii_bytes_of [OF ascii] text_of_bytes_of [OF ascii]
    by (simp add: parse_request_def lines request_line_ok parse_headers_rendered [OF assms]
      del: parse_headers.simps split: option.split)
qed

text \<open>
  Only the SSTP request is accepted: if \<open>parse_request\<close> accepts a block then its
  bytes are ASCII and it begins with the exact request line, terminated by CRLF.
\<close>

theorem parse_request_sound:
  assumes "parse_request raw = Inr p"
  shows "list_all (\<lambda>b. b < 0x80) raw
    \<and> (\<exists>rest. text_of raw =
         SSTP_METHOD @ '' '' @ SSTP_URI @ '' HTTP/1.1'' @ [CR, LF] @ rest)"
proof -
  obtain l ls cid where s: "split_crlf (text_of raw) = l # ls"
    and a: "\<not> list_ex (\<lambda>b. b \<ge> 0x80) raw" and l: "parse_request_line l = Inr ()"
    and hd: "parse_headers ls False None = Inr (True, cid)"
    using assms by (auto simp: parse_request_def try_bind_Inr_iff split: if_splits list.splits)
  from hd have h: "ls \<noteq> []" by auto
  have "split_char CHR '' '' l = [SSTP_METHOD, SSTP_URI, ''HTTP/1.1'']"
    using l by (auto simp: parse_request_line_def split: list.splits if_splits)
  then have "l = SSTP_METHOD @ '' '' @ SSTP_URI @ '' HTTP/1.1''"
    by (drule_tac split_char_join) simp
  with split_crlf_head [OF s] h a show ?thesis
    by (auto simp: list_all_iff list_ex_iff not_le)
qed

end
