(* ===== verification/Session_Loop.thy ===== *)
theory Session_Loop
  imports Session_Base
begin

text \<open>
  The event loop of the session task: \<open>drive_sstp\<close> of \<open>src/src/session.rs\<close>, one definition per
  arm of its dispatch, the top of the loop, and the record that is emitted when the task ends.
  The \<open>select!\<close> that picks the next event is the environment; \<open>event_enabled\<close> says which events it
  may deliver in a state.
\<close>

subsection \<open>Packet filter of the network protocols\<close>

datatype np_filter = NotNetworkLayer | Forward | DropPreIpcp | DropMruExceeded

definition np_filter_decide :: "bool \<Rightarrow> nat \<Rightarrow> u16 \<Rightarrow> nat \<Rightarrow> np_filter" where
  "np_filter_decide network_ready mtu protocol info_len =
     (case protocol_from_u16 protocol of
        None \<Rightarrow> NotNetworkLayer
      | Some p \<Rightarrow>
          if \<not> is_network_layer p then NotNetworkLayer
          else if \<not> network_ready then DropPreIpcp
          else if info_len > mtu then DropMruExceeded
          else Forward)"

subsection \<open>Events\<close>

datatype disconnect_reason = AdminRequested | RadiusDisconnect | ServerShutdown

fun session_end_from :: "disconnect_reason \<Rightarrow> session_end" where
  "session_end_from AdminRequested = AdminReset"
| "session_end_from RadiusDisconnect = AdminReset"
| "session_end_from ServerShutdown = NasReboot"

datatype kmod_event = PeerClosed | TlsFatalAlert | TlsRekeyNeeded | ProtocolError | ControlPacketEvent

definition kmod_event_from_u32 :: "u32 \<Rightarrow> kmod_event option" where
  "kmod_event_from_u32 v =
     (if v = 1 then Some PeerClosed
      else if v = 2 then Some TlsFatalAlert
      else if v = 3 then Some TlsRekeyNeeded
      else if v = 4 then Some ProtocolError
      else if v = 5 then Some ControlPacketEvent
      else None)"

datatype driver_event =
    EvDrain
  | EvDisconnect disconnect_reason
  | EvPeriodicTick
  | EvRekey bool
  | EvControlClosed
  | EvSessionTimeout
  | EvIdleTimeout
  | EvSstpTimer
  | EvPppTimer
  | EvTunError
  | EvTunPacket bytes
  | EvKmodError
  | EvKmod "u32 list"
  | EvReadError
  | EvRead bytes

definition deadline_reached :: "nat option \<Rightarrow> session \<Rightarrow> bool" where
  "deadline_reached d s = (case d of Some t \<Rightarrow> t \<le> ss_now s | None \<Rightarrow> False)"

fun event_enabled :: "session \<Rightarrow> driver_event \<Rightarrow> bool" where
  "event_enabled s EvSessionTimeout = deadline_reached (ss_session_deadline s) s"
| "event_enabled s EvIdleTimeout = deadline_reached (ss_idle_deadline s) s"
| "event_enabled s EvSstpTimer = deadline_reached (map_option snd (ss_sstp_timer s)) s"
| "event_enabled s EvPppTimer = deadline_reached (map_option snd (ss_ppp_timer s)) s"
| "event_enabled s EvTunError = (case ss_kppp s of Some k \<Rightarrow> \<not> kp_kernel k | None \<Rightarrow> False)"
| "event_enabled s (EvTunPacket p) =
     (length p \<le> 2044 \<and> (case ss_kppp s of Some k \<Rightarrow> \<not> kp_kernel k | None \<Rightarrow> False))"
| "event_enabled s EvKmodError = ss_kmod_fd s"
| "event_enabled s (EvKmod evs) = ss_kmod_fd s"
| "event_enabled s EvReadError = (\<not> ss_kmod_fd s)"
| "event_enabled s (EvRead chunk) = (\<not> ss_kmod_fd s \<and> length chunk \<le> 4096)"
| "event_enabled s _ = True"

subsection \<open>Accounting\<close>

definition sample_acct_counters ::
    "session_env \<Rightarrow> nat \<Rightarrow> acct_counters \<Rightarrow> session \<Rightarrow> acct_counters" where
  "sample_acct_counters env started fallback s =
     (let session_time = word_of_nat ((ss_now s - started) div 1000) in
      case env_stats env (ss_calls s) of
        Some st \<Rightarrow> \<lparr>ct_session_time = session_time, ct_input_octets = st_rx_bytes st,
                    ct_output_octets = st_tx_bytes st, ct_input_packets = ucast (st_rx_packets st),
                    ct_output_packets = ucast (st_tx_packets st)\<rparr>
      | None \<Rightarrow> fallback\<lparr>ct_session_time := session_time\<rparr>)"

definition acct_interim :: "session_env \<Rightarrow> session \<Rightarrow> session" where
  "acct_interim env s =
     (if ss_now s - ss_last_acct_interim s < ss_acct_interim_period s then s
      else
        let s1 = s\<lparr>ss_last_acct_interim := ss_now s\<rparr> in
        case ss_acct_state s1 of
          None \<Rightarrow> s1
        | Some st \<Rightarrow>
            if \<not> env_acct env then s1
            else
              let counters = sample_acct_counters env (at_started st) (at_last_counters st) s1;
                  total = min (2 ^ 64 - 1) (unat (ct_input_octets counters) + unat (ct_output_octets counters));
                  s2 = (if total \<noteq> ss_last_activity_octets s1
                        then s1\<lparr>ss_last_activity_octets := total,
                               ss_idle_deadline :=
                                 (case ss_idle_timeout s1 of
                                    Some period \<Rightarrow> Some (ss_now s1 + 1000 * period)
                                  | None \<Rightarrow> ss_idle_deadline s1)\<rparr>
                        else s1) in
              (log_effect (EffAcct (at_username st) (at_session st) AcctInterimUpdate counters)
                (called s2))\<lparr>ss_acct_state := Some (st\<lparr>at_last_counters := counters\<rparr>)\<rparr>)"

text \<open>The guard that emits the Stop record on every way out of the task.\<close>

definition acct_stop :: "session_env \<Rightarrow> session \<Rightarrow> session" where
  "acct_stop env s =
     (let s1 = s\<lparr>ss_acct_state := None\<rparr> in
      case ss_acct_state s of
        None \<Rightarrow> s1
      | Some st \<Rightarrow>
          if \<not> env_acct env then s1
          else log_effect (EffAcct (at_username st) (at_session st) (AcctStop (to_terminate_cause (ss_acct_cause s)))
                 (sample_acct_counters env (at_started st) (at_last_counters st) s)) (called s1))"

text \<open>
  The locals of the task are dropped when it returns, in the reverse of the order in which they
  are declared: the accounting guard, the MSS clamp entry, the network device.
\<close>

definition mss_drop :: "session \<Rightarrow> session" where
  "mss_drop s = (case ss_mss_handle s of
     None \<Rightarrow> s
   | Some (ifname, mss) \<Rightarrow> (log_effect (EffMssGone ifname mss) s)\<lparr>ss_mss_handle := None\<rparr>)"

definition kppp_drop :: "session \<Rightarrow> session" where
  "kppp_drop s = (case ss_kppp s of
     None \<Rightarrow> s
   | Some k \<Rightarrow> (log_effect (EffNetdevGone k) s)\<lparr>ss_kppp := None\<rparr>)"

definition session_exit :: "session_env \<Rightarrow> session \<Rightarrow> session" where
  "session_exit env s = kppp_drop (mss_drop (acct_stop env s))"

subsection \<open>Arms of the dispatch\<close>

text \<open>Feeding the SSTP machine and applying what it returns.\<close>

definition run_ssm :: "session_env \<Rightarrow> handler_result \<Rightarrow> session \<Rightarrow> (session \<times> bool) option" where
  "run_ssm env r s = (case r of
     None \<Rightarrow> None
   | Some (sm, tx, out) \<Rightarrow> handle_sstp_step env out (s\<lparr>ss_ssm := sm, ss_tx_buf := tx\<rparr>))"

definition on_disconnect_event :: "session_env \<Rightarrow> session_end \<Rightarrow> session \<Rightarrow> (session \<times> bool) option" where
  "on_disconnect_event env cause s =
     run_ssm env (on_higher_layer_disconnect (ss_ssm s) (ss_tx_buf s)) (s\<lparr>ss_acct_cause := cause\<rparr>)"

definition hello_check :: "session_env \<Rightarrow> session \<Rightarrow> (session \<times> bool) option" where
  "hello_check env s =
     (if sm_state (ss_ssm s) \<noteq> ServerCallConnected then Some (s, True)
      else
        let idle = ss_now s - ss_last_rx s in
        if ss_hello_echo_pending s \<and> idle \<ge> 1000 * (TIMER_VAL_HELLO + TIMER_VAL_HELLO) then
          handle_sstp_step env (on_hello_timeout_no_response (ss_ssm s)) s
        else if \<not> ss_hello_echo_pending s \<and> idle \<ge> 1000 * TIMER_VAL_HELLO then
          run_ssm env (on_timer Hello (ss_ssm s) (ss_tx_buf s)) (s\<lparr>ss_hello_echo_pending := True\<rparr>)
        else Some (s, True))"

definition on_periodic_tick :: "session_env \<Rightarrow> session \<Rightarrow> (session \<times> bool) option" where
  "on_periodic_tick env s = do {
     (s1, ok) \<leftarrow> hello_check env s;
     if ok then Some (acct_interim env s1, True) else Some (s1, False)
   }"

definition on_rekey :: "session_env \<Rightarrow> bool \<Rightarrow> session \<Rightarrow> session" where
  "on_rekey env request_peer s =
     (if (case ss_kppp s of Some k \<Rightarrow> kp_kernel k | None \<Rightarrow> False) then s
      else attempt env (EffKeyUpdate request_peer) s)"

definition on_sstp_timer :: "session_env \<Rightarrow> session \<Rightarrow> (session \<times> bool) option" where
  "on_sstp_timer env s =
     (case ss_sstp_timer s of
        None \<Rightarrow> None
      | Some (which, _) \<Rightarrow>
          run_ssm env (on_timer which (ss_ssm s) (ss_tx_buf s)) (s\<lparr>ss_sstp_timer := None\<rparr>))"

text \<open>Feeding the PPP driver and applying what it returns.\<close>

definition run_ppp ::
    "session_env \<Rightarrow> (ppp \<times> ppp_step) option \<Rightarrow> session \<Rightarrow> (session \<times> bool) option" where
  "run_ppp env r s = (case r of
     None \<Rightarrow> None
   | Some (p, step) \<Rightarrow> handle_ppp_step env step ((called s)\<lparr>ss_ppp := Some p\<rparr>))"

definition on_ppp_timer_event :: "session_env \<Rightarrow> session \<Rightarrow> (session \<times> bool) option" where
  "on_ppp_timer_event env s =
     (case ss_ppp_timer s of
        None \<Rightarrow> None
      | Some (owner, _) \<Rightarrow>
          let s1 = s\<lparr>ss_ppp_timer := None\<rparr> in
          (case ss_ppp s1 of
             None \<Rightarrow> Some (s1, True)
           | Some p \<Rightarrow> run_ppp env (ppp_on_timer (env_challenge env (ss_calls s1)) p owner) s1))"

definition tun_frame :: "bytes \<Rightarrow> bytes option" where
  "tun_frame body =
     (let version = drop_bit 4 (body ! 0) in
      if version = 4 then Some ([0xFF, 0x03] @ be16 (protocol_as_u16 PidIp) @ body)
      else if version = 6 then Some ([0xFF, 0x03] @ be16 (protocol_as_u16 PidIpv6) @ body)
      else None)"

definition on_tun_packet :: "session_env \<Rightarrow> bytes \<Rightarrow> session \<Rightarrow> (session \<times> bool) option" where
  "on_tun_packet env body s =
     (if body = [] then Some (s, False)
      else case tun_frame body of
          None \<Rightarrow> Some (s, True)
        | Some frame \<Rightarrow> do {
            (s1, ok) \<leftarrow> write_ppp_as_sstp_data env frame s;
            if ok then Some (tls_flush env s1) else Some (s1, False)
          })"

text \<open>The packet over which the Crypto Binding MAC is computed: the MAC block is zeroed.\<close>

definition zeroed_mac :: "bytes \<Rightarrow> bytes" where
  "zeroed_mac pkt = write_at 80 (replicate 32 0) pkt"

definition on_control_message ::
    "session_env \<Rightarrow> bytes \<Rightarrow> control_message \<Rightarrow> session \<Rightarrow> (session \<times> bool) option" where
  "on_control_message env raw msg s =
     (case msg of
        CmCallConnected cb \<Rightarrow>
          if length raw < CALL_CONNECTED_LEN then None
          else run_ssm env (verify_call_connected (env_crypto env) cb
                 (zeroed_mac (take CALL_CONNECTED_LEN raw)) (ss_ssm s) (ss_tx_buf s)) s
      | other \<Rightarrow>
          run_ssm env (on_message (env_crypto env) (env_nonce env (ss_calls s)) other
            (ss_ssm s) (ss_tx_buf s)) (called s))"

definition on_kmod_control :: "session_env \<Rightarrow> bytes \<Rightarrow> session \<Rightarrow> (session \<times> bool) option" where
  "on_kmod_control env payload s =
     (case parse_control_payload payload of
        Inl _ \<Rightarrow> Some (s, False)
      | Inr msg \<Rightarrow>
          (case msg of
             CmCallConnected cb \<Rightarrow>
               if length payload + SSTP_HEADER_LEN \<noteq> CALL_CONNECTED_LEN then Some (s, False)
               else on_control_message env (write_header True CALL_CONNECTED_LEN @ payload) msg s
           | _ \<Rightarrow> on_control_message env payload msg s))"

fun on_kmod_events :: "session_env \<Rightarrow> u32 list \<Rightarrow> session \<Rightarrow> (session \<times> bool) option" where
  "on_kmod_events env [] s = Some (s, True)"
| "on_kmod_events env (ev # evs) s =
     (case kmod_event_from_u32 ev of
        Some ControlPacketEvent \<Rightarrow>
          if ss_kppp s = None then None
          else
            let s1 = called s in
            (case env_recv_control env (ss_calls s) of
               None \<Rightarrow> Some (s1, False)
             | Some None \<Rightarrow> on_kmod_events env evs s1
             | Some (Some payload) \<Rightarrow> do {
                 (s2, ok) \<leftarrow> on_kmod_control env payload s1;
                 if ok then on_kmod_events env evs s2 else Some (s2, False)
               })
      | Some _ \<Rightarrow> Some (s, False)
      | None \<Rightarrow> on_kmod_events env evs s)"

definition rx_activity :: "session \<Rightarrow> session" where
  "rx_activity s = s\<lparr>ss_last_rx := ss_now s, ss_hello_echo_pending := False\<rparr>"

subsection \<open>Inbound packets\<close>

text \<open>\<open>True\<close> in the last component: the frame was dealt with and does not go to the PPP driver.\<close>

definition np_route :: "bytes \<Rightarrow> session \<Rightarrow> (session \<times> bool) option" where
  "np_route payload s =
     (case decode_frame payload of
        Inl _ \<Rightarrow> Some (s, False)
      | Inr frame \<Rightarrow>
          let network_ready = (case ss_kppp s of Some k \<Rightarrow> \<not> kp_kernel k | None \<Rightarrow> False);
              mtu = (case ss_kppp s of Some k \<Rightarrow> kp_mtu k | None \<Rightarrow> 0) in
          (case np_filter_decide network_ready mtu (pf_protocol frame) (length (pf_info frame)) of
             Forward \<Rightarrow>
               if ss_kppp s = None then None
               else Some (called (log_effect (EffTun (pf_info frame)) s), True)
           | DropPreIpcp \<Rightarrow> Some (s, True)
           | DropMruExceeded \<Rightarrow> Some (s, True)
           | NotNetworkLayer \<Rightarrow> Some (s, False)))"

definition on_data :: "session_env \<Rightarrow> bytes \<Rightarrow> session \<Rightarrow> (session \<times> bool) option" where
  "on_data env payload s = do {
     (s1, ok) \<leftarrow> handle_sstp_step env (on_data_packet (ss_ssm s)) s;
     if \<not> ok then Some (s1, False)
     else do {
       (s2, routed) \<leftarrow> np_route payload s1;
       if routed then Some (s2, True)
       else case ss_ppp s2 of
           None \<Rightarrow> Some (s2, True)
         | Some p \<Rightarrow> run_ppp env (on_frame (env_challenge env (ss_calls s2)) p payload) s2
     }
   }"

function read_loop :: "session_env \<Rightarrow> bytes \<Rightarrow> session \<Rightarrow> (session \<times> bool) option" where
  "read_loop env buf s =
     (case packet_parse buf of
        Inl Truncated \<Rightarrow> Some (s\<lparr>ss_rx_buf := buf\<rparr>, True)
      | Inl (LengthMismatch _ _) \<Rightarrow> Some (s\<lparr>ss_rx_buf := buf\<rparr>, True)
      | Inl _ \<Rightarrow> Some (s, False)
      | Inr (Data payload, n) \<Rightarrow> do {
          (s1, ok) \<leftarrow> on_data env payload s;
          if ok then read_loop env (drop n buf) s1 else Some (s1, False)
        }
      | Inr (Control ctrl, n) \<Rightarrow>
          (case parse_control ctrl of
             Inl _ \<Rightarrow> Some (s, False)
           | Inr msg \<Rightarrow> do {
               (s1, ok) \<leftarrow> on_control_message env buf msg s;
               if ok then read_loop env (drop n buf) s1 else Some (s1, False)
             }))"
  by pat_completeness auto
termination
  by (relation "measure (\<lambda>(env, buf, s). length buf)")
    (auto dest!: packet_parse_consumed)

declare read_loop.simps [simp del]

definition on_read :: "session_env \<Rightarrow> bytes \<Rightarrow> session \<Rightarrow> (session \<times> bool) option" where
  "on_read env chunk s =
     (if chunk = [] then Some (s, False)
      else read_loop env (ss_rx_buf s @ chunk) (rx_activity s))"

subsection \<open>The loop\<close>

fun dispatch :: "session_env \<Rightarrow> driver_event \<Rightarrow> session \<Rightarrow> (session \<times> bool) option" where
  "dispatch env EvDrain s = on_disconnect_event env NasReboot s"
| "dispatch env (EvDisconnect reason) s = on_disconnect_event env (session_end_from reason) s"
| "dispatch env EvPeriodicTick s = on_periodic_tick env s"
| "dispatch env (EvRekey request_peer) s = Some (on_rekey env request_peer s, True)"
| "dispatch env EvControlClosed s = Some (s, False)"
| "dispatch env EvSessionTimeout s = Some (s\<lparr>ss_acct_cause := SessionTimeoutEnd\<rparr>, False)"
| "dispatch env EvIdleTimeout s = Some (s\<lparr>ss_acct_cause := IdleTimeoutEnd\<rparr>, False)"
| "dispatch env EvSstpTimer s = on_sstp_timer env s"
| "dispatch env EvPppTimer s = on_ppp_timer_event env s"
| "dispatch env EvTunError s = Some (s, True)"
| "dispatch env (EvTunPacket body) s = on_tun_packet env body s"
| "dispatch env EvKmodError s = Some (rx_activity s, False)"
| "dispatch env (EvKmod evs) s = on_kmod_events env evs (rx_activity s)"
| "dispatch env EvReadError s = Some (s, False)"
| "dispatch env (EvRead chunk) s = on_read env chunk s"

text \<open>What the loop does before it waits for the next event.\<close>

definition apply_policy :: "session \<Rightarrow> session" where
  "apply_policy s =
     (case (ss_kppp s, ss_pending_policy s) of
        (Some _, Some policy) \<Rightarrow>
          s\<lparr>ss_pending_policy := None,
            ss_acct_interim_period :=
              (case sp_acct_interim_interval policy of
                 Some period \<Rightarrow> 1000 * period | None \<Rightarrow> ss_acct_interim_period s),
            ss_session_deadline :=
              (case sp_session_timeout policy of
                 Some dur \<Rightarrow> Some (ss_now s + 1000 * dur) | None \<Rightarrow> ss_session_deadline s),
            ss_idle_timeout :=
              (case sp_idle_timeout policy of Some dur \<Rightarrow> Some dur | None \<Rightarrow> ss_idle_timeout s),
            ss_idle_deadline :=
              (case sp_idle_timeout policy of
                 Some dur \<Rightarrow> Some (ss_now s + 1000 * dur) | None \<Rightarrow> ss_idle_deadline s)\<rparr>
      | _ \<Rightarrow> s)"

definition loop_top :: "session_env \<Rightarrow> session \<Rightarrow> session \<times> bool" where
  "loop_top env s =
     (let s1 = (case ss_pending_hlak s of
                  Some key \<Rightarrow> s\<lparr>ss_pending_hlak := None,
                               ss_ssm := on_inner_auth_completed (Some key) (ss_ssm s)\<rparr>
                | None \<Rightarrow> s) in
      if \<not> ss_kmod_fd s1 \<and> (case ss_kppp s1 of Some k \<Rightarrow> kp_kernel k | None \<Rightarrow> False) then
        if env_ok env (ss_calls s1) then (apply_policy ((called s1)\<lparr>ss_kmod_fd := True\<rparr>), True)
        else (called s1, False)
      else (apply_policy s1, True))"

definition session_new :: "session_env \<Rightarrow> bytes \<Rightarrow> bytes \<Rightarrow> nat \<Rightarrow> session" where
  "session_new env cert_hash_sha1 cert_hash now =
     (let period = 60 * 1000;
          jitter = unat (env_id env) mod (period div 1000) in
      \<lparr>ss_ssm = state_machine_new cert_hash_sha1 cert_hash,
       ss_tx_buf = replicate SSTP_MAX_PACKET_LEN 0, ss_rx_buf = [], ss_sstp_timer = None,
       ss_ppp = None, ss_ppp_timer = None, ss_kppp = None, ss_kmod_fd = False, ss_last_rx = now,
       ss_hello_echo_pending = False, ss_mss_handle = None, ss_info = session_info_default,
       ss_acct_interim_period = period,
       ss_last_acct_interim = (if jitter \<le> now then now - jitter else now),
       ss_pending_shaping = None, ss_pending_policy = None, ss_pending_username = None,
       ss_pending_hlak = None, ss_acct_state = None, ss_acct_cause = LostCarrier,
       ss_session_deadline = None, ss_idle_timeout = None, ss_idle_deadline = None,
       ss_last_activity_octets = 0, ss_now = now, ss_calls = 0, ss_log = []\<rparr>)"

definition drive_start ::
    "session_env \<Rightarrow> bytes \<Rightarrow> bytes \<Rightarrow> nat \<Rightarrow> (session \<times> bool) option" where
  "drive_start env cert_hash_sha1 cert_hash now =
     (let s = session_new env cert_hash_sha1 cert_hash now in
      case on_https_accepted (ss_ssm s) of
        (sm, out) \<Rightarrow> handle_sstp_step env out (s\<lparr>ss_ssm := sm\<rparr>))"

text \<open>
  One turn of the loop.  Every event carries the time at which it is delivered; the flag of the
  result is false once the task has returned and its locals have been dropped.
\<close>

definition session_top :: "session_env \<Rightarrow> session \<times> bool \<Rightarrow> session \<times> bool" where
  "session_top env r =
     (case (if snd r then loop_top env (fst r) else r) of
        (s, True) \<Rightarrow> (s, True)
      | (s, False) \<Rightarrow> (session_exit env s, False))"

definition session_round ::
    "session_env \<Rightarrow> nat \<Rightarrow> driver_event \<Rightarrow> session \<Rightarrow> (session \<times> bool) option" where
  "session_round env now ev s = map_option (session_top env) (dispatch env ev (s\<lparr>ss_now := now\<rparr>))"

fun drive ::
    "session_env \<Rightarrow> (nat \<times> driver_event) list \<Rightarrow> session \<times> bool \<Rightarrow> (session \<times> bool) option" where
  "drive env evs (s, False) = Some (s, False)"
| "drive env [] (s, True) = Some (s, True)"
| "drive env ((now, ev) # evs) (s, True) =
     (case session_round env now ev s of None \<Rightarrow> None | Some r \<Rightarrow> drive env evs r)"

definition drive_sstp ::
    "session_env \<Rightarrow> bytes \<Rightarrow> bytes \<Rightarrow> nat \<Rightarrow> (nat \<times> driver_event) list \<Rightarrow> (session \<times> bool) option" where
  "drive_sstp env cert_hash_sha1 cert_hash now evs =
     (case drive_start env cert_hash_sha1 cert_hash now of
        None \<Rightarrow> None
      | Some r \<Rightarrow> drive env evs (session_top env r))"

end
