(* ===== verification/Session_Contract.thy ===== *)
theory Session_Contract
  imports Session_Loop
begin

text \<open>
  What a session promises to the rest of the system, as a small automaton over the effects of
  the session task, and the proof that every run of \<open>drive_sstp\<close> is a run of it.
\<close>

subsection \<open>The contract\<close>

datatype acct_phase = AcctIdle | AcctOpen bytes acct_session | AcctClosed

record contract =
  co_accept :: "(bytes \<times> auth_outcome) option"
  co_dev :: "(kppp \<times> bytes) option"
  co_mss :: "(string \<times> nat) option"
  co_acct :: acct_phase
  co_released :: bool

definition contract_init :: contract where
  "contract_init =
     \<lparr>co_accept = None, co_dev = None, co_mss = None, co_acct = AcctIdle, co_released = False\<rparr>"

fun event_user :: "ppp_event \<Rightarrow> bytes" where
  "event_user (NeedPapAuth u pw) = from_utf8_lossy u"
| "event_user (NeedChapAuth u i c r) = from_utf8_lossy u"
| "event_user (NeedMsChapV2Auth u i c pc nt fl) = from_utf8_lossy u"
| "event_user (NetworkUp a) = []"

definition granted_ip :: "contract \<Rightarrow> bytes option" where
  "granted_ip c = (case co_accept c of
     Some (u, oc) \<Rightarrow> (case ao_verdict oc of Accept a \<Rightarrow> Some (aa_ip a) | Reject _ \<Rightarrow> None)
   | None \<Rightarrow> None)"

definition one_packet :: "bytes \<Rightarrow> bool" where
  "one_packet bs = (case packet_parse bs of Inr (_, n) \<Rightarrow> n = length bs | Inl _ \<Rightarrow> False)"

definition kernel_dev :: "contract \<Rightarrow> bool" where
  "kernel_dev c = (case co_dev c of Some (k, _) \<Rightarrow> kp_kernel k | None \<Rightarrow> False)"

fun acct_is_open :: "acct_phase \<Rightarrow> bool" where
  "acct_is_open (AcctOpen u sess) = True"
| "acct_is_open _ = False"

text \<open>Whether an effect is allowed, and what it changes.\<close>

fun allowed :: "contract \<Rightarrow> effect \<Rightarrow> bool" where
  "allowed c (EffTls bs) = one_packet bs"
| "allowed c (EffKmodControl bs) = kernel_dev c"
| "allowed c (EffTun body) =
     (case co_dev c of Some (k, _) \<Rightarrow> \<not> kp_kernel k \<and> length body \<le> kp_mtu k | None \<Rightarrow> False)"
| "allowed c (EffKeyUpdate r) = (\<not> kernel_dev c)"
| "allowed c (EffAuth ev oc) = needs_auth (Some ev)"
| "allowed c (EffNetdev k ip) = (co_dev c = None \<and> granted_ip c = Some ip)"
| "allowed c (EffNetdevGone k) =
     (map_option fst (co_dev c) = Some k \<and> co_mss c = None \<and> \<not> acct_is_open (co_acct c))"
| "allowed c (EffShape idx pol) =
     (map_option (kp_ifindex \<circ> fst) (co_dev c) = Some idx
      \<and> map_option (ao_shaping \<circ> snd) (co_accept c) = Some (Some pol))"
| "allowed c (EffRoute idx r) =
     (map_option (kp_ifindex \<circ> fst) (co_dev c) = Some idx
      \<and> (case co_accept c of Some (_, oc) \<Rightarrow> r \<in> set (sp_framed_routes (ao_policy oc)) | None \<Rightarrow> False))"
| "allowed c (EffMss name mss) =
     (map_option (kp_ifname \<circ> fst) (co_dev c) = Some name \<and> co_mss c = None)"
| "allowed c (EffMssGone name mss) = (co_mss c = Some (name, mss) \<and> \<not> acct_is_open (co_acct c))"
| "allowed c (EffAcct u sess AcctStart ctr) =
     (co_acct c = AcctIdle \<and> map_option snd (co_dev c) = Some (as_framed_ip sess)
      \<and> (case co_accept c of Some (user, oc) \<Rightarrow> u = user \<and> as_class sess = sp_class (ao_policy oc)
         | None \<Rightarrow> False))"
| "allowed c (EffAcct u sess AcctInterimUpdate ctr) = (co_acct c = AcctOpen u sess)"
| "allowed c (EffAcct u sess (AcctStop cause) ctr) = (co_acct c = AcctOpen u sess)"

fun apply_effect :: "contract \<Rightarrow> effect \<Rightarrow> contract" where
  "apply_effect c (EffAuth ev oc) = (case ao_verdict oc of
     Accept _ \<Rightarrow> c\<lparr>co_accept := Some (event_user ev, oc)\<rparr> | Reject _ \<Rightarrow> c)"
| "apply_effect c (EffNetdev k ip) = c\<lparr>co_dev := Some (k, ip)\<rparr>"
| "apply_effect c (EffNetdevGone k) = c\<lparr>co_dev := None, co_released := True\<rparr>"
| "apply_effect c (EffMss name mss) = c\<lparr>co_mss := Some (name, mss)\<rparr>"
| "apply_effect c (EffMssGone name mss) = c\<lparr>co_mss := None\<rparr>"
| "apply_effect c (EffAcct u sess AcctStart ctr) = c\<lparr>co_acct := AcctOpen u sess\<rparr>"
| "apply_effect c (EffAcct u sess (AcctStop cause) ctr) = c\<lparr>co_acct := AcctClosed\<rparr>"
| "apply_effect c _ = c"

definition contract_step :: "contract \<Rightarrow> effect \<Rightarrow> contract option" where
  "contract_step c e =
     (if \<not> co_released c \<and> allowed c e then Some (apply_effect c e) else None)"

fun contract_run :: "contract \<Rightarrow> effect list \<Rightarrow> contract option" where
  "contract_run c [] = Some c"
| "contract_run c (e # es) = (case contract_step c e of
     None \<Rightarrow> None | Some c' \<Rightarrow> contract_run c' es)"

lemma contract_run_append:
  "contract_run c (xs @ ys) = Option.bind (contract_run c xs) (\<lambda>c'. contract_run c' ys)"
  by (induction xs arbitrary: c) (simp_all split: option.split)

subsection \<open>What the events of the driver say\<close>

fun event_phase :: "ppp_event option \<Rightarrow> phase \<Rightarrow> bool" where
  "event_phase (Some (NeedPapAuth u pw)) ph = (\<exists>i. ph = AuthInFlight (IfPap i))"
| "event_phase (Some (NeedChapAuth u i c r)) ph = (\<exists>i. ph = AuthInFlight (IfChap i))"
| "event_phase (Some (NeedMsChapV2Auth u i c pc nt fl)) ph = (\<exists>i. ph = AuthInFlight (IfMsChapV2 i))"
| "event_phase _ ph = True"

definition step_frame :: "ppp \<Rightarrow> ppp \<times> ppp_step \<Rightarrow> bool" where
  "step_frame p r \<longleftrightarrow>
     ppp_pending_addrs (fst r) = ppp_pending_addrs p
     \<and> event_phase (ps_event (snd r)) (ppp_phase (fst r))
     \<and> (\<forall>a. ps_event (snd r) = Some (NetworkUp a) \<longrightarrow> ppp_pending_addrs p = Some a)"

lemma step_frame_lcp:
  "render_lcp_step rnd (p\<lparr>ppp_lcp := ls\<rparr>) step = Some r \<Longrightarrow> step_frame p r"
  by (cases r) (auto simp: step_frame_def dest!: render_lcp_step_frame)

lemma step_frame_ipcp:
  "render_ipcp_step (p\<lparr>ppp_ipcp := x\<rparr>) step = Some r \<Longrightarrow> step_frame p r"
  by (cases r) (auto simp: step_frame_def dest!: render_ipcp_step_frame)

lemma step_frame_idle [simp]: "step_frame p (p, ppp_step_default)"
  by (simp add: step_frame_def)

lemma step_frame_pap [simp]: "step_frame p (handle_pap p info)"
  by (simp add: step_frame_def handle_pap_def split: sum.split)

lemma step_frame_chap [simp]: "step_frame p (handle_chap p info)"
  by (simp add: step_frame_def handle_chap_def split: sum.split auth_method.split option.split)

lemma step_frame_reject [simp]: "step_frame p (protocol_reject p pr info)"
  by (simp add: step_frame_def protocol_reject_def Let_def)

lemma step_frame_handle_lcp: "handle_lcp rnd p info = Some r \<Longrightarrow> step_frame p r"
  by (auto simp: handle_lcp_def split_beta split: sum.splits intro: step_frame_lcp)

lemma step_frame_handle_ipcp: "handle_ipcp p info = Some r \<Longrightarrow> step_frame p r"
  by (auto simp: handle_ipcp_def split_beta split: sum.splits option.splits intro: step_frame_ipcp)

lemma step_frame_on_frame: "on_frame rnd p payload = Some r \<Longrightarrow> step_frame p r"
  unfolding on_frame_def
  by (auto split: sum.splits option.splits protocol_id.splits if_splits
    intro: step_frame_handle_lcp step_frame_handle_ipcp)

lemma step_frame_on_timer: "ppp_on_timer rnd p owner = Some r \<Longrightarrow> step_frame p r"
  by (auto simp: ppp_on_timer_def split_beta split: timer_owner.splits option.splits
    intro: step_frame_lcp step_frame_ipcp)

lemma step_frame_open: "ppp_open rnd p = Some r \<Longrightarrow> step_frame p r"
  by (auto simp: ppp_open_def split_beta intro: step_frame_lcp)

text \<open>A verdict on the request in flight: the driver takes the assigned addresses, or nothing.\<close>

definition verdict_frame :: "auth_verdict \<Rightarrow> ppp \<Rightarrow> ppp \<times> ppp_step \<Rightarrow> bool" where
  "verdict_frame v p r \<longleftrightarrow>
     event_phase (ps_event (snd r)) (ppp_phase (fst r))
     \<and> \<not> needs_auth (ps_event (snd r))
     \<and> (case v of
          Accept a \<Rightarrow> \<exists>a'. ppp_pending_addrs (fst r) = Some a' \<and> aa_ip a' = aa_ip a
             \<and> (\<forall>b. ps_event (snd r) = Some (NetworkUp b) \<longrightarrow> b = a')
        | Reject _ \<Rightarrow> ppp_pending_addrs (fst r) = ppp_pending_addrs p \<and> ps_event (snd r) = None)"

lemma verdict_frame_advance:
  "advance_to_network p (push_frame f ppp_step_default) a = Some r \<Longrightarrow> verdict_frame (Accept a) p r"
  by (cases r) (auto simp: verdict_frame_def dest!: advance_to_network_frame)

lemma verdict_frame_tear_down:
  "tear_down_after_reject rnd p (push_frame f ppp_step_default) = Some r \<Longrightarrow>
   verdict_frame (Reject m) p r"
  by (cases r) (auto simp: verdict_frame_def dest!: tear_down_frame)

lemma verdict_frame_auth:
  assumes "on_auth_result rnd p v = Some r"
    and "ppp_phase p = AuthInFlight (IfPap i) \<or> ppp_phase p = AuthInFlight (IfChap i)"
  shows "verdict_frame v p r"
  using assms
  by (cases v) (auto simp: on_auth_result_def bind_eq_Some_conv
    intro: verdict_frame_advance verdict_frame_tear_down)

lemma verdict_frame_mschap:
  assumes "on_mschap_result rnd p v ar es = Some r" and "ppp_phase p = AuthInFlight (IfMsChapV2 i)"
  shows "verdict_frame v p r"
  using assms
  by (cases v) (auto simp: on_mschap_result_def bind_eq_Some_conv Let_def
    intro: verdict_frame_advance verdict_frame_tear_down)

subsection \<open>The simulation\<close>

definition pend_ok :: "contract \<Rightarrow> ppp option \<Rightarrow> bool" where
  "pend_ok c op \<longleftrightarrow>
     (\<forall>p a. op = Some p \<longrightarrow> ppp_pending_addrs p = Some a \<longrightarrow> granted_ip c = Some (aa_ip a))"

definition event_ok :: "contract \<Rightarrow> ppp \<Rightarrow> ppp_event option \<Rightarrow> bool" where
  "event_ok c p ev \<longleftrightarrow>
     event_phase ev (ppp_phase p)
     \<and> (\<forall>a. ev = Some (NetworkUp a) \<longrightarrow> granted_ip c = Some (aa_ip a))"

fun acct_phase_of :: "acct_state option \<Rightarrow> acct_phase" where
  "acct_phase_of None = AcctIdle"
| "acct_phase_of (Some st) = AcctOpen (at_username st) (at_session st)"

definition linked :: "session_env \<Rightarrow> contract \<Rightarrow> session \<Rightarrow> bool" where
  "linked env c s \<longleftrightarrow>
     contract_run contract_init (ss_log s) = Some c \<and> \<not> co_released c
     \<and> co_mss c = ss_mss_handle s \<and> co_acct c = acct_phase_of (ss_acct_state s)
     \<and> pend_ok c (ss_ppp s) \<and> length (ss_tx_buf s) = SSTP_MAX_PACKET_LEN
     \<and> (ss_acct_state s \<noteq> None \<longrightarrow> env_acct env)"

text \<open>Before the device exists, what the last accepted outcome said is waiting to be applied.\<close>

definition waiting :: "contract \<Rightarrow> session \<Rightarrow> bool" where
  "waiting c s \<longleftrightarrow>
     ss_mss_handle s = None \<and> ss_acct_state s = None
     \<and> (\<forall>u oc. co_accept c = Some (u, oc) \<longrightarrow>
          ss_pending_shaping s = ao_shaping oc \<and> ss_pending_policy s = Some (ao_policy oc)
          \<and> ss_pending_username s = Some u)"

definition sim :: "session_env \<Rightarrow> contract \<Rightarrow> session \<Rightarrow> bool" where
  "sim env c s \<longleftrightarrow>
     linked env c s \<and> map_option fst (co_dev c) = ss_kppp s \<and> (ss_kppp s = None \<longrightarrow> waiting c s)"

lemma granted_ip_updates [simp]:
  "granted_ip (c\<lparr>co_dev := d\<rparr>) = granted_ip c" "granted_ip (c\<lparr>co_mss := m\<rparr>) = granted_ip c"
  "granted_ip (c\<lparr>co_acct := x\<rparr>) = granted_ip c"
  by (simp_all add: granted_ip_def)

lemma pend_ok_updates [simp]:
  "pend_ok (c\<lparr>co_dev := d\<rparr>) = pend_ok c" "pend_ok (c\<lparr>co_mss := m\<rparr>) = pend_ok c"
  "pend_ok (c\<lparr>co_acct := x\<rparr>) = pend_ok c"
  by (simp_all add: pend_ok_def fun_eq_iff)

lemmas sim_defs = sim_def linked_def waiting_def

lemma log_effect_fields [simp]:
  "ss_log (log_effect e s) = ss_log s @ [e]" "ss_calls (log_effect e s) = ss_calls s"
  "ss_tx_buf (log_effect e s) = ss_tx_buf s" "ss_ppp (log_effect e s) = ss_ppp s"
  "ss_kppp (log_effect e s) = ss_kppp s" "ss_mss_handle (log_effect e s) = ss_mss_handle s"
  "ss_acct_state (log_effect e s) = ss_acct_state s" "ss_now (log_effect e s) = ss_now s"
  "ss_pending_shaping (log_effect e s) = ss_pending_shaping s"
  "ss_pending_policy (log_effect e s) = ss_pending_policy s"
  "ss_pending_username (log_effect e s) = ss_pending_username s"
  "ss_info (log_effect e s) = ss_info s" "ss_ssm (log_effect e s) = ss_ssm s"
  "ss_sstp_timer (log_effect e s) = ss_sstp_timer s"
  "ss_pending_hlak (log_effect e s) = ss_pending_hlak s"
  by (simp_all add: log_effect_def)

lemma called_fields [simp]:
  "ss_log (called s) = ss_log s" "ss_calls (called s) = Suc (ss_calls s)"
  "ss_tx_buf (called s) = ss_tx_buf s" "ss_ppp (called s) = ss_ppp s"
  "ss_kppp (called s) = ss_kppp s" "ss_mss_handle (called s) = ss_mss_handle s"
  "ss_acct_state (called s) = ss_acct_state s" "ss_now (called s) = ss_now s"
  "ss_pending_shaping (called s) = ss_pending_shaping s"
  "ss_pending_policy (called s) = ss_pending_policy s"
  "ss_pending_username (called s) = ss_pending_username s"
  "ss_info (called s) = ss_info s" "ss_ssm (called s) = ss_ssm s"
  "ss_sstp_timer (called s) = ss_sstp_timer s"
  "ss_pending_hlak (called s) = ss_pending_hlak s"
  by (simp_all add: called_def)

lemma contract_run_snoc:
  "contract_run c0 es = Some c \<Longrightarrow> \<not> co_released c \<Longrightarrow> allowed c e \<Longrightarrow>
   contract_run c0 (es @ [e]) = Some (apply_effect c e)"
  by (simp add: contract_run_append contract_step_def)

lemma sim_called [simp]: "sim env c (called s) = sim env c s" "linked env c (called s) = linked env c s"
  by (simp_all add: sim_defs)

text \<open>An effect that changes nothing in the contract.\<close>

lemma sim_passive:
  assumes "sim env c s" and "allowed c e" and "apply_effect c e = c"
  shows "sim env c (log_effect e s)"
  using assms contract_run_snoc [of contract_init "ss_log s" c e] by (simp add: sim_defs)

lemma linked_passive:
  assumes "linked env c s" and "allowed c e" and "apply_effect c e = c"
  shows "linked env c (log_effect e s)"
  using assms contract_run_snoc [of contract_init "ss_log s" c e] by (simp add: sim_defs)

subsection \<open>Writing\<close>

lemma one_packet_data:
  "length f \<le> 4091 \<Longrightarrow> one_packet (write_header False (4 + length f) @ f)"
  using packet_parse_data_frame [of f "[]"] by (simp add: one_packet_def)

lemma one_packet_take:
  "packet_parse tx = Inr (pkt, n) \<Longrightarrow> one_packet (take n tx)"
  using packet_parse_prefix [of tx pkt n "take n tx"] packet_parse_consumed [of tx pkt n]
  by (simp add: one_packet_def)

lemma sim_write_ppp:
  assumes "sim env c s" and "write_ppp_as_sstp_data env f s = Some (s', ok)"
  shows "sim env c s' \<and> ss_ppp s' = ss_ppp s"
proof -
  let ?pkt = "write_header False (4 + length f) @ f"
  let ?s = "s\<lparr>ss_tx_buf := write_at 0 ?pkt (ss_tx_buf s)\<rparr>"
  have len: "length (ss_tx_buf s) = 4095" using assms(1) by (simp add: sim_defs wire_defs)
  then have fits: "length f \<le> 4091"
    using assms(2) by (simp add: write_ppp_as_sstp_data_def wire_defs Let_def split: if_splits)
  have pkt: "take (4 + length f) (write_at 0 ?pkt (ss_tx_buf s)) = ?pkt"
    using len fits by (simp add: write_at_def)
  have "sim env c ?s" using assms(1) len fits by (simp add: sim_defs wire_defs write_at_def)
  then have "sim env c (log_effect (EffTls ?pkt) ?s)"
    by (rule sim_passive) (use fits one_packet_data in simp_all)
  moreover have "s' = called (log_effect (EffTls ?pkt) ?s)"
    using assms(2) len fits pkt
    by (simp add: write_ppp_as_sstp_data_def tls_write_def wire_defs Let_def)
  ultimately show ?thesis by simp
qed

lemma sim_write_frames:
  assumes "sim env c s" and "write_frames env fs s = Some (s', ok)"
  shows "sim env c s' \<and> ss_ppp s' = ss_ppp s"
  using assms
proof (induction fs arbitrary: s)
  case (Cons f fs)
  from Cons.prems(2) obtain s1 ok1 where w: "write_ppp_as_sstp_data env f s = Some (s1, ok1)"
    and r: "(if ok1 then write_frames env fs s1 else Some (s1, False)) = Some (s', ok)"
    by (auto simp: bind_eq_Some_conv)
  note s1 = sim_write_ppp [OF Cons.prems(1) w]
  from r s1 Cons.IH [of s1] show ?case by (auto split: if_splits)
qed simp

lemma sim_render_ppp_step:
  assumes "sim env c s" and "render_ppp_step env step s = Some (s', ok)"
  shows "sim env c s' \<and> ss_ppp s' = ss_ppp s"
proof -
  have timer: "sim env c (update_ppp_timer step t) = sim env c t"
    "ss_ppp (update_ppp_timer step t) = ss_ppp t" for t
    by (simp_all add: update_ppp_timer_def sim_defs)
  from assms(2) obtain s1 ok1 where w: "write_frames env (ps_frames step) s = Some (s1, ok1)"
    and r: "s' \<in> {s1, called s1, update_ppp_timer step s1, update_ppp_timer step (called s1)}"
    by (auto simp: render_ppp_step_def bind_eq_Some_conv tls_flush_def Let_def split: if_splits)
  from r sim_write_frames [OF assms(1) w] show ?thesis by (auto simp: timer)
qed

subsection \<open>Bringing the network up\<close>

lemma choose_data_path_frame:
  "choose_data_path env s = (s', m) \<Longrightarrow> s' \<in> {s, called s}"
  by (auto simp: choose_data_path_def Let_def split: if_splits)

lemma kppp_bring_up_frame:
  "kppp_bring_up env mode req s = (s', k) \<Longrightarrow> s' \<in> {called s, called (called s)}"
  by (auto simp: kppp_bring_up_def bring_up_tun_def bring_up_ppp_def Let_def
    split: data_path_mode.splits option.splits)

text \<open>The state between the creation of the device and its publication in the session.\<close>

definition setting_up ::
    "session_env \<Rightarrow> contract \<Rightarrow> kppp \<Rightarrow> bytes \<Rightarrow> bytes \<times> auth_outcome \<Rightarrow> session \<Rightarrow> bool" where
  "setting_up env c k ip acc s \<longleftrightarrow>
     linked env c s \<and> co_dev c = Some (k, ip) \<and> co_accept c = Some acc \<and> ss_acct_state s = None
     \<and> ss_pending_policy s = Some (ao_policy (snd acc)) \<and> ss_pending_username s = Some (fst acc)"

lemma setting_up_called [simp]: "setting_up env c k ip acc (called s) = setting_up env c k ip acc s"
  by (simp add: setting_up_def)

lemma setting_up_attempt:
  assumes "setting_up env c k ip acc s" and "allowed c e" and "apply_effect c e = c"
  shows "setting_up env c k ip acc (attempt env e s)"
  using assms linked_passive [of env c "called s" e] by (simp add: attempt_def setting_up_def)

lemma setting_up_shaping:
  assumes "setting_up env c k ip acc s" and "ss_pending_shaping s = ao_shaping (snd acc)"
  shows "setting_up env c k ip acc (apply_shaping env k s)"
proof -
  have "setting_up env c k ip acc (s\<lparr>ss_pending_shaping := None\<rparr>)"
    using assms(1) by (simp add: setting_up_def linked_def)
  then have "setting_up env c k ip acc (attempt env (EffShape (kp_ifindex k) pol)
      (called (s\<lparr>ss_pending_shaping := None\<rparr>)))" if "ss_pending_shaping s = Some pol" for pol
    by (intro setting_up_attempt) (use that assms in \<open>simp_all add: setting_up_def\<close>)
  with \<open>setting_up env c k ip acc (s\<lparr>ss_pending_shaping := None\<rparr>)\<close> assms(1) show ?thesis
    by (simp add: apply_shaping_def Let_def split: option.split)
qed

lemma setting_up_mss:
  assumes "setting_up env c k ip acc s" and "ss_mss_handle s = None"
  shows "\<exists>c'. setting_up env c' k ip acc (apply_mss env req k s)"
proof -
  let ?m = "mb_mss4 (compute_mss4 (case req of Some m \<Rightarrow> m | None \<Rightarrow> 1500)
    (env_tls_version env) (env_cipher env))"
  let ?c = "apply_effect c (EffMss (kp_ifname k) ?m)"
  have "setting_up env ?c k ip acc ((log_effect (EffMss (kp_ifname k) ?m) (called s))
      \<lparr>ss_mss_handle := Some (kp_ifname k, ?m)\<rparr>)"
    using assms contract_run_snoc [of contract_init "ss_log s" c "EffMss (kp_ifname k) ?m"]
    by (simp add: setting_up_def linked_def)
  with assms(1) show ?thesis by (auto simp: apply_mss_def Let_def)
qed

lemma setting_up_routes:
  assumes "setting_up env c k ip acc s"
  shows "setting_up env c k ip acc (apply_routes env k s)"
proof -
  have "setting_up env c k ip acc (fold (\<lambda>r. attempt env (EffRoute (kp_ifindex k) r)) rs t)"
    if "setting_up env c k ip acc t" "set rs \<subseteq> set (sp_framed_routes (ao_policy (snd acc)))" for rs t
    using that
  proof (induction rs arbitrary: t)
    case (Cons r rs)
    have "setting_up env c k ip acc (attempt env (EffRoute (kp_ifindex k) r) t)"
      by (rule setting_up_attempt) (use Cons.prems in \<open>auto simp: setting_up_def split_beta\<close>)
    with Cons show ?case by simp
  qed simp
  with assms show ?thesis
    by (auto simp: apply_routes_def setting_up_def split: option.split)
qed

lemma setting_up_done:
  assumes "setting_up env c k ip acc s"
  shows "\<exists>c'. sim env c' (acct_start env k ip (s\<lparr>ss_kppp := Some k\<rparr>))"
proof (cases "env_acct env")
  case False
  with assms show ?thesis
    by (auto simp: acct_start_def setting_up_def sim_def linked_def Let_def intro!: exI [of _ c])
next
  case True
  let ?sess = "(acct_session_new (env_nanos env (ss_calls s)) ip (ucast (env_id env)))
    \<lparr>as_class := sp_class (ao_policy (snd acc))\<rparr>"
  let ?e = "EffAcct (fst acc) ?sess AcctStart acct_counters_default"
  have "allowed c ?e"
    using assms by (simp add: setting_up_def linked_def acct_session_new_def split_beta)
  with assms contract_run_snoc [of contract_init "ss_log s" c ?e] True
  have "sim env (apply_effect c ?e) (acct_start env k ip (s\<lparr>ss_kppp := Some k\<rparr>))"
    by (simp add: acct_start_def setting_up_def sim_def linked_def Let_def
      acct_session_new_def)
  then show ?thesis by blast
qed

lemma sim_network_up:
  assumes "sim env c s" and "granted_ip c = Some (aa_ip addrs)" and "network_up env addrs s = (s', ok)"
  shows "\<exists>c'. sim env c' s'"
proof (cases "ss_kppp s")
  case (Some k)
  with assms(1,3) show ?thesis by (auto simp: network_up_def Let_def)
next
  case None
  obtain s1 om where p: "choose_data_path env s = (s1, om)" by fastforce
  from assms(1) choose_data_path_frame [OF p] have s1: "sim env c s1" "ss_kppp s1 = None"
    using None by auto
  show ?thesis
  proof (cases om)
    case None
    with p assms(3) \<open>ss_kppp s = None\<close> s1 show ?thesis by (auto simp: network_up_def Let_def)
  next
    case (Some mode)
    let ?mtu = "map_option unat (aa_mtu addrs)"
    obtain s2 ok2 where b: "kppp_bring_up env mode ?mtu s1 = (s2, ok2)" by fastforce
    from s1 kppp_bring_up_frame [OF b] have s2: "sim env c s2" "ss_kppp s2 = None" by auto
    show ?thesis
    proof (cases ok2)
      case None
      with p b Some assms(3) \<open>ss_kppp s = None\<close> s2 show ?thesis by (auto simp: network_up_def Let_def)
    next
      case k: (Some k)
      let ?e = "EffNetdev k (aa_ip addrs)"
      let ?s3 = "(log_effect ?e s2)\<lparr>ss_info := publish_data_path (kp_ifname k) (kp_mtu k)
        (if kp_kernel k then ''kmod'' else ''tun'') (ss_pending_shaping s2) (ss_info s2)\<rparr>"
      from assms(2) obtain acc where acc: "co_accept c = Some acc"
        by (auto simp: granted_ip_def split: option.splits)
      have w: "waiting c s2" using s2 by (simp add: sim_def)
      have "setting_up env (apply_effect c ?e) k (aa_ip addrs) acc ?s3"
        using s2 assms(2) acc w contract_run_snoc [of contract_init "ss_log s2" c ?e]
        by (cases acc) (simp add: setting_up_def sim_def linked_def waiting_def)
      moreover have "ss_pending_shaping ?s3 = ao_shaping (snd acc)"
        using w acc by (cases acc) (simp add: waiting_def)
      ultimately have s4: "setting_up env (apply_effect c ?e) k (aa_ip addrs) acc (apply_shaping env k ?s3)"
        by (rule setting_up_shaping)
      have "ss_mss_handle (apply_shaping env k ?s3) = None"
        using w by (simp add: apply_shaping_def attempt_def waiting_def Let_def split: option.split)
      from setting_up_mss [OF s4 this] obtain c' where
        "setting_up env c' k (aa_ip addrs) acc (apply_mss env ?mtu k (apply_shaping env k ?s3))" by blast
      from setting_up_done [OF setting_up_routes [OF this]] show ?thesis
        using p b Some k assms(3) \<open>ss_kppp s = None\<close> by (auto simp: network_up_def Let_def)
    qed
  qed
qed

subsection \<open>Steps of the PPP driver\<close>

text \<open>A verdict, its effect on the contract and its effect on what waits for the device.\<close>

lemma sim_verdict:
  assumes "sim env c s" and "ss_ppp s = Some p" and "needs_auth (Some ev)"
    and "verdict_frame (ao_verdict oc) p (p', step)"
    and "ss_log s' = ss_log s @ [EffAuth ev oc]" and "ss_ppp s' = Some p'"
    and "ss_kppp s' = ss_kppp s" and "ss_mss_handle s' = ss_mss_handle s"
    and "ss_acct_state s' = ss_acct_state s" and "ss_tx_buf s' = ss_tx_buf s"
    and "case ao_verdict oc of
        Accept _ \<Rightarrow> ss_pending_shaping s' = ao_shaping oc \<and> ss_pending_policy s' = Some (ao_policy oc)
          \<and> ss_pending_username s' = Some (event_user ev)
      | Reject _ \<Rightarrow> ss_pending_shaping s' = ss_pending_shaping s
          \<and> ss_pending_policy s' = ss_pending_policy s \<and> ss_pending_username s' = ss_pending_username s"
  shows "\<exists>c'. sim env c' s' \<and> event_ok c' p' (ps_event step)"
proof (intro exI conjI)
  let ?c = "apply_effect c (EffAuth ev oc)"
  have run: "contract_run contract_init (ss_log s') = Some ?c"
    using assms(1,3,5) contract_run_snoc [of contract_init "ss_log s" c "EffAuth ev oc"]
    by (simp add: sim_defs)
  have co: "co_dev ?c = co_dev c" "co_mss ?c = co_mss c" "co_acct ?c = co_acct c"
    "co_released ?c = co_released c"
    by (simp_all split: auth_verdict.split)
  have pend: "pend_ok ?c (Some p')"
    using assms(1,2,4)
    by (cases "ao_verdict oc") (auto simp: verdict_frame_def sim_defs pend_ok_def granted_ip_def)
  have "waiting ?c s'" if "waiting c s"
    using that assms(8,9,11) by (cases "ao_verdict oc") (auto simp: waiting_def)
  with run co pend assms(1,6-10) show "sim env ?c s'" by (simp add: sim_def linked_def)
  show "event_ok ?c p' (ps_event step)"
    using assms(4) by (cases "ao_verdict oc") (auto simp: verdict_frame_def event_ok_def granted_ip_def)
qed

lemma stash_accept_fields [simp]:
  "ss_log (stash_accept oc u s) = ss_log s" "ss_kppp (stash_accept oc u s) = ss_kppp s"
  "ss_mss_handle (stash_accept oc u s) = ss_mss_handle s"
  "ss_acct_state (stash_accept oc u s) = ss_acct_state s"
  "ss_tx_buf (stash_accept oc u s) = ss_tx_buf s"
  by (simp_all add: stash_accept_def split: auth_verdict.split)

lemma sim_submit_auth:
  assumes "sim env c s" and "ss_ppp s = Some p" and "event_ok c p (Some ev)"
    and "submit_auth env ev p s = Some (s', step)"
  shows "\<exists>c' p'. sim env c' s' \<and> ss_ppp s' = Some p' \<and> event_ok c' p' (ps_event step)"
proof (cases ev)
  case (NeedPapAuth u pw)
  define oc where "oc = env_pap env (ss_calls s) (from_utf8_lossy u) pw"
  from assms(4) NeedPapAuth obtain p' where
    r: "on_auth_result (env_challenge env (ss_calls s)) p (ao_verdict oc) = Some (p', step)"
    and s': "s' = (stash_accept oc (from_utf8_lossy u) (called (log_effect (EffAuth ev oc) s)))
      \<lparr>ss_ppp := Some p'\<rparr>"
    by (auto simp: submit_auth_def submit_pap_def Let_def oc_def split: option.splits)
  from assms(3) NeedPapAuth obtain i where "ppp_phase p = AuthInFlight (IfPap i)"
    by (auto simp: event_ok_def)
  with verdict_frame_auth [OF r] have v: "verdict_frame (ao_verdict oc) p (p', step)" by blast
  have "\<exists>c'. sim env c' s' \<and> event_ok c' p' (ps_event step)"
    by (rule sim_verdict [OF assms(1,2) _ v, of ev])
      (simp_all add: s' NeedPapAuth stash_accept_def split: auth_verdict.split)
  with s' show ?thesis by auto
next
  case (NeedChapAuth u i ch rs)
  define oc where "oc = env_chap env (ss_calls s) (from_utf8_lossy u) i rs ch"
  from assms(4) NeedChapAuth obtain p' where
    r: "on_auth_result (env_challenge env (ss_calls s)) p (ao_verdict oc) = Some (p', step)"
    and s': "s' = (stash_accept oc (from_utf8_lossy u) (called (log_effect (EffAuth ev oc) s)))
      \<lparr>ss_ppp := Some p'\<rparr>"
    by (auto simp: submit_auth_def submit_chap_def Let_def oc_def split: option.splits)
  from assms(3) NeedChapAuth obtain i where "ppp_phase p = AuthInFlight (IfChap i)"
    by (auto simp: event_ok_def)
  with verdict_frame_auth [OF r] have v: "verdict_frame (ao_verdict oc) p (p', step)" by blast
  have "\<exists>c'. sim env c' s' \<and> event_ok c' p' (ps_event step)"
    by (rule sim_verdict [OF assms(1,2) _ v, of ev])
      (simp_all add: s' NeedChapAuth stash_accept_def split: auth_verdict.split)
  with s' show ?thesis by auto
next
  case (NeedMsChapV2Auth u i ac pc nt fl)
  define mo where "mo = env_mschap env (ss_calls s) (from_utf8_lossy u) i ac pc nt fl"
  define oc where "oc = auth_outcome.truncate mo"
  have oc: "ao_verdict oc = ao_verdict mo" "ao_shaping oc = ao_shaping mo" "ao_policy oc = ao_policy mo"
    by (simp_all add: oc_def auth_outcome.truncate_def)
  let ?s2 = "stash_accept mo (from_utf8_lossy u) (called (log_effect (EffAuth ev oc) s))"
  from assms(4) NeedMsChapV2Auth obtain p' where
    r: "on_mschap_result (env_challenge env (ss_calls s)) p (ao_verdict mo)
      (mo_auth_response mo) (mo_error_string mo) = Some (p', step)"
    and s': "s' = (case ao_verdict mo of Accept _ \<Rightarrow> ?s2\<lparr>ss_pending_hlak := mo_hlak mo\<rparr>
        | Reject _ \<Rightarrow> ?s2)\<lparr>ss_ppp := Some p'\<rparr>"
    by (auto simp: submit_auth_def submit_mschapv2_def Let_def mo_def oc_def
      split: option.splits auth_verdict.splits)
  from assms(3) NeedMsChapV2Auth obtain i where "ppp_phase p = AuthInFlight (IfMsChapV2 i)"
    by (auto simp: event_ok_def)
  with verdict_frame_mschap [OF r] have v: "verdict_frame (ao_verdict oc) p (p', step)" by (simp add: oc)
  have "\<exists>c'. sim env c' s' \<and> event_ok c' p' (ps_event step)"
    by (rule sim_verdict [OF assms(1,2) _ v, of ev])
      (simp_all add: s' oc NeedMsChapV2Auth stash_accept_def split: auth_verdict.split)
  with s' show ?thesis by auto
next
  case (NetworkUp a)
  with assms(4) show ?thesis by (simp add: submit_auth_def Let_def)
qed

text \<open>One round of the loop of \<open>handle_ppp_step\<close>.\<close>

lemma handle_ppp_step_round:
  assumes "handle_ppp_step env step s = Some (s', ok)"
  obtains s1 ok1 where "render_ppp_step env step s = Some (s1, ok1)"
    and "\<not> ok1 \<or> ps_event step = None \<Longrightarrow> s' = s1"
    and "\<And>a. ok1 \<Longrightarrow> ps_event step = Some (NetworkUp a) \<Longrightarrow> \<exists>up. network_up env a s1 = (s', up)"
    and "\<And>ev. ok1 \<Longrightarrow> ps_event step = Some ev \<Longrightarrow> needs_auth (Some ev) \<Longrightarrow>
      \<exists>p s2 step2. ss_ppp s1 = Some p \<and> submit_auth env ev p s1 = Some (s2, step2)
        \<and> handle_ppp_step env step2 s2 = Some (s', ok)"
proof -
  from assms obtain s1 ok1 where w: "render_ppp_step env step s = Some (s1, ok1)"
    by (auto simp: handle_ppp_step.simps [of env step s] bind_eq_Some_conv)
  note r = assms [unfolded handle_ppp_step.simps [of env step s] w]
  show ?thesis
  proof (rule that [OF w])
    show "s' = s1" if "\<not> ok1 \<or> ps_event step = None"
      using that r by (auto split: if_splits)
    show "\<exists>up. network_up env a s1 = (s', up)" if "ok1" "ps_event step = Some (NetworkUp a)" for a
      using that r by (auto split: prod.splits)
    show "\<exists>p s2 step2. ss_ppp s1 = Some p \<and> submit_auth env ev p s1 = Some (s2, step2)
        \<and> handle_ppp_step env step2 s2 = Some (s', ok)"
      if "ok1" "ps_event step = Some ev" "needs_auth (Some ev)" for ev
      using that r by (cases ev) (auto simp: bind_eq_Some_conv split: option.splits)
  qed
qed

lemma sim_handle_settled:
  assumes "sim env c s" and "event_ok c p (ps_event step)" and "\<not> needs_auth (ps_event step)"
    and "handle_ppp_step env step s = Some (s', ok)"
  shows "\<exists>c'. sim env c' s'"
proof (rule handle_ppp_step_round [OF assms(4)])
  fix s1 ok1
  assume w: "render_ppp_step env step s = Some (s1, ok1)"
    and stop: "\<not> ok1 \<or> ps_event step = None \<Longrightarrow> s' = s1"
    and net: "\<And>a. ok1 \<Longrightarrow> ps_event step = Some (NetworkUp a) \<Longrightarrow> \<exists>up. network_up env a s1 = (s', up)"
  have s1: "sim env c s1" using sim_render_ppp_step [OF assms(1) w] by simp
  show ?thesis
  proof (cases "\<not> ok1 \<or> ps_event step = None")
    case True
    with stop s1 show ?thesis by auto
  next
    case False
    with assms(3) obtain a where ev: "ps_event step = Some (NetworkUp a)"
      by (cases "ps_event step" rule: needs_auth.cases) auto
    with net False obtain up where "network_up env a s1 = (s', up)" by blast
    moreover have "granted_ip c = Some (aa_ip a)" using assms(2) ev by (simp add: event_ok_def)
    ultimately show ?thesis using sim_network_up [OF s1] by blast
  qed
qed

lemma sim_handle_ppp_step:
  assumes "sim env c s" and "ss_ppp s = Some p" and "event_ok c p (ps_event step)"
    and "handle_ppp_step env step s = Some (s', ok)"
  shows "\<exists>c'. sim env c' s'"
proof (cases "needs_auth (ps_event step)")
  case False
  with sim_handle_settled [OF assms(1,3) _ assms(4)] show ?thesis by simp
next
  case True
  then obtain ev where ev: "ps_event step = Some ev" "needs_auth (Some ev)"
    by (cases "ps_event step") auto
  show ?thesis
  proof (rule handle_ppp_step_round [OF assms(4)])
    fix s1 ok1
    assume w: "render_ppp_step env step s = Some (s1, ok1)"
      and stop: "\<not> ok1 \<or> ps_event step = None \<Longrightarrow> s' = s1"
      and auth: "\<And>ev. ok1 \<Longrightarrow> ps_event step = Some ev \<Longrightarrow> needs_auth (Some ev) \<Longrightarrow>
        \<exists>p s2 step2. ss_ppp s1 = Some p \<and> submit_auth env ev p s1 = Some (s2, step2)
          \<and> handle_ppp_step env step2 s2 = Some (s', ok)"
    have s1: "sim env c s1" "ss_ppp s1 = Some p" using sim_render_ppp_step [OF assms(1) w] assms(2) by simp_all
    show ?thesis
    proof (cases ok1)
      case False
      with stop s1 show ?thesis by auto
    next
      case True
      from auth [OF True ev] s1 obtain s2 step2 where sub: "submit_auth env ev p s1 = Some (s2, step2)"
        and h: "handle_ppp_step env step2 s2 = Some (s', ok)" by auto
      have "event_ok c p (Some ev)" using assms(3) ev by simp
      from sim_submit_auth [OF s1 this sub] obtain c' p' where
        "sim env c' s2" "event_ok c' p' (ps_event step2)" by blast
      then show ?thesis by (rule sim_handle_settled [OF _ _ submit_auth_settles [OF sub] h])
    qed
  qed
qed

subsection \<open>Steps of the SSTP machine\<close>

lemma sim_kernel_dev:
  "sim env c s \<Longrightarrow> kernel_dev c = (case ss_kppp s of Some k \<Rightarrow> kp_kernel k | None \<Rightarrow> False)"
  by (auto simp: sim_def kernel_dev_def split: option.split)

definition reply_ready :: "step_out \<Rightarrow> bytes \<Rightarrow> bool" where
  "reply_ready out tx \<longleftrightarrow>
     (so_send_len out \<noteq> 0 \<longrightarrow> (\<exists>cp. packet_parse tx = Inr (Control cp, so_send_len out)))"

lemma sim_send_step:
  assumes "sim env c s" and "reply_ready out (ss_tx_buf s)"
    and "send_step env (so_send_len out) s = Some (s', ok)"
  shows "sim env c s' \<and> ss_ppp s' = ss_ppp s"
proof (cases "so_send_len out = 0")
  case True
  with assms show ?thesis by (simp add: send_step_def)
next
  case False
  with assms(2) obtain cp where cp: "packet_parse (ss_tx_buf s) = Inr (Control cp, so_send_len out)"
    by (auto simp: reply_ready_def)
  have tls: "sim env c (log_effect (EffTls (take (so_send_len out) (ss_tx_buf s))) s)"
    by (rule sim_passive [OF assms(1)]) (simp_all add: one_packet_take [OF cp])
  have "kernel_dev c" if "ss_kppp s = Some k" "kp_kernel k" for k
    using that sim_kernel_dev [OF assms(1)] by simp
  then have kmod: "sim env c (log_effect (EffKmodControl bs) s)" if "ss_kppp s = Some k" "kp_kernel k" for k bs
    using that by (intro sim_passive [OF assms(1)]) simp_all
  from assms(3) tls kmod False show ?thesis
    by (auto simp: send_step_def tls_write_def tls_flush_def split: if_splits option.splits)
qed

lemma sim_apply_step:
  assumes "sim env c s" and "reply_ready out (ss_tx_buf s)"
    and "apply_step env out s = Some (s', oc)"
  shows "sim env c s' \<and> ss_ppp s' = ss_ppp s"
proof -
  have timer: "sim env c (update_sstp_timer out t) = sim env c t"
    "ss_ppp (update_sstp_timer out t) = ss_ppp t" for t
    by (simp_all add: update_sstp_timer_def sim_defs Let_def)
  from assms(3) obtain s1 ok where w: "send_step env (so_send_len out) s = Some (s1, ok)"
    and r: "s' \<in> {s1, update_sstp_timer out s1}"
    by (auto simp: apply_step_def bind_eq_Some_conv Let_def split: if_splits)
  from r sim_send_step [OF assms(1,2) w] show ?thesis by (auto simp: timer)
qed

lemma sim_event_ok:
  assumes "sim env c s" and "ss_ppp s = Some p" and "step_frame p (p', step)"
  shows "sim env c (s\<lparr>ss_ppp := Some p'\<rparr>) \<and> event_ok c p' (ps_event step)"
  using assms by (auto simp: sim_defs pend_ok_def step_frame_def event_ok_def)

lemma sim_run_ppp:
  assumes "sim env c s" and "ss_ppp s = Some p" and "\<And>x. r = Some x \<Longrightarrow> step_frame p x"
    and "run_ppp env r s = Some (s', ok)"
  shows "\<exists>c'. sim env c' s'"
proof -
  from assms(4) obtain p' step where r: "r = Some (p', step)"
    and h: "handle_ppp_step env step ((called s)\<lparr>ss_ppp := Some p'\<rparr>) = Some (s', ok)"
    by (auto simp: run_ppp_def split: option.splits)
  from sim_event_ok [of env c "called s" p p' step] assms(1-3) r
  have "sim env c ((called s)\<lparr>ss_ppp := Some p'\<rparr>)" "event_ok c p' (ps_event step)" by auto
  then show ?thesis using sim_handle_ppp_step [of env c _ p' step s' ok] h by simp
qed

lemma sim_handle_sstp_step:
  assumes "sim env c s" and "reply_ready out (ss_tx_buf s)"
    and "handle_sstp_step env out s = Some (s', ok)"
  shows "\<exists>c'. sim env c' s'"
proof -
  from assms(3) obtain s1 oc where a: "apply_step env out s = Some (s1, oc)"
    by (auto simp: handle_sstp_step_def bind_eq_Some_conv)
  note s1 = sim_apply_step [OF assms(1,2) a]
  show ?thesis
  proof (cases "keep_going oc \<and> start_ppp oc \<and> ss_ppp s1 = None")
    case False
    with assms(3) a s1 show ?thesis
      by (auto simp: handle_sstp_step_def split: if_splits)
  next
    case True
    with assms(3) a obtain p step where
      o: "ppp_open (env_challenge env (ss_calls s1)) (ppp_new (env_local_ip env) (env_auth_method env))
        = Some (p, step)"
      and h: "handle_ppp_step env step ((called s1)\<lparr>ss_ppp := Some p\<rparr>) = Some (s', ok)"
      by (auto simp: handle_sstp_step_def bind_eq_Some_conv)
    from step_frame_open [OF o] s1
    have "sim env c ((called s1)\<lparr>ss_ppp := Some p\<rparr>)" "event_ok c p (ps_event step)"
      by (auto simp: sim_defs pend_ok_def step_frame_def event_ok_def ppp_new_def)
    then show ?thesis using sim_handle_ppp_step [of env c _ p step s' ok] h by simp
  qed
qed

lemma sim_run_ssm:
  assumes "sim env c s" and "good_result (ss_tx_buf s) r" and "run_ssm env r s = Some (s', ok)"
  shows "\<exists>c'. sim env c' s'"
proof -
  from assms(2,3) obtain sm tx out where r: "r = Some (sm, tx, out)" and len: "length tx = length (ss_tx_buf s)"
    and rr: "reply_ready out tx"
    and h: "handle_sstp_step env out (s\<lparr>ss_ssm := sm, ss_tx_buf := tx\<rparr>) = Some (s', ok)"
    by (auto simp: good_result_def run_ssm_def reply_ready_def)
  have "sim env c (s\<lparr>ss_ssm := sm, ss_tx_buf := tx\<rparr>)" using assms(1) len by (simp add: sim_defs)
  then show ?thesis using sim_handle_sstp_step [OF _ _ h] rr by simp
qed

lemma sim_silent_step:
  assumes "sim env c s" and "so_send_len out = 0" and "handle_sstp_step env out s = Some (s', ok)"
  shows "\<exists>c'. sim env c' s'"
  using sim_handle_sstp_step [OF assms(1) _ assms(3)] assms(2) by (simp add: reply_ready_def)

subsection \<open>The arms of the loop\<close>

text \<open>What the random generator returns.\<close>

definition env_wf :: "session_env \<Rightarrow> bool" where
  "env_wf env \<longleftrightarrow>
     (\<forall>n. length (env_nonce env n) = 32) \<and> (\<forall>n. length (env_challenge env n) = 16)"

lemma sim_tx_len: "sim env c s \<Longrightarrow> length (ss_tx_buf s) = 4095"
  by (simp add: sim_defs wire_defs)

text \<open>Updates of the fields the simulation does not look at.\<close>

lemma sim_updates [simp]:
  "sim env c (s\<lparr>ss_acct_cause := x1\<rparr>) = sim env c s" "sim env c (s\<lparr>ss_sstp_timer := x2\<rparr>) = sim env c s"
  "sim env c (s\<lparr>ss_ppp_timer := x3\<rparr>) = sim env c s" "sim env c (s\<lparr>ss_hello_echo_pending := x4\<rparr>) = sim env c s"
  "sim env c (s\<lparr>ss_rx_buf := x5\<rparr>) = sim env c s" "sim env c (s\<lparr>ss_last_rx := x6\<rparr>) = sim env c s"
  "sim env c (s\<lparr>ss_now := x7\<rparr>) = sim env c s" "sim env c (s\<lparr>ss_ssm := x8\<rparr>) = sim env c s"
  "sim env c (s\<lparr>ss_pending_hlak := x9\<rparr>) = sim env c s" "sim env c (s\<lparr>ss_kmod_fd := xa\<rparr>) = sim env c s"
  "sim env c (s\<lparr>ss_last_acct_interim := xb\<rparr>) = sim env c s" "sim env c (s\<lparr>ss_idle_deadline := xc\<rparr>) = sim env c s"
  "sim env c (s\<lparr>ss_last_activity_octets := xd\<rparr>) = sim env c s"
  by (simp_all add: sim_defs)

lemma sim_rx_activity [simp]: "sim env c (rx_activity s) = sim env c s"
  by (simp add: rx_activity_def)

lemma sim_hello_check:
  assumes "sim env c s" and "hello_check env s = Some (s', ok)"
  shows "\<exists>c'. sim env c' s'"
proof -
  let ?s = "s\<lparr>ss_hello_echo_pending := True\<rparr>"
  have "good_result (ss_tx_buf ?s) (on_timer Hello (ss_ssm s) (ss_tx_buf s))"
    using sim_tx_len [OF assms(1)] by (simp add: on_timer_good del: on_timer.simps)
  then have hello: "\<exists>c'. sim env c' s'"
    if "run_ssm env (on_timer Hello (ss_ssm s) (ss_tx_buf s)) ?s = Some (s', ok)"
    using sim_run_ssm [of env c ?s] that assms(1) by simp
  show ?thesis
    using assms hello sim_silent_step [OF assms(1), of "on_hello_timeout_no_response (ss_ssm s)" s' ok]
    by (auto simp: hello_check_def Let_def on_hello_timeout_no_response_def simp del: on_timer.simps
      split: if_splits)
qed

lemma sim_acct_interim:
  assumes "sim env c s"
  shows "sim env c (acct_interim env s)"
proof (cases "ss_acct_state s")
  case None
  with assms show ?thesis by (simp add: acct_interim_def Let_def)
next
  case (Some st)
  define ctr where "ctr = sample_acct_counters env (at_started st) (at_last_counters st)
    (s\<lparr>ss_last_acct_interim := ss_now s\<rparr>)"
  let ?e = "EffAcct (at_username st) (at_session st) AcctInterimUpdate ctr"
  have "sim env c ((log_effect ?e (called t))\<lparr>ss_acct_state := Some (st\<lparr>at_last_counters := ctr\<rparr>)\<rparr>)"
    if "sim env c t" "ss_acct_state t = Some st" for t
  proof -
    have "sim env c (log_effect ?e (called t))"
      by (rule sim_passive) (use that in \<open>simp_all add: sim_defs\<close>)
    with that show ?thesis by (simp add: sim_defs)
  qed
  with assms Some show ?thesis by (simp add: acct_interim_def Let_def ctr_def [symmetric])
qed

lemma sim_periodic_tick:
  assumes "sim env c s" and "on_periodic_tick env s = Some (s', ok)"
  shows "\<exists>c'. sim env c' s'"
proof -
  from assms(2) obtain s1 ok1 where h: "hello_check env s = Some (s1, ok1)"
    and r: "s' \<in> {s1, acct_interim env s1}"
    by (auto simp: on_periodic_tick_def bind_eq_Some_conv split: if_splits)
  from sim_hello_check [OF assms(1) h] obtain c' where "sim env c' s1" by blast
  with r sim_acct_interim [of env c' s1] show ?thesis by auto
qed

lemma sim_disconnect:
  assumes "sim env c s" and "on_disconnect_event env cause s = Some (s', ok)"
  shows "\<exists>c'. sim env c' s'"
proof -
  have "good_result (ss_tx_buf s) (on_higher_layer_disconnect (ss_ssm s) (ss_tx_buf s))"
    using sim_tx_len [OF assms(1)] sstp_step_good [of "ss_tx_buf s" SeDisconnect undefined "ss_ssm s"]
    by simp
  then show ?thesis
    using sim_run_ssm [of env c "s\<lparr>ss_acct_cause := cause\<rparr>"] assms
    by (simp add: on_disconnect_event_def)
qed

lemma sim_sstp_timer:
  assumes "sim env c s" and "on_sstp_timer env s = Some (s', ok)"
  shows "\<exists>c'. sim env c' s'"
proof -
  have "good_result (ss_tx_buf s) (on_timer w (ss_ssm s) (ss_tx_buf s))" for w
    using sim_tx_len [OF assms(1)] by (simp add: on_timer_good)
  moreover from assms(2) obtain w where
    "run_ssm env (on_timer w (ss_ssm s) (ss_tx_buf s)) (s\<lparr>ss_sstp_timer := None\<rparr>) = Some (s', ok)"
    by (auto simp: on_sstp_timer_def split: option.splits)
  ultimately show ?thesis
    using sim_run_ssm [of env c "s\<lparr>ss_sstp_timer := None\<rparr>" "on_timer w (ss_ssm s) (ss_tx_buf s)"] assms(1)
    by simp
qed

lemma sim_ppp_timer:
  assumes "sim env c s" and "on_ppp_timer_event env s = Some (s', ok)"
  shows "\<exists>c'. sim env c' s'"
proof (cases "ss_ppp s")
  case None
  with assms show ?thesis by (auto simp: on_ppp_timer_event_def Let_def split: option.splits)
next
  case (Some p)
  with assms(2) obtain owner where
    r: "run_ppp env (ppp_on_timer (env_challenge env (ss_calls s)) p owner) (s\<lparr>ss_ppp_timer := None\<rparr>)
      = Some (s', ok)"
    by (auto simp: on_ppp_timer_event_def Let_def split: option.splits)
  show ?thesis
    by (rule sim_run_ppp [OF _ _ _ r, of c p]) (use assms(1) Some in \<open>auto intro: step_frame_on_timer\<close>)
qed

lemma sim_tun_packet:
  assumes "sim env c s" and "on_tun_packet env body s = Some (s', ok)"
  shows "\<exists>c'. sim env c' s'"
proof -
  have "s' = s \<or> (\<exists>frame s1 ok1. write_ppp_as_sstp_data env frame s = Some (s1, ok1)
      \<and> s' \<in> {s1, called s1})"
    using assms(2)
    by (auto simp: on_tun_packet_def bind_eq_Some_conv tls_flush_def split: if_splits option.splits)
  then have "sim env c s'" using assms(1) sim_write_ppp [OF assms(1)] by force
  then show ?thesis ..
qed

lemma sim_control_message:
  assumes "env_wf env" and "sim env c s" and "on_control_message env raw msg s = Some (s', ok)"
  shows "\<exists>c'. sim env c' s'"
proof (cases "\<exists>cb. msg = CmCallConnected cb")
  case True
  then obtain cb where cb: "msg = CmCallConnected cb" by blast
  let ?pkt = "zeroed_mac (take CALL_CONNECTED_LEN raw)"
  have "good_result (ss_tx_buf s)
      (verify_call_connected (env_crypto env) cb ?pkt (ss_ssm s) (ss_tx_buf s))"
    using sim_tx_len [OF assms(2)]
      sstp_step_good [of "ss_tx_buf s" "SeCallConnected cb ?pkt" "env_crypto env" "ss_ssm s"] by simp
  with sim_run_ssm [OF assms(2)] assms(3) cb show ?thesis
    by (auto simp: on_control_message_def split: if_splits)
next
  case False
  have "good_result (ss_tx_buf (called s))
      (on_message (env_crypto env) (env_nonce env (ss_calls s)) msg (ss_ssm s) (ss_tx_buf s))"
    using sim_tx_len [OF assms(2)] assms(1) by (simp add: on_message_good env_wf_def)
  moreover have "run_ssm env
      (on_message (env_crypto env) (env_nonce env (ss_calls s)) msg (ss_ssm s) (ss_tx_buf s))
      (called s) = Some (s', ok)"
    using assms(3) False by (cases msg) (simp_all add: on_control_message_def)
  ultimately show ?thesis using sim_run_ssm [of env c "called s"] assms(2) by auto
qed

lemma sim_kmod_control:
  assumes "env_wf env" and "sim env c s" and "on_kmod_control env payload s = Some (s', ok)"
  shows "\<exists>c'. sim env c' s'"
proof -
  from assms(3) have "s' = s \<or> (\<exists>raw msg. on_control_message env raw msg s = Some (s', ok))"
    by (cases "parse_control_payload payload")
      (auto simp: on_kmod_control_def split: control_message.splits if_splits)
  then show ?thesis using assms(2) sim_control_message [OF assms(1,2)] by blast
qed

lemma sim_kmod_events:
  assumes "env_wf env" and "sim env c s" and "on_kmod_events env evs s = Some (s', ok)"
  shows "\<exists>c'. sim env c' s'"
  using assms(2,3)
proof (induction evs arbitrary: c s)
  case Nil
  then show ?case by auto
next
  case (Cons ev evs)
  consider (skip) t where "t \<in> {s, called s}" "on_kmod_events env evs t = Some (s', ok)"
    | (stop) "s' \<in> {s, called s}"
    | (msg) payload s2 ok2 where "on_kmod_control env payload (called s) = Some (s2, ok2)"
        "if ok2 then on_kmod_events env evs s2 = Some (s', ok) else s' = s2"
    using Cons.prems(2)
    by (auto simp: bind_eq_Some_conv Let_def split: option.splits kmod_event.splits if_splits)
  then show ?case
  proof cases
    case skip
    with Cons.IH [of c t] Cons.prems(1) show ?thesis by auto
  next
    case stop
    with Cons.prems(1) show ?thesis by auto
  next
    case msg
    from sim_kmod_control [OF assms(1) _ msg(1)] Cons.prems(1) obtain c' where "sim env c' s2" by auto
    with msg(2) Cons.IH [of c' s2] show ?thesis by (auto split: if_splits)
  qed
qed

text \<open>A frame is written to the device only if the filter lets it pass.\<close>

lemma np_route_cases:
  assumes "np_route payload s = Some (s', routed)"
  shows "s' = s \<or> (\<exists>info k. ss_kppp s = Some k \<and> \<not> kp_kernel k \<and> length info \<le> kp_mtu k
    \<and> s' = called (log_effect (EffTun info) s))"
  using assms
  by (auto simp: np_route_def np_filter_decide_def Let_def not_less
    split: sum.splits option.splits if_splits)

lemma sim_np_route:
  assumes "sim env c s" and "np_route payload s = Some (s', routed)"
  shows "sim env c s' \<and> ss_ppp s' = ss_ppp s"
  using np_route_cases [OF assms(2)]
proof (elim disjE exE conjE)
  assume "s' = s"
  with assms(1) show ?thesis by simp
next
  fix info k
  assume k: "ss_kppp s = Some k" "\<not> kp_kernel k" "length info \<le> kp_mtu k"
    and s': "s' = called (log_effect (EffTun info) s)"
  have "sim env c (log_effect (EffTun info) s)"
    by (rule sim_passive [OF assms(1)]) (use assms(1) k in \<open>auto simp: sim_def split: option.splits\<close>)
  with s' show ?thesis by simp
qed

lemma sim_on_data:
  assumes "sim env c s" and "on_data env payload s = Some (s', ok)"
  shows "\<exists>c'. sim env c' s'"
proof -
  from assms(2) obtain s1 ok1 where h: "handle_sstp_step env (on_data_packet (ss_ssm s)) s = Some (s1, ok1)"
    and r: "(if \<not> ok1 then Some (s1, False)
       else do {
         (s2, routed) \<leftarrow> np_route payload s1;
         if routed then Some (s2, True)
         else case ss_ppp s2 of
             None \<Rightarrow> Some (s2, True)
           | Some p \<Rightarrow> run_ppp env (on_frame (env_challenge env (ss_calls s2)) p payload) s2
       }) = Some (s', ok)"
    by (auto simp: on_data_def bind_eq_Some_conv)
  have "so_send_len (on_data_packet (ss_ssm s)) = 0" by (simp add: on_data_packet_def)
  from sim_silent_step [OF assms(1) this h] obtain c1 where s1: "sim env c1 s1" by blast
  show ?thesis
  proof (cases ok1)
    case False
    with r s1 show ?thesis by auto
  next
    case True
    with r obtain s2 routed where n: "np_route payload s1 = Some (s2, routed)"
      and t: "s' = s2 \<or> (\<exists>p. ss_ppp s2 = Some p
        \<and> run_ppp env (on_frame (env_challenge env (ss_calls s2)) p payload) s2 = Some (s', ok))"
      by (auto simp: bind_eq_Some_conv split: if_splits option.splits)
    have s2: "sim env c1 s2" using sim_np_route [OF s1 n] by simp
    from t show ?thesis
    proof (elim disjE exE conjE)
      assume "s' = s2"
      with s2 show ?thesis by auto
    next
      fix p
      assume p: "ss_ppp s2 = Some p"
        and run: "run_ppp env (on_frame (env_challenge env (ss_calls s2)) p payload) s2 = Some (s', ok)"
      show ?thesis by (rule sim_run_ppp [OF s2 p _ run]) (rule step_frame_on_frame)
    qed
  qed
qed

text \<open>One round of the read loop.\<close>

lemma read_loop_data:
  assumes "packet_parse buf = Inr (Data payload, n)" and "read_loop env buf s = Some (s', ok)"
  obtains s1 ok1 where "on_data env payload s = Some (s1, ok1)"
    "if ok1 then read_loop env (drop n buf) s1 = Some (s', ok) else s' = s1 \<and> \<not> ok"
  using assms(2) unfolding read_loop.simps [of env buf s] assms(1)
  by (auto simp: bind_eq_Some_conv split: if_splits)

lemma read_loop_control:
  assumes "packet_parse buf = Inr (Control ctrl, n)" and "read_loop env buf s = Some (s', ok)"
    and "parse_control ctrl = Inr msg"
  obtains s1 ok1 where "on_control_message env buf msg s = Some (s1, ok1)"
    "if ok1 then read_loop env (drop n buf) s1 = Some (s', ok) else s' = s1 \<and> \<not> ok"
  using assms(2,3) unfolding read_loop.simps [of env buf s] assms(1)
  by (auto simp: bind_eq_Some_conv split: if_splits)

lemma read_loop_garbled:
  assumes "packet_parse buf = Inr (Control ctrl, n)" and "parse_control ctrl = Inl e"
  shows "read_loop env buf s = Some (s, False)"
  using assms(2) unfolding read_loop.simps [of env buf s] assms(1) by simp

lemma read_loop_end:
  assumes "packet_parse buf = Inl e"
  shows "read_loop env buf s = (case e of
      Truncated \<Rightarrow> Some (s\<lparr>ss_rx_buf := buf\<rparr>, True)
    | LengthMismatch _ _ \<Rightarrow> Some (s\<lparr>ss_rx_buf := buf\<rparr>, True)
    | _ \<Rightarrow> Some (s, False))"
  unfolding read_loop.simps [of env buf s] assms by simp

lemma read_loop_round:
  assumes "read_loop env buf s = Some (s', ok)"
  shows "s' \<in> {s, s\<lparr>ss_rx_buf := buf\<rparr>}
    \<or> (\<exists>pkt n s1 ok1. packet_parse buf = Inr (pkt, n)
        \<and> ((\<exists>payload. on_data env payload s = Some (s1, ok1))
           \<or> (\<exists>msg. on_control_message env buf msg s = Some (s1, ok1)))
        \<and> (if ok1 then read_loop env (drop n buf) s1 = Some (s', ok) else s' = s1 \<and> \<not> ok))"
proof (cases "packet_parse buf")
  case (Inl e)
  with assms read_loop_end [OF Inl, of env s] show ?thesis by (cases e) simp_all
next
  case (Inr r)
  then obtain pkt n where p: "packet_parse buf = Inr (pkt, n)" by (cases r) auto
  show ?thesis
  proof (cases pkt)
    case (Data payload)
    with p read_loop_data [OF _ assms, of payload n] show ?thesis by (metis (no_types, lifting))
  next
    case (Control ctrl)
    show ?thesis
    proof (cases "parse_control ctrl")
      case (Inl e)
      with p Control assms read_loop_garbled [of buf ctrl n e env s] show ?thesis by simp
    next
      case (Inr msg)
      with p Control read_loop_control [OF _ assms, of ctrl n msg] show ?thesis
        by (metis (no_types, lifting))
    qed
  qed
qed

lemma sim_read_loop:
  assumes "env_wf env" and "sim env c s" and "read_loop env buf s = Some (s', ok)"
  shows "\<exists>c'. sim env c' s'"
  using assms(2,3)
proof (induction buf arbitrary: c s rule: length_induct)
  case (1 buf)
  from read_loop_round [OF 1(3)] show ?case
  proof
    assume "s' \<in> {s, s\<lparr>ss_rx_buf := buf\<rparr>}"
    with 1(2) show ?thesis by auto
  next
    assume "\<exists>pkt n s1 ok1. packet_parse buf = Inr (pkt, n)
        \<and> ((\<exists>payload. on_data env payload s = Some (s1, ok1))
           \<or> (\<exists>msg. on_control_message env buf msg s = Some (s1, ok1)))
        \<and> (if ok1 then read_loop env (drop n buf) s1 = Some (s', ok) else s' = s1 \<and> \<not> ok)"
    then obtain pkt n s1 ok1 where p: "packet_parse buf = Inr (pkt, n)"
      and h: "(\<exists>payload. on_data env payload s = Some (s1, ok1))
        \<or> (\<exists>msg. on_control_message env buf msg s = Some (s1, ok1))"
      and r: "if ok1 then read_loop env (drop n buf) s1 = Some (s', ok) else s' = s1 \<and> \<not> ok"
      by blast
    have "\<exists>c1. sim env c1 s1"
      using h sim_on_data [OF 1(2)] sim_control_message [OF assms(1) 1(2)] by blast
    then obtain c1 where "sim env c1 s1" ..
    moreover have "length (drop n buf) < length buf" using packet_parse_consumed [OF p] by auto
    ultimately show ?thesis
      using r 1(1) [rule_format, of "drop n buf" c1 s1] by (auto split: if_splits)
  qed
qed

lemma sim_rekey: "sim env c s \<Longrightarrow> sim env c (on_rekey env r s)"
  using sim_passive [of env c "called s" "EffKeyUpdate r"] sim_kernel_dev [of env c s]
  by (simp add: on_rekey_def attempt_def)

lemma sim_dispatch:
  assumes "env_wf env" and "sim env c s" and "dispatch env ev s = Some (s', ok)"
  shows "\<exists>c'. sim env c' s'"
proof (cases ev)
  case (EvRead chunk)
  with assms sim_read_loop [OF assms(1), of c "rx_activity s"] show ?thesis
    by (auto simp: on_read_def split: if_splits)
next
  case (EvKmod evs)
  with assms sim_kmod_events [OF assms(1), of c "rx_activity s"] show ?thesis by auto
next
  case (EvRekey r)
  with assms sim_rekey [OF assms(2), of r] show ?thesis by auto
qed (use assms in \<open>auto intro: sim_disconnect sim_periodic_tick sim_sstp_timer sim_ppp_timer
  sim_tun_packet\<close>)

lemma sim_apply_policy: "sim env c s \<Longrightarrow> sim env c (apply_policy s)"
  by (auto simp: apply_policy_def sim_defs split: option.split)

lemma sim_loop_top:
  assumes "sim env c s" and "loop_top env s = (s', ok)"
  shows "sim env c s'"
  using assms sim_apply_policy
  by (auto simp: loop_top_def Let_def split: option.splits if_splits)

text \<open>What is left when the task has returned.\<close>

definition released :: "contract \<Rightarrow> bool" where
  "released c \<longleftrightarrow> co_dev c = None \<and> co_mss c = None \<and> \<not> acct_is_open (co_acct c)"

lemma contract_acct_stop:
  assumes "sim env c s"
  shows "\<exists>c'. contract_run contract_init (ss_log (acct_stop env s)) = Some c' \<and> \<not> co_released c'
    \<and> \<not> acct_is_open (co_acct c') \<and> co_mss c' = ss_mss_handle (acct_stop env s)
    \<and> map_option fst (co_dev c') = ss_kppp (acct_stop env s)"
proof (cases "ss_acct_state s")
  case None
  with assms show ?thesis by (auto simp: acct_stop_def Let_def sim_defs intro!: exI [of _ c])
next
  case (Some st)
  let ?e = "EffAcct (at_username st) (at_session st) (AcctStop (to_terminate_cause (ss_acct_cause s)))
    (sample_acct_counters env (at_started st) (at_last_counters st) s)"
  have "allowed c ?e" using assms(1) Some by (simp add: sim_defs)
  with assms Some contract_run_snoc [of contract_init "ss_log s" c ?e] show ?thesis
    by (intro exI [of _ "apply_effect c ?e"]) (simp add: acct_stop_def Let_def sim_defs)
qed

lemma contract_exit:
  assumes "sim env c s"
  shows "\<exists>c'. contract_run contract_init (ss_log (session_exit env s)) = Some c' \<and> released c'"
proof -
  define t where "t = acct_stop env s"
  obtain c1 where c1: "contract_run contract_init (ss_log t) = Some c1" "\<not> co_released c1"
    "\<not> acct_is_open (co_acct c1)" "co_mss c1 = ss_mss_handle t" "map_option fst (co_dev c1) = ss_kppp t"
    using contract_acct_stop [OF assms] unfolding t_def by blast
  define u where "u = mss_drop t"
  obtain c2 where c2: "contract_run contract_init (ss_log u) = Some c2" "\<not> co_released c2"
    "\<not> acct_is_open (co_acct c2)" "co_mss c2 = None" "map_option fst (co_dev c2) = ss_kppp u"
  proof (cases "ss_mss_handle t")
    case None
    with c1 that show ?thesis by (simp add: u_def mss_drop_def)
  next
    case (Some m)
    obtain name mss where m: "m = (name, mss)" by fastforce
    from that [of "apply_effect c1 (EffMssGone name mss)"] c1 Some m
      contract_run_snoc [of contract_init "ss_log t" c1 "EffMssGone name mss"]
    show ?thesis by (simp add: u_def mss_drop_def)
  qed
  show ?thesis
  proof (cases "ss_kppp u")
    case None
    with c2 show ?thesis
      by (auto simp: session_exit_def kppp_drop_def u_def t_def released_def intro!: exI [of _ c2])
  next
    case (Some k)
    with c2 contract_run_snoc [of contract_init "ss_log u" c2 "EffNetdevGone k"]
    show ?thesis
      by (intro exI [of _ "apply_effect c2 (EffNetdevGone k)"])
        (simp add: session_exit_def kppp_drop_def u_def t_def released_def)
  qed
qed

subsection \<open>Runs\<close>

lemma sim_start:
  assumes "drive_start env h1 h2 now = Some (s, ok)"
  shows "\<exists>c. sim env c s"
proof -
  let ?sm = "fst (on_https_accepted (ss_ssm (session_new env h1 h2 now)))"
  have "sim env contract_init ((session_new env h1 h2 now)\<lparr>ss_ssm := ?sm\<rparr>)"
    by (simp add: sim_defs session_new_def contract_init_def pend_ok_def Let_def)
  moreover have "handle_sstp_step env (snd (on_https_accepted (ss_ssm (session_new env h1 h2 now))))
      ((session_new env h1 h2 now)\<lparr>ss_ssm := ?sm\<rparr>) = Some (s, ok)"
    using assms by (simp add: drive_start_def Let_def split_beta)
  moreover have "so_send_len (snd (on_https_accepted sm)) = 0" for sm
    by (simp add: on_https_accepted_def)
  ultimately show ?thesis using sim_silent_step by blast
qed

text \<open>The simulation of a running task, and what holds once it has returned.\<close>

definition run_ok :: "session_env \<Rightarrow> session \<times> bool \<Rightarrow> bool" where
  "run_ok env r \<longleftrightarrow>
     (\<exists>c. contract_run contract_init (ss_log (fst r)) = Some c
        \<and> (if snd r then sim env c (fst r) else released c))"

lemma run_ok_top:
  assumes "sim env c s"
  shows "run_ok env (session_top env (s, ok))"
proof -
  obtain t ok' where t: "loop_top env s = (t, ok')" by fastforce
  have st: "sim env c t" by (rule sim_loop_top [OF assms t])
  then have "contract_run contract_init (ss_log t) = Some c" by (simp add: sim_defs)
  with t st contract_exit [OF assms] contract_exit [OF st] show ?thesis
    by (cases ok; cases ok') (auto simp: session_top_def run_ok_def)
qed

lemma run_ok_round:
  assumes "env_wf env" and "sim env c s" and "session_round env now ev s = Some r"
  shows "run_ok env r"
proof -
  from assms(3) obtain s1 ok1 where d: "dispatch env ev (s\<lparr>ss_now := now\<rparr>) = Some (s1, ok1)"
    and r: "r = session_top env (s1, ok1)"
    by (auto simp: session_round_def)
  from sim_dispatch [OF assms(1) _ d, of c] assms(2) obtain c1 where "sim env c1 s1" by auto
  then show ?thesis unfolding r by (rule run_ok_top)
qed

lemma run_ok_drive:
  assumes "env_wf env" and "run_ok env r" and "drive env evs r = Some r'"
  shows "run_ok env r'"
  using assms(2,3)
proof (induction evs arbitrary: r)
  case Nil
  then show ?case by (cases r; cases "snd r") auto
next
  case (Cons e evs)
  obtain now ev s ok where e: "e = (now, ev)" "r = (s, ok)" by fastforce
  show ?case
  proof (cases ok)
    case False
    with Cons.prems e show ?thesis by auto
  next
    case True
    with Cons.prems e obtain r1 c where "sim env c s" "session_round env now ev s = Some r1"
      "drive env evs r1 = Some r'"
      by (auto simp: run_ok_def split: option.splits)
    with Cons.IH run_ok_round [OF assms(1)] show ?thesis by blast
  qed
qed

lemma drive_sstp_contract:
  assumes "env_wf env" and "drive_sstp env h1 h2 now evs = Some (s, alive)"
  shows "\<exists>c. contract_run contract_init (ss_log s) = Some c
    \<and> (if alive then sim env c s else released c)"
proof -
  from assms(2) obtain s0 ok where st: "drive_start env h1 h2 now = Some (s0, ok)"
    and dr: "drive env evs (session_top env (s0, ok)) = Some (s, alive)"
    by (auto simp: drive_sstp_def split: option.splits)
  from sim_start [OF st] obtain c where "sim env c s0" ..
  from run_ok_drive [OF assms(1) run_ok_top [OF this] dr] show ?thesis
    unfolding run_ok_def fst_conv snd_conv .
qed

text \<open>What a run of the contract has seen.\<close>

lemma contract_run_snocD:
  assumes "contract_run c0 (es @ [e]) = Some c'"
  obtains c where "contract_run c0 es = Some c" "allowed c e" "c' = apply_effect c e"
  using assms
  by (auto simp: contract_run_append bind_eq_Some_conv contract_step_def split: option.splits if_splits)

definition accepted_in :: "effect list \<Rightarrow> bytes \<times> auth_outcome \<Rightarrow> bool" where
  "accepted_in es acc \<longleftrightarrow>
     (\<exists>ev a. EffAuth ev (snd acc) \<in> set es \<and> event_user ev = fst acc
        \<and> ao_verdict (snd acc) = Accept a)"

definition device_in :: "effect list \<Rightarrow> kppp \<times> bytes \<Rightarrow> bool" where
  "device_in es d \<longleftrightarrow>
     (\<exists>p1 ev oc p2 p3 a. es = p1 @ [EffAuth ev oc] @ p2 @ [EffNetdev (fst d) (snd d)] @ p3
        \<and> ao_verdict oc = Accept a \<and> aa_ip a = snd d)"

lemma accepted_in_mono: "accepted_in es acc \<Longrightarrow> accepted_in (es @ es') acc"
  by (auto simp: accepted_in_def)

lemma accepted_in_now:
  "ao_verdict oc = Accept a \<Longrightarrow> accepted_in (es @ [EffAuth ev oc]) (event_user ev, oc)"
  by (auto simp: accepted_in_def)

lemma device_in_mono: "device_in es d \<Longrightarrow> device_in (es @ es') d"
  unfolding device_in_def by (metis append.assoc)

lemma contract_run_seen:
  assumes "contract_run contract_init es = Some c"
  shows "(\<forall>acc. co_accept c = Some acc \<longrightarrow> accepted_in es acc)
    \<and> (\<forall>d. co_dev c = Some d \<longrightarrow> device_in es d)"
  using assms
proof (induction es arbitrary: c rule: rev_induct)
  case Nil
  then show ?case by (auto simp: contract_init_def)
next
  case (snoc e es)
  from snoc.prems obtain c0 where c0: "contract_run contract_init es = Some c0"
    and al: "allowed c0 e" and c: "c = apply_effect c0 e"
    by (rule contract_run_snocD)
  note ih = snoc.IH [OF c0]
  have dev: "device_in (es @ [EffNetdev k ip]) (k, ip)" if "granted_ip c0 = Some ip" for k ip
  proof -
    from that obtain acc a where "co_accept c0 = Some acc" "ao_verdict (snd acc) = Accept a" "aa_ip a = ip"
      by (auto simp: granted_ip_def split: option.splits auth_verdict.splits)
    with ih obtain ev where "EffAuth ev (snd acc) \<in> set es" by (auto simp: accepted_in_def)
    then obtain p1 p2 where "es = p1 @ EffAuth ev (snd acc) # p2" by (auto simp: in_set_conv_decomp)
    then have "es @ [EffNetdev k ip] = p1 @ [EffAuth ev (snd acc)] @ p2 @ [EffNetdev k ip] @ []" by simp
    with \<open>ao_verdict (snd acc) = Accept a\<close> \<open>aa_ip a = ip\<close> show ?thesis
      unfolding device_in_def fst_conv snd_conv by blast
  qed
  have acc: "\<forall>acc. co_accept c = Some acc \<longrightarrow> accepted_in (es @ [e]) acc"
    using ih unfolding c
    by (cases "(c0, e)" rule: apply_effect.cases)
      (auto simp: accepted_in_mono accepted_in_now split: auth_verdict.splits)
  have "\<forall>d. co_dev c = Some d \<longrightarrow> device_in (es @ [e]) d"
    using ih al dev unfolding c
    by (cases "(c0, e)" rule: apply_effect.cases)
      (auto simp: device_in_mono split: auth_verdict.splits)
  with acc show ?case by blast
qed

fun is_acct :: "effect \<Rightarrow> bool" where
  "is_acct (EffAcct u sess ev ctr) = True"
| "is_acct _ = False"

text \<open>The accounting records that belong to a phase of the contract.\<close>

fun acct_records :: "acct_phase \<Rightarrow> effect list \<Rightarrow> bool" where
  "acct_records AcctIdle rs = (rs = [])"
| "acct_records (AcctOpen u sess) rs =
     (\<exists>c0 cs. rs = EffAcct u sess AcctStart c0 # map (EffAcct u sess AcctInterimUpdate) cs)"
| "acct_records AcctClosed rs =
     (\<exists>u sess c0 cs cause c1. rs = EffAcct u sess AcctStart c0 #
        map (EffAcct u sess AcctInterimUpdate) cs @ [EffAcct u sess (AcctStop cause) c1])"

lemma acct_records_interim:
  assumes "acct_records (AcctOpen u sess) rs"
  shows "acct_records (AcctOpen u sess) (rs @ [EffAcct u sess AcctInterimUpdate c])"
proof -
  from assms obtain c0 cs where
    "rs = EffAcct u sess AcctStart c0 # map (EffAcct u sess AcctInterimUpdate) cs" by auto
  then have "rs @ [EffAcct u sess AcctInterimUpdate c]
      = EffAcct u sess AcctStart c0 # map (EffAcct u sess AcctInterimUpdate) (cs @ [c])" by simp
  then show ?thesis unfolding acct_records.simps by blast
qed

lemma acct_records_stop:
  "acct_records (AcctOpen u sess) rs \<Longrightarrow>
   acct_records AcctClosed (rs @ [EffAcct u sess (AcctStop cause) c])"
  by auto

lemma contract_run_acct:
  assumes "contract_run contract_init es = Some c"
  shows "acct_records (co_acct c) (filter is_acct es)"
  using assms
proof (induction es arbitrary: c rule: rev_induct)
  case Nil
  then show ?case by (auto simp: contract_init_def)
next
  case (snoc e es)
  from snoc.prems obtain c0 where c0: "contract_run contract_init es = Some c0"
    and al: "allowed c0 e" and c: "c = apply_effect c0 e"
    by (rule contract_run_snocD)
  note ih = snoc.IH [OF c0]
  show ?case
  proof (cases "is_acct e")
    case False
    then have "co_acct c = co_acct c0"
      unfolding c by (cases "(c0, e)" rule: apply_effect.cases) (auto split: auth_verdict.split)
    with ih False show ?thesis by simp
  next
    case True
    then obtain u sess ev ctr where e: "e = EffAcct u sess ev ctr" by (cases e) auto
    with al ih show ?thesis
      by (cases ev) (simp_all add: c acct_records_interim acct_records_stop
        del: acct_records.simps(2,3), simp)
  qed
qed

subsection \<open>The properties\<close>


text \<open>
  C3 (safety).  No IP packet of the peer enters the system before RADIUS has accepted a login:
  when the task writes a packet to the TUN device, RADIUS has accepted credentials before, a
  device for the address assigned then has been created after that, the device is a TUN device,
  and the packet is within its MTU.
\<close>

theorem session_tun_authorised:
  assumes "env_wf env" and "drive_sstp env h1 h2 now evs = Some (s, alive)"
    and "ss_log s = pre @ EffTun body # post"
  shows "\<exists>p1 ev oc a p2 k ip p3. pre = p1 @ [EffAuth ev oc] @ p2 @ [EffNetdev k ip] @ p3
    \<and> ao_verdict oc = Accept a \<and> aa_ip a = ip \<and> \<not> kp_kernel k \<and> length body \<le> kp_mtu k"
proof -
  from drive_sstp_contract [OF assms(1,2)] obtain c where "contract_run contract_init (ss_log s) = Some c"
    by blast
  with assms(3) obtain c0 where c0: "contract_run contract_init pre = Some c0"
    and al: "allowed c0 (EffTun body)"
    by (auto simp: contract_run_append bind_eq_Some_conv contract_step_def split: option.splits if_splits)
  from al obtain k ip where k: "co_dev c0 = Some (k, ip)" "\<not> kp_kernel k" "length body \<le> kp_mtu k"
    by (auto split: option.splits)
  with contract_run_seen [OF c0] have "device_in pre (k, ip)" by blast
  with k(2,3) show ?thesis unfolding device_in_def fst_conv snd_conv by blast
qed

text \<open>
  C14 (functional).  Accounting is well bracketed: the records of a session are none, or one
  Start followed by Interim-Updates, all with the same user and session; when the task has
  returned they end with exactly one Stop.
\<close>

theorem session_accounting_bracketed:
  assumes "env_wf env" and "drive_sstp env h1 h2 now evs = Some (s, alive)"
  shows "filter is_acct (ss_log s) = []
    \<or> (\<exists>u sess c0 cs stop. filter is_acct (ss_log s) =
          EffAcct u sess AcctStart c0 # map (EffAcct u sess AcctInterimUpdate) cs @ stop
        \<and> (if alive then stop = []
           else \<exists>cause c1. stop = [EffAcct u sess (AcctStop cause) c1]))"
proof -
  from drive_sstp_contract [OF assms] obtain c where
    run: "contract_run contract_init (ss_log s) = Some c"
    and fin: "if alive then sim env c s else released c" by blast
  show ?thesis
  proof (cases "co_acct c")
    case AcctIdle
    with contract_run_acct [OF run] show ?thesis by simp
  next
    case (AcctOpen u sess)
    with fin have alive by (auto simp: released_def split: if_splits)
    with contract_run_acct [OF run] AcctOpen show ?thesis by auto
  next
    case AcctClosed
    with fin have "\<not> alive"
      by (cases "ss_acct_state s") (auto simp: sim_def linked_def split: if_splits)
    moreover from contract_run_acct [OF run] AcctClosed obtain u sess c0 cs cause c1 where
      "filter is_acct (ss_log s) = EffAcct u sess AcctStart c0 #
        map (EffAcct u sess AcctInterimUpdate) cs @ [EffAcct u sess (AcctStop cause) c1]"
      by auto
    ultimately show ?thesis
      by (intro disjI2 exI [of _ u] exI [of _ sess] exI [of _ c0] exI [of _ cs]
        exI [of _ "[EffAcct u sess (AcctStop cause) c1]"]) simp
  qed
qed

end
