(* ===== verification/Ppp_Size.thy ===== *)
theory Ppp_Size
  imports Ppp_Driver
begin

text \<open>
  How long the frames are that the PPP driver sends.  The session writes every frame into one
  SSTP packet, which holds at most 4091 bytes of it; a longer frame is a panic there.  The
  longest replies are those that repeat or correct the options of the peer.
\<close>

subsection \<open>Options and what is said about them\<close>

text \<open>The options an iteration returns, whether or not it ends with an error.\<close>

fun good_options :: "('e + 'a) list \<Rightarrow> 'a list" where
  "good_options [] = []"
| "good_options (Inl e # rest) = []"
| "good_options (Inr x # rest) = x # good_options rest"

definition options_len :: "config_option list \<Rightarrow> nat" where
  "options_len opts = sum_list (map encoded_len opts)"

lemma options_len_simps [simp]:
  "options_len [] = 0" "options_len (x # xs) = encoded_len x + options_len xs"
  by (simp_all add: options_len_def)

lemma options_len_iter: "options_len (good_options (option_iter data)) \<le> length data"
proof (induction data rule: option_iter.induct)
  case (1 data)
  show ?case
  proof (cases "option_next data")
    case None
    then show ?thesis by (simp add: option_iter.simps [of data])
  next
    case (Some x)
    then obtain r rest where x: "option_next data = Some (r, rest)" by (cases x) auto
    show ?thesis
    proof (cases r)
      case (Inl e)
      with x show ?thesis by (simp add: option_iter.simps [of data])
    next
      case (Inr opt)
      have "data = encode_option opt @ rest" using option_next_exact x Inr by blast
      then have "length data = encoded_len opt + length rest"
        by (simp add: encode_option_def encoded_len_def wire_defs)
      with 1 [OF x refl] x Inr show ?thesis by (simp add: option_iter.simps [of data])
    qed
  qed
qed

lemma encoded_len_pos: "2 \<le> encoded_len opt"
  by (simp add: encoded_len_def wire_defs)

lemma length_push_option [simp]: "length (push_option buf ty opt) = length buf + encoded_len opt"
  by (simp add: push_option_def encoded_len_def wire_defs)

lemma length_push_v4_option: "length (push_v4_option buf ty addr) \<le> length buf + 6"
  by (simp add: push_v4_option_def filled_def write_ipv4_option_def wire_defs write_at_def Let_def
    split: option.split)

lemma lcp_classify_loop_len:
  "lcp_classify_loop xs bad nak mru = (bad', nak', mru') \<Longrightarrow>
   length nak' \<le> length nak + options_len (good_options xs)"
proof (induction xs bad nak mru rule: lcp_classify_loop.induct)
  case (3 opt rest bad nak mru)
  then show ?case by (auto simp: Let_def split: if_splits)
qed auto

text \<open>A correction takes six bytes for an option of at least two.\<close>

lemma length_push_v4_correction:
  "length (push_v4_option nak ty a) \<le> length nak + 3 * encoded_len opt"
  using length_push_v4_option [of nak ty a] encoded_len_pos [of opt] by linarith

lemma dns_like_len:
  assumes "handle_optional_dns_like nak rej opt ours ty = (nak', rej')"
  shows "length nak' \<le> length nak + 3 * encoded_len opt \<and> length rej' \<le> length rej + encoded_len opt"
  using assms length_push_v4_correction
  by (auto simp: handle_optional_dns_like_def split: option.splits if_splits)

lemma ipcp_classify_step:
  assumes "ipcp_classify_loop addrs (Inr opt # rest) nak rej = Some r"
  shows "\<exists>nak1 rej1. ipcp_classify_loop addrs rest nak1 rej1 = Some r
    \<and> length nak1 \<le> length nak + 3 * encoded_len opt \<and> length rej1 \<le> length rej + encoded_len opt"
    (is ?goal)
proof -
  have dns: ?goal if "(case handle_optional_dns_like nak rej opt ours ty of
      (nak', rej') \<Rightarrow> ipcp_classify_loop addrs rest nak' rej') = Some r" for ours ty
    using that dns_like_len [of nak rej opt ours ty] by (auto split: prod.splits)
  have direct: ?goal if "ipcp_classify_loop addrs rest nak1 rej1 = Some r"
    "length nak1 \<le> length nak + 3 * encoded_len opt" "length rej1 \<le> length rej + encoded_len opt"
    for nak1 rej1
    using that by blast
  note ip = direct [OF _ length_push_v4_correction, of "ipcp_option_as_u8 IpAddress" "aa_ip addrs" rej]
  show ?goal
    using assms
    by (auto split: option.splits ipcp_option_id.splits if_splits intro: dns direct ip)
qed

lemma ipcp_classify_loop_len:
  "ipcp_classify_loop addrs xs nak rej = Some (nak', rej') \<Longrightarrow>
   length nak' \<le> length nak + 3 * options_len (good_options xs)
   \<and> length rej' \<le> length rej + options_len (good_options xs)"
proof (induction xs arbitrary: nak rej)
  case (Cons x xs)
  then obtain opt where x: "x = Inr opt" by (cases x) auto
  from Cons.prems [unfolded x] obtain nak1 rej1 where
    "ipcp_classify_loop addrs xs nak1 rej1 = Some (nak', rej')"
    "length nak1 \<le> length nak + 3 * encoded_len opt" "length rej1 \<le> length rej + encoded_len opt"
    using ipcp_classify_step by blast
  with Cons.IH [of nak1 rej1] x show ?case by simp
qed simp

subsection \<open>The size of what the servers remember\<close>

definition BODY_MAX :: nat where "BODY_MAX = 4083"
definition FRAME_MAX :: nat where "FRAME_MAX = 4091"

definition lcp_small :: "lcp_server \<Rightarrow> bool" where
  "lcp_small ls \<longleftrightarrow>
     length (ls_last_cr_options ls) \<le> BODY_MAX \<and> length (ls_pending_nak ls) \<le> BODY_MAX
     \<and> length (ls_last_echo_data ls) \<le> BODY_MAX"

definition ipcp_small :: "ipcp_server \<Rightarrow> bool" where
  "ipcp_small s \<longleftrightarrow> length (is_last_cr_options s) \<le> BODY_MAX \<and> length (is_pending_nak s) \<le> BODY_MAX"

definition ppp_small :: "ppp \<Rightarrow> bool" where
  "ppp_small p \<longleftrightarrow> lcp_small (ppp_lcp p) \<and> (\<forall>s. ppp_ipcp p = Some s \<longrightarrow> ipcp_small s)"

definition frames_fit :: "bytes list \<Rightarrow> bool" where
  "frames_fit fs \<longleftrightarrow> list_all (\<lambda>f. length f \<le> FRAME_MAX) fs"

lemma frames_fit_simps [simp]:
  "frames_fit []" "frames_fit (f # fs) \<longleftrightarrow> length f \<le> FRAME_MAX \<and> frames_fit fs"
  "frames_fit (fs @ gs) \<longleftrightarrow> frames_fit fs \<and> frames_fit gs"
  by (simp_all add: frames_fit_def)

text \<open>What an operation of the driver has to establish.\<close>

definition step_small :: "ppp \<times> ppp_step \<Rightarrow> bool" where
  "step_small r \<longleftrightarrow> ppp_small (fst r) \<and> frames_fit (ps_frames (snd r))"

lemma length_lcp_frames [simp]:
  "length (encode_lcp_frame c i body) = 8 + length body"
  "length (encode_ipcp_frame c' i body) = 8 + length body"
  by (simp_all add: encode_lcp_frame_def encode_ipcp_frame_def encode_protocol_packet_def Let_def
    write_lcp_header_def)

lemma length_own_cr_options: "length (write_own_cr_options ls []) \<le> 5"
  by (simp add: write_own_cr_options_def filled_def write_option_def own_auth_protocol_def wire_defs Let_def
    split: option.split auth_method.split)

lemma render_send_small:
  assumes "lcp_small ls" and "render_send ls op = (ls', frs)"
  shows "lcp_small ls' \<and> frames_fit frs"
  using assms length_own_cr_options [of ls]
  by (auto simp: render_send_def lcp_small_def BODY_MAX_def FRAME_MAX_def split_beta
    split: option.splits send.splits if_splits)

lemma render_ipcp_send_small:
  assumes "ipcp_small s" and "render_ipcp_send s op = (s', frs)"
  shows "ipcp_small s' \<and> frames_fit frs"
  using assms length_push_v4_option [of "[]" "ipcp_option_as_u8 IpAddress" "is_local_ip s"]
  by (auto simp: render_ipcp_send_def ipcp_small_def BODY_MAX_def FRAME_MAX_def split_beta
    split: option.splits send.splits if_splits)

lemma length_auth_frames:
  "encode_pap_frame pkt = Some f \<Longrightarrow> length f = 4 + length pkt"
  "encode_chap_frame pkt = Some f \<Longrightarrow> length f = 4 + length pkt"
  by (auto simp: encode_pap_frame_def encode_chap_frame_def encode_frame_def truncated_def Let_def)

lemma encode_chap_challenge_small:
  "encode_chap_challenge i c = Some f \<Longrightarrow> length f \<le> FRAME_MAX"
  by (auto simp: encode_chap_challenge_def encode_challenge_response_def truncated_def SERVER_NAME_def
    wire_defs FRAME_MAX_def Let_def bind_eq_Some_conv split: if_splits dest!: length_auth_frames)

lemma encode_chap_terminal_small:
  "encode_chap_terminal c i (take 255 m) = Some f \<Longrightarrow> length f \<le> FRAME_MAX"
  "encode_chap_terminal c i [] = Some f \<Longrightarrow> length f \<le> FRAME_MAX"
  by (auto simp: encode_chap_terminal_def chap_encode_terminal_def truncated_def wire_defs
    FRAME_MAX_def Let_def bind_eq_Some_conv split: if_splits dest!: length_auth_frames)

lemma pap_response_small:
  assumes "pap_encode_response out c i m = Some body" and "encode_pap_frame (truncated body) = Some f"
  shows "length f \<le> FRAME_MAX"
  using assms length_auth_frames(1) [OF assms(2)]
  by (auto simp: pap_encode_response_def truncated_def wire_defs FRAME_MAX_def Let_def split: if_splits)

subsection \<open>The operations of the driver\<close>

lemma enter_auth_small:
  assumes "enter_auth rnd p out = Some (p', out')" and "ppp_small p" and "frames_fit (ps_frames out)"
  shows "ppp_small p' \<and> frames_fit (ps_frames out')"
  using assms encode_chap_challenge_small
  by (auto simp: enter_auth_def next_chap_id_def ppp_small_def lcp_small_def Let_def bind_eq_Some_conv
    split: if_splits)

lemma render_lcp_step_small:
  assumes "ppp_small p" and "render_lcp_step rnd p step = Some r"
  shows "step_small r"
proof -
  obtain p' out where r: "r = (p', out)" by fastforce
  from assms(2) [unfolded r] obtain ls frs out1 p2 out2 p3 where
    sx: "render_send (fst (render_send (ppp_lcp p) (fo_send step))) (fo_send_extra step) = (ls, frs)"
    and o: "out1 = apply_timer (ppp_step_default\<lparr>ps_frames :=
       snd (render_send (ppp_lcp p) (fo_send step)) @ frs\<rparr>) (fo_restart_timer step) OwnerLcp"
    and e: "(if nt_up (fo_notify step) \<and> \<not> ls_opened ls then enter_auth rnd (p\<lparr>ppp_lcp := ls\<rparr>) out1
      else Some (p\<lparr>ppp_lcp := ls\<rparr>, out1)) = Some (p2, out2)"
    and p3: "p3 = (if nt_down (fo_notify step) then p2\<lparr>ppp_lcp := (ppp_lcp p2)\<lparr>ls_opened := False\<rparr>\<rparr> else p2)"
    and p': "p' = (if nt_finished (fo_notify step) then p3\<lparr>ppp_phase := Dead\<rparr> else p3)"
    and out: "out = (if nt_finished (fo_notify step) then out2\<lparr>ps_finished := True\<rparr> else out2)"
    by (rule render_lcp_step_parts)
  have "lcp_small (ppp_lcp p)" using assms(1) by (simp add: ppp_small_def)
  from render_send_small [OF this surjective_pairing] render_send_small [OF _ sx]
  have s1: "frames_fit (snd (render_send (ppp_lcp p) (fo_send step)))" "lcp_small ls" "frames_fit frs"
    by auto
  then have "ppp_small (p\<lparr>ppp_lcp := ls\<rparr>)" "frames_fit (ps_frames out1)"
    using assms(1) by (simp_all add: ppp_small_def o)
  with e enter_auth_small [of rnd "p\<lparr>ppp_lcp := ls\<rparr>" out1 p2 out2]
  have "ppp_small p2" "frames_fit (ps_frames out2)" by (auto split: if_splits)
  then show ?thesis unfolding r p' p3 out step_small_def by (simp add: ppp_small_def lcp_small_def)
qed

lemma render_ipcp_step_small:
  assumes "ppp_small p" and "render_ipcp_step p step = Some r"
  shows "step_small r"
proof -
  from assms(2) obtain s where s: "ppp_ipcp p = Some s" by (auto simp: render_ipcp_step_def split: option.splits)
  obtain s1 fr1 where r1: "render_ipcp_send s (fo_send step) = (s1, fr1)" by fastforce
  obtain s2 fr2 where r2: "render_ipcp_send s1 (fo_send_extra step) = (s2, fr2)" by fastforce
  have "ipcp_small s" using assms(1) s by (simp add: ppp_small_def)
  from render_ipcp_send_small [OF this r1] render_ipcp_send_small [OF _ r2]
  have "ipcp_small s2" "frames_fit fr1" "frames_fit fr2" by auto
  with assms s r1 r2 show ?thesis
    by (auto simp: render_ipcp_step_def step_small_def ppp_small_def ipcp_small_def Let_def
      split: option.splits if_splits)
qed

lemma render_updated_small:
  "render_lcp_step rnd (p\<lparr>ppp_lcp := ls\<rparr>) step = Some r \<Longrightarrow> ppp_small p \<Longrightarrow> lcp_small ls \<Longrightarrow> step_small r"
  "render_ipcp_step (p\<lparr>ppp_ipcp := Some s\<rparr>) step' = Some r \<Longrightarrow> ppp_small p \<Longrightarrow> ipcp_small s \<Longrightarrow> step_small r"
  using render_lcp_step_small [of "p\<lparr>ppp_lcp := ls\<rparr>" rnd step r]
    render_ipcp_step_small [of "p\<lparr>ppp_ipcp := Some s\<rparr>" step' r]
  by (simp_all add: ppp_small_def)

lemma ppp_smallD: "ppp_small p \<Longrightarrow> lcp_small (ppp_lcp p)"
  "ppp_small p \<Longrightarrow> ppp_ipcp p = Some s \<Longrightarrow> ipcp_small s"
  by (simp_all add: ppp_small_def)

lemma step_small_idle [simp]: "ppp_small p \<Longrightarrow> step_small (p, ppp_step_default)"
  by (simp add: step_small_def)

lemma lcp_step_fsm_small [simp]: "lcp_small (fst (lcp_step_fsm ls e)) = lcp_small ls"
  by (simp add: lcp_step_fsm_def lcp_small_def split_beta)

lemma ipcp_step_fsm_small [simp]: "ipcp_small (fst (ipcp_step_fsm s e)) = ipcp_small s"
  by (simp add: ipcp_step_fsm_def ipcp_small_def split_beta)

lemma lcp_open_small [simp]: "lcp_small (fst (lcp_open ls)) = lcp_small ls"
  by (simp add: lcp_open_def split_beta)

lemma ipcp_open_small [simp]: "ipcp_small (fst (ipcp_open s)) = ipcp_small s"
  by (simp add: ipcp_open_def split_beta)

lemma ppp_new_small [simp]: "ppp_small (ppp_new ip m)"
  by (simp add: ppp_small_def ppp_new_def lcp_small_def lcp_server_new_def)

lemma ppp_open_small: "ppp_small p \<Longrightarrow> ppp_open rnd p = Some r \<Longrightarrow> step_small r"
  by (auto simp: ppp_open_def split_beta ppp_smallD dest!: render_updated_small)

lemma ppp_on_timer_small: "ppp_small p \<Longrightarrow> ppp_on_timer rnd p owner = Some r \<Longrightarrow> step_small r"
  by (auto simp: ppp_on_timer_def split_beta ppp_smallD split: timer_owner.splits option.splits
    dest!: render_updated_small)

lemma ipcp_server_new_small [simp]: "ipcp_small (ipcp_server_new addrs ip)"
  by (simp add: ipcp_small_def ipcp_server_new_def)

lemma advance_small:
  assumes "ppp_small p" and "length f \<le> FRAME_MAX"
    and "advance_to_network p (push_frame f ppp_step_default) a = Some r"
  shows "step_small r"
proof -
  define addrs where "addrs = a\<lparr>aa_mtu := merge_mtu (aa_mtu a) (ls_peer_mru (ppp_lcp p))\<rparr>"
  define p1 where "p1 = p\<lparr>ppp_pending_addrs := Some addrs, ppp_phase := Network,
    ppp_ipcp := Some (fst (ipcp_open (ipcp_server_new addrs (ppp_local_ip p))))\<rparr>"
  from assms(3) obtain p2 st where
    i: "render_ipcp_step p1 (snd (ipcp_open (ipcp_server_new addrs (ppp_local_ip p)))) = Some (p2, st)"
    and r: "fst r = p2" "ps_frames (snd r) = f # ps_frames st"
    by (auto simp: advance_to_network_def bind_eq_Some_conv Let_def split_beta addrs_def p1_def)
  have "ppp_small p1" using assms(1) by (simp add: p1_def ppp_small_def)
  from render_ipcp_step_small [OF this i] r assms(2) show ?thesis by (simp add: step_small_def)
qed

lemma tear_down_small:
  assumes "ppp_small p" and "length f \<le> FRAME_MAX"
    and "tear_down_after_reject rnd p (push_frame f ppp_step_default) = Some r"
  shows "step_small r"
proof -
  from assms(3) obtain p2 st where
    i: "render_lcp_step rnd (p\<lparr>ppp_lcp := fst (lcp_step_fsm (ppp_lcp p) EvClose)\<rparr>)
      (snd (lcp_step_fsm (ppp_lcp p) EvClose)) = Some (p2, st)"
    and r: "fst r = p2\<lparr>ppp_phase := Dead\<rparr>" "ps_frames (snd r) = f # ps_frames st"
    by (auto simp: tear_down_after_reject_def bind_eq_Some_conv Let_def split_beta)
  have "ppp_small (p\<lparr>ppp_lcp := fst (lcp_step_fsm (ppp_lcp p) EvClose)\<rparr>)"
    using assms(1) by (simp add: ppp_small_def)
  from render_lcp_step_small [OF this i] r assms(2) show ?thesis by (simp add: step_small_def ppp_small_def)
qed

lemma on_auth_result_small:
  assumes "ppp_small p" and "on_auth_result rnd p v = Some r"
  shows "step_small r"
  using assms
  by (cases "ppp_phase p"; cases v)
    (auto simp: on_auth_result_def bind_eq_Some_conv split: in_flight_method.splits
      dest: pap_response_small encode_chap_terminal_small intro: advance_small tear_down_small)

lemma on_mschap_result_small:
  assumes "ppp_small p" and "on_mschap_result rnd p v ar es = Some r"
  shows "step_small r"
  using assms
  by (cases "ppp_phase p"; cases v)
    (auto simp: on_mschap_result_def bind_eq_Some_conv Let_def split: in_flight_method.splits
      dest: encode_chap_terminal_small intro: advance_small tear_down_small)

subsection \<open>Inbound frames\<close>

definition PEER_FRAME_MAX :: nat where "PEER_FRAME_MAX = 1367"

text \<open>The protocol numbers of LCP and IPCP take two bytes.\<close>

lemma decode_frame_info:
  assumes "decode_frame buf = Inr f"
    and "protocol_from_u16 (pf_protocol f) = Some pid" and "pid \<in> {PidLcp, PidIpcp}"
  shows "length (pf_info f) + 2 \<le> length buf"
proof -
  have "unat (pf_protocol f) > 255"
    using assms(2,3) by (auto simp: protocol_from_u16_def split: if_splits)
  moreover have "unat (ucast b :: u16) \<le> 255" for b :: u8
    using unat_u8_less [of b] by (simp only: unat_ucast_wide)
  ultimately have "\<forall>b :: u8. pf_protocol f \<noteq> ucast b" by (metis leD)
  then show ?thesis
    using assms(1)
    by (auto simp: decode_frame_def strip_address_control_def Let_def split: if_splits)
qed

lemma decode_lcp_data:
  "decode_lcp_packet info = Inr pk \<Longrightarrow> length (lp_data pk) + 4 \<le> length info"
  by (auto simp: decode_lcp_packet_def wire_defs Let_def split: if_splits)

lemma lcp_on_packet_small:
  assumes "lcp_small ls" and "length (lp_data pk) \<le> BODY_MAX"
  shows "lcp_small (fst (fst (lcp_on_packet ls pk)))"
proof -
  obtain bad nak mru where c:
    "lcp_classify_loop (option_iter (lp_data pk)) False [] (ls_peer_mru ls) = (bad, nak, mru)"
    by (metis prod_cases3)
  from lcp_classify_loop_len [OF c] options_len_iter [of "lp_data pk"] assms(2)
  have "length nak \<le> BODY_MAX" by simp
  with assms c show ?thesis
    by (simp add: lcp_on_packet_def lcp_classify_configure_request_def lcp_small_def split_beta Let_def
      lcp_step_fsm_def split: option.split lcp_code.split)
qed

lemma ipcp_classify_small:
  assumes "ipcp_small s" and "3 * length data \<le> BODY_MAX"
  shows "ipcp_small (fst (ipcp_classify_configure_request s data))"
proof (cases "ipcp_classify_loop (is_addrs s) (option_iter data) [] []")
  case None
  with assms show ?thesis by (simp add: ipcp_classify_configure_request_def ipcp_small_def Let_def)
next
  case (Some r)
  then obtain nak rej where c: "ipcp_classify_loop (is_addrs s) (option_iter data) [] [] = Some (nak, rej)"
    by (cases r) auto
  from ipcp_classify_loop_len [OF c] options_len_iter [of data] assms(2)
  have "length nak \<le> BODY_MAX" "length rej \<le> BODY_MAX" by auto
  with assms c show ?thesis by (simp add: ipcp_classify_configure_request_def ipcp_small_def Let_def)
qed

lemma ipcp_on_packet_small:
  assumes "ipcp_small s" and "3 * length (lp_data pk) \<le> BODY_MAX"
  shows "ipcp_small (fst (fst (ipcp_on_packet s pk)))"
proof -
  have "ipcp_small (s\<lparr>is_last_cr_id := i, is_last_cr_options := lp_data pk\<rparr>)" for i
    using assms by (simp add: ipcp_small_def)
  from ipcp_classify_small [OF this assms(2)] assms(1) show ?thesis
    by (simp add: ipcp_on_packet_def split_beta Let_def split: option.split ipcp_code.split)
qed

lemma handle_lcp_small:
  assumes "ppp_small p" and "length info \<le> BODY_MAX" and "handle_lcp rnd p info = Some r"
  shows "step_small r"
proof (cases "decode_lcp_packet info")
  case (Inl e)
  with assms show ?thesis by (auto simp: handle_lcp_def)
next
  case (Inr pk)
  have "lcp_small (fst (fst (lcp_on_packet (ppp_lcp p) pk)))"
    using lcp_on_packet_small [OF ppp_smallD(1) [OF assms(1)]] decode_lcp_data [OF Inr] assms(2) by simp
  with assms(1,3) Inr show ?thesis
    by (auto simp: handle_lcp_def split_beta dest!: render_updated_small)
qed

lemma handle_ipcp_small:
  assumes "ppp_small p" and "3 * length info \<le> BODY_MAX + 12" and "handle_ipcp p info = Some r"
  shows "step_small r"
proof (cases "decode_lcp_packet info")
  case (Inl e)
  with assms show ?thesis by (auto simp: handle_ipcp_def)
next
  case (Inr pk)
  have "ipcp_small (fst (fst (ipcp_on_packet s pk)))" if "ppp_ipcp p = Some s" for s
    using ipcp_on_packet_small [OF ppp_smallD(2) [OF assms(1) that]] decode_lcp_data [OF Inr] assms(2)
    by simp
  with assms(1,3) Inr show ?thesis
    by (auto simp: handle_ipcp_def split_beta split: option.splits dest!: render_updated_small)
qed

lemma handle_auth_small:
  assumes "ppp_small p"
  shows "step_small (handle_pap p info)" "step_small (handle_chap p info)"
    "step_small (protocol_reject p pr info)"
  using assms
  by (auto simp: handle_pap_def handle_chap_def protocol_reject_def step_small_def ppp_small_def
    FRAME_MAX_def DEFAULT_MRU_def wire_defs Let_def split: sum.split auth_method.split option.split)

lemma on_frame_small:
  assumes "ppp_small p" and "length payload \<le> PEER_FRAME_MAX" and "on_frame rnd p payload = Some r"
  shows "step_small r"
proof (cases "decode_frame payload")
  case (Inl e)
  with assms show ?thesis by (auto simp: on_frame_def)
next
  case (Inr f)
  have info: "length (pf_info f) + 2 \<le> 1367"
    if "protocol_from_u16 (pf_protocol f) = Some pid" "pid \<in> {PidLcp, PidIpcp}" for pid
    using decode_frame_info [OF Inr that] assms(2) by (simp add: PEER_FRAME_MAX_def)
  have lcp: "step_small r" if "protocol_from_u16 (pf_protocol f) = Some PidLcp"
    "handle_lcp rnd p (pf_info f) = Some r"
    using handle_lcp_small [OF assms(1) _ that(2)] info [OF that(1)] by (simp add: BODY_MAX_def)
  have ipcp: "step_small r" if "protocol_from_u16 (pf_protocol f) = Some PidIpcp"
    "handle_ipcp p (pf_info f) = Some r"
    using handle_ipcp_small [OF assms(1) _ that(2)] info [OF that(1)] by (simp add: BODY_MAX_def)
  from assms(1,3) lcp ipcp handle_auth_small [OF assms(1)] Inr show ?thesis
    by (auto simp: on_frame_def split: option.splits protocol_id.splits if_splits)
qed

fun input_small :: "ppp_input \<Rightarrow> bool" where
  "input_small (PinFrame rnd payload) = (length payload \<le> PEER_FRAME_MAX)"
| "input_small _ = True"

lemma ppp_input_step_small:
  assumes "ppp_small p" and "input_small i" and "ppp_input_step p i = Some r"
  shows "step_small r"
  using assms
  by (cases i) (auto intro: ppp_open_small on_frame_small ppp_on_timer_small on_auth_result_small
    on_mschap_result_small)

interpretation ppp_size: machine ppp_machine_step "\<lambda>p. \<exists>ip m. p = ppp_new ip m" input_small ppp_small
proof
  show "ppp_small p" if "\<exists>ip m. p = ppp_new ip m" for p using that by auto
  show "ppp_small (fst (ppp_machine_step p i))" if "ppp_small p" "input_small i" for p i
    using that ppp_input_step_small [OF that]
    by (auto simp: ppp_machine_step_def step_small_def split: option.split)
qed

definition output_fits :: "ppp_step option \<Rightarrow> bool" where
  "output_fits ot = (case ot of Some st \<Rightarrow> frames_fit (ps_frames st) | None \<Rightarrow> True)"

text \<open>
  C22 (bounds).  As long as the peer's PPP frames are at most 1367 bytes long, every frame the
  driver sends is at most 4091 bytes long, so that it fits into one SSTP packet, whatever else
  happens to the driver.
\<close>

theorem ppp_replies_fit:
  assumes "list_all input_small is"
  shows "list_all output_fits (snd (run_machine ppp_machine_step (ppp_new ip m) is))"
proof (rule ppp_size.run_outputs [OF _ _ assms])
  show "output_fits (snd (ppp_machine_step p i))" if "ppp_small p" "input_small i" for p i
    using ppp_input_step_small [OF that]
    by (auto simp: ppp_machine_step_def output_fits_def step_small_def split: option.split)
qed simp

theorem ppp_replies_fit_witness:
  "list_all input_small sample_session
   \<and> list_all output_fits (snd (run_machine ppp_machine_step (ppp_new [10, 0, 0, 1] AmPap) sample_session))"
proof -
  have "list_all input_small sample_session"
    by (simp add: sample_session_def PEER_FRAME_MAX_def Let_def)
  with ppp_replies_fit [OF this] show ?thesis by blast
qed

subsection \<open>A frame one byte longer\<close>

text \<open>
  A Configure-Request full of empty IP-Address options.  Each takes two bytes and is answered
  with a correction of six.
\<close>

definition address_request :: "nat \<Rightarrow> bytes" where
  "address_request n = [0x80, 0x21, 1, 5] @ be16 (word_of_nat (4 + 2 * n)) @ concat (replicate n [3, 2])"

lemma length_address_request [simp]: "length (address_request n) = 6 + 2 * n"
  by (simp add: address_request_def length_concat sum_list_replicate)

lemma option_iter_address_request:
  "option_iter (concat (replicate n [3, 2])) = map Inr (replicate n \<lparr>co_type = 3, co_value = []\<rparr>)"
proof -
  let ?o = "\<lparr>co_type = 3, co_value = []\<rparr> :: config_option"
  have "encode_option ?o = [3, 2]" "option_fits ?o"
    by (simp_all add: encode_option_def encoded_len_def option_fits_def wire_defs)
  then have "list_all option_fits (replicate n ?o)"
    "concat (replicate n [3, 2]) = concat (map encode_option (replicate n ?o))"
    by (simp_all add: list_all_length)
  then show ?thesis by (simp only: lcp_options.collect_eq_iff simp_thms)
qed

lemma length_push_v4_exact: "length addr = 4 \<Longrightarrow> length (push_v4_option buf ty addr) = length buf + 6"
  by (simp add: push_v4_option_def filled_def write_ipv4_option_def wire_defs write_at_def Let_def)

lemma ipcp_classify_addresses:
  assumes "length (aa_ip addrs) = 4"
  shows "\<exists>nak'. ipcp_classify_loop addrs (map Inr (replicate n \<lparr>co_type = 3, co_value = []\<rparr>)) nak rej
      = Some (nak', rej) \<and> length nak' = length nak + 6 * n"
proof (induction n arbitrary: nak)
  case (Suc n)
  let ?nak = "push_v4_option nak (ipcp_option_as_u8 IpAddress) (aa_ip addrs)"
  have "read_ipv4_value [] \<noteq> Inr (aa_ip addrs)" by (simp add: read_ipv4_value_def wire_defs)
  with Suc.IH [of ?nak] length_push_v4_exact [OF assms, of nak "ipcp_option_as_u8 IpAddress"]
  show ?case by (simp add: ipcp_option_from_u8_def add.assoc)
qed simp

text \<open>The driver after a login, waiting for the peer's IPCP packets.\<close>

lemma sample_login_state:
  "\<exists>p s. fst (run_machine ppp_machine_step (ppp_new [10, 0, 0, 1] AmPap) (take 5 sample_session)) = p
     \<and> ppp_phase p = Network \<and> ppp_ipcp p = Some s \<and> fsm_st (is_fsm s) = ReqSent
     \<and> is_addrs s = sample_addrs"
proof -
  obtain body where b: "pap_encode_response (replicate 16 0) PapAuthenticateAck 9 [] = Some body"
    using pap_response_total [of PapAuthenticateAck "[]" 9] by auto
  obtain frame where f: "encode_pap_frame (truncated body) = Some frame"
    using encode_auth_frames_total(1) by (metis not_None_eq)
  show ?thesis
    by (simp add: sample_session_def decode_eval fsm_eval negotiation_eval driver_eval Let_def b f
      del: replicate.simps)
qed

lemma decode_address_request:
  assumes "4 + 2 * n < 65536"
  shows "decode_frame (address_request n) =
      Inr \<lparr>pf_protocol = 0x8021, pf_info = drop 2 (address_request n)\<rparr>"
    and "decode_lcp_packet (drop 2 (address_request n)) =
      Inr \<lparr>lp_code = 1, lp_identifier = 5, lp_data = concat (replicate n [3, 2])\<rparr>"
proof -
  obtain a b where ab: "be16 (word_of_nat (4 + 2 * n)) = [a, b]" using be16_split by blast
  have "from_be16 a b = word_of_nat (4 + 2 * n)" 
    using from_be16_be16 [of "word_of_nat (4 + 2 * n)", unfolded ab] by simp
  then have len: "unat (from_be16 a b) = 4 + 2 * n" using assms by (simp only: unat_of_nat_u16)
  show "decode_frame (address_request n) =
      Inr \<lparr>pf_protocol = 0x8021, pf_info = drop 2 (address_request n)\<rparr>"
    by (simp add: address_request_def decode_frame_def strip_address_control_def from_be16_def wire_defs)
  show "decode_lcp_packet (drop 2 (address_request n)) =
      Inr \<lparr>lp_code = 1, lp_identifier = 5, lp_data = concat (replicate n [3, 2])\<rparr>"
    using len
    by (simp add: address_request_def ab [simplified] decode_lcp_packet_def slice_def wire_defs
      length_concat sum_list_replicate)
qed

text \<open>What the driver answers to such a request.\<close>

lemma address_request_answer:
  assumes "4 + 2 * n < 65536" and "0 < n" and "ppp_phase p = Network" and "ppp_ipcp p = Some s"
    and "fsm_st (is_fsm s) = ReqSent" and "length (aa_ip (is_addrs s)) = 4"
  shows "\<exists>p' st f. on_frame rnd p (address_request n) = Some (p', st)
    \<and> ps_frames st = [f] \<and> length f = 8 + 6 * n"
proof -
  obtain nak where c: "ipcp_classify_loop (is_addrs s) (option_iter (concat (replicate n [3, 2]))) [] []
      = Some (nak, [])" and len: "length nak = 6 * n"
    using ipcp_classify_addresses [OF assms(6), of n "[]" "[]"]
    unfolding option_iter_address_request by auto
  with assms(2) have "nak \<noteq> []" by auto
  with c len assms(3-5) show ?thesis
    by (simp add: on_frame_def decode_address_request [OF assms(1)] protocol_from_u16_def handle_ipcp_def
      ipcp_on_packet_def ipcp_code_from_u8_def ipcp_classify_configure_request_def ipcp_step_fsm_def
      fsm_step_def arm_rcr_bad_def fsm_value_defs consume_def is_request_def render_ipcp_step_def
      render_ipcp_send_def Let_def split_beta)
qed


end
