(* ===== verification/Session_Safety.thy ===== *)
theory Session_Safety
  imports Session_Contract Ppp_Size Option_Wp
begin

text \<open>
  The session task does not panic.  The states the loop can reach are given by an inductive
  relation, and every operation is shown to return in them.
\<close>

subsection \<open>The state that keeps the task from panicking\<close>

definition safe :: "session \<Rightarrow> bool" where
  "safe s \<longleftrightarrow>
     length (ss_tx_buf s) = SSTP_MAX_PACKET_LEN \<and> (ss_kmod_fd s \<longrightarrow> ss_kppp s \<noteq> None)
     \<and> (\<forall>p. ss_ppp s = Some p \<longrightarrow> ppp_small p)"

text \<open>What the operations establish from \<open>s\<close>, and what they leave alone.\<close>

definition keeps :: "session \<Rightarrow> session \<Rightarrow> bool" where
  "keeps s t \<longleftrightarrow> safe t \<and> ss_kmod_fd t = ss_kmod_fd s \<and> (ss_ppp s \<noteq> None \<longrightarrow> ss_ppp t \<noteq> None)"

lemma keeps_trans: "keeps s t \<Longrightarrow> keeps t u \<Longrightarrow> keeps s u"
  by (auto simp: keeps_def)

lemma keeps_refl [simp]: "keeps s s = safe s"
  by (simp add: keeps_def)

lemma returns_keeps:
  "keeps s t \<Longrightarrow> returns m (\<lambda>r. keeps t (fst r)) \<Longrightarrow> returns m (\<lambda>r. keeps s (fst r))"
  by (auto elim!: returns_mono intro: keeps_trans)

lemma safe_tx_len: "safe s \<Longrightarrow> length (ss_tx_buf s) = 4095"
  by (simp add: safe_def wire_defs)

lemma keepsD: "keeps s t \<Longrightarrow> safe t"
  by (simp add: keeps_def)

lemma kmod_fd_fields [simp]:
  "ss_kmod_fd (called s) = ss_kmod_fd s" "ss_kmod_fd (log_effect e s) = ss_kmod_fd s"
  by (simp_all add: called_def log_effect_def)

lemma safe_simps [simp]:
  "safe (called s) = safe s" "safe (log_effect e s) = safe s"
  "keeps s (called t) = keeps s t" "keeps s (log_effect e t) = keeps s t"
  by (simp_all add: safe_def keeps_def)

lemma update_ppp_timer_fields [simp]:
  "ss_ppp (update_ppp_timer step t) = ss_ppp t" "ss_kmod_fd (update_ppp_timer step t) = ss_kmod_fd t"
  "safe (update_ppp_timer step t) = safe t" "keeps s (update_ppp_timer step t) = keeps s t"
  by (simp_all add: update_ppp_timer_def safe_def keeps_def)

lemma write_ppp_returns:
  assumes "safe s" and "length f \<le> FRAME_MAX"
  shows "returns (write_ppp_as_sstp_data env f s) (\<lambda>r. keeps s (fst r) \<and> ss_ppp (fst r) = ss_ppp s)"
  using assms
  by (simp add: write_ppp_as_sstp_data_def tls_write_def safe_def keeps_def log_effect_def called_def
    wire_defs FRAME_MAX_def Let_def write_at_def)

lemma write_frames_returns:
  assumes "safe s" and "frames_fit fs"
  shows "returns (write_frames env fs s) (\<lambda>r. keeps s (fst r) \<and> ss_ppp (fst r) = ss_ppp s)"
  using assms
proof (induction fs arbitrary: s)
  case (Cons f fs)
  show ?case
    unfolding write_frames.simps
  proof (rule returns_seq [OF write_ppp_returns], goal_cases)
    case (3 r)
    then obtain t ok where t: "r = (t, ok)" "keeps s t" "ss_ppp t = ss_ppp s" by (cases r) auto
    then have "safe t" by (simp add: keeps_def)
    from Cons.IH [OF this] Cons.prems t keeps_trans [OF t(2)] show ?case
      by (auto elim!: returns_mono)
  qed (use Cons.prems in simp_all)
qed simp

lemma render_ppp_step_returns:
  assumes "safe s" and "frames_fit (ps_frames step)"
  shows "returns (render_ppp_step env step s) (\<lambda>r. keeps s (fst r) \<and> ss_ppp (fst r) = ss_ppp s)"
  unfolding render_ppp_step_def
  by (rule returns_seq [OF write_frames_returns [OF assms]])
    (auto simp: tls_flush_def split: prod.split)

text \<open>Bringing the network up only adds a device.\<close>

lemma network_up_keeps:
  assumes "safe s"
  shows "keeps s (fst (network_up env addrs s))"
proof -
  have attempt: "safe (attempt env e t) = safe t" "ss_kmod_fd (attempt env e t) = ss_kmod_fd t"
    "ss_ppp (attempt env e t) = ss_ppp t" for e t
    by (simp_all add: attempt_def safe_def called_def log_effect_def)
  have fold: "safe (fold (\<lambda>r. attempt env (EffRoute i r)) rs t) = safe t
      \<and> ss_kmod_fd (fold (\<lambda>r. attempt env (EffRoute i r)) rs t) = ss_kmod_fd t
      \<and> ss_ppp (fold (\<lambda>r. attempt env (EffRoute i r)) rs t) = ss_ppp t" for i rs t
    by (induction rs arbitrary: t) (simp_all add: attempt)
  have shaping: "keeps s (apply_shaping env k t)" if "keeps s t" for k t
    using that by (auto simp: apply_shaping_def keeps_def attempt safe_def called_def attempt_def
      log_effect_def Let_def split: option.split)
  have mss: "keeps s (apply_mss env m k t)" if "keeps s t" for m k t
    using that by (auto simp: apply_mss_def keeps_def safe_def called_def log_effect_def Let_def)
  have routes: "keeps s (apply_routes env k t)" if "keeps s t" for k t
    using that by (auto simp: apply_routes_def keeps_def fold split: option.split)
  have acct: "keeps s (acct_start env k ip (t\<lparr>ss_kppp := Some k\<rparr>))" if "keeps s t" for k ip t
    using that by (auto simp: acct_start_def keeps_def safe_def called_def log_effect_def Let_def
      split: option.split)
  show ?thesis
  proof (cases "ss_kppp s")
    case (Some k)
    with assms show ?thesis by (simp add: network_up_def Let_def)
  next
    case None
    obtain s1 om where p: "choose_data_path env s = (s1, om)" by fastforce
    from choose_data_path_frame [OF p] assms have s1: "keeps s s1" by auto
    obtain s2 ok2 where b: "kppp_bring_up env (the om) (map_option unat (aa_mtu addrs)) s1 = (s2, ok2)"
      by fastforce
    from kppp_bring_up_frame [OF b] s1 have s2: "keeps s s2" by auto
    have pub: "keeps s ((log_effect (EffNetdev k ip) s2)\<lparr>ss_info := x\<rparr>)" for k ip x
      using s2 by (simp add: keeps_def safe_def log_effect_def)
    show ?thesis
      using None p b s1 s2 acct [OF routes [OF mss [OF shaping [OF pub]]]]
      by (auto simp: network_up_def Let_def split: option.split)
  qed
qed

subsection \<open>Steps of the two machines\<close>

lemma keeps_stash: "keeps s t \<Longrightarrow> keeps s (stash_accept oc u t)"
  by (auto simp: stash_accept_def keeps_def safe_def split: auth_verdict.split)

lemma keeps_updates [simp]:
  "keeps s (t\<lparr>ss_pending_hlak := h\<rparr>) = keeps s t" "keeps s (t\<lparr>ss_sstp_timer := x1\<rparr>) = keeps s t"
  "keeps s (t\<lparr>ss_ppp_timer := x2\<rparr>) = keeps s t" "keeps s (t\<lparr>ss_acct_cause := x3\<rparr>) = keeps s t"
  "keeps s (t\<lparr>ss_hello_echo_pending := x4\<rparr>) = keeps s t" "keeps s (t\<lparr>ss_last_rx := x5\<rparr>) = keeps s t"
  "keeps s (t\<lparr>ss_rx_buf := x6\<rparr>) = keeps s t" "keeps s (t\<lparr>ss_ssm := x7\<rparr>) = keeps s t"
  "keeps s (t\<lparr>ss_now := x8\<rparr>) = keeps s t"
  by (simp_all add: keeps_def safe_def)

lemma keeps_set_ppp: "keeps s t \<Longrightarrow> ppp_small q \<Longrightarrow> keeps s (t\<lparr>ss_ppp := Some q\<rparr>)"
  by (simp add: keeps_def safe_def)

lemma submit_auth_returns:
  assumes "env_wf env" and "safe s" and "ss_ppp s = Some p" and "needs_auth (Some ev)"
  shows "returns (submit_auth env ev p s) (\<lambda>r. (keeps s (fst r) \<and> ss_ppp (fst r) \<noteq> None
    \<and> frames_fit (ps_frames (snd r))) \<and> \<not> needs_auth (ps_event (snd r)))"
proof (rule returns_conj)
  have rnd: "length (env_challenge env n) = 16" for n using assms(1) by (simp add: env_wf_def)
  have p: "ppp_small p" using assms(2,3) by (simp add: safe_def)
  have auth: "returns (on_auth_result (env_challenge env n) p v) step_small" for n v
    using on_auth_result_total [OF rnd, of n p v] on_auth_result_small [OF p] by (auto simp: returns_def)
  have ms: "returns (on_mschap_result (env_challenge env n) p v ar es) step_small" for n v ar es
    using on_mschap_result_total [OF rnd, of n p v ar es] on_mschap_result_small [OF p]
    by (auto simp: returns_def)
  have fin: "returns (case r of None \<Rightarrow> None | Some (p', step) \<Rightarrow> Some (t\<lparr>ss_ppp := Some p'\<rparr>, step))
      (\<lambda>r. keeps s (fst r) \<and> ss_ppp (fst r) \<noteq> None \<and> frames_fit (ps_frames (snd r)))"
    if "keeps s t" "returns r step_small" for r t
    using that(2) keeps_set_ppp [OF that(1)] by (auto simp: step_small_def elim!: returnsE)
  show "returns (submit_auth env ev p s)
      (\<lambda>r. keeps s (fst r) \<and> ss_ppp (fst r) \<noteq> None \<and> frames_fit (ps_frames (snd r)))"
    using assms(2,4)
    by (cases ev) (auto simp: submit_auth_def submit_pap_def submit_chap_def submit_mschapv2_def Let_def
      simp del: not_None_eq intro!: fin auth ms keeps_stash split: auth_verdict.split)
qed (auto dest: submit_auth_settles)

lemma handle_settled_returns:
  assumes "safe s" and "frames_fit (ps_frames step)" and "\<not> needs_auth (ps_event step)"
  shows "returns (handle_ppp_step env step s) (\<lambda>r. keeps s (fst r))"
  unfolding handle_ppp_step.simps [of env step s]
proof (rule returns_seq [OF render_ppp_step_returns [OF assms(1,2)]], goal_cases)
  case (1 r)
  then obtain t ok where r: "r = (t, ok)" "keeps s t" by (cases r) auto
  then have "keeps s (fst (network_up env a t))" for a
    using network_up_keeps [of t env a] keeps_trans by (metis keeps_def)
  with r assms(3) show ?case
    by (cases "ps_event step" rule: needs_auth.cases) (auto simp: split_beta)
qed

lemma handle_ppp_step_returns:
  assumes "env_wf env" and "safe s" and "frames_fit (ps_frames step)" and "ss_ppp s \<noteq> None"
  shows "returns (handle_ppp_step env step s) (\<lambda>r. keeps s (fst r))"
proof (cases "needs_auth (ps_event step)")
  case False
  with handle_settled_returns assms show ?thesis by blast
next
  case True
  then obtain ev where ev: "ps_event step = Some ev" "needs_auth (Some ev)"
    by (cases "ps_event step") auto
  show ?thesis
    unfolding handle_ppp_step.simps [of env step s]
  proof (rule returns_seq [OF render_ppp_step_returns [OF assms(2,3)]], goal_cases)
    case (1 r)
    then obtain t ok p where r: "r = (t, ok)" "keeps s t" "ss_ppp t = Some p"
      using assms(4) by (cases r) auto
    then have "safe t" by (simp add: keeps_def)
    have "returns (Option.bind (submit_auth env ev p t) (\<lambda>(s2, step2). handle_ppp_step env step2 s2))
        (\<lambda>r. keeps s (fst r))"
    proof (rule returns_seq [OF submit_auth_returns [OF assms(1) \<open>safe t\<close> r(3) ev(2)]], goal_cases)
      case (1 q)
      then obtain u st where q: "q = (u, st)" "keeps t u" "frames_fit (ps_frames st)"
        "\<not> needs_auth (ps_event st)" by (cases q) auto
      from returns_keeps [OF keeps_trans [OF r(2) q(2)]
        handle_settled_returns [OF keepsD [OF q(2)] q(3,4)]] q(1) show ?case by simp
    qed
    with r ev show ?case by (cases ev) auto
  qed
qed

lemma run_ppp_bind:
  "run_ppp env r s =
     Option.bind r (\<lambda>(p, step). handle_ppp_step env step ((called s)\<lparr>ss_ppp := Some p\<rparr>))"
  by (cases r) (simp_all add: run_ppp_def)

lemma run_ppp_returns:
  assumes "env_wf env" and "safe s" and "returns r step_small"
  shows "returns (run_ppp env r s) (\<lambda>r. keeps s (fst r))"
proof -
  from assms(3) obtain p step where r: "r = Some (p, step)" "ppp_small p" "frames_fit (ps_frames step)"
    by (auto simp: returns_def step_small_def)
  let ?s = "(called s)\<lparr>ss_ppp := Some p\<rparr>"
  have k: "keeps s ?s" using assms(2) r(2) by (intro keeps_set_ppp) simp_all
  show ?thesis
    using returns_keeps [OF k handle_ppp_step_returns [OF assms(1) keepsD [OF k] r(3)]]
    by (simp add: run_ppp_def r(1))
qed

text \<open>A reply of the SSTP machine is at least a header long and fits the buffer.\<close>

definition reply_fits :: "step_out \<Rightarrow> bool" where
  "reply_fits out \<longleftrightarrow> so_send_len out = 0 \<or> 4 \<le> so_send_len out \<and> so_send_len out \<le> 48"

lemma apply_step_returns:
  assumes "safe s" and "reply_fits out"
  shows "returns (apply_step env out s) (\<lambda>r. keeps s (fst r) \<and> ss_ppp (fst r) = ss_ppp s)"
proof -
  have timer: "keeps s (update_sstp_timer out t) = keeps s t" "ss_ppp (update_sstp_timer out t) = ss_ppp t" for t
    by (simp_all add: update_sstp_timer_def Let_def)
  have "returns (send_step env (so_send_len out) s) (\<lambda>r. keeps s (fst r) \<and> ss_ppp (fst r) = ss_ppp s)"
    using assms safe_tx_len [OF assms(1)]
    by (auto simp: send_step_def reply_fits_def tls_write_def tls_flush_def wire_defs
      split: option.split)
  then show ?thesis
    unfolding apply_step_def
    by (rule returns_seq) (auto simp: timer Let_def split: prod.split)
qed

lemma handle_sstp_step_returns:
  assumes "env_wf env" and "safe s" and "reply_fits out"
  shows "returns (handle_sstp_step env out s) (\<lambda>r. keeps s (fst r))"
  unfolding handle_sstp_step_def
proof (rule returns_seq [OF apply_step_returns [OF assms(2,3)]], goal_cases)
  case (1 r)
  then obtain t oc where r: "r = (t, oc)" "keeps s t" by (cases r) auto
  have "length (env_challenge env n) = 16" for n using assms(1) by (simp add: env_wf_def)
  then have "returns (ppp_open (env_challenge env n) (ppp_new ip m)) step_small" for n ip m
    using ppp_input_step_total [of "PinOpen (env_challenge env n)" "ppp_new ip m"] ppp_open_small [OF ppp_new_small]
    by (auto simp: returns_def)
  from returns_keeps [OF r(2) run_ppp_returns [OF assms(1) keepsD [OF r(2)] this]]
  show ?case using r by (auto simp: run_ppp_bind)
qed

lemma good_result_fits:
  "good_result tx r \<Longrightarrow> returns r (\<lambda>(sm, tx', out). length tx' = length tx \<and> reply_fits out)"
  by (auto simp: good_result_def reply_fits_def returns_def dest: packet_parse_consumed)

lemma run_ssm_returns:
  assumes "env_wf env" and "safe s" and "good_result (ss_tx_buf s) r"
  shows "returns (run_ssm env r s) (\<lambda>r. keeps s (fst r))"
proof -
  from good_result_fits [OF assms(3)] obtain sm tx out where r: "r = Some (sm, tx, out)"
    "length tx = length (ss_tx_buf s)" "reply_fits out" by (auto simp: returns_def)
  have k: "keeps s (s\<lparr>ss_ssm := sm, ss_tx_buf := tx\<rparr>)" using assms(2) r(2) by (simp add: keeps_def safe_def)
  from returns_keeps [OF k handle_sstp_step_returns [OF assms(1) keepsD [OF k] r(3)]]
  show ?thesis by (simp add: run_ssm_def r(1))
qed

subsection \<open>The arms of the loop\<close>

lemma silent_fits: "so_send_len out = 0 \<Longrightarrow> reply_fits out"
  by (simp add: reply_fits_def)

lemma timer_returns:
  assumes "env_wf env" and "safe s" and "keeps s t" and "ss_tx_buf t = ss_tx_buf s"
  shows "returns (run_ssm env (on_timer w sm (ss_tx_buf s)) t) (\<lambda>r. keeps s (fst r))"
  using returns_keeps [OF assms(3) run_ssm_returns [OF assms(1) keepsD [OF assms(3)]]]
    on_timer_good [of "ss_tx_buf s" w sm] safe_tx_len [OF assms(2)] assms(4) by simp

lemma hello_check_returns:
  assumes "env_wf env" and "safe s"
  shows "returns (hello_check env s) (\<lambda>r. keeps s (fst r))"
proof -
  let ?t = "s\<lparr>ss_hello_echo_pending := True\<rparr>"
  have "returns (run_ssm env (on_timer Hello (ss_ssm s) (ss_tx_buf s)) ?t) (\<lambda>r. keeps s (fst r))"
    by (rule timer_returns [OF assms]) (use assms(2) in simp_all)
  moreover have "returns (handle_sstp_step env (on_hello_timeout_no_response (ss_ssm s)) s)
      (\<lambda>r. keeps s (fst r))"
    by (rule handle_sstp_step_returns [OF assms])
      (simp add: silent_fits on_hello_timeout_no_response_def)
  ultimately show ?thesis
    using assms(2) by (auto simp: hello_check_def Let_def simp del: on_timer.simps)
qed

lemma acct_interim_keeps: "keeps s t \<Longrightarrow> keeps s (acct_interim env t)"
  by (auto simp: acct_interim_def keeps_def safe_def Let_def split: option.split)

lemma periodic_tick_returns:
  assumes "env_wf env" and "safe s"
  shows "returns (on_periodic_tick env s) (\<lambda>r. keeps s (fst r))"
  unfolding on_periodic_tick_def
  by (rule returns_seq [OF hello_check_returns [OF assms]])
    (auto simp: acct_interim_keeps split: prod.split)

lemma disconnect_returns:
  assumes "env_wf env" and "safe s"
  shows "returns (on_disconnect_event env cause s) (\<lambda>r. keeps s (fst r))"
proof -
  let ?t = "s\<lparr>ss_acct_cause := cause\<rparr>"
  have k: "keeps s ?t" using assms(2) by simp
  have "good_result (ss_tx_buf ?t) (on_higher_layer_disconnect (ss_ssm s) (ss_tx_buf s))"
    using safe_tx_len [OF assms(2)] sstp_step_good [of "ss_tx_buf s" SeDisconnect undefined "ss_ssm s"]
    by simp
  from returns_keeps [OF k run_ssm_returns [OF assms(1) keepsD [OF k] this]]
  show ?thesis by (simp add: on_disconnect_event_def)
qed

lemma ppp_timer_returns:
  assumes "env_wf env" and "safe s" and "ss_ppp_timer s \<noteq> None"
  shows "returns (on_ppp_timer_event env s) (\<lambda>r. keeps s (fst r))"
proof -
  obtain owner d where o: "ss_ppp_timer s = Some (owner, d)" using assms(3) by auto
  let ?t = "s\<lparr>ss_ppp_timer := None\<rparr>"
  have k: "keeps s ?t" using assms(2) by simp
  show ?thesis
  proof (cases "ss_ppp s")
    case None
    with o assms(2) show ?thesis by (simp add: on_ppp_timer_event_def Let_def)
  next
    case (Some p)
    then have "ppp_small p" using assms(2) by (simp add: safe_def)
    then have "returns (ppp_on_timer (env_challenge env n) p owner) step_small" for n
      using ppp_input_step_total [of "PinTimer (env_challenge env n) owner" p] ppp_on_timer_small assms(1)
      by (auto simp: returns_def env_wf_def)
    from returns_keeps [OF k run_ppp_returns [OF assms(1) keepsD [OF k] this]] o Some
    show ?thesis by (simp add: on_ppp_timer_event_def Let_def)
  qed
qed

lemma tun_packet_returns:
  assumes "safe s" and "length body \<le> 2044"
  shows "returns (on_tun_packet env body s) (\<lambda>r. keeps s (fst r))"
proof -
  have w: "returns (Option.bind (write_ppp_as_sstp_data env frame s)
      (\<lambda>(s1, ok). if ok then Some (tls_flush env s1) else Some (s1, False))) (\<lambda>r. keeps s (fst r))"
    if "tun_frame body = Some frame" for frame
  proof (rule returns_seq [OF write_ppp_returns [OF assms(1)]])
    show "length frame \<le> FRAME_MAX"
      using that assms(2) by (auto simp: tun_frame_def FRAME_MAX_def Let_def split: if_splits)
  qed (auto simp: tls_flush_def split: prod.split)
  with assms(1) show ?thesis by (auto simp: on_tun_packet_def split: option.split)
qed

lemma control_message_returns:
  assumes "env_wf env" and "safe s" and "\<And>cb. msg = CmCallConnected cb \<Longrightarrow> CALL_CONNECTED_LEN \<le> length raw"
  shows "returns (on_control_message env raw msg s) (\<lambda>r. keeps s (fst r))"
proof -
  note len = safe_tx_len [OF assms(2)]
  have "good_result (ss_tx_buf s) (verify_call_connected (env_crypto env) cb pkt (ss_ssm s) (ss_tx_buf s))"
    for cb pkt
    using len sstp_step_good [of "ss_tx_buf s" "SeCallConnected cb pkt" "env_crypto env" "ss_ssm s"] by simp
  note cc = run_ssm_returns [OF assms(1,2) this]
  have "good_result (ss_tx_buf (called s))
      (on_message (env_crypto env) (env_nonce env (ss_calls s)) msg (ss_ssm s) (ss_tx_buf s))"
    using len assms(1) by (simp add: on_message_good env_wf_def)
  from returns_keeps [OF _ run_ssm_returns [OF assms(1) _ this], of s] assms(2)
  have om: "returns (run_ssm env (on_message (env_crypto env) (env_nonce env (ss_calls s)) msg (ss_ssm s)
      (ss_tx_buf s)) (called s)) (\<lambda>r. keeps s (fst r))" by simp
  show ?thesis
    using assms(3) cc om by (cases msg) (auto simp: on_control_message_def simp del: on_message.simps)
qed

lemma kmod_control_returns:
  assumes "env_wf env" and "safe s"
  shows "returns (on_kmod_control env payload s) (\<lambda>r. keeps s (fst r))"
proof (cases "parse_control_payload payload")
  case (Inl e)
  with assms(2) show ?thesis by (simp add: on_kmod_control_def)
next
  case (Inr msg)
  have cc: "returns (on_control_message env (write_header True n @ payload) (CmCallConnected cb) s)
      (\<lambda>r. keeps s (fst r))" if "length payload + SSTP_HEADER_LEN = CALL_CONNECTED_LEN" for n cb
    by (rule control_message_returns [OF assms]) (use that in \<open>simp add: wire_defs\<close>)
  have other: "returns (on_control_message env payload msg s) (\<lambda>r. keeps s (fst r))"
    if "\<And>cb. msg \<noteq> CmCallConnected cb"
    by (rule control_message_returns [OF assms]) (use that in blast)
  show ?thesis
    using Inr cc other assms(2) by (cases msg) (auto simp: on_kmod_control_def)
qed

lemma kmod_events_returns:
  assumes "env_wf env" and "safe s" and "ss_kmod_fd s"
  shows "returns (on_kmod_events env evs s) (\<lambda>r. keeps s (fst r))"
  using assms(2,3)
proof (induction evs arbitrary: s)
  case (Cons ev evs)
  have kp: "ss_kppp s \<noteq> None" using Cons.prems by (simp add: safe_def)
  have rest: "returns (on_kmod_events env evs t) (\<lambda>r. keeps s (fst r))" if "keeps s t" for t
    using returns_keeps [OF that Cons.IH [of t]] that Cons.prems by (simp add: keeps_def)
  have msg: "returns (Option.bind (on_kmod_control env payload (called s))
      (\<lambda>(s2, ok). if ok then on_kmod_events env evs s2 else Some (s2, False))) (\<lambda>r. keeps s (fst r))"
    for payload
  proof (rule returns_seq [OF kmod_control_returns [OF assms(1)]], goal_cases)
    case (2 r)
    then have "keeps s (fst r)" by (rule keeps_trans [rotated]) (use Cons.prems in simp)
    with rest show ?case by (cases r) auto
  qed (use Cons.prems in simp)
  show ?case
    using kp Cons.prems rest [of s] rest [of "called s"] msg
    by (auto simp: Let_def split: option.split kmod_event.split)
qed simp

subsection \<open>Inbound packets\<close>

lemma np_route_returns:
  assumes "safe s"
  shows "returns (np_route payload s) (\<lambda>r. keeps s (fst r) \<and> ss_ppp (fst r) = ss_ppp s)"
  using assms
  by (auto simp: np_route_def np_filter_decide_def Let_def split: sum.split option.split)

lemma on_data_returns:
  assumes "env_wf env" and "safe s" and "length payload \<le> PEER_FRAME_MAX"
  shows "returns (on_data env payload s) (\<lambda>r. keeps s (fst r))"
  unfolding on_data_def
proof (rule returns_seq [OF handle_sstp_step_returns [OF assms(1,2)]], goal_cases)
  case 1
  show ?case by (rule silent_fits) (simp add: on_data_packet_def)
next
  case (2 r)
  then obtain t ok where r: "r = (t, ok)" and t: "keeps s t" by (cases r) auto
  have frame: "returns (run_ppp env (on_frame (env_challenge env (ss_calls u)) p payload) u) (\<lambda>r. keeps s (fst r))"
    if "keeps s u" "ss_ppp u = Some p" for u p
  proof -
    have "ppp_small p" using that by (simp add: keeps_def safe_def)
    then have "returns (on_frame (env_challenge env (ss_calls u)) p payload) step_small"
      using on_frame_total [of "env_challenge env (ss_calls u)" p payload] on_frame_small [OF _ assms(3)] assms(1)
      by (auto simp: returns_def env_wf_def)
    from returns_keeps [OF that(1) run_ppp_returns [OF assms(1) keepsD [OF that(1)] this]] show ?thesis .
  qed
  have "returns (Option.bind (np_route payload t) (\<lambda>(s2, routed).
       if routed then Some (s2, True)
       else case ss_ppp s2 of
           None \<Rightarrow> Some (s2, True)
         | Some p \<Rightarrow> run_ppp env (on_frame (env_challenge env (ss_calls s2)) p payload) s2))
     (\<lambda>r. keeps s (fst r))"
  proof (rule returns_seq [OF np_route_returns [OF keepsD [OF t]]], goal_cases)
    case (1 q)
    then obtain u routed where "q = (u, routed)" "keeps s u" using keeps_trans [OF t] by (cases q) auto
    with frame show ?case by (auto split: option.split)
  qed
  with r t show ?case by simp
qed

text \<open>Every data packet in the buffer is within the limit.\<close>

function packets_small :: "bytes \<Rightarrow> bool" where
  "packets_small buf =
     (case packet_parse buf of
        Inl _ \<Rightarrow> True
      | Inr (Data payload, n) \<Rightarrow> length payload \<le> PEER_FRAME_MAX \<and> packets_small (drop n buf)
      | Inr (Control ctrl, n) \<Rightarrow> packets_small (drop n buf))"
  by pat_completeness auto
termination
  by (relation "measure length") (auto dest!: packet_parse_consumed)

declare packets_small.simps [simp del]

lemma read_loop_returns:
  assumes "env_wf env" and "safe s" and "packets_small buf"
  shows "returns (read_loop env buf s) (\<lambda>r. keeps s (fst r))"
  using assms(2,3)
proof (induction buf arbitrary: s rule: length_induct)
  case (1 buf)
  note ih = 1(1)
  show ?case
  proof (cases "packet_parse buf")
    case (Inl e)
    with 1(2) show ?thesis by (cases e) (simp_all add: read_loop_end)
  next
    case (Inr x)
    then obtain pkt n where p: "packet_parse buf = Inr (pkt, n)" by (cases x) auto
    have rest: "packets_small (drop n buf)"
      using 1(3) p by (subst (asm) packets_small.simps) (auto split: packet.splits)
    have shorter: "length (drop n buf) < length buf" using packet_parse_consumed [OF p] by auto
    have loop: "returns (Option.bind m (\<lambda>(s1, ok). if ok then read_loop env (drop n buf) s1 else Some (s1, False)))
        (\<lambda>r. keeps s (fst r))" if "returns m (\<lambda>r. keeps s (fst r))" for m
    proof (rule returns_seq [OF that], goal_cases)
      case (1 r)
      have "returns (read_loop env (drop n buf) (fst r)) (\<lambda>r'. keeps s (fst r'))"
        by (rule returns_keeps [OF 1]) (use ih shorter rest keepsD [OF 1] in blast)
      with 1 show ?case by (cases r) auto
    qed
    show ?thesis
    proof (cases pkt)
      case (Data payload)
      have "length payload \<le> PEER_FRAME_MAX"
        using 1(3) p Data by (subst (asm) packets_small.simps) simp
      from loop [OF on_data_returns [OF assms(1) 1(2) this]] show ?thesis
        unfolding read_loop.simps [of env buf s] p Data by simp
    next
      case (Control ctrl)
      show ?thesis
      proof (cases "parse_control ctrl")
        case (Inl e)
        with p Control 1(2) show ?thesis by (simp add: read_loop_garbled)
      next
        case (Inr msg)
        have "CALL_CONNECTED_LEN \<le> length buf" if "msg = CmCallConnected cb" for cb
          using call_connected_length [of buf ctrl n cb] packet_parse_consumed [OF p] p Control Inr that
          by simp
        from loop [OF control_message_returns [OF assms(1) 1(2) this]] Inr show ?thesis
          unfolding read_loop.simps [of env buf s] p Control by simp
      qed
    qed
  qed
qed

subsection \<open>The states of the loop\<close>

text \<open>What the peer sends is within the limit of \<open>PEER_FRAME_MAX\<close>.\<close>

fun peer_small :: "session \<Rightarrow> driver_event \<Rightarrow> bool" where
  "peer_small s (EvRead chunk) = packets_small (ss_rx_buf s @ chunk)"
| "peer_small s _ = True"

lemma dispatch_returns:
  assumes "env_wf env" and "safe s" and "event_enabled s ev" and "peer_small s ev"
  shows "returns (dispatch env ev s) (\<lambda>r. keeps s (fst r))"
proof (cases ev)
  case (EvRead chunk)
  have k: "keeps s (rx_activity s)" using assms(2) by (simp add: rx_activity_def)
  from returns_keeps [OF k read_loop_returns [OF assms(1) keepsD [OF k]]] EvRead assms(2,4)
  show ?thesis by (simp add: on_read_def)
next
  case (EvKmod evs)
  have k: "keeps s (rx_activity s)" using assms(2) by (simp add: rx_activity_def)
  have "ss_kmod_fd (rx_activity s)" using assms(3) EvKmod by (simp add: rx_activity_def)
  from returns_keeps [OF k kmod_events_returns [OF assms(1) keepsD [OF k] this]] EvKmod
  show ?thesis by simp
next
  case EvSstpTimer
  then obtain w d where "ss_sstp_timer s = Some (w, d)"
    using assms(3) by (auto simp: deadline_reached_def split: option.splits)
  with EvSstpTimer timer_returns [OF assms(1,2), of "s\<lparr>ss_sstp_timer := None\<rparr>" w "ss_ssm s"] assms(2)
  show ?thesis by (simp add: on_sstp_timer_def)
next
  case EvPppTimer
  then have "ss_ppp_timer s \<noteq> None"
    using assms(3) by (auto simp: deadline_reached_def split: option.splits)
  with EvPppTimer ppp_timer_returns [OF assms(1,2)] show ?thesis by simp
next
  case (EvRekey r)
  with assms(2) show ?thesis by (simp add: on_rekey_def attempt_def)
next
  case (EvTunPacket body)
  with tun_packet_returns [OF assms(2)] assms(3) show ?thesis by simp
qed (use assms(2) disconnect_returns [OF assms(1,2)] periodic_tick_returns [OF assms(1,2)] in
  \<open>simp_all add: rx_activity_def\<close>)

lemma loop_top_safe: "safe s \<Longrightarrow> safe (fst (loop_top env s))"
  by (auto simp: loop_top_def apply_policy_def safe_def Let_def split: option.split)

text \<open>
  The states in which the task waits for its next event: the clock does not run backwards, the
  event is one the environment can deliver, and the peer's packets are within the limit.
\<close>

inductive session_reach :: "session_env \<Rightarrow> bytes \<Rightarrow> bytes \<Rightarrow> session \<Rightarrow> bool" for env h1 h2 where
  reach_start: "drive_start env h1 h2 now = Some r \<Longrightarrow> session_top env r = (s, True) \<Longrightarrow>
    session_reach env h1 h2 s"
| reach_round: "session_reach env h1 h2 s \<Longrightarrow> ss_now s \<le> now \<Longrightarrow>
    event_enabled (s\<lparr>ss_now := now\<rparr>) ev \<Longrightarrow> peer_small s ev \<Longrightarrow>
    session_round env now ev s = Some (s', True) \<Longrightarrow> session_reach env h1 h2 s'"

inductive_cases session_reachE: "session_reach env h1 h2 s"

lemma drive_start_returns:
  assumes "env_wf env"
  shows "returns (drive_start env h1 h2 now) (\<lambda>r. safe (fst r))"
proof -
  let ?s = "(session_new env h1 h2 now)\<lparr>ss_ssm := fst (on_https_accepted (ss_ssm (session_new env h1 h2 now)))\<rparr>"
  have "safe ?s" by (simp add: safe_def session_new_def Let_def)
  moreover have "reply_fits (snd (on_https_accepted sm))" for sm
    by (simp add: silent_fits on_https_accepted_def)
  ultimately have "returns (drive_start env h1 h2 now) (\<lambda>r. keeps ?s (fst r))"
    using handle_sstp_step_returns [OF assms, of ?s] by (simp add: drive_start_def Let_def split_beta)
  then show ?thesis by (rule returns_mono) (rule keepsD)
qed

lemma session_top_running:
  "session_top env r = (s, True) \<Longrightarrow> snd r \<and> loop_top env (fst r) = (s, True)"
  by (cases r) (auto simp: session_top_def split: prod.splits bool.splits if_splits)

lemma session_round_returns:
  assumes "env_wf env" and "safe s" and "event_enabled (s\<lparr>ss_now := now\<rparr>) ev" and "peer_small s ev"
  shows "returns (session_round env now ev s) (\<lambda>r. snd r \<longrightarrow> safe (fst r))"
proof -
  let ?s = "s\<lparr>ss_now := now\<rparr>"
  have "safe ?s" using assms(2) by (simp add: safe_def)
  moreover have "peer_small ?s ev" using assms(4) by (cases ev) simp_all
  ultimately have "returns (dispatch env ev ?s) (\<lambda>r. keeps ?s (fst r))"
    by (intro dispatch_returns [OF assms(1) _ assms(3)])
  then obtain r where r: "dispatch env ev ?s = Some r" "keeps ?s (fst r)" by (auto simp: returns_def)
  have "safe (fst (session_top env r))" if "snd (session_top env r)"
    using loop_top_safe [OF keepsD [OF r(2)], of env] session_top_running [of env r] that
    by (cases "session_top env r") auto
  with r(1) show ?thesis by (auto simp: session_round_def returns_def)
qed

lemma session_start_safe:
  assumes "env_wf env" and "drive_start env h1 h2 now = Some r" and "session_top env r = (s, True)"
  shows "safe s"
proof -
  have "safe (fst r)" by (rule returnsD [OF drive_start_returns [OF assms(1)] assms(2)])
  from loop_top_safe [OF this, of env] session_top_running [OF assms(3)] show ?thesis by simp
qed

lemma reach_safe:
  assumes "env_wf env" and "session_reach env h1 h2 s"
  shows "safe s"
  using assms(2)
proof (induction rule: session_reach.induct)
  case (reach_start now r s)
  then show ?case by (rule session_start_safe [OF assms(1)])
next
  case (reach_round s now ev s')
  from returnsD [OF session_round_returns [OF assms(1) reach_round.IH reach_round(3,4)] reach_round(5)]
  show ?case by simp
qed

lemma reach_returns:
  assumes "env_wf env" and "session_reach env h1 h2 s"
    and "event_enabled (s\<lparr>ss_now := now\<rparr>) ev" and "peer_small s ev"
  shows "\<exists>t ok. session_round env now ev s = Some (t, ok)"
  using session_round_returns [OF assms(1) reach_safe [OF assms(1,2)] assms(3,4)] by (auto simp: returns_def)

text \<open>
  A schedule of events the environment can produce: time does not run backwards, every event is
  enabled when it comes, and what the peer sends is within the limit.
\<close>

fun scheduled :: "session_env \<Rightarrow> (nat \<times> driver_event) list \<Rightarrow> session \<times> bool \<Rightarrow> bool" where
  "scheduled env evs (s, False) = True"
| "scheduled env [] (s, True) = True"
| "scheduled env ((now, ev) # evs) (s, True) =
     (ss_now s \<le> now \<and> event_enabled (s\<lparr>ss_now := now\<rparr>) ev \<and> peer_small s ev
      \<and> (case session_round env now ev s of None \<Rightarrow> True | Some r \<Rightarrow> scheduled env evs r))"

lemma drive_returns:
  assumes "env_wf env" and "snd r \<longrightarrow> safe (fst r)" and "scheduled env evs r"
  shows "returns (drive env evs r) (\<lambda>r'. True)"
  using assms(2,3)
proof (induction evs arbitrary: r)
  case Nil
  then show ?case by (cases r; cases "snd r") (auto simp: returns_def)
next
  case (Cons e evs)
  obtain s ok now ev where r: "r = (s, ok)" and e: "e = (now, ev)" by (cases r; cases e)
  show ?case
  proof (cases ok)
    case True
    with Cons.prems r e have s: "safe s" "event_enabled (s\<lparr>ss_now := now\<rparr>) ev" "peer_small s ev" by auto
    from session_round_returns [OF assms(1) s] obtain q where q: "session_round env now ev s = Some q"
      "snd q \<longrightarrow> safe (fst q)" by (auto simp: returns_def)
    from Cons.IH [OF q(2)] Cons.prems(2) r e True q(1) show ?thesis by simp
  qed (auto simp: r e returns_def)
qed

text \<open>
  C5 (safety).  The session task never panics, as long as the peer's PPP frames stay within
  1367 bytes: on every schedule of events the run returns a state, so that no buffer index, no
  slice and no \<open>expect\<close> of the task, of the two protocol machines and of their encoders fails.
\<close>

theorem session_no_panic:
  assumes "env_wf env"
    and "\<And>r. drive_start env h1 h2 now = Some r \<Longrightarrow> scheduled env evs (session_top env r)"
  shows "\<exists>s alive. drive_sstp env h1 h2 now evs = Some (s, alive)"
proof -
  obtain q where q: "drive_start env h1 h2 now = Some q"
    using drive_start_returns [OF assms(1), of h1 h2 now] by (auto simp: returns_def)
  have "snd (session_top env q) \<longrightarrow> safe (fst (session_top env q))"
    using session_start_safe [OF assms(1) q] by (cases "session_top env q") auto
  from drive_returns [OF assms(1) this, of evs] assms(2) q show ?thesis
    by (auto simp: drive_sstp_def returns_def)
qed

end
