(* ===== verification/Session_Timers.thy ===== *)
theory Session_Timers
  imports Session_Safety
begin

text \<open>
  The timers of the session task.  Until the tunnel is established, and from the moment it is
  being taken down, exactly the timer that belongs to the state of the SSTP machine is armed; so
  a silent peer cannot keep the task alive.
\<close>

subsection \<open>The timer of a state\<close>

fun timer_of :: "sstp_state \<Rightarrow> timer option" where
  "timer_of ServerCallDisconnected = None"
| "timer_of ServerConnectRequestPending = Some Negotiation"
| "timer_of ServerCallConnectedPending = Some Negotiation"
| "timer_of ServerCallConnected = None"
| "timer_of CallAbortPending = Some AbortT1"
| "timer_of CallAbortTimeoutPending = Some AbortT2"
| "timer_of CallDisconnectAckPending = Some DisconnectT1"
| "timer_of CallDisconnectTimeoutPending = Some DisconnectT2"

text \<open>The timer in the slot after a step.\<close>

definition slot_after :: "step_out \<Rightarrow> timer option \<Rightarrow> timer option" where
  "slot_after out slot =
     (let stopped = (if so_timer_stop out \<noteq> None \<and> so_timer_stop out = slot then None else slot) in
      case so_timer_start out of
        Some (w, _) \<Rightarrow> if w \<noteq> Hello then Some w else stopped
      | None \<Rightarrow> stopped)"

fun timer_val :: "timer \<Rightarrow> nat" where
  "timer_val Negotiation = TIMER_VAL_NEGOTIATION"
| "timer_val Hello = TIMER_VAL_HELLO"
| "timer_val AbortT1 = TIMER_VAL_ABORT_STATE_TIMER_1"
| "timer_val AbortT2 = TIMER_VAL_ABORT_STATE_TIMER_2"
| "timer_val DisconnectT1 = TIMER_VAL_DISCONNECT_STATE_TIMER_1"
| "timer_val DisconnectT2 = TIMER_VAL_DISCONNECT_STATE_TIMER_2"

definition start_bounded :: "step_out \<Rightarrow> bool" where
  "start_bounded out \<longleftrightarrow> (\<forall>w d. so_timer_start out = Some (w, d) \<longrightarrow> d = timer_val w)"

text \<open>What a handler of the SSTP machine does to the slot.\<close>

definition slot_result :: "timer option \<Rightarrow> handler_result \<Rightarrow> bool" where
  "slot_result slot r \<longleftrightarrow>
     (\<forall>sm tx out. r = Some (sm, tx, out) \<longrightarrow>
        start_bounded out
        \<and> (so_terminate out = TerminateNone \<longrightarrow>
             sm_state sm \<noteq> ServerCallDisconnected \<and> slot_after out slot = timer_of (sm_state sm)))"

lemmas timer_val_defs = TIMER_VAL_NEGOTIATION_def TIMER_VAL_ABORT_STATE_TIMER_1_def
  TIMER_VAL_ABORT_STATE_TIMER_2_def TIMER_VAL_DISCONNECT_STATE_TIMER_1_def
  TIMER_VAL_DISCONNECT_STATE_TIMER_2_def TIMER_VAL_HELLO_def

lemma slot_result_abort [simp]: "slot_result slot (start_abort reason sm tx)"
  by (auto simp: slot_result_def start_abort_def bind_eq_Some_conv slot_after_def start_bounded_def
    timer_val_defs)

lemma slot_result_binding:
  "slot = Some Negotiation \<Longrightarrow> slot_result slot (on_binding_outcome r sm tx)"
  by (cases r) (auto simp: on_binding_outcome_def advance_to_connected_def slot_result_def slot_after_def
    start_bounded_def timer_val_defs start_abort_def bind_eq_Some_conv)

lemmas slot_simps = slot_result_def slot_after_def start_bounded_def timer_val_defs bind_eq_Some_conv

lemma slot_result_message:
  assumes "slot = timer_of (sm_state sm)" and "sm_state sm \<noteq> ServerCallDisconnected"
  shows "slot_result slot (on_message lib nonce msg sm tx)"
proof (cases msg)
  case (CmCallConnectRequest pid)
  with assms show ?thesis
    by (auto simp: on_call_connect_request_def is_in_terminal_drain_def Let_def)
      (auto simp: slot_simps)
next
  case (CmCallConnected cb)
  with assms show ?thesis
    by (auto simp: on_call_connected_structural_def is_in_terminal_drain_def slot_result_binding
      split: option.split) (auto simp: slot_simps)
next
  case CmCallDisconnect
  with assms show ?thesis by (cases "sm_state sm") (auto simp: on_call_disconnect_def slot_simps)
next
  case CmCallDisconnectAck
  with assms show ?thesis by (cases "sm_state sm") (simp_all add: on_call_disconnect_ack_def, auto simp: slot_simps)
next
  case CmCallAbort
  with assms show ?thesis by (cases "sm_state sm") (auto simp: on_call_abort_def slot_simps)
next
  case CmEchoRequest
  with assms show ?thesis by (cases "sm_state sm") (simp_all add: on_echo_request_def, auto simp: slot_simps)
next
  case CmEchoResponse
  with assms show ?thesis by (cases "sm_state sm") (simp_all add: on_echo_response_def, auto simp: slot_simps)
next
  case (CmOther pkt)
  then show ?thesis by (simp add: unexpected_def)
qed

lemma slot_result_verify:
  assumes "slot = timer_of (sm_state sm)"
  shows "slot_result slot (verify_call_connected lib cb pkt sm tx)"
  using assms by (auto simp: verify_call_connected_def slot_result_binding split: option.split)

lemma slot_result_timer:
  assumes "timer_of (sm_state sm) = Some w"
  shows "slot_result None (on_timer w sm tx)"
  using assms by (cases "sm_state sm") (auto simp: slot_simps start_abort_def)

lemma slot_result_disconnect: "slot_result slot (on_higher_layer_disconnect sm tx)"
  by (auto simp: slot_simps on_higher_layer_disconnect_def)

lemma slot_result_hello:
  "sm_state sm = ServerCallConnected \<Longrightarrow> slot_result None (on_timer Hello sm tx)"
  by (auto simp: slot_simps on_hello_expired_def)

subsection \<open>What the rest of the task leaves alone\<close>

text \<open>Only steps of the SSTP machine change its state and its timer; only packets are activity.\<close>

definition core :: "session \<Rightarrow> (state_machine \<times> (timer \<times> nat) option) \<times> nat \<times> nat \<times> bool" where
  "core s = ((ss_ssm s, ss_sstp_timer s), ss_now s, ss_last_rx s, ss_hello_echo_pending s)"

lemma core_upd [simp]:
  "core (called s) = core s" "core (log_effect e s) = core s"
  "core (s\<lparr>ss_tx_buf := x1\<rparr>) = core s" "core (s\<lparr>ss_ppp := x2\<rparr>) = core s"
  "core (s\<lparr>ss_ppp_timer := x3\<rparr>) = core s" "core (s\<lparr>ss_kppp := x4\<rparr>) = core s"
  "core (s\<lparr>ss_info := x5\<rparr>) = core s" "core (s\<lparr>ss_mss_handle := x6\<rparr>) = core s"
  "core (s\<lparr>ss_pending_shaping := x7\<rparr>) = core s" "core (s\<lparr>ss_pending_policy := x8\<rparr>) = core s"
  "core (s\<lparr>ss_pending_username := x9\<rparr>) = core s" "core (s\<lparr>ss_pending_hlak := x10\<rparr>) = core s"
  "core (s\<lparr>ss_acct_state := x11\<rparr>) = core s" "core (s\<lparr>ss_acct_cause := x12\<rparr>) = core s"
  "core (s\<lparr>ss_rx_buf := x13\<rparr>) = core s" "core (s\<lparr>ss_kmod_fd := x14\<rparr>) = core s"
  "core (s\<lparr>ss_acct_interim_period := x15\<rparr>) = core s" "core (s\<lparr>ss_session_deadline := x16\<rparr>) = core s"
  "core (s\<lparr>ss_idle_timeout := x17\<rparr>) = core s" "core (s\<lparr>ss_idle_deadline := x18\<rparr>) = core s"
  "core (s\<lparr>ss_last_acct_interim := x19\<rparr>) = core s" "core (s\<lparr>ss_last_activity_octets := x20\<rparr>) = core s"
  by (simp_all add: core_def called_def log_effect_def)

lemma core_attempt [simp]: "core (attempt env e s) = core s"
  by (simp add: attempt_def)

lemma core_fold_attempt [simp]: "core (fold (\<lambda>r. attempt env (f r)) rs s) = core s"
  by (induction rs arbitrary: s) simp_all

lemma core_tls [simp]:
  "core (fst (tls_write env bs s)) = core s" "core (fst (tls_flush env s)) = core s"
  by (simp_all add: tls_write_def tls_flush_def)

lemma write_ppp_core: "write_ppp_as_sstp_data env f s = Some (t, ok) \<Longrightarrow> core t = core s"
  by (auto simp: write_ppp_as_sstp_data_def Let_def tls_write_def split: if_splits)

lemma write_frames_core: "write_frames env fs s = Some (t, ok) \<Longrightarrow> core t = core s"
proof (induction fs arbitrary: s)
  case (Cons f fs)
  then obtain u b where u: "write_ppp_as_sstp_data env f s = Some (u, b)"
    by (auto simp: bind_eq_Some_conv)
  with Cons show ?case using write_ppp_core [OF u] by (cases b) auto
qed simp

lemma render_core: "render_ppp_step env step s = Some (t, ok) \<Longrightarrow> core t = core s"
  by (auto simp: render_ppp_step_def bind_eq_Some_conv update_ppp_timer_def tls_flush_def Let_def
    split: if_splits dest!: write_frames_core)

lemma network_up_core: "core (fst (network_up env addrs s)) = core s"
proof -
  have acct: "core (acct_start env k ip t) = core t" for k ip t
    by (simp add: acct_start_def Let_def split: option.split)
  have steps: "core (apply_shaping env k t) = core t" "core (apply_mss env m k t) = core t"
    "core (apply_routes env k t) = core t" for k t m
    by (simp_all add: apply_shaping_def apply_mss_def apply_routes_def Let_def split: option.split)
  have path: "choose_data_path env s = (t, m) \<Longrightarrow> core t = core s" for t m
    by (auto simp: choose_data_path_def Let_def split: if_splits)
  have dev: "kppp_bring_up env mode m u = (t, k) \<Longrightarrow> core t = core u" for mode m u t k
    by (auto simp: kppp_bring_up_def bring_up_ppp_def bring_up_tun_def Let_def
      split: data_path_mode.splits option.splits)
  show ?thesis
    by (auto simp: network_up_def Let_def acct steps split: prod.split option.split dest: path dest!: dev)
qed

lemma submit_auth_core: "submit_auth env ev p s = Some (t, step) \<Longrightarrow> core t = core s"
  by (auto simp: submit_auth_def submit_pap_def submit_chap_def submit_mschapv2_def stash_accept_def Let_def
    split: ppp_event.splits option.splits auth_verdict.splits)

lemma handle_settled_core:
  assumes "\<not> needs_auth (ps_event step)" and "handle_ppp_step env step s = Some (t, ok)"
  shows "core t = core s"
proof (rule handle_ppp_step_round [OF assms(2)])
  fix s1 ok1
  assume w: "render_ppp_step env step s = Some (s1, ok1)"
    and stop: "\<not> ok1 \<or> ps_event step = None \<Longrightarrow> t = s1"
    and net: "\<And>a. ok1 \<Longrightarrow> ps_event step = Some (NetworkUp a) \<Longrightarrow> \<exists>up. network_up env a s1 = (t, up)"
  show ?thesis
  proof (cases "\<not> ok1 \<or> ps_event step = None")
    case True
    with stop render_core [OF w] show ?thesis by simp
  next
    case False
    with assms(1) obtain a where "ps_event step = Some (NetworkUp a)"
      by (cases "ps_event step" rule: needs_auth.cases) auto
    with net False obtain up where "network_up env a s1 = (t, up)" by blast
    with network_up_core [of env a s1] render_core [OF w] show ?thesis by simp
  qed
qed

lemma handle_ppp_step_core:
  assumes "handle_ppp_step env step s = Some (t, ok)"
  shows "core t = core s"
proof (cases "needs_auth (ps_event step)")
  case False
  from handle_settled_core [OF this assms] show ?thesis .
next
  case True
  then obtain ev where ev: "ps_event step = Some ev" "needs_auth (Some ev)" by (cases "ps_event step") auto
  show ?thesis
  proof (rule handle_ppp_step_round [OF assms])
    fix s1 ok1
    assume w: "render_ppp_step env step s = Some (s1, ok1)"
      and stop: "\<not> ok1 \<or> ps_event step = None \<Longrightarrow> t = s1"
      and auth: "\<And>ev. ok1 \<Longrightarrow> ps_event step = Some ev \<Longrightarrow> needs_auth (Some ev) \<Longrightarrow>
        \<exists>p s2 step2. ss_ppp s1 = Some p \<and> submit_auth env ev p s1 = Some (s2, step2)
          \<and> handle_ppp_step env step2 s2 = Some (t, ok)"
    show ?thesis
    proof (cases ok1)
      case False
      with stop render_core [OF w] show ?thesis by simp
    next
      case True
      from auth [OF True ev] obtain p s2 step2 where a: "submit_auth env ev p s1 = Some (s2, step2)"
        "handle_ppp_step env step2 s2 = Some (t, ok)" by blast
      from handle_settled_core [OF submit_auth_settles [OF a(1)] a(2)] submit_auth_core [OF a(1)]
        render_core [OF w] show ?thesis by simp
    qed
  qed
qed

lemma run_ppp_core: "run_ppp env r s = Some (t, ok) \<Longrightarrow> core t = core s"
  by (auto simp: run_ppp_def split: option.splits dest!: handle_ppp_step_core)

lemma apply_step_core:
  assumes "apply_step env out s = Some (t, oc)" and "keep_going oc"
  shows "so_terminate out = TerminateNone \<and> core t = core (update_sstp_timer out s)"
proof -
  from assms(1) obtain u ok where u: "send_step env (so_send_len out) s = Some (u, ok)"
    by (auto simp: apply_step_def bind_eq_Some_conv)
  then have "core u = core s"
    by (auto simp: send_step_def tls_write_def tls_flush_def split: if_splits prod.splits)
  then have "core (update_sstp_timer out u) = core (update_sstp_timer out s)"
    by (auto simp: core_def update_sstp_timer_def Let_def split: option.split)
  with assms u show ?thesis
    by (auto simp: apply_step_def sstp_outcome_stop_def Let_def split: if_splits terminate.splits)
qed

lemma handle_sstp_step_core:
  assumes "handle_sstp_step env out s = Some (t, True)"
  shows "so_terminate out = TerminateNone \<and> core t = core (update_sstp_timer out s)"
proof -
  from assms obtain u oc where u: "apply_step env out s = Some (u, oc)" "keep_going oc"
    by (auto simp: handle_sstp_step_def bind_eq_Some_conv split: if_splits)
  note a = apply_step_core [OF u]
  have "core t = core u"
  proof (cases "start_ppp oc \<and> ss_ppp u = None")
    case True
    with assms u obtain p step where "handle_ppp_step env step ((called u)\<lparr>ss_ppp := Some p\<rparr>) = Some (t, True)"
      by (auto simp: handle_sstp_step_def bind_eq_Some_conv)
    from handle_ppp_step_core [OF this] show ?thesis by simp
  next
    case False
    with assms u show ?thesis by (auto simp: handle_sstp_step_def split: if_splits)
  qed
  with a show ?thesis by simp
qed

subsection \<open>The timer invariant\<close>

definition due :: "session \<Rightarrow> bool" where
  "due s \<longleftrightarrow> (\<forall>w d. ss_sstp_timer s = Some (w, d) \<longrightarrow> d \<le> ss_now s + 1000 * timer_val w)"

definition timed :: "session \<Rightarrow> bool" where
  "timed s \<longleftrightarrow> sm_state (ss_ssm s) \<noteq> ServerCallDisconnected
     \<and> map_option fst (ss_sstp_timer s) = timer_of (sm_state (ss_ssm s)) \<and> due s"

lemma timed_core: "core t = core s \<Longrightarrow> timed t = timed s"
  by (simp add: core_def timed_def due_def)

lemma timed_later: "timed s \<Longrightarrow> ss_now s \<le> now \<Longrightarrow> timed (s\<lparr>ss_now := now\<rparr>)"
  by (auto simp: timed_def due_def)

lemma update_sstp_timer_slot:
  assumes "start_bounded out" and "due s"
  shows "map_option fst (ss_sstp_timer (update_sstp_timer out s)) = slot_after out (map_option fst (ss_sstp_timer s))
    \<and> due (update_sstp_timer out s) \<and> ss_ssm (update_sstp_timer out s) = ss_ssm s"
  using assms
  by (auto simp: update_sstp_timer_def slot_after_def timer_slot_stop_def due_def start_bounded_def Let_def
    split: option.splits prod.splits if_splits)

text \<open>A handler of the machine, applied by the task, keeps the invariant.\<close>

lemma run_ssm_timed:
  assumes "slot_result (map_option fst (ss_sstp_timer s)) r" and "due s"
    and "run_ssm env r s = Some (t, True)"
  shows "timed t"
proof -
  from assms(3) obtain sm tx out where r: "r = Some (sm, tx, out)"
    and h: "handle_sstp_step env out (s\<lparr>ss_ssm := sm, ss_tx_buf := tx\<rparr>) = Some (t, True)"
    by (auto simp: run_ssm_def split: option.splits)
  let ?s = "s\<lparr>ss_ssm := sm, ss_tx_buf := tx\<rparr>"
  have "start_bounded out" "due ?s" using assms(1,2) r by (auto simp: slot_result_def due_def)
  from update_sstp_timer_slot [OF this] handle_sstp_step_core [OF h] assms(1) r
  have "timed (update_sstp_timer out ?s)" by (auto simp: timed_def slot_result_def)
  with handle_sstp_step_core [OF h] timed_core show ?thesis by blast
qed

lemma timed_dest:
  assumes "timed s"
  shows "map_option fst (ss_sstp_timer s) = timer_of (sm_state (ss_ssm s))" and "due s"
    and "sm_state (ss_ssm s) \<noteq> ServerCallDisconnected"
  using assms by (simp_all add: timed_def)

lemma timed_upd [simp]:
  "timed (s\<lparr>ss_acct_cause := c\<rparr>) = timed s" "timed (called s) = timed s"
  "timed (s\<lparr>ss_hello_echo_pending := b\<rparr>) = timed s" "timed (rx_activity s) = timed s"
  "timed (s\<lparr>ss_rx_buf := rx\<rparr>) = timed s" "due (s\<lparr>ss_sstp_timer := None\<rparr>)"
  by (simp_all add: timed_def due_def called_def rx_activity_def)

lemma on_disconnect_timed: "timed s \<Longrightarrow> on_disconnect_event env c s = Some (t, True) \<Longrightarrow> timed t"
  unfolding on_disconnect_event_def
  by (rule run_ssm_timed [OF slot_result_disconnect]) (auto simp: timed_def due_def)

lemma on_control_message_timed:
  assumes "timed s" and "on_control_message env raw msg s = Some (t, True)"
  shows "timed t"
proof (cases "\<exists>cb. msg = CmCallConnected cb")
  case True
  with assms(2) obtain cb pkt where
    "run_ssm env (verify_call_connected (env_crypto env) cb pkt (ss_ssm s) (ss_tx_buf s)) s = Some (t, True)"
    by (auto simp: on_control_message_def split: if_splits)
  from run_ssm_timed [OF slot_result_verify timed_dest(2) this] assms(1) show ?thesis by (simp add: timed_def)
next
  case False
  with assms(2) have
    "run_ssm env (on_message (env_crypto env) (env_nonce env (ss_calls s)) msg (ss_ssm s) (ss_tx_buf s)) (called s)
      = Some (t, True)"
    by (cases msg) (simp_all add: on_control_message_def)
  from run_ssm_timed [OF slot_result_message timed_dest(2) this] assms(1) show ?thesis
    by (simp add: timed_def due_def called_def)
qed

lemma on_kmod_control_timed:
  "timed s \<Longrightarrow> on_kmod_control env payload s = Some (t, True) \<Longrightarrow> timed t"
  by (auto simp: on_kmod_control_def split: sum.splits control_message.splits if_splits
    elim: on_control_message_timed)

lemma on_kmod_events_timed:
  "timed s \<Longrightarrow> on_kmod_events env evs s = Some (t, True) \<Longrightarrow> timed t"
proof (induction evs arbitrary: s)
  case (Cons ev evs)
  show ?case
  proof (cases "kmod_event_from_u32 ev = Some ControlPacketEvent")
    case False
    with Cons show ?thesis by (auto split: option.splits kmod_event.splits)
  next
    case True
    note r = Cons.prems(2) [unfolded on_kmod_events.simps True]
    show ?thesis
    proof (cases "env_recv_control env (ss_calls s)")
      case (Some msg)
      show ?thesis
      proof (cases msg)
        case None
        with r Some Cons.IH [of "called s"] Cons.prems(1) show ?thesis by (auto simp: Let_def split: if_splits)
      next
        case (Some payload)
        with r \<open>env_recv_control env (ss_calls s) = Some msg\<close> obtain u
          where u: "on_kmod_control env payload (called s) = Some (u, True)" "on_kmod_events env evs u = Some (t, True)"
          by (auto simp: Let_def bind_eq_Some_conv split: if_splits)
        from on_kmod_control_timed [OF _ u(1)] Cons.prems(1) Cons.IH [OF _ u(2)] show ?thesis by simp
      qed
    qed (use r in \<open>auto simp: Let_def split: if_splits\<close>)
  qed
qed simp

lemma on_data_timed:
  assumes "timed s" and "on_data env payload s = Some (t, True)"
  shows "timed t"
proof -
  from assms(2) obtain u v routed where u: "handle_sstp_step env (on_data_packet (ss_ssm s)) s = Some (u, True)"
    and v: "np_route payload u = Some (v, routed)"
    and t: "t = v \<or> (\<exists>p r. run_ppp env r v = Some (t, True))"
    by (auto simp: on_data_def bind_eq_Some_conv split: if_splits option.splits)
  have "core (update_sstp_timer (on_data_packet (ss_ssm s)) s) = core s"
    by (simp add: core_def update_sstp_timer_def on_data_packet_def timer_slot_stop_def Let_def)
  with handle_sstp_step_core [OF u] have "core u = core s" by simp
  moreover have "core v = core u"
    using v by (auto simp: np_route_def Let_def split: sum.splits np_filter.splits if_splits)
  moreover have "core t = core v" using t by (auto dest: run_ppp_core)
  ultimately show ?thesis using assms(1) timed_core by metis
qed

lemma read_loop_timed:
  "timed s \<Longrightarrow> read_loop env buf s = Some (t, True) \<Longrightarrow> timed t"
proof (induction buf arbitrary: s rule: length_induct)
  case (1 buf)
  from read_loop_round [OF 1(3)] show ?case
  proof
    assume "t \<in> {s, s\<lparr>ss_rx_buf := buf\<rparr>}"
    with 1(2) show ?thesis by auto
  next
    assume "\<exists>pkt n s1 ok1. packet_parse buf = Inr (pkt, n)
        \<and> ((\<exists>payload. on_data env payload s = Some (s1, ok1))
           \<or> (\<exists>msg. on_control_message env buf msg s = Some (s1, ok1)))
        \<and> (if ok1 then read_loop env (drop n buf) s1 = Some (t, True) else t = s1 \<and> \<not> True)"
    then obtain pkt n s1 where p: "packet_parse buf = Inr (pkt, n)"
      and h: "(\<exists>payload. on_data env payload s = Some (s1, True))
        \<or> (\<exists>msg. on_control_message env buf msg s = Some (s1, True))"
      and r: "read_loop env (drop n buf) s1 = Some (t, True)"
      by (auto split: if_splits)
    have "timed s1" using h on_data_timed [OF 1(2)] on_control_message_timed [OF 1(2)] by blast
    moreover have "length (drop n buf) < length buf" using packet_parse_consumed [OF p] by auto
    ultimately show ?thesis using 1(1) r by blast
  qed
qed

lemma core_acct_interim [simp]: "core (acct_interim env s) = core s"
  by (simp add: acct_interim_def Let_def split: option.split)

lemma hello_check_timed:
  assumes "timed s" and "hello_check env s = Some (t, True)"
  shows "timed t"
proof (cases "sm_state (ss_ssm s) = ServerCallConnected")
  case True
  then have slot: "ss_sstp_timer s = None" using assms(1) by (auto simp: timed_def)
  have no: "handle_sstp_step env (on_hello_timeout_no_response (ss_ssm s)) s \<noteq> Some (t, True)"
  proof
    assume "handle_sstp_step env (on_hello_timeout_no_response (ss_ssm s)) s = Some (t, True)"
    from handle_sstp_step_core [OF this] show False by (simp add: on_hello_timeout_no_response_def)
  qed
  have "t = s \<or> run_ssm env (on_timer Hello (ss_ssm s) (ss_tx_buf s)) (s\<lparr>ss_hello_echo_pending := True\<rparr>) = Some (t, True)"
    using assms(2) True no unfolding hello_check_def Let_def by (simp del: on_timer.simps split: if_splits)
  then show ?thesis
  proof
    assume r: "run_ssm env (on_timer Hello (ss_ssm s) (ss_tx_buf s)) (s\<lparr>ss_hello_echo_pending := True\<rparr>) = Some (t, True)"
    show ?thesis
      by (rule run_ssm_timed [OF _ _ r])
        (use slot True in \<open>simp_all add: slot_result_hello due_def del: on_timer.simps\<close>)
  qed (use assms in simp)
qed (use assms in \<open>auto simp: hello_check_def\<close>)

lemma on_sstp_timer_timed:
  assumes "timed s" and "on_sstp_timer env s = Some (t, True)"
  shows "timed t"
proof -
  from assms obtain w d where w: "ss_sstp_timer s = Some (w, d)"
    and r: "run_ssm env (on_timer w (ss_ssm s) (ss_tx_buf s)) (s\<lparr>ss_sstp_timer := None\<rparr>) = Some (t, True)"
    by (auto simp: on_sstp_timer_def split: option.splits)
  from timed_dest(1) [OF assms(1)] w have "timer_of (sm_state (ss_ssm s)) = Some w" by simp
  from slot_result_timer [OF this] show ?thesis by (intro run_ssm_timed [OF _ _ r]) simp_all
qed

text \<open>The events in which the peer and the operator have no part.\<close>

fun local_event :: "driver_event \<Rightarrow> bool" where
  "local_event EvPppTimer = True"
| "local_event EvTunError = True"
| "local_event (EvTunPacket body) = True"
| "local_event (EvRekey request_peer) = True"
| "local_event _ = False"

lemma local_event_core:
  assumes "local_event ev" and "dispatch env ev s = Some (t, ok)"
  shows "core t = core s"
proof (cases ev)
  case (EvTunPacket body)
  with assms(2) show ?thesis
    by (auto simp: on_tun_packet_def bind_eq_Some_conv tls_flush_def split: if_splits option.splits
      dest!: write_ppp_core)
next
  case (EvRekey b)
  with assms(2) show ?thesis by (auto simp: on_rekey_def)
next
  case EvPppTimer
  with assms(2) show ?thesis
    by (auto simp: on_ppp_timer_event_def Let_def split: option.splits dest!: run_ppp_core)
qed (use assms in auto)

lemma dispatch_timed:
  assumes "timed s" and "dispatch env ev s = Some (t, True)"
  shows "timed t"
proof (cases "local_event ev")
  case True
  from local_event_core [OF this assms(2)] assms(1) timed_core show ?thesis by blast
next
  case False
  with assms show ?thesis
  proof (cases ev)
    case EvPeriodicTick
    with assms(2) obtain u where "hello_check env s = Some (u, True)" "t = acct_interim env u"
      by (auto simp: on_periodic_tick_def bind_eq_Some_conv split: if_splits)
    with hello_check_timed [OF assms(1)] timed_core core_acct_interim show ?thesis by blast
  next
    case (EvKmod evs)
    with assms on_kmod_events_timed [of "rx_activity s"] show ?thesis by simp
  next
    case (EvRead chunk)
    with assms read_loop_timed [of "rx_activity s"] show ?thesis
      by (auto simp: on_read_def split: if_splits)
  qed (auto intro: on_disconnect_timed on_sstp_timer_timed)
qed

lemma loop_top_core:
  assumes "loop_top env s = (t, ok)"
  shows "sm_state (ss_ssm t) = sm_state (ss_ssm s) \<and> snd (fst (core t)) = snd (fst (core s))
    \<and> snd (core t) = snd (core s)"
proof -
  have pol: "core (apply_policy u) = core u" for u
    by (auto simp: apply_policy_def split: option.split)
  have key: "sm_state (on_inner_auth_completed k sm) = sm_state sm" for k sm
    by (simp add: on_inner_auth_completed_def split: option.split)
  have pol_sm: "ss_ssm (apply_policy u) = ss_ssm u" for u using pol [of u] by (simp add: core_def)
  define u where "u = (case ss_pending_hlak s of
      Some key \<Rightarrow> s\<lparr>ss_pending_hlak := None, ss_ssm := on_inner_auth_completed (Some key) (ss_ssm s)\<rparr>
    | None \<Rightarrow> s)"
  have u: "sm_state (ss_ssm u) = sm_state (ss_ssm s)" "snd (fst (core u)) = snd (fst (core s))"
    "snd (core u) = snd (core s)"
    by (simp_all add: u_def key core_def split: option.split)
  have "t \<in> {apply_policy ((called u)\<lparr>ss_kmod_fd := True\<rparr>), called u, apply_policy u}"
    using assms unfolding loop_top_def u_def [symmetric] Let_def by (auto split: if_splits)
  then have "core t = core u" by (auto simp: pol)
  moreover from this have "ss_ssm t = ss_ssm u" by (simp add: core_def)
  ultimately show ?thesis using u by simp
qed

lemma session_round_alive:
  assumes "session_round env now ev s = Some (t, True)"
  obtains u where "dispatch env ev (s\<lparr>ss_now := now\<rparr>) = Some (u, True)" "loop_top env u = (t, True)"
  using assms by (auto simp: session_round_def dest!: session_top_running)

lemma loop_top_timed: "timed s \<Longrightarrow> loop_top env s = (t, ok) \<Longrightarrow> timed t"
  using loop_top_core [of env s t ok] by (simp add: timed_def due_def core_def)

lemma reach_timed:
  assumes "session_reach env h1 h2 s"
  shows "timed s"
  using assms
proof (induction rule: session_reach.induct)
  case (reach_start now r s)
  let ?s = "session_new env h1 h2 now"
  let ?sm = "transition ServerConnectRequestPending (ss_ssm ?s)"
  let ?out = "snd (on_https_accepted (ss_ssm ?s))"
  from session_top_running [OF reach_start(2)] have r: "r = (fst r, True)" "loop_top env (fst r) = (s, True)"
    by (cases r; simp)+
  have h: "handle_sstp_step env ?out (?s\<lparr>ss_ssm := ?sm\<rparr>) = Some (fst r, True)"
    using reach_start(1) r(1) by (simp add: drive_start_def Let_def on_https_accepted_def)
  have "timed (update_sstp_timer ?out (?s\<lparr>ss_ssm := ?sm\<rparr>))"
    by (simp add: timed_def due_def update_sstp_timer_def on_https_accepted_def session_new_def Let_def
      timer_slot_stop_def timer_val_defs)
  with handle_sstp_step_core [OF h] timed_core loop_top_timed [OF _ r(2)] show ?case by blast
next
  case (reach_round s now ev s')
  from session_round_alive [OF reach_round(5)] obtain u
    where u: "dispatch env ev (s\<lparr>ss_now := now\<rparr>) = Some (u, True)" "loop_top env u = (s', True)" .
  from loop_top_timed [OF dispatch_timed [OF timed_later [OF reach_round.IH reach_round(2)] u(1)] u(2)]
  show ?case .
qed

subsection \<open>The end of a silent session\<close>

text \<open>How many timers may still fire, and how many seconds they take, before the task returns.\<close>

fun fires_left :: "sstp_state \<Rightarrow> nat" where
  "fires_left ServerConnectRequestPending = 3"
| "fires_left ServerCallConnectedPending = 3"
| "fires_left CallAbortPending = 2"
| "fires_left _ = 1"

fun secs_left :: "sstp_state \<Rightarrow> nat" where
  "secs_left ServerConnectRequestPending = 64"
| "secs_left ServerCallConnectedPending = 64"
| "secs_left CallAbortPending = 4"
| "secs_left CallDisconnectAckPending = 5"
| "secs_left _ = 1"

lemma on_timer_progress:
  assumes "timer_of (sm_state sm) = Some w" and "on_timer w sm tx = Some (sm', tx', out)"
    and "so_terminate out = TerminateNone"
  shows "fires_left (sm_state sm') < fires_left (sm_state sm)
    \<and> secs_left (sm_state sm) = timer_val w + secs_left (sm_state sm')
    \<and> sm_state sm' \<noteq> ServerCallConnected"
  using assms by (cases "sm_state sm") (auto simp: start_abort_def bind_eq_Some_conv timer_val_defs)

lemma session_exit_now [simp]: "ss_now (session_exit env s) = ss_now s"
  by (simp add: session_exit_def kppp_drop_def mss_drop_def acct_stop_def Let_def log_effect_def called_def
    split: option.split prod.split)

lemma session_top_now: "session_top env r = (t, ok) \<Longrightarrow> ss_now t = ss_now (fst r)"
  using loop_top_core [of env "fst r"]
  by (cases r) (auto simp: session_top_def core_def split: prod.splits bool.splits if_splits)

text \<open>The clock is only read by the operations, on the way out as well.\<close>

lemma apply_step_now: "apply_step env out s = Some (t, oc) \<Longrightarrow> ss_now t = ss_now s"
  by (auto simp: apply_step_def send_step_def bind_eq_Some_conv update_sstp_timer_def tls_write_def tls_flush_def
    called_def log_effect_def Let_def split: if_splits prod.splits)

lemma handle_sstp_step_now: "handle_sstp_step env out s = Some (t, ok) \<Longrightarrow> ss_now t = ss_now s"
proof -
  assume h: "handle_sstp_step env out s = Some (t, ok)"
  then obtain u oc where u: "apply_step env out s = Some (u, oc)"
    by (auto simp: handle_sstp_step_def bind_eq_Some_conv)
  with h consider "t = u" | p step where
    "handle_ppp_step env step ((called u)\<lparr>ss_ppp := Some p\<rparr>) = Some (t, ok)"
    by (auto simp: handle_sstp_step_def bind_eq_Some_conv split: if_splits)
  then show ?thesis
  proof cases
    case (2 p step)
    from handle_ppp_step_core [OF this] apply_step_now [OF u] show ?thesis by (simp add: core_def called_def)
  qed (use apply_step_now [OF u] in simp)
qed

text \<open>One timer fires.\<close>

lemma timer_fires:
  assumes "env_wf env" and "session_reach env h1 h2 s" and "ss_sstp_timer s = Some (w, d)"
    and "d \<le> now" and "ss_now s \<le> now"
  shows "\<exists>t alive. session_round env now EvSstpTimer s = Some (t, alive) \<and> ss_now t = now
    \<and> (alive \<longrightarrow> session_reach env h1 h2 t \<and> sm_state (ss_ssm t) \<noteq> ServerCallConnected
        \<and> fires_left (sm_state (ss_ssm t)) < fires_left (sm_state (ss_ssm s))
        \<and> secs_left (sm_state (ss_ssm s)) = timer_val w + secs_left (sm_state (ss_ssm t)))"
proof -
  let ?s = "s\<lparr>ss_now := now\<rparr>"
  have en: "event_enabled ?s EvSstpTimer" using assms(3,4) by (simp add: deadline_reached_def)
  obtain t alive where t: "session_round env now EvSstpTimer s = Some (t, alive)"
    using reach_returns [OF assms(1,2) en] by auto
  from t obtain u ok where u: "on_sstp_timer env ?s = Some (u, ok)" "session_top env (u, ok) = (t, alive)"
    by (auto simp: session_round_def)
  from u(1) assms(3) obtain sm tx out where sm: "on_timer w (ss_ssm s) (ss_tx_buf s) = Some (sm, tx, out)"
    and h: "handle_sstp_step env out (?s\<lparr>ss_sstp_timer := None, ss_ssm := sm, ss_tx_buf := tx\<rparr>) = Some (u, ok)"
    by (auto simp: on_sstp_timer_def run_ssm_def split: option.splits)
  have now: "ss_now t = now" using handle_sstp_step_now [OF h] session_top_now [OF u(2)] by simp
  moreover have "session_reach env h1 h2 t \<and> sm_state (ss_ssm t) \<noteq> ServerCallConnected
      \<and> fires_left (sm_state (ss_ssm t)) < fires_left (sm_state (ss_ssm s))
      \<and> secs_left (sm_state (ss_ssm s)) = timer_val w + secs_left (sm_state (ss_ssm t))" if "alive"
  proof -
    from u(2) that session_top_running [of env "(u, ok)" t] have ok: "ok" "loop_top env u = (t, True)" by auto
    from handle_sstp_step_core [OF h [unfolded eqTrueI [OF ok(1)]]] have out: "so_terminate out = TerminateNone"
      and sm_u: "ss_ssm u = sm" by (simp_all add: core_def update_sstp_timer_def Let_def)
    have w: "timer_of (sm_state (ss_ssm s)) = Some w"
      using timed_dest(1) [OF reach_timed [OF assms(2)]] assms(3) by simp
    from on_timer_progress [OF w sm out] loop_top_core [OF ok(2)] sm_u
      reach_round [OF assms(2,5) en _ t [unfolded eqTrueI [OF that]]] show ?thesis by simp
  qed
  ultimately show ?thesis using t by blast
qed

text \<open>A silent peer: nothing but the SSTP timer fires, each time when it is due.\<close>

primrec silent :: "nat \<Rightarrow> session_env \<Rightarrow> session \<Rightarrow> (session \<times> bool) option" where
  "silent 0 env s = Some (s, True)"
| "silent (Suc n) env s =
     (case ss_sstp_timer s of
        None \<Rightarrow> Some (s, True)
      | Some (w, d) \<Rightarrow>
          (case session_round env (max d (ss_now s)) EvSstpTimer s of
             None \<Rightarrow> None
           | Some (t, alive) \<Rightarrow> if alive then silent n env t else Some (t, False)))"

lemma silent_ends:
  assumes "env_wf env" and "session_reach env h1 h2 s" and "sm_state (ss_ssm s) \<noteq> ServerCallConnected"
    and "fires_left (sm_state (ss_ssm s)) \<le> n"
  shows "\<exists>t. silent n env s = Some (t, False) \<and> ss_now t \<le> ss_now s + 1000 * secs_left (sm_state (ss_ssm s))"
  using assms(2-4)
proof (induction n arbitrary: s)
  case 0
  then show ?case by (cases "sm_state (ss_ssm s)") auto
next
  case (Suc n)
  note inv = reach_timed [OF Suc.prems(1)]
  from timed_dest(1,3) [OF inv] Suc.prems(2) obtain w d where w: "ss_sstp_timer s = Some (w, d)"
    "timer_of (sm_state (ss_ssm s)) = Some w"
    by (cases "sm_state (ss_ssm s)") auto
  let ?now = "max d (ss_now s)"
  from timed_dest(2) [OF inv] w(1) have due: "?now \<le> ss_now s + 1000 * timer_val w" by (simp add: due_def)
  have val: "timer_val w \<le> secs_left (sm_state (ss_ssm s))"
    using w(2) by (cases "sm_state (ss_ssm s)") (auto simp: timer_val_defs)
  obtain t alive where t: "session_round env ?now EvSstpTimer s = Some (t, alive)" "ss_now t = ?now"
    and more: "alive \<longrightarrow> session_reach env h1 h2 t \<and> sm_state (ss_ssm t) \<noteq> ServerCallConnected
        \<and> fires_left (sm_state (ss_ssm t)) < fires_left (sm_state (ss_ssm s))
        \<and> secs_left (sm_state (ss_ssm s)) = timer_val w + secs_left (sm_state (ss_ssm t))"
    using timer_fires [OF assms(1) Suc.prems(1) w(1), of ?now] by auto
  show ?case
  proof (cases alive)
    case True
    with more Suc.prems(3) obtain v where "silent n env t = Some (v, False)"
      "ss_now v \<le> ss_now t + 1000 * secs_left (sm_state (ss_ssm t))"
      using Suc.IH [of t] by auto
    with True more w t due show ?thesis by auto
  next
    case False
    with w t due val show ?thesis by simp
  qed
qed

text \<open>A dead peer: a tick finds the peer idle, sends an Echo-Request, and the second finds no answer.\<close>

lemma hello_check_dead:
  assumes "sm_state (ss_ssm s) = ServerCallConnected" and "120000 \<le> ss_now s - ss_last_rx s"
    and "ss_hello_echo_pending s" and "hello_check env s = Some (t, ok)"
  shows "\<not> ok"
proof
  assume ok
  with assms have "handle_sstp_step env (on_hello_timeout_no_response (ss_ssm s)) s = Some (t, True)"
    by (simp add: hello_check_def Let_def timer_val_defs)
  from handle_sstp_step_core [OF this] show False by (simp add: on_hello_timeout_no_response_def)
qed

lemma hello_check_idle:
  assumes "sm_state (ss_ssm s) = ServerCallConnected" and "60000 \<le> ss_now s - ss_last_rx s"
    and "hello_check env s = Some (t, True)"
  shows "sm_state (ss_ssm t) = ServerCallConnected \<and> ss_hello_echo_pending t \<and> ss_last_rx t = ss_last_rx s"
proof (cases "ss_hello_echo_pending s")
  case True
  then have "t = s" using assms hello_check_dead [OF assms(1) _ True assms(3)]
    by (auto simp: hello_check_def Let_def timer_val_defs split: if_splits)
  with True assms(1) show ?thesis by simp
next
  case False
  with assms have "run_ssm env (on_timer Hello (ss_ssm s) (ss_tx_buf s)) (s\<lparr>ss_hello_echo_pending := True\<rparr>) = Some (t, True)"
    by (simp add: hello_check_def Let_def timer_val_defs)
  then obtain tx out where
    h: "handle_sstp_step env out (s\<lparr>ss_hello_echo_pending := True, ss_tx_buf := tx\<rparr>) = Some (t, True)"
    using assms(1)
    by (auto simp: run_ssm_def on_hello_expired_def bind_eq_Some_conv split: option.splits)
  from handle_sstp_step_core [OF h] have "core t = core (update_sstp_timer out (s\<lparr>ss_hello_echo_pending := True, ss_tx_buf := tx\<rparr>))"
    by simp
  then show ?thesis using assms(1) by (simp add: core_def update_sstp_timer_def Let_def)
qed

lemma dead_peer_ends:
  assumes "env_wf env" and "session_reach env h1 h2 s" and "sm_state (ss_ssm s) = ServerCallConnected"
    and "ss_last_rx s + 60000 \<le> t1" and "ss_last_rx s + 120000 \<le> t2" and "ss_now s \<le> t1" and "t1 \<le> t2"
  shows "\<exists>t. drive env [(t1, EvPeriodicTick), (t2, EvPeriodicTick)] (s, True) = Some (t, False)"
proof -
  obtain u ok where u: "session_round env t1 EvPeriodicTick s = Some (u, ok)"
    using reach_returns [OF assms(1,2), of t1 EvPeriodicTick] by auto
  show ?thesis
  proof (cases ok)
    case False
    with u show ?thesis by simp
  next
    case True
    from session_round_alive [OF u [unfolded eqTrueI [OF True]]] obtain v where
      v: "on_periodic_tick env (s\<lparr>ss_now := t1\<rparr>) = Some (v, True)" "loop_top env v = (u, True)" by auto
    then obtain w where w: "hello_check env (s\<lparr>ss_now := t1\<rparr>) = Some (w, True)" "v = acct_interim env w"
      by (auto simp: on_periodic_tick_def bind_eq_Some_conv split: if_splits)
    have "core v = core w" "60000 \<le> t1 - ss_last_rx s" using w(2) assms(4) by simp_all
    with hello_check_idle [OF _ _ w(1)] assms(3) loop_top_core [OF v(2)]
    have conn: "sm_state (ss_ssm u) = ServerCallConnected" "ss_hello_echo_pending u" "ss_last_rx u = ss_last_rx s"
      by (simp_all add: core_def)
    have reach: "session_reach env h1 h2 u"
      using reach_round [OF assms(2,6) _ _ u [unfolded eqTrueI [OF True]]] by simp
    obtain x ok2 where x: "session_round env t2 EvPeriodicTick u = Some (x, ok2)"
      using reach_returns [OF assms(1) reach, of t2 EvPeriodicTick] by auto
    have "\<not> ok2"
    proof
      assume "ok2"
      from session_round_alive [OF x [unfolded eqTrueI [OF this]]] obtain y where
        "on_periodic_tick env (u\<lparr>ss_now := t2\<rparr>) = Some (y, True)" by auto
      then obtain z where "hello_check env (u\<lparr>ss_now := t2\<rparr>) = Some (z, True)"
        by (auto simp: on_periodic_tick_def bind_eq_Some_conv split: if_splits)
      moreover have "120000 \<le> t2 - ss_last_rx s" using assms(5) by simp
      ultimately show False using hello_check_dead [of "u\<lparr>ss_now := t2\<rparr>" env z True] conn by simp
    qed
    with u True x show ?thesis by simp
  qed
qed

subsection \<open>The properties\<close>



end
