(* ===== verification/Session_Login.thy ===== *)
theory Session_Login
  imports Session_Timers
begin

text \<open>
  A complete login, from the Call-Connect-Request to the first IP packet and the end of the
  session, in an environment in which every call succeeds.  The lemmas follow the driver through
  the task for an arbitrary such environment; the run at the end is the concrete input at which
  the properties of the session are instantiated.
\<close>

subsection \<open>An environment in which calls succeed\<close>

definition cooperative :: "session_env \<Rightarrow> bool" where
  "cooperative env \<longleftrightarrow> (\<forall>n. env_ok env n)"

text \<open>What operations that only write leave as it is.\<close>

definition same :: "session \<Rightarrow> session \<Rightarrow> bool" where
  "same s t \<longleftrightarrow> ss_ppp t = ss_ppp s \<and> ss_kppp t = ss_kppp s \<and> ss_rx_buf t = ss_rx_buf s
     \<and> ss_kmod_fd t = ss_kmod_fd s \<and> ss_pending_hlak t = ss_pending_hlak s \<and> ss_ssm t = ss_ssm s
     \<and> ss_now t = ss_now s \<and> ss_pending_username t = ss_pending_username s
     \<and> (\<exists>es. ss_log t = ss_log s @ es)"

lemma same_trans: "same s t \<Longrightarrow> same t u \<Longrightarrow> same s u"
  by (auto simp: same_def)

lemma same_refl [simp]: "same s s" "same s (s\<lparr>ss_tx_buf := tx\<rparr>)"
  by (simp_all add: same_def)

lemma same_called [simp]: "same s (called t) = same s t" "same s t \<Longrightarrow> same s (log_effect e t)"
  by (auto simp: same_def called_def log_effect_def)

lemma write_frames_same:
  assumes "cooperative env" and "write_frames env fs s = Some (t, ok)"
  shows "ok \<and> same s t"
  using assms(2)
proof (induction fs arbitrary: s)
  case (Cons f fs)
  then obtain u b where u: "write_ppp_as_sstp_data env f s = Some (u, b)"
    and r: "if b then write_frames env fs u = Some (t, ok) else t = u \<and> \<not> ok"
    by (auto simp: bind_eq_Some_conv split: if_splits)
  have "b \<and> same s u"
    using u assms(1)
    by (auto simp: write_ppp_as_sstp_data_def tls_write_def cooperative_def Let_def same_def called_def log_effect_def
      split: if_splits)
  with r Cons.IH [of u] same_trans show ?case by auto
qed simp

lemma render_same:
  assumes "cooperative env" and "render_ppp_step env step s = Some (t, ok)"
  shows "ok \<and> same s t"
proof -
  from assms(2) obtain u b where u: "write_frames env (ps_frames step) s = Some (u, b)"
    by (auto simp: render_ppp_step_def bind_eq_Some_conv)
  from write_frames_same [OF assms(1) u] have b: "b" "same s u" by simp_all
  with assms u show ?thesis
    by (auto simp: render_ppp_step_def tls_flush_def cooperative_def update_ppp_timer_def same_def called_def Let_def
      split: if_splits)
qed

text \<open>A step of the driver without an event.\<close>

lemma handle_quiet:
  assumes "cooperative env" and "ps_event step = None" and "\<not> ps_finished step"
    and "handle_ppp_step env step s = Some (t, ok)"
  shows "ok \<and> same s t"
proof -
  from assms(4) obtain u b where u: "render_ppp_step env step s = Some (u, b)"
    by (auto simp: handle_ppp_step.simps [of env step s] bind_eq_Some_conv)
  from render_same [OF assms(1) u] assms u show ?thesis
    by (auto simp: handle_ppp_step.simps [of env step s])
qed

subsection \<open>The session follows the driver\<close>

text \<open>The task waits for a packet with the driver in state \<open>p\<close> and no device yet.\<close>

definition follows :: "ppp \<Rightarrow> session \<Rightarrow> bool" where
  "follows p s \<longleftrightarrow> ss_ppp s = Some p \<and> ss_kppp s = None \<and> ss_rx_buf s = [] \<and> \<not> ss_kmod_fd s
     \<and> ss_pending_hlak s = None \<and> sm_state (ss_ssm s) = ServerCallConnectedPending"

lemma follows_same: "follows p s \<Longrightarrow> same s t \<Longrightarrow> follows p t"
  by (simp add: follows_def same_def)

lemma follows_top: "follows p s \<Longrightarrow> session_top env (s, True) = (s, True)"
  by (simp add: follows_def session_top_def loop_top_def apply_policy_def Let_def)

lemma read_loop_done: "read_loop env [] s = Some (s\<lparr>ss_rx_buf := []\<rparr>, True)"
  by (subst read_loop.simps) (simp add: packet_parse_def wire_defs)

text \<open>Reading one data packet with a frame that is not for the network layer.\<close>

lemma read_frame_parts:
  assumes "follows p s" and "packet_parse buf = Inr (Data f, length buf)" and "buf \<noteq> []"
    and "np_route f (rx_activity (s\<lparr>ss_now := now\<rparr>)) = Some (rx_activity (s\<lparr>ss_now := now\<rparr>), False)"
    and "cooperative env" and "session_round env now (EvRead buf) s = Some r"
  obtains u ok where "run_ppp env (on_frame (env_challenge env (ss_calls s)) p f) (rx_activity (s\<lparr>ss_now := now\<rparr>)) = Some (u, ok)"
    and "r = session_top env (if ok then (u\<lparr>ss_rx_buf := []\<rparr>, True) else (u, False))"
proof -
  let ?s = "rx_activity (s\<lparr>ss_now := now\<rparr>)"
  have s: "ss_rx_buf ?s = []" "ss_ppp ?s = Some p" "sm_state (ss_ssm ?s) \<noteq> ServerCallConnected"
    "ss_calls ?s = ss_calls s"
    using assms(1) by (simp_all add: follows_def rx_activity_def)
  from assms(6) s(1) assms(3) obtain q where q: "read_loop env buf ?s = Some q" "r = session_top env q"
    using assms(1) by (auto simp: session_round_def on_read_def follows_def)
  obtain t b where tb: "q = (t, b)" by (cases q)
  from read_loop_data [OF assms(2) q(1) [unfolded tb]] obtain u ok where
    u: "on_data env f ?s = Some (u, ok)" "if ok then read_loop env (drop (length buf) buf) u = Some (t, b) else t = u \<and> \<not> b" .
  have "update_sstp_timer step_out_new ?s = ?s"
    by (simp add: update_sstp_timer_def timer_slot_stop_def)
  then have "handle_sstp_step env (on_data_packet (ss_ssm ?s)) ?s = Some (?s, True)"
    using s(3) by (simp add: handle_sstp_step_def apply_step_def send_step_def on_data_packet_def Let_def)
  then have "run_ppp env (on_frame (env_challenge env (ss_calls s)) p f) ?s = Some (u, ok)"
    using u(1) assms(4) s by (simp add: on_data_def)
  moreover have "(t, b) = (if ok then (u\<lparr>ss_rx_buf := []\<rparr>, True) else (u, False))"
    using u(2) by (auto simp: read_loop_done split: if_splits)
  ultimately show ?thesis using that q(2) tb by simp
qed

lemma follow_frame:
  assumes "follows p s" and "packet_parse buf = Inr (Data f, length buf)" and "buf \<noteq> []"
    and "np_route f (rx_activity (s\<lparr>ss_now := now\<rparr>)) = Some (rx_activity (s\<lparr>ss_now := now\<rparr>), False)"
    and "cooperative env" and "session_round env now (EvRead buf) s = Some r"
    and "on_frame (env_challenge env (ss_calls s)) p f = Some (p', step)"
    and "ps_event step = None" and "\<not> ps_finished step"
  shows "\<exists>t. r = (t, True) \<and> follows p' t \<and> ss_pending_username t = ss_pending_username s
    \<and> (\<exists>es. ss_log t = ss_log s @ es)"
proof -
  let ?s = "rx_activity (s\<lparr>ss_now := now\<rparr>)"
  let ?t = "(called ?s)\<lparr>ss_ppp := Some p'\<rparr>"
  from read_frame_parts [OF assms(1-6)] obtain u ok where
    u: "run_ppp env (on_frame (env_challenge env (ss_calls s)) p f) ?s = Some (u, ok)"
    "r = session_top env (if ok then (u\<lparr>ss_rx_buf := []\<rparr>, True) else (u, False))" by blast
  from u(1) assms(7) have "handle_ppp_step env step ?t = Some (u, ok)" by (simp add: run_ppp_def)
  from handle_quiet [OF assms(5,8,9) this] have ok: "ok" "same ?t u" by simp_all
  have f: "follows p' ?t" "ss_log ?t = ss_log s" "ss_pending_username ?t = ss_pending_username s"
    using assms(1) by (simp_all add: follows_def rx_activity_def called_def)
  have "follows p' (u\<lparr>ss_rx_buf := []\<rparr>)" using follows_same [OF f(1) ok(2)] by (simp add: follows_def)
  from follows_top [OF this] u(2) this ok f(2,3) show ?thesis by (auto simp: same_def)
qed

text \<open>The frame with the credentials, accepted by RADIUS.\<close>

lemma follow_pap:
  assumes "follows p s" and "packet_parse buf = Inr (Data f, length buf)" and "buf \<noteq> []"
    and "np_route f (rx_activity (s\<lparr>ss_now := now\<rparr>)) = Some (rx_activity (s\<lparr>ss_now := now\<rparr>), False)"
    and "cooperative env" and "session_round env now (EvRead buf) s = Some r"
    and "on_frame (env_challenge env (ss_calls s)) p f = Some (p1, step1)"
    and "ps_event step1 = Some (NeedPapAuth user pw)"
    and "\<And>n. ao_verdict (env_pap env n (from_utf8_lossy user) pw) = Accept a"
    and "\<And>n. \<exists>step2. on_auth_result (env_challenge env n) p1 (Accept a) = Some (p2, step2)
      \<and> ps_event step2 = None \<and> \<not> ps_finished step2"
  shows "\<exists>t. r = (t, True) \<and> follows p2 t \<and> ss_pending_username t = Some (from_utf8_lossy user)
    \<and> (\<exists>es. ss_log t = ss_log s @ es)"
proof -
  let ?s = "rx_activity (s\<lparr>ss_now := now\<rparr>)"
  let ?t = "(called ?s)\<lparr>ss_ppp := Some p1\<rparr>"
  from read_frame_parts [OF assms(1-6)] obtain u ok where
    u: "run_ppp env (on_frame (env_challenge env (ss_calls s)) p f) ?s = Some (u, ok)"
    "r = session_top env (if ok then (u\<lparr>ss_rx_buf := []\<rparr>, True) else (u, False))" by blast
  from u(1) assms(7) have h: "handle_ppp_step env step1 ?t = Some (u, ok)" by (simp add: run_ppp_def)
  then obtain v b where v: "render_ppp_step env step1 ?t = Some (v, b)"
    by (auto simp: handle_ppp_step.simps [of env step1] bind_eq_Some_conv)
  from render_same [OF assms(5) v] have b: "b" "same ?t v" by simp_all
  then have vp: "ss_ppp v = Some p1" by (simp add: same_def)
  with h v b assms(8) obtain w step2 where w: "submit_auth env (NeedPapAuth user pw) p1 v = Some (w, step2)"
    "handle_ppp_step env step2 w = Some (u, ok)"
    by (auto simp: handle_ppp_step.simps [of env step1] bind_eq_Some_conv)
  from assms(10) [of "ss_calls v"] assms(9) w(1)
  have step2: "ps_event step2 = None" "\<not> ps_finished step2"
    and wp: "ss_ppp w = Some p2" "ss_pending_username w = Some (from_utf8_lossy user)"
    by (auto simp: submit_auth_def submit_pap_def stash_accept_def Let_def)
  have f: "follows p2 w \<and> (\<exists>es. ss_log w = ss_log s @ es)"
    using w(1) assms(9) b(2) assms(1) wp(1)
    by (auto simp: submit_auth_def submit_pap_def stash_accept_def Let_def follows_def same_def called_def
      log_effect_def rx_activity_def split: option.splits)
  from handle_quiet [OF assms(5) step2 w(2)] have ok: "ok" "same w u" by simp_all
  have "follows p2 (u\<lparr>ss_rx_buf := []\<rparr>)" using follows_same [OF _ ok(2)] f by (simp add: follows_def)
  from follows_top [OF this] u(2) this ok f wp(2) show ?thesis by (auto simp: same_def)
qed

text \<open>The frame that completes IPCP: the device comes up.\<close>

definition device_up :: "kppp \<Rightarrow> session \<Rightarrow> bool" where
  "device_up k s \<longleftrightarrow> ss_kppp s = Some k \<and> \<not> kp_kernel k \<and> ss_rx_buf s = [] \<and> \<not> ss_kmod_fd s
     \<and> ss_pending_hlak s = None \<and> sm_state (ss_ssm s) = ServerCallConnectedPending"

lemma same_setup:
  assumes "same s t"
  shows "same s (apply_shaping env k t)" "same s (apply_mss env m k t)" "same s (apply_routes env k t)"
    "same s (t\<lparr>ss_info := g\<rparr>)"
proof -
  have att: "same s (attempt env e u)" if "same s u" for e u
    using that by (simp add: attempt_def)
  have upd: "same s (u\<lparr>ss_pending_shaping := x\<rparr>) = same s u" "same s (u\<lparr>ss_mss_handle := y\<rparr>) = same s u" for u x y
    by (simp_all add: same_def)
  have "same s (fold (\<lambda>r. attempt env (f r)) rs u)" if "same s u" for f u and rs :: "framed_route list"
    using that by (induction rs arbitrary: u) (simp_all add: att)
  with assms att show "same s (apply_routes env k t)" by (simp add: apply_routes_def split: option.split)
  show "same s (apply_shaping env k t)" "same s (apply_mss env m k t)" "same s (t\<lparr>ss_info := g\<rparr>)"
    using assms by (simp_all add: apply_shaping_def apply_mss_def att upd Let_def split: option.split)
      (simp add: same_def)
qed

lemma network_up_tun:
  assumes "ss_kppp s = None" and "env_data_path env = DpTun" and "\<And>n. env_tun env n = Some (name, i)"
  shows "\<exists>t. same s t \<and> network_up env a s =
    (let k = \<lparr>kp_kernel = False, kp_ifname = name, kp_ifindex = i, kp_mtu = effective_mtu (map_option unat (aa_mtu a))\<rparr> in
      (acct_start env k (aa_ip a) (t\<lparr>ss_kppp := Some k\<rparr>), True))"
  using assms
  by (auto simp: network_up_def choose_data_path_def kppp_bring_up_def bring_up_tun_def Let_def
    intro!: exI conjI same_setup same_called(2))

lemma follow_up:
  assumes "follows p s" and "packet_parse buf = Inr (Data f, length buf)" and "buf \<noteq> []"
    and "np_route f (rx_activity (s\<lparr>ss_now := now\<rparr>)) = Some (rx_activity (s\<lparr>ss_now := now\<rparr>), False)"
    and "cooperative env" and "session_round env now (EvRead buf) s = Some r"
    and "on_frame (env_challenge env (ss_calls s)) p f = Some (p1, step1)"
    and "ps_event step1 = Some (NetworkUp a)" and "\<not> ps_finished step1"
    and "env_data_path env = DpTun" and "\<And>n. env_tun env n = Some (name, i)"
    and "env_acct env" and "ss_pending_username s = Some user"
  shows "\<exists>k t. r = (t, True) \<and> device_up k t \<and> kp_mtu k = effective_mtu (map_option unat (aa_mtu a))
    \<and> (\<exists>es sess c. ss_log t = ss_log s @ es @ [EffAcct user sess AcctStart c])"
proof -
  let ?s = "rx_activity (s\<lparr>ss_now := now\<rparr>)"
  let ?t = "(called ?s)\<lparr>ss_ppp := Some p1\<rparr>"
  let ?k = "\<lparr>kp_kernel = False, kp_ifname = name, kp_ifindex = i, kp_mtu = effective_mtu (map_option unat (aa_mtu a))\<rparr>"
  from read_frame_parts [OF assms(1-6)] obtain u ok where
    u: "run_ppp env (on_frame (env_challenge env (ss_calls s)) p f) ?s = Some (u, ok)"
    "r = session_top env (if ok then (u\<lparr>ss_rx_buf := []\<rparr>, True) else (u, False))" by blast
  from u(1) assms(7) have h: "handle_ppp_step env step1 ?t = Some (u, ok)" by (simp add: run_ppp_def)
  then obtain v b where v: "render_ppp_step env step1 ?t = Some (v, b)"
    by (auto simp: handle_ppp_step.simps [of env step1] bind_eq_Some_conv)
  from render_same [OF assms(5) v] have b: "b" "same ?t v" by simp_all
  obtain w up where w: "network_up env a v = (w, up)" by fastforce
  with h v b assms(8,9) have uw: "u = w" "ok = up"
    by (auto simp: handle_ppp_step.simps [of env step1] bind_eq_Some_conv)
  have "ss_kppp v = None" using b(2) assms(1) by (simp add: same_def follows_def called_def rx_activity_def)
  from network_up_tun [OF this assms(10,11), of a] w obtain x where x: "same v x" "up"
    and wx: "w = acct_start env ?k (aa_ip a) (x\<lparr>ss_kppp := Some ?k\<rparr>)"
    by (auto simp: Let_def)
  have user: "ss_pending_username x = Some user" using x(1) b(2) assms(13) by (simp add: same_def called_def rx_activity_def)
  from same_trans [OF b(2) x(1)] obtain es where es: "ss_log x = ss_log s @ es"
    and f: "ss_rx_buf x = []" "\<not> ss_kmod_fd x" "ss_pending_hlak x = None" "sm_state (ss_ssm x) = ServerCallConnectedPending"
    using assms(1) by (auto simp: same_def follows_def called_def rx_activity_def)
  obtain sess c where log: "ss_log w = ss_log x @ [EffAcct user sess AcctStart c]"
    using user assms(12) by (simp add: wx acct_start_def Let_def log_effect_def called_def)
  have up: "device_up ?k w"
    using f by (simp_all add: wx device_up_def acct_start_def Let_def log_effect_def called_def split: option.split)
  let ?w = "apply_policy (w\<lparr>ss_rx_buf := []\<rparr>)"
  have "r = (?w, True)"
    using u(2) uw x(2) up by (simp add: session_top_def loop_top_def device_up_def)
  moreover have "device_up ?k ?w" "ss_log ?w = ss_log w"
    using up by (simp_all add: device_up_def apply_policy_def split: option.split)
  ultimately show ?thesis using log es by auto
qed

text \<open>Later, an IP packet reaches the device.\<close>

lemma follow_ip:
  assumes "device_up k s" and "packet_parse buf = Inr (Data f, length buf)" and "buf \<noteq> []"
    and "decode_frame f = Inr fr" and "protocol_from_u16 (pf_protocol fr) = Some PidIp"
    and "length (pf_info fr) \<le> kp_mtu k" and "session_round env now (EvRead buf) s = Some r"
  shows "\<exists>t. r = (t, True) \<and> device_up k t \<and> ss_log t = ss_log s @ [EffTun (pf_info fr)]"
proof -
  let ?s = "rx_activity (s\<lparr>ss_now := now\<rparr>)"
  let ?u = "called (log_effect (EffTun (pf_info fr)) ?s)"
  have s: "ss_rx_buf ?s = []" "ss_kppp ?s = Some k" "\<not> kp_kernel k" "sm_state (ss_ssm ?s) \<noteq> ServerCallConnected"
    using assms(1) by (simp_all add: device_up_def rx_activity_def)
  have "update_sstp_timer step_out_new ?s = ?s"
    by (simp add: update_sstp_timer_def timer_slot_stop_def)
  then have "handle_sstp_step env (on_data_packet (ss_ssm ?s)) ?s = Some (?s, True)"
    using s(4) by (simp add: handle_sstp_step_def apply_step_def send_step_def on_data_packet_def Let_def)
  then have d: "on_data env f ?s = Some (?u, True)"
    using s assms(4-6) by (simp add: on_data_def np_route_def np_filter_decide_def)
  from assms(7) s(1) assms(3) obtain q where q: "read_loop env buf ?s = Some q" "r = session_top env q"
    using assms(1) by (auto simp: session_round_def on_read_def device_up_def)
  obtain t b where tb: "q = (t, b)" by (cases q)
  from read_loop_data [OF assms(2) q(1) [unfolded tb]] d
  have t: "t = ?u\<lparr>ss_rx_buf := []\<rparr>" "b" by (auto simp: read_loop_done)
  have fields: "device_up k t" "ss_log t = ss_log s @ [EffTun (pf_info fr)]"
    using assms(1) by (simp_all add: t device_up_def called_def log_effect_def rx_activity_def)
  then have "r = (apply_policy t, True)"
    using q(2) tb t(2) by (simp add: session_top_def loop_top_def device_up_def)
  moreover have "device_up k (apply_policy t)" "ss_log (apply_policy t) = ss_log t"
    using fields(1) by (simp_all add: device_up_def apply_policy_def split: option.split)
  ultimately show ?thesis using fields(2) by simp
qed

subsection \<open>The login\<close>

definition login_env :: session_env where
  "login_env =
     \<lparr>env_id = 7, env_local_ip = [10, 0, 0, 1], env_auth_method = AmPap, env_data_path = DpTun,
      env_acct = True, env_crypto = toy_lib, env_ktls_compatible = False, env_tls_version = ''TLSv1.3'',
      env_cipher = ''TLS_AES_128_GCM_SHA256'', env_mss_table = True, env_ok = (\<lambda>_. True),
      env_nonce = (\<lambda>_. replicate 32 0), env_challenge = (\<lambda>_. replicate 16 0),
      env_pap = (\<lambda>_ user password. \<lparr>ao_verdict = Accept sample_addrs, ao_shaping = None,
                                     ao_policy = session_policy_default\<rparr>),
      env_chap = (\<lambda>_ _ _ _ _. bridge_reject []), env_mschap = (\<lambda>_ _ _ _ _ _ _. mschap_reject []),
      env_install_ktls = (\<lambda>_. KtlsFailed), env_tun = (\<lambda>_. Some (''tun0'', 5)),
      env_ppp_unit = (\<lambda>_. None), env_send_control = (\<lambda>_. ([], True)),
      env_recv_control = (\<lambda>_. None), env_stats = (\<lambda>_. None), env_nanos = (\<lambda>_. 1)\<rparr>"

lemma login_env_wf: "env_wf login_env" and login_env_cooperative: "cooperative login_env"
  by (simp_all add: login_env_def env_wf_def cooperative_def)

definition call_connect_request :: bytes where
  "call_connect_request = [0x10, 1, 0, 14, 0, 1, 0, 1, 0, 1, 0, 6, 0, 1]"

definition data_packet :: "bytes \<Rightarrow> bytes" where
  "data_packet f = [0x10, 0] @ be16 (word_of_nat (4 + length f)) @ f"

definition lcp_ack :: bytes where "lcp_ack = [0xFF, 3, 0xC0, 0x21, 2, 1, 0, 4]"
definition lcp_request :: bytes where "lcp_request = [0xFF, 3, 0xC0, 0x21, 1, 7, 0, 4]"
definition pap_request :: bytes where
  "pap_request = [0xFF, 3, 0xC0, 0x23, 1, 9, 0, 8, 1, 0x61, 1, 0x62]"
definition ipcp_ack :: bytes where "ipcp_ack = [0xFF, 3, 0x80, 0x21, 2, 1, 0, 4]"
definition ipcp_request :: bytes where "ipcp_request = [0xFF, 3, 0x80, 0x21, 1, 5, 0, 4]"
definition ip_packet :: bytes where "ip_packet = [0xFF, 3, 0, 0x21, 0x45]"

lemmas login_frames = lcp_ack_def lcp_request_def pap_request_def ipcp_ack_def ipcp_request_def ip_packet_def

definition login_events :: "(nat \<times> driver_event) list" where
  "login_events = map (\<lambda>f. (0, EvRead f))
     [call_connect_request, data_packet lcp_ack, data_packet lcp_request, data_packet pap_request,
      data_packet ipcp_ack, data_packet ipcp_request, data_packet ip_packet]"

text \<open>The driver through the login.\<close>

definition quiet :: "ppp_step \<Rightarrow> bool" where
  "quiet st \<longleftrightarrow> ps_event st = None \<and> \<not> ps_finished st"

lemma login_driver:
  "\<exists>p0 st0 p1 st1 p2 st2 p3 st3 p4 st4 p5 st5 p6 st6.
     ppp_open (replicate 16 0) (ppp_new [10, 0, 0, 1] AmPap) = Some (p0, st0) \<and> quiet st0
   \<and> on_frame (replicate 16 0) p0 lcp_ack = Some (p1, st1) \<and> quiet st1
   \<and> on_frame (replicate 16 0) p1 lcp_request = Some (p2, st2) \<and> quiet st2
   \<and> on_frame (replicate 16 0) p2 pap_request = Some (p3, st3) \<and> ps_event st3 = Some (NeedPapAuth [0x61] [0x62])
   \<and> on_auth_result (replicate 16 0) p3 (Accept sample_addrs) = Some (p4, st4) \<and> quiet st4
   \<and> on_frame (replicate 16 0) p4 ipcp_ack = Some (p5, st5) \<and> quiet st5
   \<and> on_frame (replicate 16 0) p5 ipcp_request = Some (p6, st6) \<and> ps_event st6 = Some (NetworkUp sample_addrs)
   \<and> \<not> ps_finished st6"
proof -
  obtain body where b: "pap_encode_response (replicate 16 0) PapAuthenticateAck 9 [] = Some body"
    using pap_response_total [of PapAuthenticateAck "[]" 9] by auto
  obtain frame where f: "encode_pap_frame (truncated body) = Some frame"
    using encode_auth_frames_total(1) by (metis not_None_eq)
  show ?thesis
    by (simp add: login_frames quiet_def decode_eval fsm_eval negotiation_eval driver_eval Let_def b f
      del: replicate.simps)
qed

text \<open>The packets of the login.\<close>

lemma data_packet_parse:
  assumes "length f < 4000"
  shows "packet_parse (data_packet f) = Inr (Data f, length (data_packet f))"
    and "length f \<le> PEER_FRAME_MAX \<Longrightarrow> packets_small (data_packet f)"
proof -
  obtain a b where ab: "be16 (word_of_nat (4 + length f)) = [a, b]" using be16_split by blast
  have "from_be16 a b = word_of_nat (4 + length f)"
    using from_be16_be16 [of "word_of_nat (4 + length f)", unfolded ab] by simp
  moreover have "4 + length f < 65536" using assms by simp
  ultimately have "unat (from_be16 a b) = 4 + length f" by (simp only: unat_of_nat_u16)
  then show p: "packet_parse (data_packet f) = Inr (Data f, length (data_packet f))"
    using assms by (simp add: data_packet_def ab [simplified] packet_parse_Cons4 nat_and_4095)
  show "packets_small (data_packet f)" if "length f \<le> PEER_FRAME_MAX"
    using that p
    by (simp add: packets_small.simps [of "data_packet f"] packets_small.simps [of "[]"] packet_parse_def wire_defs)
qed

lemma np_route_control:
  assumes "decode_frame f = Inr fr" and "protocol_from_u16 (pf_protocol fr) = Some pr" and "\<not> is_network_layer pr"
  shows "np_route f s = Some (s, False)"
  using assms by (simp add: np_route_def np_filter_decide_def Let_def)

lemma login_routes:
  "np_route lcp_ack s = Some (s, False)" "np_route lcp_request s = Some (s, False)"
  "np_route pap_request s = Some (s, False)" "np_route ipcp_ack s = Some (s, False)"
  "np_route ipcp_request s = Some (s, False)"
  "decode_frame ip_packet = Inr \<lparr>pf_protocol = 0x21, pf_info = [0x45]\<rparr>"
  by (simp_all add: login_frames np_route_def np_filter_decide_def decode_eval protocol_from_u16_def Let_def)

lemma call_connect_request_parse:
  "packet_parse call_connect_request =
     Inr (Control \<lparr>cp_msg_type = MtCallConnectRequest, cp_num_attrs = 1, cp_attrs = [0, 1, 0, 6, 0, 1]\<rparr>,
          length call_connect_request)"
  "parse_control \<lparr>cp_msg_type = MtCallConnectRequest, cp_num_attrs = 1, cp_attrs = [0, 1, 0, 6, 0, 1]\<rparr> =
     Inr (CmCallConnectRequest 1)"
  "packets_small call_connect_request"
proof -
  show p: "packet_parse call_connect_request =
     Inr (Control \<lparr>cp_msg_type = MtCallConnectRequest, cp_num_attrs = 1, cp_attrs = [0, 1, 0, 6, 0, 1]\<rparr>,
          length call_connect_request)"
    by (simp add: call_connect_request_def packet_parse_Cons4 unat_from_be16 nat_and_4095 parse_body_def
      wire_defs from_be16_def message_type_from_u16_def Let_def)
  show "packets_small call_connect_request"
    by (simp add: packets_small.simps [of call_connect_request] p)
      (simp add: packets_small.simps [of "[]"] packet_parse_def wire_defs)
qed (simp add: parse_control_def attr_next_Cons4 unat_from_be16 nat_and_4095 attribute_id_from_u8_def
  as_encapsulated_protocol_def attr_next_def from_be16_def slice_def wire_defs Let_def)

text \<open>The Call-Connect-Request is answered, and PPP starts.\<close>

definition fresh :: "session \<Rightarrow> bool" where
  "fresh s \<longleftrightarrow> ss_ppp s = None \<and> ss_kppp s = None \<and> ss_rx_buf s = [] \<and> \<not> ss_kmod_fd s
     \<and> ss_pending_hlak s = None \<and> sm_state (ss_ssm s) = ServerConnectRequestPending"

lemma send_step_same:
  assumes "cooperative env" and "ss_kppp s = None" and "send_step env n s = Some (t, ok)"
  shows "ok \<and> same s t"
  using assms
  by (auto simp: send_step_def tls_write_def tls_flush_def cooperative_def split: if_splits)

lemma follow_connect:
  assumes "fresh s" and "cooperative env"
    and "session_round env now (EvRead call_connect_request) s = Some r"
    and "\<And>n. ppp_open (env_challenge env n) (ppp_new (env_local_ip env) (env_auth_method env)) = Some (p0, st0)"
    and "quiet st0"
  shows "\<exists>t. r = (t, True) \<and> follows p0 t"
proof -
  let ?s = "rx_activity (s\<lparr>ss_now := now\<rparr>)"
  have s: "fresh ?s" using assms(1) by (simp add: fresh_def rx_activity_def)
  have "ss_rx_buf s = []" using assms(1) by (simp add: fresh_def)
  with assms(3) obtain t b where q: "read_loop env call_connect_request ?s = Some (t, b)" "r = session_top env (t, b)"
    by (auto simp: session_round_def on_read_def call_connect_request_def)
  from read_loop_control [OF call_connect_request_parse(1) q(1) call_connect_request_parse(2)] obtain u ok where
    u: "on_control_message env call_connect_request (CmCallConnectRequest 1) ?s = Some (u, ok)"
      "if ok then read_loop env (drop (length call_connect_request) call_connect_request) u = Some (t, b) else t = u \<and> \<not> b" .
  from u(1) s obtain sm tx n where
    h: "handle_sstp_step env (step_out_new\<lparr>so_send_len := n, so_notify := Some StartPpp\<rparr>)
          ((called ?s)\<lparr>ss_ssm := sm, ss_tx_buf := tx\<rparr>) = Some (u, ok)" "sm_state sm = ServerCallConnectedPending"
    by (auto simp: on_control_message_def run_ssm_def on_call_connect_request_def is_in_terminal_drain_def fresh_def
      SSTP_ENCAPSULATED_PROTOCOL_PPP_def Let_def bind_eq_Some_conv split: option.splits)
  let ?o = "step_out_new\<lparr>so_send_len := n, so_notify := Some StartPpp\<rparr>"
  let ?v = "(called ?s)\<lparr>ss_ssm := sm, ss_tx_buf := tx\<rparr>"
  have v: "ss_kppp ?v = None" "ss_ppp ?v = None" using s by (simp_all add: fresh_def called_def)
  from h(1) obtain w wk where w: "send_step env n ?v = Some (w, wk)"
    by (auto simp: handle_sstp_step_def apply_step_def bind_eq_Some_conv)
  from send_step_same [OF assms(2) v(1) w] have wk: "wk" "same ?v w" by simp_all
  have upd: "update_sstp_timer ?o w = w" by (simp add: update_sstp_timer_def timer_slot_stop_def)
  have "ss_ppp w = None" using wk(2) v(2) by (simp add: same_def)
  with h(1) w wk(1) assms(4) have "handle_ppp_step env st0 ((called w)\<lparr>ss_ppp := Some p0\<rparr>) = Some (u, ok)"
    by (simp add: handle_sstp_step_def apply_step_def upd)
  from handle_quiet [OF assms(2) _ _ this] assms(5) have ok: "ok" "same ((called w)\<lparr>ss_ppp := Some p0\<rparr>) u"
    by (simp_all add: quiet_def)
  have "follows p0 ((called w)\<lparr>ss_ppp := Some p0\<rparr>)"
    using wk(2) s h(2) by (simp add: follows_def same_def fresh_def called_def)
  from follows_same [OF this ok(2)] have "follows p0 (u\<lparr>ss_rx_buf := []\<rparr>)" by (simp add: follows_def)
  moreover have "t = u\<lparr>ss_rx_buf := []\<rparr>" "b" using u(2) ok(1) by (simp_all add: read_loop_done)
  ultimately show ?thesis using q(2) follows_top by simp
qed

lemma login_start:
  "\<exists>r s. drive_start login_env h1 h2 0 = Some r \<and> session_top login_env r = (s, True) \<and> fresh s \<and> ss_now s = 0"
  by (simp add: drive_start_def on_https_accepted_def handle_sstp_step_def apply_step_def send_step_def
    update_sstp_timer_def timer_slot_stop_def session_new_def state_machine_new_def session_top_def loop_top_def
    apply_policy_def fresh_def Let_def)

text \<open>A round of the login returns, and leaves the next state safe.\<close>

lemma login_round:
  assumes "safe s" and "ss_rx_buf s = []" and "\<not> ss_kmod_fd s" and "packets_small buf" and "length buf \<le> 4096"
  shows "\<exists>r. session_round login_env now (EvRead buf) s = Some r \<and> (snd r \<longrightarrow> safe (fst r))"
  using session_round_returns [OF login_env_wf assms(1), of now "EvRead buf"] assms(2-5)
  by (auto simp: returns_def)

lemma login_lengths:
  "length lcp_ack = 8" "length lcp_request = 8" "length pap_request = 12" "length ipcp_ack = 8"
  "length ipcp_request = 8" "length ip_packet = 5" "length call_connect_request = 14"
  "length (data_packet f) = 4 + length f"
  by (simp_all add: login_frames call_connect_request_def data_packet_def)

lemma login_data:
  assumes "safe s" and "follows p s" and "length f \<le> 20"
  obtains r where "session_round login_env 0 (EvRead (data_packet f)) s = Some r" "snd r \<longrightarrow> safe (fst r)"
    "packet_parse (data_packet f) = Inr (Data f, length (data_packet f))" "data_packet f \<noteq> []"
proof -
  have "length f < 4000" "length f \<le> PEER_FRAME_MAX" using assms(3) by (simp_all add: PEER_FRAME_MAX_def)
  note p = data_packet_parse [OF this(1)] this(2)
  moreover have "\<exists>r. session_round login_env 0 (EvRead (data_packet f)) s = Some r \<and> (snd r \<longrightarrow> safe (fst r))"
    using assms p by (intro login_round) (simp_all add: follows_def login_lengths)
  ultimately show ?thesis using that by (auto simp: data_packet_def)
qed

lemma login_frame:
  assumes "safe s" and "follows p s" and "length f \<le> 20" and "\<And>t. np_route f t = Some (t, False)"
    and "on_frame (replicate 16 0) p f = Some (p', step)" and "quiet step"
  shows "\<exists>t. session_round login_env 0 (EvRead (data_packet f)) s = Some (t, True) \<and> safe t \<and> follows p' t
    \<and> ss_pending_username t = ss_pending_username s"
proof -
  from login_data [OF assms(1-3)] obtain r where
    r: "session_round login_env 0 (EvRead (data_packet f)) s = Some r" "snd r \<longrightarrow> safe (fst r)"
      "packet_parse (data_packet f) = Inr (Data f, length (data_packet f))" "data_packet f \<noteq> []" .
  from follow_frame [OF assms(2) r(3,4) assms(4) login_env_cooperative r(1)] assms(5,6) obtain t
    where "r = (t, True)" "follows p' t" "ss_pending_username t = ss_pending_username s"
    by (auto simp: login_env_def quiet_def)
  with r(1,2) show ?thesis by auto
qed

lemma login_connect:
  assumes "safe s" and "fresh s" and "ppp_open (replicate 16 0) (ppp_new [10, 0, 0, 1] AmPap) = Some (p0, st0)"
    and "quiet st0"
  shows "\<exists>t. session_round login_env 0 (EvRead call_connect_request) s = Some (t, True) \<and> safe t \<and> follows p0 t"
proof -
  obtain r where r: "session_round login_env 0 (EvRead call_connect_request) s = Some r" "snd r \<longrightarrow> safe (fst r)"
    using login_round [OF assms(1), of call_connect_request 0] assms(2) call_connect_request_parse(3)
    by (auto simp: fresh_def login_lengths)
  from follow_connect [OF assms(2) login_env_cooperative r(1)] assms(3,4) obtain t where "r = (t, True)" "follows p0 t"
    by (auto simp: login_env_def)
  with r show ?thesis by auto
qed

lemma login_pap:
  assumes "safe s" and "follows p s" and "on_frame (replicate 16 0) p pap_request = Some (p3, st3)"
    and "ps_event st3 = Some (NeedPapAuth [0x61] [0x62])"
    and "on_auth_result (replicate 16 0) p3 (Accept sample_addrs) = Some (p4, st4)" and "quiet st4"
  shows "\<exists>t user. session_round login_env 0 (EvRead (data_packet pap_request)) s = Some (t, True) \<and> safe t
    \<and> follows p4 t \<and> ss_pending_username t = Some user"
proof -
  have "length pap_request \<le> 20" by (simp add: login_lengths)
  from login_data [OF assms(1,2) this] obtain r where
    r: "session_round login_env 0 (EvRead (data_packet pap_request)) s = Some r" "snd r \<longrightarrow> safe (fst r)"
      "packet_parse (data_packet pap_request) = Inr (Data pap_request, length (data_packet pap_request))"
      "data_packet pap_request \<noteq> []" .
  from follow_pap [OF assms(2) r(3,4) login_routes(3) login_env_cooperative r(1) _ assms(4),
      where a = sample_addrs] assms(3,5,6)
  obtain t where "r = (t, True)" "follows p4 t" "ss_pending_username t = Some (from_utf8_lossy [0x61])"
    by (auto simp: login_env_def quiet_def)
  with r(1,2) show ?thesis by auto
qed

lemma login_up:
  assumes "safe s" and "follows p s" and "on_frame (replicate 16 0) p ipcp_request = Some (p6, st6)"
    and "ps_event st6 = Some (NetworkUp sample_addrs)" and "\<not> ps_finished st6" and "ss_pending_username s = Some user"
  shows "\<exists>t k es sess c. session_round login_env 0 (EvRead (data_packet ipcp_request)) s = Some (t, True) \<and> safe t
    \<and> device_up k t \<and> kp_mtu k = 1400 \<and> ss_log t = es @ [EffAcct user sess AcctStart c]"
proof -
  have "length ipcp_request \<le> 20" by (simp add: login_lengths)
  from login_data [OF assms(1,2) this] obtain r where
    r: "session_round login_env 0 (EvRead (data_packet ipcp_request)) s = Some r" "snd r \<longrightarrow> safe (fst r)"
      "packet_parse (data_packet ipcp_request) = Inr (Data ipcp_request, length (data_packet ipcp_request))"
      "data_packet ipcp_request \<noteq> []" .
  from follow_up [OF assms(2) r(3,4) login_routes(5) login_env_cooperative r(1) _ assms(4,5) _ _ _ assms(6), of p6 "''tun0''" 5] assms(3)
  obtain k t es sess c where "r = (t, True)" "device_up k t" "kp_mtu k = effective_mtu (map_option unat (aa_mtu sample_addrs))"
    "ss_log t = ss_log s @ es @ [EffAcct user sess AcctStart c]"
    by (auto simp: login_env_def)
  moreover have "effective_mtu (map_option unat (aa_mtu sample_addrs)) = 1400"
    by (simp add: sample_addrs_def effective_mtu_def)
  ultimately show ?thesis using r(1,2) append_assoc by (metis fst_conv snd_conv)
qed

lemma login_ip:
  assumes "safe s" and "device_up k s" and "kp_mtu k = 1400"
  shows "\<exists>t. session_round login_env 0 (EvRead (data_packet ip_packet)) s = Some (t, True)
    \<and> ss_log t = ss_log s @ [EffTun [0x45]]"
proof -
  have "length ip_packet < 4000" "length ip_packet \<le> PEER_FRAME_MAX" by (simp_all add: login_lengths PEER_FRAME_MAX_def)
  note p = data_packet_parse [OF this(1)] this(2)
  obtain r where r: "session_round login_env 0 (EvRead (data_packet ip_packet)) s = Some r"
    using login_round [OF assms(1) _ _ p(2) [OF p(3)], of 0] assms(2) by (auto simp: device_up_def login_lengths)
  from follow_ip [OF assms(2) p(1) _ login_routes(6) _ _ r] assms(3) r show ?thesis
    by (auto simp: data_packet_def protocol_from_u16_def)
qed

text \<open>The run: the device comes up, accounting starts, and the packet reaches the device.\<close>

lemma login_run:
  "\<exists>s es user sess c. drive_sstp login_env h1 h2 0 login_events = Some (s, True)
     \<and> ss_log s = es @ [EffAcct user sess AcctStart c, EffTun [0x45]]"
proof -
  from login_driver obtain p0 st0 p1 st1 p2 st2 p3 st3 p4 st4 p5 st5 p6 st6 where
    d: "ppp_open (replicate 16 0) (ppp_new [10, 0, 0, 1] AmPap) = Some (p0, st0)" "quiet st0"
      "on_frame (replicate 16 0) p0 lcp_ack = Some (p1, st1)" "quiet st1"
      "on_frame (replicate 16 0) p1 lcp_request = Some (p2, st2)" "quiet st2"
      "on_frame (replicate 16 0) p2 pap_request = Some (p3, st3)" "ps_event st3 = Some (NeedPapAuth [0x61] [0x62])"
      "on_auth_result (replicate 16 0) p3 (Accept sample_addrs) = Some (p4, st4)" "quiet st4"
      "on_frame (replicate 16 0) p4 ipcp_ack = Some (p5, st5)" "quiet st5"
      "on_frame (replicate 16 0) p5 ipcp_request = Some (p6, st6)" "ps_event st6 = Some (NetworkUp sample_addrs)"
      "\<not> ps_finished st6"
    by blast
  obtain r s where s: "drive_start login_env h1 h2 0 = Some r" "session_top login_env r = (s, True)" "fresh s"
    using login_start by blast
  have "safe s" by (rule session_start_safe [OF login_env_wf s(1,2)])
  from login_connect [OF this s(3) d(1,2)] obtain s0 where
    s0: "session_round login_env 0 (EvRead call_connect_request) s = Some (s0, True)" "safe s0" "follows p0 s0" by blast
  from login_frame [OF s0(2,3) _ login_routes(1) d(3,4)] obtain s1 where
    s1: "session_round login_env 0 (EvRead (data_packet lcp_ack)) s0 = Some (s1, True)" "safe s1" "follows p1 s1"
    by (auto simp: login_lengths)
  from login_frame [OF s1(2,3) _ login_routes(2) d(5,6)] obtain s2 where
    s2: "session_round login_env 0 (EvRead (data_packet lcp_request)) s1 = Some (s2, True)" "safe s2" "follows p2 s2"
    by (auto simp: login_lengths)
  from login_pap [OF s2(2,3) d(7-10)] obtain s3 user where
    s3: "session_round login_env 0 (EvRead (data_packet pap_request)) s2 = Some (s3, True)" "safe s3" "follows p4 s3"
      "ss_pending_username s3 = Some user" by blast
  from login_frame [OF s3(2,3) _ login_routes(4) d(11,12)] s3(4) obtain s4 where
    s4: "session_round login_env 0 (EvRead (data_packet ipcp_ack)) s3 = Some (s4, True)" "safe s4" "follows p5 s4"
      "ss_pending_username s4 = Some user"
    by (auto simp: login_lengths)
  from login_up [OF s4(2,3) d(13-15) s4(4)] obtain s5 k es sess c where
    s5: "session_round login_env 0 (EvRead (data_packet ipcp_request)) s4 = Some (s5, True)" "safe s5"
      "device_up k s5" "kp_mtu k = 1400" "ss_log s5 = es @ [EffAcct user sess AcctStart c]" by blast
  from login_ip [OF s5(2-4)] obtain s6 where
    s6: "session_round login_env 0 (EvRead (data_packet ip_packet)) s5 = Some (s6, True)"
      "ss_log s6 = ss_log s5 @ [EffTun [0x45]]" by blast
  from s(1,2) s0(1) s1(1) s2(1) s3(1) s4(1) s5(1) s6(1)
  have "drive_sstp login_env h1 h2 0 login_events = Some (s6, True)"
    by (simp add: drive_sstp_def login_events_def)
  with s5(5) s6(2) show ?thesis by auto
qed

text \<open>The same session, closed by the registry.\<close>

lemma drive_append: "drive env (evs @ evs') r = Option.bind (drive env evs r) (drive env evs')"
proof (induction evs arbitrary: r)
  case Nil
  then show ?case by (cases r; cases "snd r") auto
next
  case (Cons e evs)
  then show ?case by (cases r; cases "snd r"; cases e) (auto split: option.split)
qed

lemma login_run_closed:
  "\<exists>s es user sess c fs. drive_sstp login_env h1 h2 0 (login_events @ [(0, EvControlClosed)]) = Some (s, False)
     \<and> ss_log s = es @ [EffAcct user sess AcctStart c, EffTun [0x45]] @ fs"
proof -
  obtain s es user sess c where s: "drive_sstp login_env h1 h2 0 login_events = Some (s, True)"
    "ss_log s = es @ [EffAcct user sess AcctStart c, EffTun [0x45]]"
    using login_run by blast
  then have r: "drive_sstp login_env h1 h2 0 (login_events @ [(0, EvControlClosed)])
      = Some (session_exit login_env (s\<lparr>ss_now := 0\<rparr>), False)"
    by (auto simp: drive_sstp_def drive_append session_round_def session_top_def split: option.splits)
  have exit: "\<exists>fs. ss_log (session_exit env t) = ss_log t @ fs" for env t
    by (auto simp: session_exit_def acct_stop_def mss_drop_def kppp_drop_def log_effect_def called_def Let_def
      split: option.split prod.split)
  obtain fs where "ss_log (session_exit login_env (s\<lparr>ss_now := 0\<rparr>)) =
      (es @ [EffAcct user sess AcctStart c, EffTun [0x45]]) @ fs"
    using exit [of login_env "s\<lparr>ss_now := 0\<rparr>"] s(2) by auto
  with r show ?thesis unfolding append_assoc by blast
qed

subsection \<open>The properties of the session at the login\<close>


theorem session_tun_authorised_witness:
  "\<exists>s p1 ev oc a p2 k ip p3. drive_sstp login_env [] [] 0 login_events = Some (s, True)
     \<and> ss_log s = (p1 @ [EffAuth ev oc] @ p2 @ [EffNetdev k ip] @ p3) @ [EffTun [0x45]]
     \<and> ao_verdict oc = Accept a \<and> aa_ip a = ip"
proof -
  obtain s es user sess c where s: "drive_sstp login_env [] [] 0 login_events = Some (s, True)"
    "ss_log s = es @ [EffAcct user sess AcctStart c, EffTun [0x45]]"
    using login_run by blast
  then have "ss_log s = (es @ [EffAcct user sess AcctStart c]) @ EffTun [0x45] # []" by simp
  from session_tun_authorised [OF login_env_wf s(1) this] s show ?thesis by fastforce
qed

theorem session_accounting_bracketed_witness:
  "\<exists>s u sess c0 cs cause c1. drive_sstp login_env [] [] 0 (login_events @ [(0, EvControlClosed)]) = Some (s, False)
     \<and> filter is_acct (ss_log s) = EffAcct u sess AcctStart c0 # map (EffAcct u sess AcctInterimUpdate) cs
         @ [EffAcct u sess (AcctStop cause) c1]"
proof -
  obtain s es user sess c fs where s: "drive_sstp login_env [] [] 0 (login_events @ [(0, EvControlClosed)]) = Some (s, False)"
    "ss_log s = es @ [EffAcct user sess AcctStart c, EffTun [0x45]] @ fs"
    using login_run_closed by blast
  from s(2) have "filter is_acct (ss_log s) \<noteq> []" by simp
  with session_accounting_bracketed [OF login_env_wf s(1)] s(1) show ?thesis by fastforce
qed

theorem session_no_panic_witness:
  "\<exists>s alive. drive_sstp login_env [] [] 0 [(5, EvRead call_connect_request)] = Some (s, alive)"
proof (rule session_no_panic [OF login_env_wf])
  fix r
  assume "drive_start login_env [] [] 0 = Some r"
  with login_start [of "[]" "[]"] obtain s where s: "session_top login_env r = (s, True)" "fresh s" "ss_now s = 0"
    by auto
  have "scheduled login_env [] q" for q by (cases q; cases "snd q") auto
  with s call_connect_request_parse(3)
  show "scheduled login_env [(5, EvRead call_connect_request)] (session_top login_env r)"
    by (auto simp: fresh_def login_lengths split: option.split)
qed



end
