(* ===== verification/Server.thy ===== *)
theory Server
  imports Sstp_Preamble Session_Login
begin

text \<open>
  The server around the session tasks: session identifiers, control channels, the registry, \<open>run\<close>, the
  guard and \<open>spawn_handle\<close> of \<open>src/src/session.rs\<close>, the accept loop of \<open>src/src/main.rs\<close>, the operations of
  the control socket in \<open>src/src/control.rs\<close> that act on sessions, and the connection counters of
  \<open>src/src/metrics.rs\<close>.  Tasks, channels and workers are the entries of lists; a task and its channel have
  the same index.  Each step is what one task does between two waits.  The version numbers of the
  shutdown signal are those of a \<open>watch\<close> channel: a receiver sees a change while its number is behind.
\<close>

subsection \<open>State\<close>

datatype control_command = Disconnect disconnect_reason | Rekey bool | PeriodicTick

primrec command_event :: "control_command \<Rightarrow> driver_event" where
  "command_event (Disconnect reason) = EvDisconnect reason"
| "command_event (Rekey request_peer) = EvRekey request_peer"
| "command_event PeriodicTick = EvPeriodicTick"

definition CONTROL_CHANNEL_DEPTH :: nat where
  "CONTROL_CHANNEL_DEPTH = 4"

text \<open>A channel whose receiver is gone is not open.\<close>

record channel =
  ch_queue :: "control_command list"
  ch_open :: bool

record session_handle =
  hd_id :: u64
  hd_peer :: nat
  hd_chan :: nat

text \<open>How far \<open>run\<close> is, and once it has ended the final state of the session if its loop has returned.\<close>

datatype task_phase = InTls | InPreamble | InDrive session | Ended "session option"

primrec live_phase :: "task_phase \<Rightarrow> bool" where
  "live_phase InTls = True"
| "live_phase InPreamble = True"
| "live_phase (InDrive s) = True"
| "live_phase (Ended r) = False"

text \<open>A task; \<open>tk_preamble\<close> keeps what the client sent before the session was driven.\<close>

record task =
  tk_id :: u64
  tk_peer :: nat
  tk_drain :: nat
  tk_preamble :: "read_result list"
  tk_phase :: task_phase

record worker =
  wk_open :: bool
  wk_drain :: nat
  wk_ticks :: "nat list"

record server =
  sv_next_id :: u64
  sv_registry :: "u64 \<rightharpoonup> session_handle"
  sv_chans :: "channel list"
  sv_tasks :: "task list"
  sv_workers :: "worker list"
  sv_drain :: nat
  sv_accepted :: u64
  sv_active :: int
  sv_handshake_failures :: u64

text \<open>The answers of the environment for each session, and the hashes of the certificate.\<close>

record server_conf =
  sc_env :: "u64 \<Rightarrow> session_env"
  sc_cert_hash_sha1 :: bytes
  sc_cert_hash :: bytes

definition server_new :: "nat \<Rightarrow> server" where
  "server_new io_threads =
     \<lparr>sv_next_id = 1, sv_registry = Map.empty, sv_chans = [], sv_tasks = [],
      sv_workers = replicate io_threads \<lparr>wk_open = True, wk_drain = 0, wk_ticks = []\<rparr>, sv_drain = 0,
      sv_accepted = 0, sv_active = 0, sv_handshake_failures = 0\<rparr>"

subsection \<open>Handles and the registry\<close>

definition try_send :: "nat \<Rightarrow> control_command \<Rightarrow> server \<Rightarrow> bool \<times> server" where
  "try_send ch cmd s =
     (let c = sv_chans s ! ch in
      if \<not> ch_open c \<or> CONTROL_CHANNEL_DEPTH \<le> length (ch_queue c) then (False, s)
      else (True, s\<lparr>sv_chans := (sv_chans s)[ch := c\<lparr>ch_queue := ch_queue c @ [cmd]\<rparr>]\<rparr>))"

definition registry_register :: "session_handle \<Rightarrow> server \<Rightarrow> server" where
  "registry_register h s = s\<lparr>sv_registry := (sv_registry s)(hd_id h \<mapsto> h)\<rparr>"

definition registry_unregister :: "u64 \<Rightarrow> server \<Rightarrow> server" where
  "registry_unregister i s = s\<lparr>sv_registry := (sv_registry s)(i := None)\<rparr>"

definition registry_get :: "u64 \<Rightarrow> server \<Rightarrow> session_handle option" where
  "registry_get i s = sv_registry s i"

text \<open>\<open>snapshot\<close> gives the handles in some order.\<close>

definition snapshot :: "server \<Rightarrow> session_handle list \<Rightarrow> bool" where
  "snapshot s hs \<longleftrightarrow> distinct hs \<and> set hs = ran (sv_registry s)"

definition broadcast_disconnect :: "session_handle list \<Rightarrow> disconnect_reason \<Rightarrow> server \<Rightarrow> server" where
  "broadcast_disconnect hs reason s = fold (\<lambda>h s. snd (try_send (hd_chan h) (Disconnect reason) s)) hs s"

definition spawn_handle :: "nat \<Rightarrow> server \<Rightarrow> (u64 \<times> nat) \<times> server" where
  "spawn_handle peer s =
     (let i = sv_next_id s;
          ch = length (sv_chans s);
          s1 = s\<lparr>sv_next_id := i + 1, sv_chans := sv_chans s @ [\<lparr>ch_queue = [], ch_open = True\<rparr>]\<rparr>;
          s2 = registry_register \<lparr>hd_id = i, hd_peer = peer, hd_chan = ch\<rparr> s1 in
      ((i, ch), s2\<lparr>sv_accepted := sv_accepted s2 + 1, sv_active := sv_active s2 + 1\<rparr>))"

subsection \<open>The control socket\<close>

definition disable_session :: "u64 \<Rightarrow> server \<Rightarrow> bool \<times> server" where
  "disable_session i s =
     (case registry_get i s of None \<Rightarrow> (False, s) | Some h \<Rightarrow> try_send (hd_chan h) (Disconnect AdminRequested) s)"

definition rekey_session :: "u64 \<Rightarrow> bool \<Rightarrow> server \<Rightarrow> bool \<times> server" where
  "rekey_session i request_peer s =
     (case registry_get i s of None \<Rightarrow> (False, s) | Some h \<Rightarrow> try_send (hd_chan h) (Rekey request_peer) s)"

definition shutdown :: "server \<Rightarrow> server" where
  "shutdown s = s\<lparr>sv_drain := Suc (sv_drain s)\<rparr>"

subsection \<open>One session: \<open>run\<close>\<close>

definition set_task :: "nat \<Rightarrow> task \<Rightarrow> server \<Rightarrow> server" where
  "set_task i t s = s\<lparr>sv_tasks := (sv_tasks s)[i := t]\<rparr>"

definition set_phase :: "nat \<Rightarrow> task_phase \<Rightarrow> server \<Rightarrow> server" where
  "set_phase i ph s = set_task i ((sv_tasks s ! i)\<lparr>tk_phase := ph\<rparr>) s"

text \<open>The task ends: the receiver goes away with what is queued, and the guard takes the session off the registry.\<close>

definition session_drop :: "nat \<Rightarrow> session option \<Rightarrow> server \<Rightarrow> server" where
  "session_drop i r s =
     (let s1 = registry_unregister (tk_id (sv_tasks s ! i))
                 (set_phase i (Ended r) s\<lparr>sv_chans := (sv_chans s)[i := \<lparr>ch_queue = [], ch_open = False\<rparr>]\<rparr>) in
      s1\<lparr>sv_active := sv_active s1 - 1\<rparr>)"

definition drain_pending :: "nat \<Rightarrow> server \<Rightarrow> bool" where
  "drain_pending i s \<longleftrightarrow> tk_drain (sv_tasks s ! i) < sv_drain s"

definition handshake_failure :: "server \<Rightarrow> server" where
  "handshake_failure s = s\<lparr>sv_handshake_failures := sv_handshake_failures s + 1\<rparr>"

text \<open>Phase 1.  The arms of the \<open>select!\<close> are tried in order, so the handshake is looked at last.\<close>

datatype tls_arm = TlsDrain | TlsControl | TlsAccept bool

primrec tls_ready :: "nat \<Rightarrow> server \<Rightarrow> tls_arm \<Rightarrow> bool" where
  "tls_ready i s TlsDrain = drain_pending i s"
| "tls_ready i s TlsControl = (\<not> drain_pending i s \<and> ch_queue (sv_chans s ! i) \<noteq> [])"
| "tls_ready i s (TlsAccept ok) = (\<not> drain_pending i s \<and> ch_queue (sv_chans s ! i) = [])"

primrec run_tls :: "nat \<Rightarrow> tls_arm \<Rightarrow> server \<Rightarrow> server" where
  "run_tls i TlsDrain s = session_drop i None s"
| "run_tls i TlsControl s = session_drop i None s"
| "run_tls i (TlsAccept ok) s =
     (if ok then set_phase i InPreamble s else session_drop i None (handshake_failure s))"

text \<open>Phase 2, with what is written to the client, and the start of phase 3.  \<open>written\<close> is that the response went out.\<close>

definition start_drive :: "server_conf \<Rightarrow> nat \<Rightarrow> nat \<Rightarrow> server \<Rightarrow> server" where
  "start_drive conf i now s =
     (let env = sc_env conf (tk_id (sv_tasks s ! i)) in
      case drive_start env (sc_cert_hash_sha1 conf) (sc_cert_hash conf) now of
        None \<Rightarrow> session_drop i None s
      | Some r \<Rightarrow>
          (case session_top env r of
             (ses, True) \<Rightarrow> set_phase i (InDrive ses) s
           | (ses, False) \<Rightarrow> session_drop i (Some ses) s))"

definition note_preamble :: "nat \<Rightarrow> read_result list \<Rightarrow> server \<Rightarrow> server" where
  "note_preamble i reads s = set_task i ((sv_tasks s ! i)\<lparr>tk_preamble := reads\<rparr>) s"

definition run_preamble :: "server_conf \<Rightarrow> nat \<Rightarrow> string \<Rightarrow> read_result list \<Rightarrow> bool \<Rightarrow> nat \<Rightarrow> server \<Rightarrow> (bytes \<times> server) option" where
  "run_preamble conf i date reads written now s =
     (case handshake date reads of
        None \<Rightarrow> None
      | Some (Inr p, out, _) \<Rightarrow>
          Some (out, if written then start_drive conf i now (note_preamble i reads s) else session_drop i None (handshake_failure s))
      | Some (Inl e, out, _) \<Rightarrow>
          Some (case e of PreBad _ \<Rightarrow> error_response | PreTooLarge \<Rightarrow> error_response | _ \<Rightarrow> [],
                session_drop i None (handshake_failure s)))"

text \<open>
  Phase 3, one turn of the loop: the events for the shutdown signal and for commands are taken from
  there.  The channel is closed for the receiver if nothing holds a sender.
\<close>

definition sender_left :: "nat \<Rightarrow> server \<Rightarrow> bool" where
  "sender_left i s \<longleftrightarrow> (\<exists>h \<in> ran (sv_registry s). hd_chan h = i) \<or> (\<exists>w \<in> set (sv_workers s). i \<in> set (wk_ticks w))"

definition pop_command :: "nat \<Rightarrow> driver_event \<Rightarrow> server \<Rightarrow> server option" where
  "pop_command i ev s =
     (case ch_queue (sv_chans s ! i) of
        [] \<Rightarrow> None
      | cmd # cmds \<Rightarrow>
          if command_event cmd = ev
          then Some (s\<lparr>sv_chans := (sv_chans s)[i := (sv_chans s ! i)\<lparr>ch_queue := cmds\<rparr>]\<rparr>) else None)"

fun take_event :: "nat \<Rightarrow> driver_event \<Rightarrow> server \<Rightarrow> server option" where
  "take_event i EvDrain s =
     (if drain_pending i s then Some (set_task i ((sv_tasks s ! i)\<lparr>tk_drain := sv_drain s\<rparr>) s) else None)"
| "take_event i (EvDisconnect reason) s = pop_command i (EvDisconnect reason) s"
| "take_event i (EvRekey request_peer) s = pop_command i (EvRekey request_peer) s"
| "take_event i EvPeriodicTick s = pop_command i EvPeriodicTick s"
| "take_event i EvControlClosed s = (if ch_queue (sv_chans s ! i) = [] \<and> \<not> sender_left i s then Some s else None)"
| "take_event i _ s = Some s"

definition run_drive :: "server_conf \<Rightarrow> nat \<Rightarrow> nat \<Rightarrow> driver_event \<Rightarrow> session \<Rightarrow> server \<Rightarrow> server option" where
  "run_drive conf i now ev ses s =
     (case take_event i ev s of
        None \<Rightarrow> None
      | Some s1 \<Rightarrow>
          Some (case session_round (sc_env conf (tk_id (sv_tasks s ! i))) now ev ses of
                  None \<Rightarrow> session_drop i None s1
                | Some (ses', True) \<Rightarrow> set_phase i (InDrive ses') s1
                | Some (ses', False) \<Rightarrow> session_drop i (Some ses') s1))"

subsection \<open>The accept loop\<close>

definition set_worker :: "nat \<Rightarrow> worker \<Rightarrow> server \<Rightarrow> server" where
  "set_worker w k s = s\<lparr>sv_workers := (sv_workers s)[w := k]\<rparr>"

definition accept_shutdown :: "nat \<Rightarrow> server \<Rightarrow> server" where
  "accept_shutdown w s = set_worker w ((sv_workers s ! w)\<lparr>wk_open := False, wk_drain := sv_drain s\<rparr>) s"

definition accept_tick :: "nat \<Rightarrow> server \<Rightarrow> server" where
  "accept_tick w s =
     (let ticks = filter (\<lambda>ch. ch_open (sv_chans s ! ch)) (wk_ticks (sv_workers s ! w)) in
      fold (\<lambda>ch s. snd (try_send ch PeriodicTick s)) ticks (set_worker w ((sv_workers s ! w)\<lparr>wk_ticks := ticks\<rparr>) s))"

definition accept_conn :: "nat \<Rightarrow> nat \<Rightarrow> server \<Rightarrow> server" where
  "accept_conn w peer s =
     (case spawn_handle peer s of
        ((i, ch), s1) \<Rightarrow>
          (set_worker w ((sv_workers s1 ! w)\<lparr>wk_ticks := wk_ticks (sv_workers s1 ! w) @ [ch]\<rparr>) s1)
            \<lparr>sv_tasks := sv_tasks s1 @ [\<lparr>tk_id = i, tk_peer = peer, tk_drain = sv_drain s1, tk_preamble = [], tk_phase = InTls\<rparr>]\<rparr>)"

subsection \<open>Runs of the server\<close>

definition worker_ready :: "nat \<Rightarrow> server \<Rightarrow> bool" where
  "worker_ready w s \<longleftrightarrow> w < length (sv_workers s) \<and> wk_open (sv_workers s ! w)"

definition task_in :: "nat \<Rightarrow> task_phase \<Rightarrow> server \<Rightarrow> bool" where
  "task_in i ph s \<longleftrightarrow> i < length (sv_tasks s) \<and> tk_phase (sv_tasks s ! i) = ph"

inductive task_step :: "server_conf \<Rightarrow> nat \<Rightarrow> server \<Rightarrow> server \<Rightarrow> bool" for conf i where
  tls: "task_in i InTls s \<Longrightarrow> tls_ready i s arm \<Longrightarrow> task_step conf i s (run_tls i arm s)"
| preamble: "task_in i InPreamble s \<Longrightarrow> run_preamble conf i date reads written now s = Some (out, s') \<Longrightarrow> task_step conf i s s'"
| drive: "task_in i (InDrive ses) s \<Longrightarrow> event_enabled (ses\<lparr>ss_now := now\<rparr>) ev \<Longrightarrow> run_drive conf i now ev ses s = Some s' \<Longrightarrow>
    task_step conf i s s'"

inductive server_step :: "server_conf \<Rightarrow> server \<Rightarrow> server \<Rightarrow> bool" for conf where
  task: "task_step conf i s s' \<Longrightarrow> server_step conf s s'"
| drain: "worker_ready w s \<Longrightarrow> wk_drain (sv_workers s ! w) < sv_drain s \<Longrightarrow> server_step conf s (accept_shutdown w s)"
| tick: "worker_ready w s \<Longrightarrow> wk_drain (sv_workers s ! w) = sv_drain s \<Longrightarrow> server_step conf s (accept_tick w s)"
| conn: "worker_ready w s \<Longrightarrow> wk_drain (sv_workers s ! w) = sv_drain s \<Longrightarrow> server_step conf s (accept_conn w peer s)"
| disable: "server_step conf s (snd (disable_session j s))"
| rekey: "server_step conf s (snd (rekey_session j b s))"
| shutdown: "server_step conf s (shutdown s)"
| broadcast: "snapshot s hs \<Longrightarrow> server_step conf s (broadcast_disconnect hs ServerShutdown s)"

inductive server_reach :: "server_conf \<Rightarrow> nat \<Rightarrow> server \<Rightarrow> bool" for conf n where
  start: "server_reach conf n (server_new n)"
| step: "server_reach conf n s \<Longrightarrow> server_step conf s s' \<Longrightarrow> server_reach conf n s'"

subsection \<open>The invariant\<close>

text \<open>
  What the invariant looks at of the tasks: identifier, peer and whether the task is alive.  The laws
  about these lists and the registry come first.
\<close>

type_synonym slot = "u64 \<times> nat \<times> bool"

definition alive :: "slot list \<Rightarrow> nat set" where
  "alive sl = {i. i < length sl \<and> snd (snd (sl ! i))}"

definition ids_ok :: "slot list \<Rightarrow> u64 \<Rightarrow> bool" where
  "ids_ok sl nxt \<longleftrightarrow> (\<forall>i < length sl. fst (sl ! i) = word_of_nat (Suc i)) \<and> nxt = word_of_nat (Suc (length sl))"

definition reg_ok :: "slot list \<Rightarrow> (u64 \<rightharpoonup> session_handle) \<Rightarrow> bool" where
  "reg_ok sl reg \<longleftrightarrow> (\<forall>j h. reg j = Some h \<longleftrightarrow>
     hd_chan h < length sl \<and> sl ! hd_chan h = (j, hd_peer h, True) \<and> hd_id h = j)"

definition ticks_ok :: "slot list \<Rightarrow> nat list list \<Rightarrow> bool" where
  "ticks_ok sl tss \<longleftrightarrow> alive sl \<subseteq> set (concat tss) \<and> set (concat tss) \<subseteq> {..<length sl}"

lemma word_of_nat_inj_u64:
  assumes "i < 2 ^ 64" and "j < 2 ^ 64" and "(word_of_nat (Suc i) :: u64) = word_of_nat (Suc j)"
  shows "i = j"
proof -
  have "word_of_nat i + 1 = (word_of_nat j + 1 :: u64)" using assms(3) by (simp add: add.commute)
  then have "unat (word_of_nat i :: u64) = unat (word_of_nat j :: u64)" by simp
  with assms(1,2) show ?thesis by (simp add: unsigned_of_nat take_bit_nat_eq_self)
qed

lemma ids_distinct:
  assumes "ids_ok sl nxt" and "length sl \<le> 2 ^ 64" and "i < length sl" and "j < length sl" and "fst (sl ! i) = fst (sl ! j)"
  shows "i = j"
  using assms by (intro word_of_nat_inj_u64) (auto simp: ids_ok_def)

lemma alive_simps [simp]: "alive [] = {}" "finite (alive sl)" "alive (sl @ [(i, p, True)]) = insert (length sl) (alive sl)"
  by (auto simp: alive_def nth_append split: if_splits)

lemma alive_drop: "alive (sl[i := (j, p, False)]) = alive sl - {i}"
  by (cases "i < length sl") (auto simp: alive_def nth_list_update list_update_beyond split: if_splits)

lemma reg_ok_spawn:
  assumes "ids_ok sl nxt" and "reg_ok sl reg" and "length sl < 2 ^ 64"
  shows "reg_ok (sl @ [(nxt, p, True)]) (reg(nxt \<mapsto> \<lparr>hd_id = nxt, hd_peer = p, hd_chan = length sl\<rparr>))"
proof -
  have fresh: "fst (sl ! i) \<noteq> nxt" if "i < length sl" for i
    using that assms(1,3) word_of_nat_inj_u64 [of i "length sl"] by (auto simp: ids_ok_def)
  then have "\<not> (hd_chan h < length sl \<and> sl ! hd_chan h = (nxt, hd_peer h, True))" for h by (metis fst_conv)
  with assms(2) show ?thesis by (auto simp: reg_ok_def nth_append less_Suc_eq split: if_splits)
qed

lemma reg_ok_drop:
  assumes "ids_ok sl nxt" and "reg_ok sl reg" and "length sl \<le> 2 ^ 64" and "i < length sl" and "sl ! i = (j, p, True)"
  shows "reg_ok (sl[i := (j, p, False)]) (reg(j := None))"
proof -
  have other: "k = i \<or> j \<noteq> j'" if "k < length sl" "sl ! k = (j', q, True)" for k j' q
    using ids_distinct [OF assms(1,3) that(1) assms(4)] that assms(5) by auto
  have upd: "k < length sl \<and> sl[i := (j, p, False)] ! k = (j', q, True) \<longleftrightarrow> k < length sl \<and> k \<noteq> i \<and> sl ! k = (j', q, True)" for k j' q
    using assms(4) by (auto simp: nth_list_update)
  have reg: "reg j' = Some h \<longleftrightarrow> hd_chan h < length sl \<and> sl ! hd_chan h = (j', hd_peer h, True) \<and> hd_id h = j'" for j' h
    using assms(2) unfolding reg_ok_def by blast
  have "(reg(j := None)) j' = Some h \<longleftrightarrow> hd_chan h < length sl \<and> hd_chan h \<noteq> i \<and> sl ! hd_chan h = (j', hd_peer h, True) \<and> hd_id h = j'" for j' h
    using other [of "hd_chan h" j' "hd_peer h"] assms(5) by (cases "j' = j") (auto simp: reg)
  with upd show ?thesis unfolding reg_ok_def length_list_update by blast
qed

lemma ids_ok_spawn: "ids_ok sl nxt \<Longrightarrow> ids_ok (sl @ [(nxt, p, True)]) (nxt + 1)"
  by (auto simp: ids_ok_def nth_append less_Suc_eq)

lemma ids_ok_drop: "ids_ok sl nxt \<Longrightarrow> sl ! i = (j, p, True) \<Longrightarrow> ids_ok (sl[i := (j, p, False)]) nxt"
  by (cases "i < length sl") (auto simp: ids_ok_def nth_list_update)

definition slots :: "server \<Rightarrow> slot list" where
  "slots s = map (\<lambda>t. (tk_id t, tk_peer t, live_phase (tk_phase t))) (sv_tasks s)"

definition chans_ok :: "slot list \<Rightarrow> channel list \<Rightarrow> bool" where
  "chans_ok sl cs \<longleftrightarrow> map ch_open cs = map (snd \<circ> snd) sl \<and> list_all (\<lambda>c. length (ch_queue c) \<le> CONTROL_CHANNEL_DEPTH) cs"

definition server_inv :: "server \<Rightarrow> bool" where
  "server_inv s \<longleftrightarrow> ids_ok (slots s) (sv_next_id s) \<and> chans_ok (slots s) (sv_chans s) \<and> reg_ok (slots s) (sv_registry s)
     \<and> ticks_ok (slots s) (map wk_ticks (sv_workers s)) \<and> sv_active s = int (card (alive (slots s)))"

lemma length_slots [simp]: "length (slots s) = length (sv_tasks s)"
  by (simp add: slots_def)

lemma chans_ok_length: "chans_ok sl cs \<Longrightarrow> length cs = length sl"
  by (metis chans_ok_def length_map)

lemma chans_ok_open: "chans_ok sl cs \<Longrightarrow> i < length sl \<Longrightarrow> ch_open (cs ! i) = snd (snd (sl ! i))"
  using chans_ok_length [of sl cs] by (metis chans_ok_def comp_apply nth_map)

lemma chans_ok_update:
  assumes "chans_ok sl cs" and "ch_open c = ch_open (cs ! i)" and "length (ch_queue c) \<le> CONTROL_CHANNEL_DEPTH"
  shows "chans_ok sl (cs[i := c])"
proof (cases "i < length cs")
  case True
  with assms(2) have "map ch_open (cs[i := c]) = map ch_open cs" by (simp add: map_update list_update_same_conv)
  with assms(1,3) show ?thesis
    by (auto simp: chans_ok_def list_all_iff dest!: set_update_subset_insert [THEN subsetD])
qed (use assms(1) in \<open>simp add: list_update_beyond\<close>)

lemma chans_ok_queue: "chans_ok sl cs \<Longrightarrow> i < length cs \<Longrightarrow> length (ch_queue (cs ! i)) \<le> CONTROL_CHANNEL_DEPTH"
  by (simp add: chans_ok_def list_all_length)

subsection \<open>The operations keep the invariant\<close>

lemma try_send_frame [simp]:
  "sv_tasks (snd (try_send ch cmd s)) = sv_tasks s" "slots (snd (try_send ch cmd s)) = slots s"
  "sv_registry (snd (try_send ch cmd s)) = sv_registry s" "sv_workers (snd (try_send ch cmd s)) = sv_workers s"
  "sv_next_id (snd (try_send ch cmd s)) = sv_next_id s" "sv_active (snd (try_send ch cmd s)) = sv_active s"
  "sv_drain (snd (try_send ch cmd s)) = sv_drain s"
  by (simp_all add: try_send_def slots_def Let_def)

lemma try_send_inv: "server_inv s \<Longrightarrow> server_inv (snd (try_send ch cmd s))"
  unfolding server_inv_def try_send_frame
  by (auto simp: try_send_def Let_def intro!: chans_ok_update)

lemma fold_send_inv: "server_inv s \<Longrightarrow> server_inv (fold (\<lambda>x s. snd (try_send (f x) cmd s)) xs s)"
  by (induction xs arbitrary: s) (simp_all add: try_send_inv)

lemma fold_send_frame [simp]:
  "sv_tasks (fold (\<lambda>x s. snd (try_send (f x) cmd s)) xs s) = sv_tasks s"
  "slots (fold (\<lambda>x s. snd (try_send (f x) cmd s)) xs s) = slots s"
  "sv_drain (fold (\<lambda>x s. snd (try_send (f x) cmd s)) xs s) = sv_drain s"
  "sv_workers (fold (\<lambda>x s. snd (try_send (f x) cmd s)) xs s) = sv_workers s"
  by (induction xs arbitrary: s) simp_all

lemma slots_set_phase:
  "i < length (sv_tasks s) \<Longrightarrow>
   slots (set_phase i ph s) = (slots s)[i := (tk_id (sv_tasks s ! i), tk_peer (sv_tasks s ! i), live_phase ph)]"
  by (simp add: slots_def set_phase_def set_task_def map_update)

lemma slots_same:
  "i < length (sv_tasks s) \<Longrightarrow> live_phase (tk_phase (sv_tasks s ! i)) = live_phase ph \<Longrightarrow> slots (set_phase i ph s) = slots s"
  by (simp add: slots_def set_phase_def set_task_def map_update list_update_same_conv)

lemma set_phase_inv:
  assumes "server_inv s" and "i < length (sv_tasks s)" and "live_phase (tk_phase (sv_tasks s ! i)) = live_phase ph"
  shows "server_inv (set_phase i ph s)"
  using assms(1) unfolding server_inv_def slots_same [OF assms(2,3)] by (simp add: set_phase_def set_task_def)

lemma handshake_failure_frame [simp]:
  "slots (handshake_failure s) = slots s" "sv_tasks (handshake_failure s) = sv_tasks s" "server_inv (handshake_failure s) = server_inv s"
  by (simp_all add: handshake_failure_def slots_def server_inv_def)

lemma session_drop_tasks: "sv_tasks (session_drop i r s) = (sv_tasks s)[i := (sv_tasks s ! i)\<lparr>tk_phase := Ended r\<rparr>]"
  by (simp add: session_drop_def Let_def registry_unregister_def set_phase_def set_task_def)

lemma session_drop_inv:
  assumes "server_inv s" and "length (sv_tasks s) \<le> 2 ^ 64" and "i < length (sv_tasks s)" and "live_phase (tk_phase (sv_tasks s ! i))"
  shows "server_inv (session_drop i r s)"
proof -
  let ?j = "tk_id (sv_tasks s ! i)" and ?p = "tk_peer (sv_tasks s ! i)" and ?sl = "slots s"
  have at: "?sl ! i = (?j, ?p, True)" using assms(3,4) by (simp add: slots_def)
  have sl: "slots (session_drop i r s) = ?sl[i := (?j, ?p, False)]"
    using assms(3) by (simp add: slots_def session_drop_tasks map_update)
  from assms(1) have inv: "ids_ok ?sl (sv_next_id s)" "chans_ok ?sl (sv_chans s)" "reg_ok ?sl (sv_registry s)"
    "ticks_ok ?sl (map wk_ticks (sv_workers s))" "sv_active s = int (card (alive ?sl))" by (simp_all add: server_inv_def)
  have "chans_ok (?sl[i := (?j, ?p, False)]) ((sv_chans s)[i := \<lparr>ch_queue = [], ch_open = False\<rparr>])"
    using inv(2) by (auto simp: chans_ok_def map_update list_all_iff dest!: set_update_subset_insert [THEN subsetD])
  moreover have "ticks_ok (?sl[i := (?j, ?p, False)]) (map wk_ticks (sv_workers s))"
    using inv(4) by (auto simp: ticks_ok_def alive_drop)
  moreover have "i \<in> alive ?sl" using assms(3) at by (simp add: alive_def)
  then have "int (card (alive ?sl - {i})) = sv_active s - 1"
    using inv(5) card_gt_0_iff [of "alive ?sl"] by (auto simp: card_Diff_singleton)
  ultimately show ?thesis
    using ids_ok_drop [OF inv(1) at] reg_ok_drop [OF inv(1,3) _ _ at] assms(2,3)
    by (simp add: server_inv_def sl alive_drop)
      (simp add: session_drop_def Let_def registry_unregister_def set_phase_def set_task_def)
qed

lemma take_event_inv:
  assumes "take_event i ev s = Some s'" and "server_inv s" and "i < length (sv_tasks s)"
  shows "server_inv s' \<and> slots s' = slots s \<and> map tk_phase (sv_tasks s') = map tk_phase (sv_tasks s)"
proof -
  have pop: "server_inv t \<and> slots t = slots s \<and> map tk_phase (sv_tasks t) = map tk_phase (sv_tasks s)"
    if t: "pop_command i ev' s = Some t" for ev' t
  proof -
    obtain cmd cmds where q: "ch_queue (sv_chans s ! i) = cmd # cmds"
      and t: "t = s\<lparr>sv_chans := (sv_chans s)[i := (sv_chans s ! i)\<lparr>ch_queue := cmds\<rparr>]\<rparr>"
      using t by (auto simp: pop_command_def split: list.splits if_splits)
    have ok: "chans_ok (slots s) (sv_chans s)" using assms(2) by (simp add: server_inv_def)
    then have "length cmds \<le> CONTROL_CHANNEL_DEPTH"
      using chans_ok_queue [OF ok, of i] chans_ok_length [OF ok] assms(3) q by simp
    with ok have "chans_ok (slots s) ((sv_chans s)[i := (sv_chans s ! i)\<lparr>ch_queue := cmds\<rparr>])"
      by (intro chans_ok_update) simp_all
    with assms(2) show ?thesis by (simp add: t server_inv_def slots_def)
  qed
  have drain: "server_inv t \<and> slots t = slots s \<and> map tk_phase (sv_tasks t) = map tk_phase (sv_tasks s)"
    if t: "t = set_task i ((sv_tasks s ! i)\<lparr>tk_drain := sv_drain s\<rparr>) s" for t
  proof -
    have "slots t = slots s" using assms(3) by (simp add: t slots_def set_task_def map_update list_update_same_conv)
    with assms(2,3) show ?thesis
      by (simp add: server_inv_def) (simp add: t set_task_def map_update list_update_same_conv)
  qed
  from assms show ?thesis using pop drain by (cases ev) (auto split: if_splits)
qed

lemma note_preamble_frame [simp]:
  "slots (note_preamble i reads s) = slots s" "length (sv_tasks (note_preamble i reads s)) = length (sv_tasks s)"
  "server_inv (note_preamble i reads s) = server_inv s" "task_in i ph (note_preamble i reads s) = task_in i ph s"
  "sv_chans (note_preamble i reads s) = sv_chans s" "j \<noteq> i \<Longrightarrow> sv_tasks (note_preamble i reads s) ! j = sv_tasks s ! j"
proof -
  show sl: "slots (note_preamble i reads s) = slots s"
    by (cases "i < length (sv_tasks s)")
      (simp_all add: slots_def note_preamble_def set_task_def map_update list_update_same_conv list_update_beyond)
  show "server_inv (note_preamble i reads s) = server_inv s"
    by (simp add: server_inv_def sl) (simp add: note_preamble_def set_task_def)
qed (auto simp: note_preamble_def set_task_def task_in_def)

lemma start_drive_inv:
  assumes "server_inv s" and "length (sv_tasks s) \<le> 2 ^ 64" and "task_in i InPreamble s"
  shows "server_inv (start_drive conf i now s)"
  using assms session_drop_inv [OF assms(1,2)] set_phase_inv [OF assms(1)]
  by (auto simp: start_drive_def Let_def task_in_def split: option.split prod.split bool.split)

lemma task_step_inv:
  assumes "task_step conf i s s'" and "server_inv s" and "length (sv_tasks s) \<le> 2 ^ 64"
  shows "server_inv s'"
  using assms(1)
proof cases
  case (tls arm)
  with assms(2,3) show ?thesis
    by (cases arm) (auto simp: task_in_def intro!: session_drop_inv set_phase_inv)
next
  case (preamble date reads written now out)
  then have "server_inv (start_drive conf i now (note_preamble i reads s))"
    using assms(2,3) by (intro start_drive_inv) simp_all
  with preamble assms(2,3) show ?thesis
    by (auto simp: run_preamble_def task_in_def intro!: session_drop_inv split: option.splits sum.splits if_splits)
next
  case (drive ses now ev)
  then obtain s1 where s1: "take_event i ev s = Some s1" and s': "s' = (case session_round (sc_env conf (tk_id (sv_tasks s ! i))) now ev ses of
      None \<Rightarrow> session_drop i None s1 | Some (ses', True) \<Rightarrow> set_phase i (InDrive ses') s1 | Some (ses', False) \<Rightarrow> session_drop i (Some ses') s1)"
    by (auto simp: run_drive_def split: option.splits)
  from drive(1) have i: "i < length (sv_tasks s)" "tk_phase (sv_tasks s ! i) = InDrive ses" by (auto simp: task_in_def)
  from take_event_inv [OF s1 assms(2) i(1)] have t: "server_inv s1" "length (sv_tasks s1) = length (sv_tasks s)"
    "map tk_phase (sv_tasks s1) = map tk_phase (sv_tasks s)" by (simp_all, metis length_slots)
  from t(2,3) i have "tk_phase (sv_tasks s1 ! i) = InDrive ses" by (metis nth_map)
  with t i assms(3) show ?thesis
    unfolding s' by (auto intro!: session_drop_inv set_phase_inv split: option.split bool.split)
qed

lemma ticks_ok_mono:
  assumes "ticks_ok sl tss" and "alive sl \<inter> set (tss ! w) \<subseteq> set ts" and "set ts \<subseteq> {..<length sl}" and "w < length tss"
  shows "ticks_ok sl (tss[w := ts])"
proof -
  have "x \<in> set (concat (tss[w := ts]))" if "x \<in> alive sl" for x
  proof -
    from assms(1) that obtain xs where "xs \<in> set tss" "x \<in> set xs" by (auto simp: ticks_ok_def)
    then obtain v where v: "v < length tss" "x \<in> set (tss ! v)" by (auto simp: in_set_conv_nth)
    with assms(2,4) that have "x \<in> set (tss[w := ts] ! v)" by (auto simp: nth_list_update)
    moreover have "tss[w := ts] ! v \<in> set (tss[w := ts])" using v(1) by (intro nth_mem) simp
    ultimately show ?thesis unfolding set_concat by blast
  qed
  moreover have "set (concat (tss[w := ts])) \<subseteq> set (concat tss) \<union> set ts"
    using set_update_subset_insert [of tss w ts] by auto
  ultimately show ?thesis using assms(1,3) unfolding ticks_ok_def by blast
qed

lemma accept_tick_inv:
  assumes "server_inv s" and "worker_ready w s"
  shows "server_inv (accept_tick w s)"
proof -
  let ?ts = "filter (\<lambda>ch. ch_open (sv_chans s ! ch)) (wk_ticks (sv_workers s ! w))"
  from assms have inv: "chans_ok (slots s) (sv_chans s)" "ticks_ok (slots s) (map wk_ticks (sv_workers s))"
    and w: "w < length (sv_workers s)" by (simp_all add: server_inv_def worker_ready_def)
  have "alive (slots s) \<inter> set (map wk_ticks (sv_workers s) ! w) \<subseteq> set ?ts"
    using chans_ok_open [OF inv(1)] w by (auto simp: alive_def)
  moreover have "set ?ts \<subseteq> {..<length (slots s)}"
    using inv(2) w by (fastforce simp: ticks_ok_def)
  ultimately have "ticks_ok (slots s) ((map wk_ticks (sv_workers s))[w := ?ts])"
    using ticks_ok_mono [OF inv(2)] w by simp
  with assms(1) have "server_inv (set_worker w ((sv_workers s ! w)\<lparr>wk_ticks := ?ts\<rparr>) s)"
    by (simp add: server_inv_def set_worker_def slots_def map_update)
  then show ?thesis unfolding accept_tick_def Let_def by (rule fold_send_inv [where f = "\<lambda>x. x"])
qed

lemma worker_ticks_same: "w < length ws \<Longrightarrow> (map wk_ticks ws)[w := wk_ticks (ws ! w)] = map wk_ticks ws"
  by (metis list_update_id nth_map)

lemma accept_conn_eq:
  "accept_conn w peer s =
     s\<lparr>sv_next_id := sv_next_id s + 1,
       sv_registry := (sv_registry s)(sv_next_id s \<mapsto> \<lparr>hd_id = sv_next_id s, hd_peer = peer, hd_chan = length (sv_chans s)\<rparr>),
       sv_chans := sv_chans s @ [\<lparr>ch_queue = [], ch_open = True\<rparr>],
       sv_tasks := sv_tasks s @ [\<lparr>tk_id = sv_next_id s, tk_peer = peer, tk_drain = sv_drain s, tk_preamble = [], tk_phase = InTls\<rparr>],
       sv_workers := (sv_workers s)[w := (sv_workers s ! w)\<lparr>wk_ticks := wk_ticks (sv_workers s ! w) @ [length (sv_chans s)]\<rparr>],
       sv_accepted := sv_accepted s + 1, sv_active := sv_active s + 1\<rparr>"
  by (simp add: accept_conn_def spawn_handle_def registry_register_def set_worker_def Let_def)

lemma accept_conn_inv:
  assumes "server_inv s" and "length (sv_tasks s) < 2 ^ 64" and "worker_ready w s"
  shows "server_inv (accept_conn w peer s)"
proof -
  let ?sl = "slots s" and ?n = "length (sv_tasks s)" and ?j = "sv_next_id s"
  from assms(1) have inv: "ids_ok ?sl ?j" "chans_ok ?sl (sv_chans s)" "reg_ok ?sl (sv_registry s)"
    "ticks_ok ?sl (map wk_ticks (sv_workers s))" "sv_active s = int (card (alive ?sl))" by (simp_all add: server_inv_def)
  have n: "length (sv_chans s) = ?n" using chans_ok_length [OF inv(2)] by simp
  have sl: "slots (accept_conn w peer s) = ?sl @ [(?j, peer, True)]" by (simp add: accept_conn_eq slots_def)
  from assms(3) have w: "w < length (sv_workers s)" by (simp add: worker_ready_def)
  have "ticks_ok (?sl @ [(?j, peer, True)]) ((map wk_ticks (sv_workers s))[w := wk_ticks (sv_workers s ! w) @ [?n]])"
  proof -
    have "ticks_ok ?sl ((map wk_ticks (sv_workers s))[w := wk_ticks (sv_workers s ! w)])"
      using inv(4) by (simp add: worker_ticks_same [OF w])
    moreover have "set (concat (xs[w := ys @ [y]])) = insert y (set (concat (xs[w := ys])))" if "w < length xs" for xs and ys :: "nat list" and y
      using that by (induction xs arbitrary: w) (auto split: nat.splits)
    ultimately show ?thesis using w by (auto simp: ticks_ok_def)
  qed
  moreover have "chans_ok (?sl @ [(?j, peer, True)]) (sv_chans s @ [\<lparr>ch_queue = [], ch_open = True\<rparr>])"
    using inv(2) by (simp add: chans_ok_def)
  moreover have "?n \<notin> alive ?sl" by (simp add: alive_def)
  ultimately show ?thesis
    using ids_ok_spawn [OF inv(1)] reg_ok_spawn [OF inv(1,3), of peer] assms(2) inv(5) n
    by (simp add: server_inv_def sl) (simp add: accept_conn_eq map_update)
qed

lemma take_event_length: "take_event i ev s = Some s' \<Longrightarrow> length (sv_tasks s') = length (sv_tasks s)"
  by (cases ev) (auto simp: pop_command_def set_task_def split: if_splits list.splits)

lemma task_step_length: "task_step conf i s s' \<Longrightarrow> length (sv_tasks s') = length (sv_tasks s)"
proof (induction rule: task_step.induct)
  case (tls s arm)
  then show ?case by (cases arm) (auto simp: session_drop_tasks set_phase_def set_task_def)
next
  case (preamble s date reads written now out s')
  then show ?case
    by (auto simp: run_preamble_def start_drive_def Let_def session_drop_tasks set_phase_def set_task_def
        split: option.splits sum.splits if_splits prod.splits bool.splits)
next
  case (drive ses s now ev s')
  then show ?case
    by (auto simp: run_drive_def session_drop_tasks set_phase_def set_task_def dest: take_event_length
        split: option.splits prod.splits bool.splits)
qed

lemma frame_ops [simp]:
  "sv_tasks (accept_tick w s) = sv_tasks s" "sv_tasks (accept_shutdown w s) = sv_tasks s" "sv_tasks (shutdown s) = sv_tasks s"
  "sv_tasks (broadcast_disconnect hs reason s) = sv_tasks s" "sv_tasks (snd (disable_session j s)) = sv_tasks s"
  "sv_tasks (snd (rekey_session j b s)) = sv_tasks s"
  by (simp_all add: accept_tick_def Let_def fold_send_frame [where f = "\<lambda>x. x"] set_worker_def accept_shutdown_def shutdown_def
      broadcast_disconnect_def disable_session_def rekey_session_def split: option.split)

lemma server_step_length: "server_step conf s s' \<Longrightarrow> length (sv_tasks s) \<le> length (sv_tasks s')"
  by (induction rule: server_step.induct) (auto simp: task_step_length accept_conn_eq)

lemma server_step_inv:
  assumes "server_step conf s s'" and "server_inv s" and "length (sv_tasks s') < 2 ^ 64"
  shows "server_inv s'"
  using assms(1)
proof cases
  case (task i)
  with task_step_inv [OF task assms(2)] assms(3) server_step_length [OF assms(1)] show ?thesis by simp
next
  case (drain w)
  then have "(map wk_ticks (sv_workers s))[w := wk_ticks (sv_workers s ! w)] = map wk_ticks (sv_workers s)"
    by (intro worker_ticks_same) (simp add: worker_ready_def)
  with assms(2) show ?thesis by (simp add: drain server_inv_def accept_shutdown_def set_worker_def slots_def map_update)
next
  case (conn w peer)
  then have "length (sv_tasks s) < 2 ^ 64" using assms(3) by (simp add: accept_conn_eq)
  with conn accept_conn_inv [OF assms(2)] show ?thesis by simp
next
  case (broadcast hs)
  with assms(2) show ?thesis by (simp add: broadcast_disconnect_def fold_send_inv [where f = hd_chan])
next
  case shutdown
  with assms(2) show ?thesis by (simp add: shutdown_def server_inv_def slots_def)
qed (use assms(2) in \<open>auto simp: disable_session_def rekey_session_def intro: accept_tick_inv try_send_inv split: option.split\<close>)

lemma server_reach_inv: "server_reach conf n s \<Longrightarrow> length (sv_tasks s) < 2 ^ 64 \<Longrightarrow> server_inv s"
proof (induction rule: server_reach.induct)
  case start
  have "reg_ok [] Map.empty" "ids_ok [] 1" "chans_ok [] []" "ticks_ok [] (replicate n [])"
    by (auto simp: reg_ok_def ids_ok_def chans_ok_def ticks_ok_def)
  then show ?case by (simp add: server_inv_def server_new_def slots_def)
next
  case (step s s')
  with server_step_inv [OF step.hyps(2)] server_step_length [OF step.hyps(2)] show ?case by simp
qed

subsection \<open>Every session of the server is a run of the session task\<close>

definition serves :: "server_conf \<Rightarrow> task \<Rightarrow> session \<Rightarrow> bool \<Rightarrow> bool" where
  "serves conf t ses running \<longleftrightarrow> (\<exists>date p out rest now evs. handshake date (tk_preamble t) = Some (Inr p, out, rest)
     \<and> drive_sstp (sc_env conf (tk_id t)) (sc_cert_hash_sha1 conf) (sc_cert_hash conf) now evs = Some (ses, running))"

definition served :: "server_conf \<Rightarrow> task \<Rightarrow> bool" where
  "served conf t \<longleftrightarrow>
     (case tk_phase t of InDrive ses \<Rightarrow> serves conf t ses True | Ended (Some ses) \<Rightarrow> serves conf t ses False | _ \<Rightarrow> True)"

definition all_served :: "server_conf \<Rightarrow> server \<Rightarrow> bool" where
  "all_served conf s \<longleftrightarrow> list_all (served conf) (sv_tasks s)"

lemma serves_cong: "serves conf (t\<lparr>tk_phase := ph\<rparr>) = serves conf t" "serves conf (t\<lparr>tk_drain := d\<rparr>) = serves conf t"
  by (simp_all add: serves_def fun_eq_iff)

lemma served_simps [simp]:
  "served conf (t\<lparr>tk_phase := InDrive ses\<rparr>) = serves conf t ses True"
  "served conf (t\<lparr>tk_phase := Ended (Some ses)\<rparr>) = serves conf t ses False"
  "served conf (t\<lparr>tk_phase := Ended None\<rparr>)" "served conf (t\<lparr>tk_phase := InPreamble\<rparr>)"
  "served conf (t\<lparr>tk_drain := d\<rparr>) = served conf t"
  by (auto simp: served_def serves_cong split: task_phase.split option.split)

lemma all_served_update:
  "all_served conf s \<Longrightarrow> served conf t \<Longrightarrow> all_served conf (s\<lparr>sv_tasks := (sv_tasks s)[i := t]\<rparr>)"
  by (auto simp: all_served_def list_all_iff dest!: set_update_subset_insert [THEN subsetD])

lemma all_served_phase:
  "all_served conf s \<Longrightarrow> served conf ((sv_tasks s ! i)\<lparr>tk_phase := ph\<rparr>) \<Longrightarrow> all_served conf (set_phase i ph s)"
  unfolding set_phase_def set_task_def by (rule all_served_update)

lemma all_served_drop:
  assumes "all_served conf s" and "served conf ((sv_tasks s ! i)\<lparr>tk_phase := Ended r\<rparr>)"
  shows "all_served conf (session_drop i r s)"
  using all_served_phase [OF assms] by (simp add: all_served_def session_drop_tasks set_phase_def set_task_def)

lemma all_served_failure [simp]: "all_served conf (handshake_failure s) = all_served conf s"
  by (simp add: all_served_def)

lemma note_preamble_served:
  assumes "all_served conf s" and "task_in i InPreamble s"
  shows "all_served conf (note_preamble i reads s)"
  using assms unfolding note_preamble_def set_task_def by (intro all_served_update) (simp_all add: served_def task_in_def)

lemma start_drive_served:
  assumes "all_served conf s" and "handshake date (tk_preamble (sv_tasks s ! i)) = Some (Inr p, out, rest)"
  shows "all_served conf (start_drive conf i now s)"
proof -
  let ?t = "sv_tasks s ! i"
  have "serves conf ?t ses b"
    if "drive_start (sc_env conf (tk_id ?t)) (sc_cert_hash_sha1 conf) (sc_cert_hash conf) now = Some r"
      "session_top (sc_env conf (tk_id ?t)) r = (ses, b)" for r ses b
  proof -
    from that have "drive_sstp (sc_env conf (tk_id ?t)) (sc_cert_hash_sha1 conf) (sc_cert_hash conf) now [] = Some (ses, b)"
      by (cases b) (simp_all add: drive_sstp_def)
    with assms(2) show ?thesis unfolding serves_def by blast
  qed
  with assms(1) show ?thesis
    by (auto simp: start_drive_def Let_def intro!: all_served_drop all_served_phase split: option.split prod.split bool.split)
qed

lemma serves_round:
  assumes "serves conf t ses True" and "session_round (sc_env conf (tk_id t)) now ev ses = Some (ses', b)"
  shows "serves conf t ses' b"
proof -
  from assms(1) obtain date p out rest t0 evs where h: "handshake date (tk_preamble t) = Some (Inr p, out, rest)"
    and d: "drive_sstp (sc_env conf (tk_id t)) (sc_cert_hash_sha1 conf) (sc_cert_hash conf) t0 evs = Some (ses, True)"
    unfolding serves_def by blast
  have "drive (sc_env conf (tk_id t)) [(now, ev)] (ses, True) = Some (ses', b)" using assms(2) by (cases b) simp_all
  with d have "drive_sstp (sc_env conf (tk_id t)) (sc_cert_hash_sha1 conf) (sc_cert_hash conf) t0 (evs @ [(now, ev)]) = Some (ses', b)"
    by (auto simp: drive_sstp_def drive_append split: option.splits)
  with h show ?thesis unfolding serves_def by blast
qed

lemma take_event_served:
  assumes "take_event i ev s = Some s'" and "i < length (sv_tasks s)"
  shows "(all_served conf s \<longrightarrow> all_served conf s') \<and> (\<exists>d. sv_tasks s' ! i = (sv_tasks s ! i)\<lparr>tk_drain := d\<rparr>)"
proof -
  have self: "\<exists>d. t = t\<lparr>tk_drain := d\<rparr>" for t :: task by (rule exI [of _ "tk_drain t"]) simp
  have "all_served conf s \<Longrightarrow> all_served conf (set_task i ((sv_tasks s ! i)\<lparr>tk_drain := d\<rparr>) s)" for d
    unfolding set_task_def using assms(2) by (intro all_served_update) (auto simp: all_served_def list_all_length)
  with assms self [of "sv_tasks s ! i"] show ?thesis
    by (cases ev) (auto simp: pop_command_def set_task_def all_served_def split: if_splits list.splits)
qed

lemma task_step_served:
  assumes "task_step conf i s s'" and "all_served conf s"
  shows "all_served conf s'"
  using assms(1)
proof cases
  case (tls arm)
  with assms(2) show ?thesis by (cases arm) (auto intro!: all_served_drop all_served_phase)
next
  case (preamble date reads written now out)
  from preamble(1) have "tk_preamble (sv_tasks (note_preamble i reads s) ! i) = reads"
    by (simp add: note_preamble_def set_task_def task_in_def)
  then have "all_served conf (start_drive conf i now (note_preamble i reads s))"
    if "handshake date reads = Some (Inr p, out', rest)" for p out' rest
    using that by (intro start_drive_served [OF note_preamble_served [OF assms(2) preamble(1)]]) simp
  with preamble assms(2) show ?thesis
    by (auto simp: run_preamble_def intro!: all_served_drop split: option.splits sum.splits if_splits)
next
  case (drive ses now ev)
  then obtain s1 where s1: "take_event i ev s = Some s1" and s': "s' = (case session_round (sc_env conf (tk_id (sv_tasks s ! i))) now ev ses of
      None \<Rightarrow> session_drop i None s1 | Some (ses', True) \<Rightarrow> set_phase i (InDrive ses') s1 | Some (ses', False) \<Rightarrow> session_drop i (Some ses') s1)"
    by (auto simp: run_drive_def split: option.splits)
  from drive(1) have i: "i < length (sv_tasks s)" "tk_phase (sv_tasks s ! i) = InDrive ses" by (auto simp: task_in_def)
  from assms(2) i have "served conf (sv_tasks s ! i)" by (simp add: all_served_def list_all_length)
  with i(2) have sv: "serves conf (sv_tasks s ! i) ses True" by (simp add: served_def)
  from take_event_served [OF s1 i(1), of conf] assms(2) obtain d where
    t: "all_served conf s1" "sv_tasks s1 ! i = (sv_tasks s ! i)\<lparr>tk_drain := d\<rparr>" by blast
  have "serves conf (sv_tasks s1 ! i) ses' b" if "session_round (sc_env conf (tk_id (sv_tasks s ! i))) now ev ses = Some (ses', b)" for ses' b
    using serves_round [OF sv that] by (simp add: t(2) serves_cong)
  with t(1) show ?thesis
    unfolding s' by (auto intro!: all_served_drop all_served_phase split: option.split bool.split)
qed

lemma server_reach_served: "server_reach conf n s \<Longrightarrow> all_served conf s"
proof (induction rule: server_reach.induct)
  case start
  show ?case by (simp add: all_served_def server_new_def)
next
  case (step s s')
  from step.hyps(2) step.IH show ?case
    by cases (auto simp: task_step_served, auto simp: all_served_def accept_conn_eq served_def)
qed

subsection \<open>A command during the TLS handshake\<close>

lemma try_send_queue:
  "ch_queue (sv_chans s ! i) \<noteq> [] \<Longrightarrow> ch_queue (sv_chans (snd (try_send ch cmd s)) ! i) \<noteq> []"
  by (cases "ch < length (sv_chans s)") (auto simp: try_send_def Let_def nth_list_update list_update_beyond)

lemma try_send_open: "ch_open (sv_chans (snd (try_send ch cmd s)) ! i) = ch_open (sv_chans s ! i)"
  by (cases "ch < length (sv_chans s)") (auto simp: try_send_def Let_def nth_list_update list_update_beyond)

lemma try_send_chans [simp]: "length (sv_chans (snd (try_send ch cmd s))) = length (sv_chans s)"
  by (simp add: try_send_def Let_def)

lemma fold_send_queue:
  "ch_queue (sv_chans s ! i) \<noteq> [] \<Longrightarrow> ch_queue (sv_chans (fold (\<lambda>x s. snd (try_send (f x) cmd s)) xs s) ! i) \<noteq> []"
  by (induction xs arbitrary: s) (simp_all add: try_send_queue)

lemma fold_send_chans [simp]: "length (sv_chans (fold (\<lambda>x s. snd (try_send (f x) cmd s)) xs s)) = length (sv_chans s)"
  by (induction xs arbitrary: s) simp_all

lemma fold_send_reaches:
  assumes "i < length (sv_chans s)" and "ch_open (sv_chans s ! i)" and "i \<in> set xs"
  shows "ch_queue (sv_chans (fold (\<lambda>x s. snd (try_send x cmd s)) xs s) ! i) \<noteq> []"
  using assms
proof (induction xs arbitrary: s)
  case (Cons x xs)
  show ?case
  proof (cases "x = i")
    case True
    have "ch_queue (sv_chans (snd (try_send i cmd s)) ! i) \<noteq> []"
      using Cons.prems(1,2) by (auto simp: try_send_def Let_def CONTROL_CHANNEL_DEPTH_def)
    with fold_send_queue [where f = "\<lambda>x. x"] show ?thesis by (simp add: True)
  next
    case False
    with Cons show ?thesis by (simp add: try_send_open)
  qed
qed simp

definition doomed :: "nat \<Rightarrow> server \<Rightarrow> bool" where
  "doomed i s \<longleftrightarrow> task_in i InTls s \<and> ch_queue (sv_chans s ! i) \<noteq> [] \<or> task_in i (Ended None) s"

lemma task_in_drop: "i < length (sv_tasks s) \<Longrightarrow> task_in i (Ended r) (session_drop i r s)"
  by (simp add: task_in_def session_drop_tasks)

lemma other_task:
  assumes "task_step conf j s s'" and "j \<noteq> i"
  shows "sv_tasks s' ! i = sv_tasks s ! i \<and> sv_chans s' ! i = sv_chans s ! i"
proof -
  have drop: "sv_tasks (session_drop j r t) ! i = sv_tasks t ! i \<and> sv_chans (session_drop j r t) ! i = sv_chans t ! i" for r t
    using assms(2) by (simp add: session_drop_def Let_def registry_unregister_def set_phase_def set_task_def)
  have phase: "sv_tasks (set_phase j ph t) ! i = sv_tasks t ! i \<and> sv_chans (set_phase j ph t) ! i = sv_chans t ! i" for ph t
    using assms(2) by (simp add: set_phase_def set_task_def)
  have fail: "sv_chans (handshake_failure t) = sv_chans t" for t by (simp add: handshake_failure_def)
  have event: "sv_tasks t ! i = sv_tasks s ! i \<and> sv_chans t ! i = sv_chans s ! i" if "take_event j ev s = Some t" for ev t
    using that assms(2) by (cases ev) (auto simp: pop_command_def set_task_def split: if_splits list.splits)
  from assms(1) show ?thesis
  proof cases
    case (tls arm)
    with drop phase fail show ?thesis by (cases arm) auto
  next
    case (preamble date reads written now out)
    with drop phase fail assms(2) [symmetric] show ?thesis
      by (auto simp: run_preamble_def start_drive_def Let_def split: option.splits sum.splits if_splits prod.splits bool.splits)
  next
    case (drive ses now ev)
    with drop phase event show ?thesis by (auto simp: run_drive_def split: option.splits prod.splits bool.splits)
  qed
qed

lemma doomed_task:
  assumes "task_step conf i s s'" and "doomed i s"
  shows "task_in i (Ended None) s'"
  using assms(1)
proof cases
  case (tls arm)
  with assms(2) have "ch_queue (sv_chans s ! i) \<noteq> []" "i < length (sv_tasks s)" by (auto simp: doomed_def task_in_def)
  with tls show ?thesis by (cases arm) (auto simp: task_in_drop)
qed (use assms(2) in \<open>auto simp: doomed_def task_in_def\<close>)

lemma doomed_step:
  assumes "server_step conf s s'" and "doomed i s" and "length (sv_chans s) = length (sv_tasks s)"
  shows "doomed i s'"
proof -
  have i: "i < length (sv_tasks s)" using assms(2) by (auto simp: doomed_def task_in_def)
  have keep: "doomed i s'" if "sv_tasks s' ! i = sv_tasks s ! i" "length (sv_tasks s) \<le> length (sv_tasks s')"
    "ch_queue (sv_chans s ! i) \<noteq> [] \<Longrightarrow> ch_queue (sv_chans s' ! i) \<noteq> []"
    using that assms(2) by (auto simp: doomed_def task_in_def)
  from assms(1) show ?thesis
  proof cases
    case (task j)
    show ?thesis
    proof (cases "j = i")
      case True
      with doomed_task task assms(2) show ?thesis by (auto simp: doomed_def)
    next
      case False
      with other_task [OF task] keep task_step_length [OF task] show ?thesis by auto
    qed
  next
    case (tick w)
    have "ch_queue (sv_chans s' ! i) \<noteq> []" if "ch_queue (sv_chans s ! i) \<noteq> []"
      using that unfolding tick accept_tick_def Let_def by (intro fold_send_queue [where f = "\<lambda>x. x"]) (simp add: set_worker_def)
    with keep tick show ?thesis by simp
  next
    case (conn w peer)
    then show ?thesis using i assms(3) by (intro keep) (simp_all add: accept_conn_eq nth_append)
  qed (intro keep; auto simp: accept_shutdown_def set_worker_def shutdown_def disable_session_def rekey_session_def
      broadcast_disconnect_def try_send_queue fold_send_queue split: option.splits)+
qed

lemma task_step_chans: "task_step conf i s s' \<Longrightarrow> length (sv_chans s') = length (sv_chans s)"
proof (induction rule: task_step.induct)
  case (tls s arm)
  then show ?case by (cases arm) (auto simp: session_drop_def handshake_failure_def Let_def registry_unregister_def set_phase_def set_task_def)
next
  case (preamble s date reads written now out s')
  then show ?case
    by (auto simp: run_preamble_def start_drive_def session_drop_def handshake_failure_def Let_def registry_unregister_def set_phase_def set_task_def
        split: option.splits sum.splits if_splits prod.splits bool.splits)
next
  case (drive ses s now ev s')
  have "length (sv_chans t) = length (sv_chans s)" if "take_event i ev s = Some t" for t
    using that by (cases ev) (auto simp: pop_command_def set_task_def split: if_splits list.splits)
  with drive show ?case
    by (auto simp: run_drive_def session_drop_def Let_def registry_unregister_def set_phase_def set_task_def
        split: option.splits prod.splits bool.splits)
qed

lemma server_step_chans:
  assumes "server_step conf s s'" and "length (sv_chans s) = length (sv_tasks s)"
  shows "length (sv_chans s') = length (sv_tasks s')"
  using assms
  by cases (auto simp: task_step_chans task_step_length accept_conn_eq accept_tick_def Let_def set_worker_def accept_shutdown_def
      fold_send_chans [where f = "\<lambda>x. x"] fold_send_frame [where f = "\<lambda>x. x"]
      shutdown_def disable_session_def rekey_session_def broadcast_disconnect_def split: option.splits)

lemma doomed_forever:
  "(server_step conf)\<^sup>*\<^sup>* s s' \<Longrightarrow> doomed i s \<Longrightarrow> length (sv_chans s) = length (sv_tasks s) \<Longrightarrow>
   doomed i s' \<and> length (sv_chans s') = length (sv_tasks s')"
  by (induction rule: rtranclp_induct) (auto intro: doomed_step server_step_chans)

lemma tick_dooms:
  assumes "server_inv s" and "task_in i InTls s" and "worker_ready w s" and "i \<in> set (wk_ticks (sv_workers s ! w))"
  shows "doomed i (accept_tick w s) \<and> length (sv_chans (accept_tick w s)) = length (sv_tasks (accept_tick w s))"
proof -
  from assms(1) have ok: "chans_ok (slots s) (sv_chans s)" by (simp add: server_inv_def)
  from assms(2) have i: "i < length (sv_tasks s)" "live_phase (tk_phase (sv_tasks s ! i))" by (auto simp: task_in_def)
  with chans_ok_open [OF ok] have op: "ch_open (sv_chans s ! i)" by (simp add: slots_def)
  from chans_ok_length [OF ok] have n: "length (sv_chans s) = length (sv_tasks s)" by simp
  have "ch_queue (sv_chans (accept_tick w s) ! i) \<noteq> []"
    unfolding accept_tick_def Let_def using i(1) n op assms(4) by (intro fold_send_reaches) (simp_all add: set_worker_def)
  moreover have "length (sv_chans (accept_tick w s)) = length (sv_chans s)"
    by (simp add: accept_tick_def Let_def fold_send_chans [where f = "\<lambda>x. x"] set_worker_def)
  ultimately show ?thesis using assms(2) n by (simp add: doomed_def task_in_def)
qed

subsection \<open>The properties\<close>

lemma card_registry:
  assumes "ids_ok sl nxt" and "reg_ok sl reg" and "length sl \<le> 2 ^ 64"
  shows "card (dom reg) = card (alive sl)"
proof -
  have "inj_on (\<lambda>i. fst (sl ! i)) (alive sl)"
    using ids_distinct [OF assms(1,3)] by (auto simp: inj_on_def alive_def)
  moreover have "dom reg = (\<lambda>i. fst (sl ! i)) ` alive sl"
  proof (intro set_eqI iffI)
    fix j assume "j \<in> dom reg"
    with assms(2) show "j \<in> (\<lambda>i. fst (sl ! i)) ` alive sl" by (force simp: reg_ok_def alive_def)
  next
    fix j assume "j \<in> (\<lambda>i. fst (sl ! i)) ` alive sl"
    then obtain i where "i < length sl" "snd (snd (sl ! i))" "fst (sl ! i) = j" by (auto simp: alive_def)
    moreover from this obtain p where "sl ! i = (j, p, True)" by (cases "sl ! i") auto
    ultimately have "i < length sl" "sl ! i = (j, p, True)" by simp_all
    with assms(2) have "reg j = Some \<lparr>hd_id = j, hd_peer = p, hd_chan = i\<rparr>" by (simp add: reg_ok_def)
    then show "j \<in> dom reg" by blast
  qed
  ultimately show ?thesis by (simp add: card_image)
qed

lemma registry_slots:
  assumes "server_inv s"
  shows "registry_get j s = Some h \<longleftrightarrow> hd_id h = j \<and> hd_chan h < length (sv_tasks s)
    \<and> tk_id (sv_tasks s ! hd_chan h) = j \<and> tk_peer (sv_tasks s ! hd_chan h) = hd_peer h
    \<and> live_phase (tk_phase (sv_tasks s ! hd_chan h))"
proof -
  from assms have "reg_ok (slots s) (sv_registry s)" by (simp add: server_inv_def)
  then show ?thesis by (cases "hd_chan h < length (sv_tasks s)") (auto simp: reg_ok_def registry_get_def slots_def)
qed

text \<open>A client that sends the request, and the session that follows.\<close>

definition sample_request :: bytes where
  "sample_request = bytes_of (render_request [(''content-length'', ULONGLONG_MAX_STR)])"

lemma trim_value: "trim ULONGLONG_MAX_STR = ULONGLONG_MAX_STR"
  by (simp add: ULONGLONG_MAX_STR_def trim_def is_ws_def)

lemma sample_handshake: "\<exists>p out rest. handshake date [ReadBytes sample_request] = Some (Inr p, out, rest)"
proof -
  let ?hs = "[(''content-length'', ULONGLONG_MAX_STR)]"
  have "list_all header_wf ?hs" by (simp add: header_wf_def ULONGLONG_MAX_STR_def)
  from parse_request_wellformed [OF this] obtain p where p: "parse_request sample_request = Inr p"
    unfolding sample_request_def by (simp add: eq_ignore_ascii_case_def trim_value)
  have len: "length sample_request = 112"
    by (simp add: sample_request_def bytes_of_def render_request_def request_line_text_def render_header_def
        SSTP_METHOD_def SSTP_URI_def ULONGLONG_MAX_STR_def)
  have "slice 108 (108 + 4) sample_request = [0x0D, 0x0A, 0x0D, 0x0A]"
    by (simp add: sample_request_def bytes_of_def render_request_def request_line_text_def render_header_def slice_def
        SSTP_METHOD_def SSTP_URI_def ULONGLONG_MAX_STR_def)
  then have "find_header_terminator sample_request \<noteq> None"
    using len by (intro find_header_terminator_complete [of 108]) simp_all
  then show ?thesis using len p by (auto simp: handshake_def MAX_HEADER_BYTES_def)
qed

text \<open>
  C17 (invariant).  The registry lists the sessions that exist, and nothing else.  In every state the
  server can reach by accepting connections, by any steps of the session tasks, their failures and panics
  included, by ticks, by requests on the control socket and by a shutdown, the entries of the
  registry are the tasks that have not ended, each under its own identifier and with its own channel;
  the gauge of active connections is their number; a channel takes commands exactly while its task
  lives and never holds more than four.
\<close>

theorem server_registry_exact:
  assumes "server_reach conf n s" and "length (sv_tasks s) < 2 ^ 64"
  shows "(\<forall>j h. registry_get j s = Some h \<longleftrightarrow> hd_id h = j \<and> hd_chan h < length (sv_tasks s)
      \<and> tk_id (sv_tasks s ! hd_chan h) = j \<and> tk_peer (sv_tasks s ! hd_chan h) = hd_peer h
      \<and> live_phase (tk_phase (sv_tasks s ! hd_chan h)))
    \<and> sv_active s = int (card (dom (sv_registry s)))
    \<and> length (sv_chans s) = length (sv_tasks s)
    \<and> (\<forall>i < length (sv_tasks s). ch_open (sv_chans s ! i) = live_phase (tk_phase (sv_tasks s ! i))
        \<and> length (ch_queue (sv_chans s ! i)) \<le> 4)"
proof -
  note inv = server_reach_inv [OF assms]
  then have ok: "chans_ok (slots s) (sv_chans s)" and ids: "ids_ok (slots s) (sv_next_id s)"
    and reg: "reg_ok (slots s) (sv_registry s)" and act: "sv_active s = int (card (alive (slots s)))"
    by (simp_all add: server_inv_def)
  from card_registry [OF ids reg] assms(2) act have "sv_active s = int (card (dom (sv_registry s)))" by simp
  then show ?thesis
    using registry_slots [OF inv] chans_ok_length [OF ok] chans_ok_open [OF ok] chans_ok_queue [OF ok]
    by (simp add: slots_def CONTROL_CHANNEL_DEPTH_def)
qed

theorem server_registry_exact_witness:
  "\<forall>conf. let s = accept_conn 0 7 (server_new 1) in
     server_reach conf 1 s \<and> registry_get 1 s = Some \<lparr>hd_id = 1, hd_peer = 7, hd_chan = 0\<rparr> \<and> sv_active s = 1
     \<and> (\<exists>h. registry_get 1 s = Some h \<and> live_phase (tk_phase (sv_tasks s ! hd_chan h)))"
proof
  fix conf
  let ?s = "accept_conn 0 7 (server_new 1)"
  have "server_step conf (server_new 1) ?s"
    by (intro server_step.conn) (simp_all add: worker_ready_def server_new_def)
  then have r: "server_reach conf 1 ?s" by (rule server_reach.step [OF server_reach.start])
  have "length (sv_tasks ?s) < 2 ^ 64" by (simp add: accept_conn_eq server_new_def)
  from server_registry_exact [OF r this] r show "let s = ?s in
     server_reach conf 1 s \<and> registry_get 1 s = Some \<lparr>hd_id = 1, hd_peer = 7, hd_chan = 0\<rparr> \<and> sv_active s = 1
     \<and> (\<exists>h. registry_get 1 s = Some h \<and> live_phase (tk_phase (sv_tasks s ! hd_chan h)))"
    by (simp add: Let_def accept_conn_eq server_new_def registry_get_def)
qed



text \<open>
  C30 (error).  A periodic tick ends every connection whose TLS handshake is in progress.  The tick is
  sent to all sessions of the worker, and while \<open>run\<close> waits for the handshake it takes any command as a
  reason to return; so after the tick the handshake of such a task never completes, whatever happens,
  and its next step is its end.
\<close>

theorem server_tick_ends_handshake:
  assumes "server_reach conf n s" and "length (sv_tasks s) < 2 ^ 64" and "task_in i InTls s"
    and "worker_ready w s" and "i \<in> set (wk_ticks (sv_workers s ! w))"
    and "(server_step conf)\<^sup>*\<^sup>* (accept_tick w s) s'"
  shows "(task_in i InTls s' \<or> task_in i (Ended None) s') \<and> (\<forall>s''. task_step conf i s' s'' \<longrightarrow> task_in i (Ended None) s'')"
  using doomed_forever [OF assms(6)] tick_dooms [OF server_reach_inv [OF assms(1,2)] assms(3-5)]
  by (auto simp: doomed_def intro: doomed_task [unfolded doomed_def])

theorem server_tick_ends_handshake_witness:
  "\<forall>conf. let s = accept_tick 0 (accept_conn 0 7 (server_new 1)) in
     (\<exists>s'. task_step conf 0 s s') \<and> (\<forall>s'. task_step conf 0 s s' \<longrightarrow> task_in 0 (Ended None) s')"
proof
  fix conf
  let ?s = "accept_conn 0 7 (server_new 1)"
  have "server_step conf (server_new 1) ?s"
    by (intro server_step.conn) (simp_all add: worker_ready_def server_new_def)
  then have r: "server_reach conf 1 ?s" by (rule server_reach.step [OF server_reach.start])
  have c: "length (sv_tasks ?s) < 2 ^ 64" "task_in 0 InTls ?s" "worker_ready 0 ?s" "0 \<in> set (wk_ticks (sv_workers ?s ! 0))"
    by (simp_all add: accept_conn_eq server_new_def task_in_def worker_ready_def)
  have "task_step conf 0 (accept_tick 0 ?s) (run_tls 0 TlsControl (accept_tick 0 ?s))"
    by (intro task_step.tls)
      (simp_all add: task_in_def accept_tick_def accept_conn_eq server_new_def set_worker_def try_send_def CONTROL_CHANNEL_DEPTH_def drain_pending_def)
  with server_tick_ends_handshake [OF r c rtranclp.rtrancl_refl] show "let s = accept_tick 0 ?s in
     (\<exists>s'. task_step conf 0 s s') \<and> (\<forall>s'. task_step conf 0 s s' \<longrightarrow> task_in 0 (Ended None) s')"
    by (auto simp: Let_def)
qed

end
