(* ===== verification/Spec2Isabelle.thy ===== *)
theory Spec2Isabelle
  imports Auth_Acct Auth_Coa Kmod_Tx Mss_Clamp Shape_Tc Server
begin

text \<open>
  A verification of the SSTP VPN server.

  \<^bold>\<open>The program.\<close>  The server accepts TLS connections, validates the HTTP request that opens an SSTP tunnel,
  and then runs one task per connection.  The task speaks SSTP with the peer ([MS-SSTP]), carries PPP
  inside it (LCP, authentication, IPCP), asks RADIUS about the credentials, binds the tunnel to the inner
  authentication with the Crypto Binding, creates a network device, shapes and clamps it, accounts for the
  session, and forwards packets either itself (a TUN device) or through a kernel module that takes over the
  TLS socket.  Paths below are those of the repository, under \<open>src/\<close>.

  \<^bold>\<open>Conventions.\<close>  A byte string is a list of 8-bit words; integers keep their width as words, so that \<open>+\<close> wraps
  where the code wraps, except for \<open>usize\<close> values, which are natural numbers.  A \<open>Result\<close> is a sum with the
  error on the left.  \<open>None\<close> as the result of an operation is a panic (a slice out of range, a failed \<open>expect\<close>),
  and in the netlink clients also a receive that never returns.  Structures are records with a prefix per
  type, enumerations are datatypes with the source's constructors.  Code that is not part of the repository
  (the TLS library, the RADIUS crate, sockets, the kernel, the clock, random numbers) is a parameter: a record
  of functions, or a function from the number of the call to its answer.  What is assumed of it is named in
  the theorems, and instantiated by a concrete function in their witnesses.

  \<^bold>\<open>Foundations.\<close>
  \<^item> \<open>Prelude\<close>: words, slices, big-endian integers, writes into buffers, the lemma collections.
  \<^item> \<open>Interfaces\<close>: the locales for iterators over type-length-value lists (\<open>tlv_iter\<close>, \<open>tlv_exact\<close>), for
    event-driven machines with an invariant (\<open>machine\<close>) and for protocol layers (\<open>layer\<close>).  The attribute
    iterator of SSTP and the option iterator of PPP are instances of the former; the SSTP machine, the
    automaton of RFC 1661 and the PPP driver of the latter.
  \<^item> \<open>Option_Wp\<close>: total correctness in the option monad, used wherever the absence of panics is shown.
  \<^item> \<open>Text_Parse\<close>: the string operations of the standard library the parsers use, with the printing of numbers
    and addresses they invert.

  \<^bold>\<open>SSTP\<close> (\<open>src/src/sstp\<close>).
  \<^item> \<open>Sstp_Frame\<close>, \<open>Sstp_Attr\<close>, \<open>Sstp_Msg\<close> model \<open>frame.rs\<close>, \<open>attr.rs\<close> and \<open>msg.rs\<close>: headers, attributes, typed
    messages, parsers and encoders.  The lemmas are round trips and the exact set of accepted inputs.
  \<^item> \<open>Crypto_Binding\<close> models \<open>binding.rs\<close> with the derivations of \<open>crypto/hmac.rs\<close>: \<open>binding_verify\<close> decides as
    [MS-SSTP] 3.3.5.2.3 says, and an honest client is accepted.
  \<^item> \<open>Sstp_State\<close> models \<open>state.rs\<close>: the server's state machine, handler by handler.  It reaches the connected
    state only after a verified binding, its phases only move forward, and no handler panics.
  \<^item> \<open>Sstp_Preamble\<close> models \<open>preamble.rs\<close>: reading and validating the HTTP request.

  \<^bold>\<open>PPP\<close> (\<open>src/src/ppp\<close>).
  \<^item> \<open>Ppp_Frame\<close>, \<open>Ppp_Codec\<close>, \<open>Ppp_Auth\<close> model the codecs (\<open>frame.rs\<close>, \<open>lcp.rs\<close>, \<open>ipcp.rs\<close>, \<open>auth.rs\<close>).
  \<^item> \<open>Ppp_Fsm\<close> models \<open>fsm.rs\<close>; it is compared, cell by cell, with the table of RFC 1661 written independently.
  \<^item> \<open>Ppp_Negotiation\<close> and \<open>Ppp_Driver\<close> model \<open>driver.rs\<close>: the option policy of both servers, the phases, the
    login and the rendering of frames.  A network layer comes up only for the address of an accepting verdict.
  \<^item> \<open>Ppp_Size\<close>: bounds on the replies, and the input at which they no longer fit an SSTP packet.

  \<^bold>\<open>RADIUS\<close> (\<open>src/src/auth\<close>).
  \<^item> \<open>Auth_Types\<close>, \<open>Auth_Route\<close>, \<open>Auth_Request\<close>, \<open>Auth_Bridge\<close> model the requests, the decoding of replies, and the
    conversation with a list of servers (locales \<open>failover\<close> and \<open>granting\<close>).
  \<^item> \<open>Auth_Acct\<close> models \<open>accounting.rs\<close> and \<open>acct_bridge.rs\<close>: any number of concurrent transactions that share
    256 identifiers, as a step relation with the datagrams of the network as its input.
  \<^item> \<open>Auth_Coa\<close> models \<open>coa.rs\<close>: which datagrams reach the handler, and the authenticity of the replies.

  \<^bold>\<open>The session task and the server\<close> (\<open>src/src/session.rs\<close>, \<open>main.rs\<close>, \<open>control.rs\<close>).
  \<^item> \<open>Session_Base\<close> and \<open>Session_Loop\<close>: the state of \<open>drive_sstp\<close>, every arm of its \<open>select!\<close>, and what each does to
    the outside, as a log of effects.  The scheduler is the list of time-stamped events that is handed to it.
  \<^item> \<open>Session_Contract\<close>: an automaton over the effects that says what a session may do when, and the simulation
    that shows that every run is one of its runs; packets enter the system only after an accepted login,
    accounting records are bracketed, and everything is given back at the end.
  \<^item> \<open>Session_Safety\<close>: the reachable states, and that the task never panics while the frames of the peer stay
    within the bound of \<open>Ppp_Size\<close>.  \<open>Session_Timers\<close>: the armed timers, and that a silent peer is dropped.
    \<open>Session_Login\<close>: a complete login as a concrete run, at which these theorems are instantiated.
  \<^item> \<open>Server\<close>: any number of workers and sessions as a step relation.  \<open>run\<close> takes a connection through the TLS
    handshake (an answer of the environment), the preamble of \<open>Sstp_Preamble\<close> and the loop of \<open>Session_Loop\<close>;
    registry, channels, tick, control socket and shutdown act around it.  The registry is exact, every session
    of the server obeys the contract, and a tick ends the handshakes in progress.

  \<^bold>\<open>Shaping\<close> (\<open>src/src/shape\<close>, \<open>src/src/netlink.rs\<close>).
  \<^item> \<open>Shape_Mss\<close> and \<open>Shape_Mikrotik\<close>: the clamp values, and the rate-limit attribute with its floating-point path.
  \<^item> \<open>Netlink\<close>: the message builder, which patches lengths in place, against trees of attributes and a parser of them;
    the reader of acknowledgements.
  \<^item> \<open>Route_Socket\<close>: a client of the kernel's routing socket, requests as the kernel reads them, the contract of the
    kernel, and what a sequence of acknowledged requests achieves (locale \<open>acked_exchange\<close>).
  \<^item> \<open>Shape_Tc\<close> models \<open>mod.rs\<close>, \<open>tc.rs\<close> and \<open>netlink.rs\<close>: what the kernel reads from the requests, the numbers in them,
    and which requests have taken effect when \<open>apply\<close> returns.
  \<^item> \<open>Mss_Table\<close> and \<open>Mss_Clamp\<close> model \<open>mss_shared.rs\<close>: the nf_tables transactions, and that an interface is clamped
    as long as a session holds its handle, with any failures of the kernel in between.

  \<^bold>\<open>Kernel module\<close> (\<open>src/kmod\<close>, \<open>src/kernel-abi\<close>).
  \<^item> \<open>Kmod_State\<close>: the session object with its event and control rings (locale \<open>bounded_fifo\<close>).  \<open>Kmod_Rx\<close>: reassembly and
    delivery; cutting the byte stream into reads does not matter, and the framing agrees with that of
    \<open>Sstp_Frame\<close>.  \<open>Kmod_Tx\<close>: batches on the wire decode to the packets queued, the operations of the session
    descriptor, attach and release, and the invariant of all of them.

  \<^bold>\<open>Loops and bounds.\<close>  No definition uses fuel.  Loops are structural recursion or come with a termination
  measure (the bytes left, the attempts left, the time left); loops without end (the session, the workers,
  the kernel threads) are functions of a finite schedule or step relations, and what is said about
  their progress is stated for schedules that go on.  The bounds in hypotheses are those of the program: 2^64
  sessions before identifiers repeat, interface numbers below 2^31, names of at most 64 bytes (they
  have at most 19), and frames of the peer of at most 1367 bytes, above which it can panic.

  \<^bold>\<open>Not modelled.\<close>
  \<^item> \<open>crypto/tls.rs\<close>, \<open>ktls.rs\<close>, \<open>rekey.rs\<close>, \<open>hash.rs\<close>, \<open>rand.rs\<close>, \<open>ffi.rs\<close>: bindings to a C library and socket options;
    what the session uses of them are answers of the environment.
  \<^item> \<open>kppp/ioctl.rs\<close>, \<open>unit.rs\<close>, \<open>netlink.rs\<close>: sequences of system calls; their results are answers of the environment.
  \<^item> \<open>cli.rs\<close>, \<open>privdrop.rs\<close>, \<open>net/\<close>, the command-line client and the set-up part of \<open>main.rs\<close>: argument
    parsing by a library, sockets and process credentials.
  \<^item> Log output, the texts shown to the operator, the counters other than those of connections, the formatting of
    the date in the HTTP response, and the deadline after which a worker gives up on draining tasks.
  \<^item> In the kernel module: registration, locking and memory allocation; each operation is one atomic step.
\<close>

end
